(* ===== verification/Prelude.thy ===== *)
theory Prelude
  imports Main "HOL-Library.Word" "HOL-Library.List_Lexorder"
begin

text \<open>
  Shared ground of the development: the machine types of the C++ sources, exceptions as
  values, big-endian values of byte arrays, counted reads, and the interface
  \<open>codec\<close> between the \<open>Serialize\<close>/\<open>Deserialize\<close> pairs of the core classes and the code
  that stores or sends sequences of them.

  Machine types. \<open>uint8_t\<close>, \<open>uint16_t\<close>, \<open>uint32_t\<close>, \<open>uint64_t\<close> are words of that width;
  \<open>int32_t\<close> and \<open>int64_t\<close> are words too, read with \<open>sint\<close>: a \<open>static_cast\<close> between the signed
  and the unsigned type of one width is the identity on the bits, and signed arithmetic is
  the two's complement arithmetic the compilers emit (an overflow, undefined in C++, wraps).
  \<open>size_t\<close> is \<open>nat\<close>: the sources use it for positions in buffers that are in memory.
\<close>

unbundle bit_operations_syntax

type_synonym byte = "8 word"
type_synonym bytes = "byte list"
type_synonym u16 = "16 word"
type_synonym u32 = "32 word"
type_synonym u64 = "64 word"
type_synonym i32 = "32 word"
type_synonym i64 = "64 word"

named_theorems codec_simps \<open>one-step facts on writing and reading fields\<close>
named_theorems wf_defs \<open>definitions of well-formedness predicates\<close>

section \<open>Exceptions as values\<close>

text \<open>
  Why a call yields no value: a C++ exception with its message; a step the C++ standard gives
  no meaning to; or a loop that never ends. \<open>catch (const std::exception&)\<close> handles the first
  kind only.
\<close>

datatype exn =
    Out_of_range string
  | Invalid_argument string
  | Length_error string
  | Runtime_error string
  | Undefined_behaviour string
  | No_return

fun catchable :: "exn \<Rightarrow> bool" where
  "catchable (Undefined_behaviour _) = False"
| "catchable No_return = False"
| "catchable _ = True"

type_synonym 'a result = "exn + 'a"

definition rbind :: "'a result \<Rightarrow> ('a \<Rightarrow> 'b result) \<Rightarrow> 'b result" where
  "rbind m f = (case m of Inl e \<Rightarrow> Inl e | Inr x \<Rightarrow> f x)"

lemma rbind_Inr [simp]: "rbind (Inr x) f = f x"
  by (simp add: rbind_def)

lemma rbind_Inl [simp]: "rbind (Inl e) f = Inl e"
  by (simp add: rbind_def)

lemma rbind_eq_Inr_iff: "rbind m f = Inr y \<longleftrightarrow> (\<exists>x. m = Inr x \<and> f x = Inr y)"
  by (cases m) simp_all

lemma rbindE:
  assumes "rbind m f = Inr y"
  obtains x where "m = Inr x" and "f x = Inr y"
  using assms by (auto simp: rbind_eq_Inr_iff)

lemma rbind_cong [fundef_cong]:
  "m = m' \<Longrightarrow> (\<And>x. m' = Inr x \<Longrightarrow> f x = g x) \<Longrightarrow> rbind m f = rbind m' g"
  by (cases m') simp_all

text \<open>\<open>std::vector::at\<close>: bounds-checked access.\<close>

definition vector_at :: "'a list \<Rightarrow> nat \<Rightarrow> 'a result" where
  "vector_at xs i = (if i < length xs then Inr (xs ! i) else Inl (Out_of_range ''vector::at''))"

lemma vector_at_in [simp]: "i < length xs \<Longrightarrow> vector_at xs i = Inr (xs ! i)"
  by (simp add: vector_at_def)

lemma vector_at_out [simp]: "length xs \<le> i \<Longrightarrow> vector_at xs i = Inl (Out_of_range ''vector::at'')"
  by (simp add: vector_at_def)

lemma vector_at_eq_Inr_iff: "vector_at xs i = Inr x \<longleftrightarrow> i < length xs \<and> x = xs ! i"
  by (auto simp: vector_at_def)

section \<open>Lists and words\<close>

definition slice :: "'a list \<Rightarrow> nat \<Rightarrow> nat \<Rightarrow> 'a list" where
  "slice xs off len = take len (drop off xs)"

lemma length_slice [simp]: "off + len \<le> length xs \<Longrightarrow> length (slice xs off len) = len"
  by (simp add: slice_def)

lemma slice_append_middle [simp]: "slice (pre @ mid @ post) (length pre) (length mid) = mid"
  by (simp add: slice_def)

lemma slice_Suc: "off < length xs \<Longrightarrow> slice xs off (Suc n) = xs ! off # slice xs (Suc off) n"
  by (simp add: slice_def Cons_nth_drop_Suc [symmetric])

lemma slice_0 [simp]: "slice xs off 0 = []"
  by (simp add: slice_def)

text \<open>\<open>bytes_at data off bs\<close>: the bytes \<open>bs\<close> stand in the buffer at position \<open>off\<close>.\<close>

definition bytes_at :: "'a list \<Rightarrow> nat \<Rightarrow> 'a list \<Rightarrow> bool" where
  "bytes_at data off bs \<longleftrightarrow> off + length bs \<le> length data \<and> slice data off (length bs) = bs"

lemma bytes_at_whole [simp]: "bytes_at bs 0 bs"
  by (simp add: bytes_at_def slice_def)

lemma bytes_at_middle: "bytes_at (pre @ mid @ post) (length pre) mid"
  by (simp add: bytes_at_def)

lemma bytes_at_Nil [simp]: "bytes_at data off [] \<longleftrightarrow> off \<le> length data"
  by (simp add: bytes_at_def)

lemma bytes_at_bound: "bytes_at data off bs \<Longrightarrow> off + length bs \<le> length data"
  by (simp add: bytes_at_def)

lemma bytes_at_slice: "off + len \<le> length data \<Longrightarrow> bytes_at data off (slice data off len)"
  by (simp add: bytes_at_def)

lemma bytes_at_append [codec_simps]:
  "bytes_at data off (xs @ ys) \<longleftrightarrow> bytes_at data off xs \<and> bytes_at data (off + length xs) ys"
proof -
  have "slice data off (length xs + length ys)
      = slice data off (length xs) @ slice data (off + length xs) (length ys)"
    by (simp add: slice_def take_add add.commute)
  moreover have "length (slice data off (length xs)) = length xs"
    if "off + length xs \<le> length data"
    using that by simp
  ultimately show ?thesis
    by (auto simp: bytes_at_def)
qed

lemma bytes_at_nth: "bytes_at data off bs \<Longrightarrow> i < length bs \<Longrightarrow> data ! (off + i) = bs ! i"
proof -
  have nth: "slice data off k ! i = data ! (off + i)" if "i < k" and "off + k \<le> length data" for k
    using that by (simp add: slice_def)
  assume "bytes_at data off bs" and "i < length bs"
  with nth [of "length bs"] show ?thesis by (simp add: bytes_at_def)
qed

lemma bytes_at_len:
  "length bs = k \<Longrightarrow> bytes_at data off bs \<longleftrightarrow> off + k \<le> length data \<and> slice data off k = bs"
  by (auto simp: bytes_at_def)

lemma nth_append_off [simp]: "(pre @ xs) ! (length pre + i) = xs ! i"
  by (simp add: nth_append)

lemma mask_8_numeral: "255 = (mask 8 :: 'a::len word)"
  by (simp add: mask_eq_exp_minus_1)

lemma ucast_and_255 [simp]: "ucast (w AND 255 :: 'a::len word) = (ucast w :: byte)"
  unfolding mask_8_numeral
  by (rule bit_word_eqI) (auto simp: bit_simps dest: bit_imp_le_length)

lemma word_of_nat_inverse32: "n < 2 ^ 32 \<Longrightarrow> unat (word_of_nat n :: u32) = n"
  by (simp add: unat_of_nat)

lemma unat_u32_less [simp]: "unat (w :: u32) < 4294967296"
proof -
  have "unat w < 2 ^ LENGTH(32)" by (rule unsigned_less)
  then show ?thesis by simp
qed

lemma unat_byte_less [simp]: "unat (b :: byte) < 256"
proof -
  have "unat b < 2 ^ LENGTH(8)" by (rule unsigned_less)
  then show ?thesis by simp
qed

text \<open>Signed 64-bit sums that stay in range.\<close>

definition in_i64 :: "int \<Rightarrow> bool" where
  "in_i64 k \<longleftrightarrow> - (2 ^ 63) \<le> k \<and> k < 2 ^ 63"

lemma sint_in_i64 [simp]: "in_i64 (sint (a :: i64))"
  using sint_greater_eq [of a] sint_less [of a] by (simp add: in_i64_def)

lemma sint_add_i64: "in_i64 (sint a + sint b) \<Longrightarrow> sint (a + b :: i64) = sint a + sint b"
  by (simp add: in_i64_def sint_word_ariths signed_take_bit_int_eq_self)

lemma sint_sub_i64: "in_i64 (sint a - sint b) \<Longrightarrow> sint (a - b :: i64) = sint a - sint b"
  by (simp add: in_i64_def sint_word_ariths signed_take_bit_int_eq_self)

lemma sint_small_i64: "uint (w :: i64) < 2 ^ 63 \<Longrightarrow> sint w = uint w"
  unfolding sint_uint
  by (rule signed_take_bit_int_eq_self) (rule order.trans [of _ 0], simp_all)

section \<open>Big-endian values\<close>

text \<open>
  Block hashes and targets are compared with \<open>std::array\<close>'s \<open><=\<close>, the lexicographic order of
  the bytes (HOL-Library.List\_Lexorder). For arrays of one length it is the order of the
  numbers the arrays spell, most significant byte first.
\<close>

definition be_nat :: "bytes \<Rightarrow> nat" where
  "be_nat bs = foldl (\<lambda>acc b. 256 * acc + unat b) 0 bs"

lemma foldl_be:
  "foldl (\<lambda>acc b. 256 * acc + unat (b :: byte)) a bs
     = a * 256 ^ length bs + foldl (\<lambda>acc b. 256 * acc + unat b) 0 bs"
proof (induction bs arbitrary: a)
  case (Cons b bs)
  show ?case
    using Cons [of "256 * a + unat b"] Cons [of "unat b"]
    by (simp add: algebra_simps)
qed simp

lemma be_nat_Nil [simp]: "be_nat [] = 0"
  by (simp add: be_nat_def)

lemma be_nat_Cons [simp]: "be_nat (b # bs) = unat b * 256 ^ length bs + be_nat bs"
  using foldl_be [of "unat b" bs] by (simp add: be_nat_def)

lemma be_nat_append: "be_nat (xs @ ys) = be_nat xs * 256 ^ length ys + be_nat ys"
  by (induction xs) (simp_all add: algebra_simps power_add)

lemma be_nat_replicate_0 [simp]: "be_nat (replicate n 0) = 0"
  by (induction n) simp_all

lemma be_nat_less: "be_nat bs < 256 ^ length bs"
proof (induction bs)
  case (Cons b bs)
  have "unat b * 256 ^ length bs + be_nat bs < (unat b + 1) * 256 ^ length bs"
    using Cons by simp
  also have "\<dots> \<le> 256 * 256 ^ length bs"
    using unat_byte_less [of b] by (intro mult_right_mono) (auto simp del: unat_byte_less)
  finally show ?case by simp
qed simp

lemma be_nat_cons_less:
  assumes "length xs = length ys" and "x < y"
  shows "be_nat (x # xs) < be_nat (y # ys)"
proof -
  have "unat x + 1 \<le> unat y" using assms(2) by (simp add: word_less_nat_alt)
  then have "(unat x + 1) * 256 ^ length ys \<le> unat y * 256 ^ length ys"
    by (intro mult_right_mono) simp_all
  then show ?thesis using be_nat_less [of xs] assms(1) by simp
qed

lemma be_nat_less_iff: "length xs = length ys \<Longrightarrow> be_nat xs < be_nat ys \<longleftrightarrow> xs < ys"
proof (induction xs ys rule: list_induct2)
  case (Cons x xs y ys)
  consider "x < y" | "x = y" | "y < x" by fastforce
  then show ?case
  proof cases
    case 1
    with be_nat_cons_less Cons.hyps show ?thesis by (auto simp del: be_nat_Cons)
  next
    case 2
    with Cons show ?thesis by simp
  next
    case 3
    with be_nat_cons_less [of ys xs y x] Cons.hyps show ?thesis by (auto simp del: be_nat_Cons)
  qed
qed simp

lemma be_nat_le_iff: "length xs = length ys \<Longrightarrow> be_nat xs \<le> be_nat ys \<longleftrightarrow> xs \<le> ys"
  using be_nat_less_iff [of ys xs] by (simp add: linorder_not_less [symmetric])

section \<open>Counted reads and the codec interface\<close>

text \<open>
  A deserialiser takes the buffer and the cursor and returns the value with the moved cursor,
  or the exception it throws. \<open>read_many\<close> is the loop
  \<open>for (uint32_t i = 0; i < count; ++i) v.push_back(T::Deserialize(data, offset));\<close>
\<close>

type_synonym 'a reader = "nat \<Rightarrow> ('a \<times> nat) result"

fun read_many :: "'a reader \<Rightarrow> nat \<Rightarrow> ('a list) reader" where
  "read_many rd 0 off = Inr ([], off)"
| "read_many rd (Suc n) off =
     rbind (rd off) (\<lambda>(x, off1).
     rbind (read_many rd n off1) (\<lambda>(xs, off2).
     Inr (x # xs, off2)))"

lemma read_many_length: "read_many rd n off = Inr (xs, off') \<Longrightarrow> length xs = n"
  by (induction n arbitrary: off xs) (auto elim!: rbindE)

text \<open>
  What a \<open>Serialize\<close>/\<open>Deserialize\<close> pair promises. \<open>des_ser\<close>: the bytes written for a
  well-formed value, wherever they stand in a buffer, read back as that value with the cursor
  just after them. \<open>des_sound\<close>: a successful read yields a well-formed value, and the bytes it
  passed over are exactly the ones that value serialises to, so an encoding is canonical.
\<close>

locale codec =
  fixes ser :: "'a \<Rightarrow> bytes"
    and des :: "bytes \<Rightarrow> 'a reader"
    and wf :: "'a \<Rightarrow> bool"
  assumes des_ser:
      "wf x \<Longrightarrow> bytes_at data off (ser x) \<Longrightarrow> des data off = Inr (x, off + length (ser x))"
    and des_sound:
      "des data off = Inr (x, off') \<Longrightarrow>
         wf x \<and> bytes_at data off (ser x) \<and> off' = off + length (ser x)"
begin

lemma prefix_free:
  assumes "wf x" and "wf y" and "ser x @ p = ser y @ q"
  shows "x = y \<and> p = q"
proof -
  have "des (ser x @ p) 0 = Inr (x, length (ser x))"
    using des_ser [OF assms(1), of "ser x @ p" 0] bytes_at_middle [of "[]" "ser x" p] by simp
  moreover have "des (ser y @ q) 0 = Inr (y, length (ser y))"
    using des_ser [OF assms(2), of "ser y @ q" 0] bytes_at_middle [of "[]" "ser y" q] by simp
  ultimately show ?thesis using assms(3) by auto
qed

lemma ser_inject: "wf x \<Longrightarrow> wf y \<Longrightarrow> ser x = ser y \<Longrightarrow> x = y"
  using prefix_free [of x y "[]" "[]"] by simp

lemma des_whole: "wf x \<Longrightarrow> des (ser x) 0 = Inr (x, length (ser x))"
  using des_ser [of x "ser x" 0] by simp

lemma read_many_ser:
  "list_all wf xs \<Longrightarrow> bytes_at data off (concat (map ser xs)) \<Longrightarrow>
     read_many (des data) (length xs) off = Inr (xs, off + length (concat (map ser xs)))"
proof (induction xs arbitrary: off)
  case (Cons x xs)
  from Cons.prems have "des data off = Inr (x, off + length (ser x))"
    by (simp add: des_ser bytes_at_append)
  moreover from Cons have "read_many (des data) (length xs) (off + length (ser x))
      = Inr (xs, off + length (ser x) + length (concat (map ser xs)))"
    by (simp add: bytes_at_append)
  ultimately show ?case by simp
qed simp

lemma read_many_sound:
  "read_many (des data) k off = Inr (xs, off') \<Longrightarrow> off \<le> length data \<Longrightarrow>
     list_all wf xs \<and> length xs = k \<and> bytes_at data off (concat (map ser xs)) \<and>
     off' = off + length (concat (map ser xs))"
proof (induction k arbitrary: off xs)
  case (Suc k)
  from Suc.prems(1) obtain x o1 ys where
    x: "des data off = Inr (x, o1)" and ys: "read_many (des data) k o1 = Inr (ys, off')"
    and xs: "xs = x # ys"
    by (auto elim!: rbindE)
  from des_sound [OF x] have
    x_ok: "wf x" "bytes_at data off (ser x)" "o1 = off + length (ser x)" by auto
  then have "o1 \<le> length data" by (simp add: bytes_at_bound)
  from Suc.IH [OF ys this] x_ok show ?case
    by (simp add: xs bytes_at_append)
qed simp

end

section \<open>Systems that run and stop\<close>

text \<open>The contract between a system of threads and what is proved of it: only a live system steps, and the
  states it reaches are the ends of its runs.\<close>

locale live_system =
  fixes step :: "'s \<Rightarrow> 's \<Rightarrow> bool"
    and reach :: "'s \<Rightarrow> 's \<Rightarrow> bool"
    and live :: "'s \<Rightarrow> bool"
  assumes step_live: "step s s' \<Longrightarrow> live s"
    and reach_run: "reach s s' \<longleftrightarrow> step\<^sup>*\<^sup>* s s'"
begin

lemma reach_cases:
  assumes "reach s s'"
  obtains "s' = s" | s1 where "reach s s1" and "live s1" and "step s1 s'"
  using assms step_live unfolding reach_run by (metis rtranclp.cases)

text \<open>What every step between live states keeps, every live reachable state has.\<close>

lemma reach_invariant [consumes 2, case_names start step]:
  assumes "reach s s'" and "live s'" and start: "I s"
    and step: "\<And>s1 s2. reach s s1 \<Longrightarrow> step s1 s2 \<Longrightarrow> live s2 \<Longrightarrow> I s1 \<Longrightarrow> I s2"
  shows "I s'"
  using assms(1,2) unfolding reach_run
proof (induction rule: rtranclp_induct)
  case (step s1 s2)
  with step_live [of s1 s2] assms(4) [of s1 s2] show ?case by (simp add: reach_run)
qed (rule start)

end

end
