(* ===== verification/Serializer.thy ===== *)
theory Serializer
  imports Prelude
begin

text \<open>
  \<open>include/core/serializer.h\<close>: the little-endian field writers and readers every on-disk and
  on-wire format of the program is made of. A writer appends to the output vector; a reader
  takes the buffer and the cursor and returns the value with the moved cursor, or throws
  \<open>std::out_of_range\<close>.
\<close>

section \<open>Writers\<close>

definition write_uint_32LE :: "bytes \<Rightarrow> u32 \<Rightarrow> bytes" where
  "write_uint_32LE out val =
     (((out @ [ucast (val AND 0xFF)])
        @ [ucast (drop_bit 8 val AND 0xFF)])
        @ [ucast (drop_bit 16 val AND 0xFF)])
        @ [ucast (drop_bit 24 val AND 0xFF)]"

definition write_uint_64LE :: "bytes \<Rightarrow> u64 \<Rightarrow> bytes" where
  "write_uint_64LE out val =
     (((((((out @ [ucast (val AND 0xFF)])
        @ [ucast (drop_bit 8 val AND 0xFF)])
        @ [ucast (drop_bit 16 val AND 0xFF)])
        @ [ucast (drop_bit 24 val AND 0xFF)])
        @ [ucast (drop_bit 32 val AND 0xFF)])
        @ [ucast (drop_bit 40 val AND 0xFF)])
        @ [ucast (drop_bit 48 val AND 0xFF)])
        @ [ucast (drop_bit 56 val AND 0xFF)]"

definition write_var_int32 :: "bytes \<Rightarrow> u32 \<Rightarrow> bytes" where
  "write_var_int32 out val = write_uint_32LE out val"

text \<open>The pointer and length arguments of \<open>write_bytes\<close> always name a whole container
  or its first \<open>len\<close> bytes.\<close>

definition write_bytes :: "bytes \<Rightarrow> bytes \<Rightarrow> nat \<Rightarrow> bytes" where
  "write_bytes out data len = out @ take len data"

section \<open>Readers\<close>

definition read_uint_32LE :: "bytes \<Rightarrow> u32 reader" where
  "read_uint_32LE data off =
     rbind (vector_at data off) (\<lambda>b0.
     rbind (vector_at data (off + 1)) (\<lambda>b1.
     rbind (vector_at data (off + 2)) (\<lambda>b2.
     rbind (vector_at data (off + 3)) (\<lambda>b3.
     Inr (ucast b0 OR push_bit 8 (ucast b1) OR push_bit 16 (ucast b2) OR push_bit 24 (ucast b3),
          off + 4)))))"

fun read_uint_64LE_loop :: "bytes \<Rightarrow> nat \<Rightarrow> nat list \<Rightarrow> u64 \<Rightarrow> u64 result" where
  "read_uint_64LE_loop data off [] val = Inr val"
| "read_uint_64LE_loop data off (i # is) val =
     rbind (vector_at data (off + i)) (\<lambda>b.
     read_uint_64LE_loop data off is (val OR push_bit (8 * i) (ucast b)))"

definition read_uint_64LE :: "bytes \<Rightarrow> u64 reader" where
  "read_uint_64LE data off =
     rbind (read_uint_64LE_loop data off [0, 1, 2, 3, 4, 5, 6, 7] 0) (\<lambda>val.
     Inr (val, off + 8))"

definition read_var_int32 :: "bytes \<Rightarrow> u32 reader" where
  "read_var_int32 data off = read_uint_32LE data off"

definition read_bytes :: "bytes \<Rightarrow> nat \<Rightarrow> nat \<Rightarrow> (bytes \<times> nat) result" where
  "read_bytes data off len =
     (if off + len > length data
      then Inl (Out_of_range ''read_bytes: not enough data in buffer'')
      else Inr (slice data off len, off + len))"

definition read_bytes32 :: "bytes \<Rightarrow> bytes reader" where
  "read_bytes32 data off =
     (if off + 32 > length data
      then Inl (Out_of_range ''read_bytes32: not enough data in buffer'')
      else Inr (slice data off 32, off + 32))"

section \<open>The bytes of a field\<close>

definition le32 :: "u32 \<Rightarrow> bytes" where
  "le32 v = [ucast v, ucast (drop_bit 8 v), ucast (drop_bit 16 v), ucast (drop_bit 24 v)]"

definition le64 :: "u64 \<Rightarrow> bytes" where
  "le64 v = [ucast v, ucast (drop_bit 8 v), ucast (drop_bit 16 v), ucast (drop_bit 24 v),
     ucast (drop_bit 32 v), ucast (drop_bit 40 v), ucast (drop_bit 48 v), ucast (drop_bit 56 v)]"

lemma length_le32 [simp]: "length (le32 v) = 4"
  by (simp add: le32_def)

lemma length_le64 [simp]: "length (le64 v) = 8"
  by (simp add: le64_def)

lemma write_uint_32LE_eq [codec_simps]: "write_uint_32LE out v = out @ le32 v"
  by (simp add: write_uint_32LE_def le32_def)

lemma write_uint_64LE_eq [codec_simps]: "write_uint_64LE out v = out @ le64 v"
  by (simp add: write_uint_64LE_def le64_def)

lemma write_var_int32_eq [codec_simps]: "write_var_int32 out v = out @ le32 v"
  by (simp add: write_var_int32_def write_uint_32LE_eq)

lemma write_bytes_eq [codec_simps]: "length data = n \<Longrightarrow> write_bytes out data n = out @ data"
  by (simp add: write_bytes_def)

section \<open>Joining and splitting words\<close>

definition join32 :: "byte \<Rightarrow> byte \<Rightarrow> byte \<Rightarrow> byte \<Rightarrow> u32" where
  "join32 b0 b1 b2 b3 =
     ucast b0 OR push_bit 8 (ucast b1) OR push_bit 16 (ucast b2) OR push_bit 24 (ucast b3)"

lemma join32_le32:
  "join32 (ucast v) (ucast (drop_bit 8 v)) (ucast (drop_bit 16 v)) (ucast (drop_bit 24 v)) = v"
proof (rule bit_word_eqI)
  fix n assume "n < LENGTH(32)"
  then consider "n < 8" | "8 \<le> n" "n < 16" | "16 \<le> n" "n < 24" | "24 \<le> n" "n < 32"
    by fastforce
  then show "bit (join32 (ucast v) (ucast (drop_bit 8 v)) (ucast (drop_bit 16 v))
      (ucast (drop_bit 24 v))) n = bit v n"
    by cases (auto simp: join32_def bit_simps)
qed

lemma le32_join32: "le32 (join32 b0 b1 b2 b3) = [b0, b1, b2, b3]"
  unfolding le32_def join32_def
  by (intro list.inject [THEN iffD2] conjI refl; rule bit_word_eqI)
    (auto simp: bit_simps dest: bit_imp_le_length)

definition join64 :: "byte \<Rightarrow> byte \<Rightarrow> byte \<Rightarrow> byte \<Rightarrow> byte \<Rightarrow> byte \<Rightarrow> byte \<Rightarrow> byte \<Rightarrow> u64" where
  "join64 b0 b1 b2 b3 b4 b5 b6 b7 =
     ucast b0 OR push_bit 8 (ucast b1) OR push_bit 16 (ucast b2) OR push_bit 24 (ucast b3)
     OR push_bit 32 (ucast b4) OR push_bit 40 (ucast b5) OR push_bit 48 (ucast b6)
     OR push_bit 56 (ucast b7)"

lemma bit_join64:
  "bit (join64 b0 b1 b2 b3 b4 b5 b6 b7) n \<longleftrightarrow>
     n < 64 \<and> bit ([b0, b1, b2, b3, b4, b5, b6, b7] ! (n div 8)) (n mod 8)"
proof (cases "n < 64")
  case True
  define q r where "q = n div 8" and "r = n mod 8"
  have r: "r < 8" and q: "q < 8" and n: "n = 8 * q + r"
    using True by (auto simp: q_def r_def)
  from q consider "q = 0" | "q = 1" | "q = 2" | "q = 3" | "q = 4" | "q = 5" | "q = 6" | "q = 7"
    by linarith
  then show ?thesis
    using r unfolding q_def [symmetric] r_def [symmetric] unfolding n
    by cases (auto simp: join64_def bit_simps dest: bit_imp_le_length)
next
  case False
  then show ?thesis using bit_imp_le_length by fastforce
qed

lemma le64_nth_bit: "i < 8 \<Longrightarrow> r < 8 \<Longrightarrow> bit (le64 v ! i) r = bit v (8 * i + r)"
proof -
  assume "i < 8" and r: "r < 8"
  then consider "i = 0" | "i = 1" | "i = 2" | "i = 3" | "i = 4" | "i = 5" | "i = 6" | "i = 7"
    by linarith
  then show ?thesis
    using r by cases (auto simp: le64_def bit_simps)
qed

lemma le64_join64: "le64 (join64 b0 b1 b2 b3 b4 b5 b6 b7) = [b0, b1, b2, b3, b4, b5, b6, b7]"
  (is "le64 ?j = ?bs")
proof (rule nth_equalityI)
  fix i assume "i < length (le64 ?j)"
  then have i: "i < 8" by simp
  show "le64 ?j ! i = ?bs ! i"
  proof (rule bit_word_eqI)
    fix r assume "r < LENGTH(8)"
    then have r: "r < 8" by simp
    have "bit (le64 ?j ! i) r = bit ?j (8 * i + r)" using i r by (rule le64_nth_bit)
    also have "\<dots> = bit (?bs ! ((8 * i + r) div 8)) ((8 * i + r) mod 8)"
      using i r by (simp only: bit_join64) linarith
    finally show "bit (le64 ?j ! i) r = bit (?bs ! i) r" using r by simp
  qed
qed simp

lemma join64_le64:
  "join64 (ucast v) (ucast (drop_bit 8 v)) (ucast (drop_bit 16 v)) (ucast (drop_bit 24 v))
     (ucast (drop_bit 32 v)) (ucast (drop_bit 40 v)) (ucast (drop_bit 48 v))
     (ucast (drop_bit 56 v)) = v"
  (is "?j = v")
proof (rule bit_word_eqI)
  fix n assume "n < LENGTH(64)"
  then have n: "n < 64" by simp
  have "bit ?j n = bit (le64 v ! (n div 8)) (n mod 8)"
    using n by (simp only: bit_join64 le64_def simp_thms)
  also have "\<dots> = bit v (8 * (n div 8) + n mod 8)"
    using n by (intro le64_nth_bit) auto
  finally show "bit ?j n = bit v n" by simp
qed

lemma read_uint_64LE_loop_join:
  assumes "off + 8 \<le> length data"
  shows "read_uint_64LE_loop data off [0, 1, 2, 3, 4, 5, 6, 7] 0
    = Inr (join64 (data ! off) (data ! (off + 1)) (data ! (off + 2)) (data ! (off + 3))
        (data ! (off + 4)) (data ! (off + 5)) (data ! (off + 6)) (data ! (off + 7)))"
  using assms by (simp add: join64_def or.assoc)

lemma slice_4: "off + 4 \<le> length data \<Longrightarrow>
    slice data off 4 = [data ! off, data ! (off + 1), data ! (off + 2), data ! (off + 3)]"
  by (simp add: slice_Suc eval_nat_numeral)

lemma slice_8: "off + 8 \<le> length data \<Longrightarrow>
    slice data off 8 = [data ! off, data ! (off + 1), data ! (off + 2), data ! (off + 3),
      data ! (off + 4), data ! (off + 5), data ! (off + 6), data ! (off + 7)]"
  by (simp add: slice_Suc eval_nat_numeral)

section \<open>Reading back\<close>

lemma read_uint_32LE_in:
  "off + 4 \<le> length data \<Longrightarrow>
     read_uint_32LE data off
       = Inr (join32 (data ! off) (data ! (off + 1)) (data ! (off + 2)) (data ! (off + 3)), off + 4)"
  by (simp add: read_uint_32LE_def join32_def)

lemma read_uint_32LE_out:
  "length data < off + 4 \<Longrightarrow> read_uint_32LE data off = Inl (Out_of_range ''vector::at'')"
  by (auto simp: read_uint_32LE_def vector_at_def rbind_def)

lemma read_uint_64LE_in:
  "off + 8 \<le> length data \<Longrightarrow>
     read_uint_64LE data off
       = Inr (join64 (data ! off) (data ! (off + 1)) (data ! (off + 2)) (data ! (off + 3))
           (data ! (off + 4)) (data ! (off + 5)) (data ! (off + 6)) (data ! (off + 7)), off + 8)"
  by (simp only: read_uint_64LE_def read_uint_64LE_loop_join rbind_Inr)

lemma read_uint_64LE_out:
  "length data < off + 8 \<Longrightarrow> read_uint_64LE data off = Inl (Out_of_range ''vector::at'')"
  by (auto simp: read_uint_64LE_def vector_at_def rbind_def)

lemma bytes_at_4: "bytes_at data off [a, b, c, d] \<longleftrightarrow>
    off + 4 \<le> length data \<and> a = data ! off \<and> b = data ! (off + 1) \<and> c = data ! (off + 2)
      \<and> d = data ! (off + 3)"
  using slice_4 [of off data] bytes_at_len [of "[a, b, c, d]" 4 data off] by auto

lemma bytes_at_8: "bytes_at data off [a, b, c, d, e, f, g, h] \<longleftrightarrow>
    off + 8 \<le> length data \<and> a = data ! off \<and> b = data ! (off + 1) \<and> c = data ! (off + 2)
      \<and> d = data ! (off + 3) \<and> e = data ! (off + 4) \<and> f = data ! (off + 5) \<and> g = data ! (off + 6)
      \<and> h = data ! (off + 7)"
  using slice_8 [of off data] bytes_at_len [of "[a, b, c, d, e, f, g, h]" 8 data off] by auto

text \<open>Each field type is a codec; the reader of a record is a composition of these.\<close>

interpretation u32_codec: codec le32 read_uint_32LE "\<lambda>_. True"
proof unfold_locales
  fix x :: u32 and data off
  assume "bytes_at data off (le32 x)"
  then have "off + 4 \<le> length data" "data ! off = ucast x" "data ! (off + 1) = ucast (drop_bit 8 x)"
    "data ! (off + 2) = ucast (drop_bit 16 x)" "data ! (off + 3) = ucast (drop_bit 24 x)"
    unfolding le32_def bytes_at_4 by simp_all
  then show "read_uint_32LE data off = Inr (x, off + length (le32 x))"
    by (simp only: read_uint_32LE_in join32_le32 length_le32)
next
  fix data off and x :: u32 and off'
  assume rd: "read_uint_32LE data off = Inr (x, off')"
  then have len: "off + 4 \<le> length data"
    using read_uint_32LE_out [of data off] by (cases "off + 4 \<le> length data") auto
  with rd show "True \<and> bytes_at data off (le32 x) \<and> off' = off + length (le32 x)"
    by (auto simp: read_uint_32LE_in le32_join32 bytes_at_4)
qed

interpretation u64_codec: codec le64 read_uint_64LE "\<lambda>_. True"
proof unfold_locales
  fix x :: u64 and data off
  assume "bytes_at data off (le64 x)"
  then have "off + 8 \<le> length data" "data ! off = ucast x" "data ! (off + 1) = ucast (drop_bit 8 x)"
    "data ! (off + 2) = ucast (drop_bit 16 x)" "data ! (off + 3) = ucast (drop_bit 24 x)"
    "data ! (off + 4) = ucast (drop_bit 32 x)" "data ! (off + 5) = ucast (drop_bit 40 x)"
    "data ! (off + 6) = ucast (drop_bit 48 x)" "data ! (off + 7) = ucast (drop_bit 56 x)"
    unfolding le64_def bytes_at_8 by simp_all
  then show "read_uint_64LE data off = Inr (x, off + length (le64 x))"
    by (simp only: read_uint_64LE_in join64_le64 length_le64)
next
  fix data off and x :: u64 and off'
  assume rd: "read_uint_64LE data off = Inr (x, off')"
  then have len: "off + 8 \<le> length data"
    using read_uint_64LE_out [of data off] by (cases "off + 8 \<le> length data") auto
  with rd show "True \<and> bytes_at data off (le64 x) \<and> off' = off + length (le64 x)"
    by (auto simp: read_uint_64LE_in le64_join64 bytes_at_8)
qed

interpretation bytes32_codec: codec "\<lambda>h. h" read_bytes32 "\<lambda>h. length h = 32"
  by unfold_locales (auto simp: read_bytes32_def bytes_at_def split: if_splits)

lemma read_bytes_at:
  "bytes_at data off xs \<Longrightarrow> len = length xs \<Longrightarrow> read_bytes data off len = Inr (xs, off + len)"
  by (simp add: read_bytes_def bytes_at_def)

lemma read_bytes_sound:
  "read_bytes data off len = Inr (xs, off') \<Longrightarrow>
     off' = off + len \<and> length xs = len \<and> bytes_at data off xs"
  by (auto simp: read_bytes_def bytes_at_def split: if_splits)

lemma read_var_int32_at:
  "bytes_at data off (le32 v) \<Longrightarrow> read_var_int32 data off = Inr (v, off + 4)"
  using u32_codec.des_ser [of data off v] by (simp add: read_var_int32_def)

lemma read_var_int32_sound:
  "read_var_int32 data off = Inr (v, off') \<Longrightarrow> bytes_at data off (le32 v) \<and> off' = off + 4"
  using u32_codec.des_sound [of data off v off'] by (simp add: read_var_int32_def)

text \<open>The facts a record's codec proof uses of its fields.\<close>

lemmas read_field_at [codec_simps] =
  u32_codec.des_ser [OF TrueI, simplified] u64_codec.des_ser [OF TrueI, simplified]
  bytes32_codec.des_ser read_bytes_at read_var_int32_at

lemmas read_field_sound =
  u32_codec.des_sound u64_codec.des_sound bytes32_codec.des_sound read_bytes_sound
  read_var_int32_sound

text \<open>A 64-bit value written little-endian anywhere in a buffer reads back unchanged, with the
  cursor eight bytes further.\<close>

theorem write_read_uint_64LE:
  "read_uint_64LE (write_uint_64LE out v @ post) (length out) = Inr (v, length out + 8)"
  using u64_codec.des_ser [of "out @ le64 v @ post" "length out" v]
    bytes_at_middle [of out "le64 v" post]
  by (simp add: write_uint_64LE_eq)

text \<open>A read that would pass the end of the buffer throws, for every offset, and reads nothing.\<close>

theorem read_past_end_throws:
  "(length data < off + 4 \<longrightarrow> read_uint_32LE data off = Inl (Out_of_range ''vector::at''))
   \<and> (length data < off + 8 \<longrightarrow> read_uint_64LE data off = Inl (Out_of_range ''vector::at''))
   \<and> (length data < off + len \<longrightarrow>
        read_bytes data off len = Inl (Out_of_range ''read_bytes: not enough data in buffer''))
   \<and> (length data < off + 32 \<longrightarrow>
        read_bytes32 data off = Inl (Out_of_range ''read_bytes32: not enough data in buffer''))"
  by (simp add: read_uint_32LE_out read_uint_64LE_out read_bytes_def read_bytes32_def)

theorem read_past_end_throws_witness:
  "read_uint_32LE [1, 2, 3] 0 = Inl (Out_of_range ''vector::at'')
   \<and> read_bytes [1, 2, 3] 2 2 = Inl (Out_of_range ''read_bytes: not enough data in buffer'')"
  using read_past_end_throws [of "[1, 2, 3]" 0 4] read_past_end_throws [of "[1, 2, 3]" 2 2] by simp

end
