(* ===== verification/Picosha2.thy ===== *)
theory Picosha2
  imports Prelude
begin

text \<open>
  \<open>include/picosha2.h\<close>: the SHA-256 implementation every hash of the program goes through.
  \<open>word_t\<close> is \<open>unsigned long\<close>, 64 bits wide on the LP64 targets, so the 32-bit arithmetic of
  SHA-256 is done in 64-bit words with \<open>mask_32bit\<close> where the code writes it. The
  class \<open>hash256_one_by_one\<close> is a record; the C arrays it updates in place are lists. The
  random-access overload of \<open>hash256_impl\<close> is the one all callers in the program select.
\<close>

type_synonym word_t = "64 word"

definition mask_8bit :: "byte \<Rightarrow> byte" where
  "mask_8bit x = x AND 0xff"

definition mask_32bit :: "word_t \<Rightarrow> word_t" where
  "mask_32bit x = x AND 0xffffffff"

definition add_constant :: "word_t list" where
  "add_constant =
    [0x428A2F98, 0x71374491, 0xB5C0FBCF, 0xE9B5DBA5, 0x3956C25B, 0x59F111F1,
     0x923F82A4, 0xAB1C5ED5, 0xD807AA98, 0x12835B01, 0x243185BE, 0x550C7DC3,
     0x72BE5D74, 0x80DEB1FE, 0x9BDC06A7, 0xC19BF174, 0xE49B69C1, 0xEFBE4786,
     0x0FC19DC6, 0x240CA1CC, 0x2DE92C6F, 0x4A7484AA, 0x5CB0A9DC, 0x76F988DA,
     0x983E5152, 0xA831C66D, 0xB00327C8, 0xBF597FC7, 0xC6E00BF3, 0xD5A79147,
     0x06CA6351, 0x14292967, 0x27B70A85, 0x2E1B2138, 0x4D2C6DFC, 0x53380D13,
     0x650A7354, 0x766A0ABB, 0x81C2C92E, 0x92722C85, 0xA2BFE8A1, 0xA81A664B,
     0xC24B8B70, 0xC76C51A3, 0xD192E819, 0xD6990624, 0xF40E3585, 0x106AA070,
     0x19A4C116, 0x1E376C08, 0x2748774C, 0x34B0BCB5, 0x391C0CB3, 0x4ED8AA4A,
     0x5B9CCA4F, 0x682E6FF3, 0x748F82EE, 0x78A5636F, 0x84C87814, 0x8CC70208,
     0x90BEFFFA, 0xA4506CEB, 0xBEF9A3F7, 0xC67178F2]"

definition initial_message_digest :: "word_t list" where
  "initial_message_digest =
    [0x6A09E667, 0xBB67AE85, 0x3C6EF372, 0xA54FF53A,
     0x510E527F, 0x9B05688C, 0x1F83D9AB, 0x5BE0CD19]"

definition ch :: "word_t \<Rightarrow> word_t \<Rightarrow> word_t \<Rightarrow> word_t" where
  "ch x y z = (x AND y) XOR ((NOT x) AND z)"

definition maj :: "word_t \<Rightarrow> word_t \<Rightarrow> word_t \<Rightarrow> word_t" where
  "maj x y z = ((x AND y) XOR (x AND z)) XOR (y AND z)"

definition rotr :: "word_t \<Rightarrow> nat \<Rightarrow> word_t" where
  "rotr x n = mask_32bit (drop_bit n x OR push_bit (32 - n) x)"

definition bsig0 :: "word_t \<Rightarrow> word_t" where
  "bsig0 x = (rotr x 2 XOR rotr x 13) XOR rotr x 22"

definition bsig1 :: "word_t \<Rightarrow> word_t" where
  "bsig1 x = (rotr x 6 XOR rotr x 11) XOR rotr x 25"

definition shr :: "word_t \<Rightarrow> nat \<Rightarrow> word_t" where
  "shr x n = drop_bit n x"

definition ssig0 :: "word_t \<Rightarrow> word_t" where
  "ssig0 x = (rotr x 7 XOR rotr x 18) XOR shr x 3"

definition ssig1 :: "word_t \<Rightarrow> word_t" where
  "ssig1 x = (rotr x 17 XOR rotr x 19) XOR shr x 10"

section \<open>hash256\_block\<close>

text \<open>The first loop of \<open>hash256_block\<close> reads the 16 big-endian words of the block, the second
  one computes the other 48 from earlier entries.\<close>

definition block_word :: "bytes \<Rightarrow> nat \<Rightarrow> word_t" where
  "block_word blk i =
     ((push_bit 24 (ucast (mask_8bit (blk ! (i * 4))))
       OR push_bit 16 (ucast (mask_8bit (blk ! (i * 4 + 1)))))
       OR push_bit 8 (ucast (mask_8bit (blk ! (i * 4 + 2)))))
       OR ucast (mask_8bit (blk ! (i * 4 + 3)))"

fun extend_schedule :: "word_t list \<Rightarrow> nat \<Rightarrow> word_t list" where
  "extend_schedule w 0 = w"
| "extend_schedule w (Suc left) =
     (let i = length w in
      extend_schedule
        (w @ [mask_32bit (((ssig1 (w ! (i - 2)) + w ! (i - 7)) + ssig0 (w ! (i - 15))) + w ! (i - 16))])
        left)"

definition message_schedule :: "bytes \<Rightarrow> word_t list" where
  "message_schedule blk = extend_schedule (map (block_word blk) [0..<16]) 48"

type_synonym 'w regs = "'w \<times> 'w \<times> 'w \<times> 'w \<times> 'w \<times> 'w \<times> 'w \<times> 'w"

definition round_step :: "word_t \<Rightarrow> word_t \<Rightarrow> word_t regs \<Rightarrow> word_t regs" where
  "round_step k wi = (\<lambda>(a, b, c, d, e, f, g, h).
     (let temp1 = (((h + bsig1 e) + ch e f g) + k) + wi;
          temp2 = bsig0 a + maj a b c
      in (mask_32bit (temp1 + temp2), a, b, c, mask_32bit (d + temp1), e, f, g)))"

fun rounds :: "word_t list \<Rightarrow> word_t list \<Rightarrow> word_t regs \<Rightarrow> word_t regs" where
  "rounds (k # ks) (wi # ws) r = rounds ks ws (round_step k wi r)"
| "rounds _ _ r = r"

definition hash256_block :: "word_t list \<Rightarrow> bytes \<Rightarrow> word_t list" where
  "hash256_block md blk =
     (let w = message_schedule blk;
          (a, b, c, d, e, f, g, h) =
            rounds add_constant w
              (md ! 0, md ! 1, md ! 2, md ! 3, md ! 4, md ! 5, md ! 6, md ! 7)
      in map mask_32bit
           [md ! 0 + a, md ! 1 + b, md ! 2 + c, md ! 3 + d,
            md ! 4 + e, md ! 5 + f, md ! 6 + g, md ! 7 + h])"

section \<open>The class hash256\_one\_by\_one\<close>

record hash256_one_by_one =
  hs_buffer :: bytes
  hs_length_digits :: "word_t list"
  hs_h :: "word_t list"

definition init :: hash256_one_by_one where
  "init = \<lparr>hs_buffer = [], hs_length_digits = replicate 4 0, hs_h = initial_message_digest\<rparr>"

text \<open>The carry loop of \<open>add_to_data_length\<close>; it stops at the first digit below 65536.\<close>

fun add_carry :: "word_t \<Rightarrow> word_t list \<Rightarrow> word_t list" where
  "add_carry carry [] = []"
| "add_carry carry (d # ds) =
     (let d' = d + carry in
      if d' \<ge> 65536 then (d' AND 65535) # add_carry (drop_bit 16 d') ds
      else d' # ds)"

definition add_to_data_length :: "word_t \<Rightarrow> word_t list \<Rightarrow> word_t list" where
  "add_to_data_length n digits = add_carry 0 (digits[0 := digits ! 0 + n])"

text \<open>The block loop of \<open>process\<close>, which leaves the bytes of the last, incomplete block.\<close>

function process_blocks :: "word_t list \<Rightarrow> bytes \<Rightarrow> word_t list \<times> bytes" where
  "process_blocks h buf =
     (if length buf \<ge> 64 then process_blocks (hash256_block h (take 64 buf)) (drop 64 buf)
      else (h, buf))"
  by pat_completeness auto
termination
  by (relation "measure (\<lambda>(h, buf). length buf)") auto

definition process :: "hash256_one_by_one \<Rightarrow> bytes \<Rightarrow> hash256_one_by_one" where
  "process s data =
     (let digits = add_to_data_length (word_of_nat (length data)) (hs_length_digits s);
          (h, rest) = process_blocks (hs_h s) (hs_buffer s @ data)
      in s\<lparr>hs_length_digits := digits, hs_h := h, hs_buffer := rest\<rparr>)"

fun shift_digits :: "word_t \<Rightarrow> word_t list \<Rightarrow> word_t list" where
  "shift_digits carry [] = []"
| "shift_digits carry (d # ds) =
     ((push_bit 3 d OR carry) AND 65535) # shift_digits (drop_bit (16 - 3) d AND 65535) ds"

definition write_data_bit_length :: "word_t list \<Rightarrow> bytes" where
  "write_data_bit_length digits =
     (let ds = shift_digits 0 digits
      in concat (map (\<lambda>i. [ucast (drop_bit 8 (ds ! i)), ucast (ds ! i)]) [3, 2, 1, 0]))"

text \<open>\<open>finish\<close>: the 64-byte array \<open>temp\<close> holds the remaining bytes, the byte 0x80 and zeros; the
  bit length overwrites its last eight bytes, in a second block when it does not fit.\<close>

definition finish :: "hash256_one_by_one \<Rightarrow> hash256_one_by_one" where
  "finish s =
     (let remains0 = length (hs_buffer s);
          temp0 = hs_buffer s @ replicate (64 - remains0) 0;
          remains = (if remains0 \<ge> 64 then 63 else remains0);
          temp1 = temp0[remains := 0x80];
          (h, temp2) =
            (if remains > 55 then
               (let t = take (remains + 1) temp1 @ replicate (64 - (remains + 1)) 0
                in (hash256_block (hs_h s) t, replicate 60 0 @ drop 60 t))
             else (hs_h s, take (remains + 1) temp1 @ replicate (60 - (remains + 1)) 0 @ drop 60 temp1));
          temp3 = take 56 temp2 @ write_data_bit_length (hs_length_digits s)
      in s\<lparr>hs_h := hash256_block h temp3\<rparr>)"

definition get_hash_bytes :: "hash256_one_by_one \<Rightarrow> bytes" where
  "get_hash_bytes s =
     concat (map (\<lambda>x. map (\<lambda>i. mask_8bit (ucast (drop_bit (24 - 8 * i) x))) [0, 1, 2, 3]) (hs_h s))"

definition hash256 :: "bytes \<Rightarrow> bytes" where
  "hash256 data = get_hash_bytes (finish (process init data))"

section \<open>Lemmas\<close>

declare process_blocks.simps [simp del]

lemma length_hash256_block [simp]: "length (hash256_block md blk) = 8"
  by (simp add: hash256_block_def Let_def split: prod.splits)

lemma length_hash256 [simp]: "length (hash256 data) = 32"
proof -
  have "length (hs_h (finish s)) = 8" for s
    by (simp add: finish_def Let_def split: prod.splits)
  then show ?thesis
    by (simp add: hash256_def get_hash_bytes_def length_concat o_def sum_list_triv)
qed

end
