(* ===== verification/Ripemd160.thy ===== *)
theory Ripemd160
  imports Prelude
begin

text \<open>
  The RIPEMD-160 class of the Crypto++ sources in the tree: \<open>include/cryptopp/ripemd.cpp\<close>
  (\<open>InitState\<close>, \<open>Transform\<close>) on top of \<open>include/cryptopp/iterhash.cpp\<close> (\<open>Update\<close>, \<open>PadLastBlock\<close>,
  \<open>TruncatedFinal\<close>), as \<open>crypto::hash_ripemd160\<close> calls it: one \<open>CalculateDigest\<close> on a fresh
  object. The working registers of \<open>Transform\<close> are \<open>unsigned long\<close>, 64 bits wide, and are
  cut to \<open>word32\<close> where the code casts. The byte order of the hash is little endian, that of
  the target, so \<open>ConditionalByteReverse\<close> is the identity on memory.
\<close>

type_synonym ulong = "64 word"

definition F_fn :: "ulong \<Rightarrow> ulong \<Rightarrow> ulong \<Rightarrow> ulong" where
  "F_fn x y z = (x XOR y) XOR z"

definition G_fn :: "ulong \<Rightarrow> ulong \<Rightarrow> ulong \<Rightarrow> ulong" where
  "G_fn x y z = z XOR (x AND (y XOR z))"

definition H_fn :: "ulong \<Rightarrow> ulong \<Rightarrow> ulong \<Rightarrow> ulong" where
  "H_fn x y z = z XOR (x OR NOT y)"

definition I_fn :: "ulong \<Rightarrow> ulong \<Rightarrow> ulong \<Rightarrow> ulong" where
  "I_fn x y z = y XOR (z AND (x XOR y))"

definition J_fn :: "ulong \<Rightarrow> ulong \<Rightarrow> ulong \<Rightarrow> ulong" where
  "J_fn x y z = x XOR (y OR NOT z)"

definition k0 :: ulong where "k0 = 0"
definition k1 :: ulong where "k1 = 0x5a827999"
definition k2 :: ulong where "k2 = 0x6ed9eba1"
definition k3 :: ulong where "k3 = 0x8f1bbcdc"
definition k4 :: ulong where "k4 = 0xa953fd4e"
definition k5 :: ulong where "k5 = 0x50a28be6"
definition k6 :: ulong where "k6 = 0x5c4dd124"
definition k7 :: ulong where "k7 = 0x6d703ef3"
definition k8 :: ulong where "k8 = 0x7a6d76e9"
definition k9 :: ulong where "k9 = 0"

lemmas k_defs = k0_def k1_def k2_def k3_def k4_def k5_def k6_def k7_def k8_def k9_def

definition rotl32 :: "nat \<Rightarrow> u32 \<Rightarrow> u32" where
  "rotl32 s x = push_bit s x OR drop_bit (32 - s) x"

text \<open>
  \<open>Subround(f, a, b, c, d, e, x, s, k)\<close> updates \<open>a\<close> and \<open>c\<close>. Each call of \<open>Transform\<close> names the
  registers one place further round than the call before, so the model passes them as a
  tuple and rotates it; eighty calls bring every register back to its own place.
\<close>

type_synonym 'w quint = "'w \<times> 'w \<times> 'w \<times> 'w \<times> 'w"
type_synonym subround = "(ulong \<Rightarrow> ulong \<Rightarrow> ulong \<Rightarrow> ulong) \<times> nat \<times> nat \<times> ulong"

definition Subround :: "u32 list \<Rightarrow> subround \<Rightarrow> ulong quint \<Rightarrow> ulong quint" where
  "Subround X = (\<lambda>(fn, x, s, k) (a, b, c, d, e).
     (let a1 = a + ((fn b c d + ucast (X ! x)) + k);
          a2 = ucast (rotl32 s (ucast a1)) + e;
          c1 = ucast (rotl32 10 (ucast c))
      in (e, a2, b, c1, d)))"

definition left_line :: "subround list" where
  "left_line =
    [(F_fn, 0, 11, k0), (F_fn, 1, 14, k0), (F_fn, 2, 15, k0), (F_fn, 3, 12, k0),
     (F_fn, 4, 5, k0), (F_fn, 5, 8, k0), (F_fn, 6, 7, k0), (F_fn, 7, 9, k0),
     (F_fn, 8, 11, k0), (F_fn, 9, 13, k0), (F_fn, 10, 14, k0), (F_fn, 11, 15, k0),
     (F_fn, 12, 6, k0), (F_fn, 13, 7, k0), (F_fn, 14, 9, k0), (F_fn, 15, 8, k0),
     (G_fn, 7, 7, k1), (G_fn, 4, 6, k1), (G_fn, 13, 8, k1), (G_fn, 1, 13, k1),
     (G_fn, 10, 11, k1), (G_fn, 6, 9, k1), (G_fn, 15, 7, k1), (G_fn, 3, 15, k1),
     (G_fn, 12, 7, k1), (G_fn, 0, 12, k1), (G_fn, 9, 15, k1), (G_fn, 5, 9, k1),
     (G_fn, 2, 11, k1), (G_fn, 14, 7, k1), (G_fn, 11, 13, k1), (G_fn, 8, 12, k1),
     (H_fn, 3, 11, k2), (H_fn, 10, 13, k2), (H_fn, 14, 6, k2), (H_fn, 4, 7, k2),
     (H_fn, 9, 14, k2), (H_fn, 15, 9, k2), (H_fn, 8, 13, k2), (H_fn, 1, 15, k2),
     (H_fn, 2, 14, k2), (H_fn, 7, 8, k2), (H_fn, 0, 13, k2), (H_fn, 6, 6, k2),
     (H_fn, 13, 5, k2), (H_fn, 11, 12, k2), (H_fn, 5, 7, k2), (H_fn, 12, 5, k2),
     (I_fn, 1, 11, k3), (I_fn, 9, 12, k3), (I_fn, 11, 14, k3), (I_fn, 10, 15, k3),
     (I_fn, 0, 14, k3), (I_fn, 8, 15, k3), (I_fn, 12, 9, k3), (I_fn, 4, 8, k3),
     (I_fn, 13, 9, k3), (I_fn, 3, 14, k3), (I_fn, 7, 5, k3), (I_fn, 15, 6, k3),
     (I_fn, 14, 8, k3), (I_fn, 5, 6, k3), (I_fn, 6, 5, k3), (I_fn, 2, 12, k3),
     (J_fn, 4, 9, k4), (J_fn, 0, 15, k4), (J_fn, 5, 5, k4), (J_fn, 9, 11, k4),
     (J_fn, 7, 6, k4), (J_fn, 12, 8, k4), (J_fn, 2, 13, k4), (J_fn, 10, 12, k4),
     (J_fn, 14, 5, k4), (J_fn, 1, 12, k4), (J_fn, 3, 13, k4), (J_fn, 8, 14, k4),
     (J_fn, 11, 11, k4), (J_fn, 6, 8, k4), (J_fn, 15, 5, k4), (J_fn, 13, 6, k4)]"

definition right_line :: "subround list" where
  "right_line =
    [(J_fn, 5, 8, k5), (J_fn, 14, 9, k5), (J_fn, 7, 9, k5), (J_fn, 0, 11, k5),
     (J_fn, 9, 13, k5), (J_fn, 2, 15, k5), (J_fn, 11, 15, k5), (J_fn, 4, 5, k5),
     (J_fn, 13, 7, k5), (J_fn, 6, 7, k5), (J_fn, 15, 8, k5), (J_fn, 8, 11, k5),
     (J_fn, 1, 14, k5), (J_fn, 10, 14, k5), (J_fn, 3, 12, k5), (J_fn, 12, 6, k5),
     (I_fn, 6, 9, k6), (I_fn, 11, 13, k6), (I_fn, 3, 15, k6), (I_fn, 7, 7, k6),
     (I_fn, 0, 12, k6), (I_fn, 13, 8, k6), (I_fn, 5, 9, k6), (I_fn, 10, 11, k6),
     (I_fn, 14, 7, k6), (I_fn, 15, 7, k6), (I_fn, 8, 12, k6), (I_fn, 12, 7, k6),
     (I_fn, 4, 6, k6), (I_fn, 9, 15, k6), (I_fn, 1, 13, k6), (I_fn, 2, 11, k6),
     (H_fn, 15, 9, k7), (H_fn, 5, 7, k7), (H_fn, 1, 15, k7), (H_fn, 3, 11, k7),
     (H_fn, 7, 8, k7), (H_fn, 14, 6, k7), (H_fn, 6, 6, k7), (H_fn, 9, 14, k7),
     (H_fn, 11, 12, k7), (H_fn, 8, 13, k7), (H_fn, 12, 5, k7), (H_fn, 2, 14, k7),
     (H_fn, 10, 13, k7), (H_fn, 0, 13, k7), (H_fn, 4, 7, k7), (H_fn, 13, 5, k7),
     (G_fn, 8, 15, k8), (G_fn, 6, 5, k8), (G_fn, 4, 8, k8), (G_fn, 1, 11, k8),
     (G_fn, 3, 14, k8), (G_fn, 11, 14, k8), (G_fn, 15, 6, k8), (G_fn, 0, 14, k8),
     (G_fn, 5, 6, k8), (G_fn, 12, 9, k8), (G_fn, 2, 12, k8), (G_fn, 13, 9, k8),
     (G_fn, 9, 12, k8), (G_fn, 7, 5, k8), (G_fn, 10, 15, k8), (G_fn, 14, 8, k8),
     (F_fn, 12, 8, k9), (F_fn, 15, 5, k9), (F_fn, 10, 12, k9), (F_fn, 4, 9, k9),
     (F_fn, 1, 12, k9), (F_fn, 5, 5, k9), (F_fn, 8, 14, k9), (F_fn, 7, 6, k9),
     (F_fn, 6, 8, k9), (F_fn, 2, 13, k9), (F_fn, 13, 6, k9), (F_fn, 14, 5, k9),
     (F_fn, 0, 15, k9), (F_fn, 3, 13, k9), (F_fn, 9, 11, k9), (F_fn, 11, 11, k9)]"

definition InitState :: "u32 list" where
  "InitState = [0x67452301, 0xefcdab89, 0x98badcfe, 0x10325476, 0xc3d2e1f0]"

definition Transform :: "u32 list \<Rightarrow> u32 list \<Rightarrow> u32 list" where
  "Transform digest X =
     (let start = (ucast (digest ! 0), ucast (digest ! 1), ucast (digest ! 2),
                   ucast (digest ! 3), ucast (digest ! 4));
          (a1, b1, c1, d1, e1) = fold (Subround X) left_line start;
          (a2, b2, c2, d2, e2) = fold (Subround X) right_line start
      in [ucast ((ucast (digest ! 1) + c1) + d2),
          ucast ((ucast (digest ! 2) + d1) + e2),
          ucast ((ucast (digest ! 3) + e1) + a2),
          ucast ((ucast (digest ! 4) + a1) + b2),
          ucast ((ucast (digest ! 0) + b1) + c2)])"

section \<open>The iterated hash\<close>

text \<open>\<open>m_countLo\<close> and \<open>m_countHi\<close> count bytes in 32-bit words, \<open>m_data\<close> is the 64-byte block
  buffer, \<open>m_state\<close> the chaining value.\<close>

record iter_hash =
  m_countLo :: u32
  m_countHi :: u32
  m_data :: bytes
  m_state :: "u32 list"

definition fresh_hash :: iter_hash where
  "fresh_hash = \<lparr>m_countLo = 0, m_countHi = 0, m_data = replicate 64 0, m_state = InitState\<rparr>"

definition le_word :: "bytes \<Rightarrow> nat \<Rightarrow> u32" where
  "le_word data i =
     ucast (data ! (4 * i)) OR push_bit 8 (ucast (data ! (4 * i + 1)))
     OR push_bit 16 (ucast (data ! (4 * i + 2))) OR push_bit 24 (ucast (data ! (4 * i + 3)))"

definition HashBlock :: "u32 list \<Rightarrow> bytes \<Rightarrow> u32 list" where
  "HashBlock st blk = Transform st (map (le_word blk) [0..<16])"

function HashMultipleBlocks :: "u32 list \<Rightarrow> bytes \<Rightarrow> u32 list \<times> bytes" where
  "HashMultipleBlocks st data =
     (if length data \<ge> 64 then HashMultipleBlocks (HashBlock st (take 64 data)) (drop 64 data)
      else (st, data))"
  by pat_completeness auto
termination
  by (relation "measure (\<lambda>(st, data). length data)") auto

declare HashMultipleBlocks.simps [simp del]

text \<open>The counters after \<open>Update\<close>, and the condition on which it throws \<open>HashInputTooLong\<close>.\<close>

definition count_hi :: "iter_hash \<Rightarrow> nat \<Rightarrow> u32" where
  "count_hi s len =
     (let lo = m_countLo s + word_of_nat len;
          hi = (if lo < m_countLo s then m_countHi s + 1 else m_countHi s)
      in hi + word_of_nat (len div 2 ^ 32))"

definition Update_throws :: "iter_hash \<Rightarrow> bytes \<Rightarrow> bool" where
  "Update_throws s input \<longleftrightarrow>
     count_hi s (length input) < m_countHi s \<or> length input div 2 ^ 64 \<noteq> 0"

definition copy_to :: "bytes \<Rightarrow> nat \<Rightarrow> bytes \<Rightarrow> bytes" where
  "copy_to data off src = take off data @ src @ drop (off + length src) data"

definition Update :: "iter_hash \<Rightarrow> bytes \<Rightarrow> iter_hash" where
  "Update s input =
     (let len = length input;
          num = unat (m_countLo s) mod 64;
          s1 = s\<lparr>m_countLo := m_countLo s + word_of_nat len, m_countHi := count_hi s len\<rparr>
      in if len = 0 then s
         else if num \<noteq> 0 \<and> num + len < 64 then s1\<lparr>m_data := copy_to (m_data s) num input\<rparr>
         else
           (let (data1, st1, rest1) =
                  (if num \<noteq> 0
                   then (let d = copy_to (m_data s) num (take (64 - num) input)
                         in (d, HashBlock (m_state s) d, drop (64 - num) input))
                   else (m_data s, m_state s, input));
                (st2, rest2) = HashMultipleBlocks st1 rest1
            in s1\<lparr>m_state := st2, m_data := copy_to data1 0 rest2\<rparr>))"

definition PadLastBlock :: "iter_hash \<Rightarrow> nat \<Rightarrow> byte \<Rightarrow> iter_hash" where
  "PadLastBlock s lastBlockSize padFirst =
     (let num = unat (m_countLo s) mod 64;
          data1 = (m_data s)[num := padFirst];
          num1 = num + 1
      in if num1 \<le> lastBlockSize
         then s\<lparr>m_data := copy_to data1 num1 (replicate (lastBlockSize - num1) 0)\<rparr>
         else
           (let data2 = copy_to data1 num1 (replicate (64 - num1) 0)
            in s\<lparr>m_state := HashBlock (m_state s) data2,
                 m_data := copy_to data2 0 (replicate lastBlockSize 0)\<rparr>))"

definition word_bytes :: "u32 \<Rightarrow> bytes" where
  "word_bytes w = [ucast w, ucast (drop_bit 8 w), ucast (drop_bit 16 w), ucast (drop_bit 24 w)]"

text \<open>\<open>TruncatedFinal\<close> with the little-endian order (0): the bit count goes to the last two words of
  the block, low word first.\<close>

definition TruncatedFinal :: "iter_hash \<Rightarrow> nat \<Rightarrow> bytes" where
  "TruncatedFinal s sz =
     (let s1 = PadLastBlock s (64 - 2 * 4) 0x80;
          lo = push_bit 3 (m_countLo s);
          hi = drop_bit (32 - 3) (m_countLo s) + push_bit 3 (m_countHi s);
          data = copy_to (m_data s1) 56 (word_bytes lo @ word_bytes hi)
      in take sz (concat (map word_bytes (HashBlock (m_state s1) data))))"

definition CalculateDigest :: "bytes \<Rightarrow> bytes" where
  "CalculateDigest input = TruncatedFinal (Update fresh_hash input) 20"

section \<open>Lemmas\<close>

lemma length_Transform [simp]: "length (Transform digest X) = 5"
  by (simp add: Transform_def Let_def split: prod.splits)

lemma length_concat_word_bytes [simp]: "length (concat (map word_bytes ws)) = 4 * length ws"
  by (induction ws) (simp_all add: word_bytes_def)

lemma length_CalculateDigest [simp]: "length (CalculateDigest input) = 20"
  by (simp add: CalculateDigest_def TruncatedFinal_def HashBlock_def Let_def)

lemma Update_fresh_no_throw: "length input < 2 ^ 64 \<Longrightarrow> \<not> Update_throws fresh_hash input"
  by (simp add: Update_throws_def fresh_hash_def)

end
