(* ===== verification/Utils.thy ===== *)
theory Utils
  imports Prelude
begin

text \<open>
  \<open>include/utils.h\<close>: the hexadecimal helpers. \<open>bytes_to_hex\<close> is also on the signing path: the
  message that is hashed and signed is the hex spelling of the transaction hash.
  \<open>fill_random\<close> asks the operating system for random bytes; its answer is an argument of the
  operations that call it.
\<close>

text \<open>A byte printed with \<open>std::hex\<close>, \<open>std::setw(2)\<close> and fill character 0: two lower-case digits.\<close>

definition hex_digit :: "nat \<Rightarrow> char" where
  "hex_digit d = ''0123456789abcdef'' ! d"

definition byte_to_hex :: "byte \<Rightarrow> string" where
  "byte_to_hex b = [hex_digit (unat b div 16), hex_digit (unat b mod 16)]"

fun bytes_to_hex :: "bytes \<Rightarrow> string" where
  "bytes_to_hex [] = []"
| "bytes_to_hex (b # bs) = byte_to_hex b @ bytes_to_hex bs"

text \<open>The comparisons of \<open>hexCharToByte\<close> are on character codes.\<close>

definition hexCharToByte :: "char \<Rightarrow> byte result" where
  "hexCharToByte c =
     (let k = (of_char c :: nat) in
      if 48 \<le> k \<and> k \<le> 57 then Inr (word_of_nat (k - 48))
      else if 97 \<le> k \<and> k \<le> 102 then Inr (word_of_nat (k - 97 + 10))
      else if 65 \<le> k \<and> k \<le> 70 then Inr (word_of_nat (k - 65 + 10))
      else Inl (Invalid_argument ''hexCharToByte: invalid hex symbol.''))"

fun hexToArray32_loop :: "string \<Rightarrow> nat \<Rightarrow> nat \<Rightarrow> bytes result" where
  "hexToArray32_loop hex i 0 = Inr []"
| "hexToArray32_loop hex i (Suc left) =
     rbind (hexCharToByte (hex ! (i * 2))) (\<lambda>high.
     rbind (hexCharToByte (hex ! (i * 2 + 1))) (\<lambda>low.
     rbind (hexToArray32_loop hex (i + 1) left) (\<lambda>rest.
     Inr ((push_bit 4 high OR low) # rest))))"

definition hexToArray32 :: "string \<Rightarrow> bytes result" where
  "hexToArray32 hex =
     (if length hex \<noteq> 64
      then Inl (Length_error ''hexToArray32: hex length must be only 64 symbols.'')
      else hexToArray32_loop hex 0 32)"

section \<open>Lemmas\<close>

lemma length_bytes_to_hex [simp]: "length (bytes_to_hex bs) = 2 * length bs"
  by (induction bs) (simp_all add: byte_to_hex_def)

lemma bytes_to_hex_nth:
  "i < length bs \<Longrightarrow>
     bytes_to_hex bs ! (i * 2) = hex_digit (unat (bs ! i) div 16) \<and>
     bytes_to_hex bs ! (i * 2 + 1) = hex_digit (unat (bs ! i) mod 16)"
proof (induction bs arbitrary: i)
  case (Cons b bs)
  show ?case
  proof (cases i)
    case 0
    then show ?thesis by (simp add: byte_to_hex_def)
  next
    case (Suc j)
    then show ?thesis using Cons by (simp add: byte_to_hex_def)
  qed
qed simp

lemma hexCharToByte_hex_digit: "d < 16 \<Longrightarrow> hexCharToByte (hex_digit d) = Inr (word_of_nat d)"
proof -
  assume "d < 16"
  then have "d \<in> set [0..<16]" by simp
  moreover have "list_all (\<lambda>d. hexCharToByte (hex_digit d) = Inr (word_of_nat d)) [0..<16]"
    by code_simp
  ultimately show ?thesis by (simp add: list_all_iff)
qed

lemma nibbles_join: "push_bit 4 (word_of_nat (unat b div 16)) OR word_of_nat (unat b mod 16) = (b :: byte)"
proof -
  have hi: "word_of_nat (unat b div 16) = drop_bit 4 b"
    by (simp add: word_unat_eq_iff unat_drop_bit_eq drop_bit_eq_div unat_of_nat
        unat_div_distrib less_imp_le_nat order.strict_trans1 [OF div_le_dividend])
  have lo: "word_of_nat (unat b mod 16) = take_bit 4 b"
    by (simp add: word_unat_eq_iff unsigned_take_bit_eq take_bit_eq_mod unat_mod_distrib unat_of_nat)
  show ?thesis
    unfolding hi lo by (rule bit_word_eqI) (auto simp: bit_simps)
qed

lemma hexToArray32_loop_inverse:
  "i + left = length bs \<Longrightarrow> hexToArray32_loop (bytes_to_hex bs) i left = Inr (drop i bs)"
proof (induction left arbitrary: i)
  case (Suc left)
  then have "i < length bs" by simp
  with Suc show ?case
    by (simp add: bytes_to_hex_nth [simplified] hexCharToByte_hex_digit nibbles_join
        Cons_nth_drop_Suc less_mult_imp_div_less)
qed simp

lemma bytes_to_hex_inject:
  assumes "bytes_to_hex xs = bytes_to_hex ys"
  shows "xs = ys"
proof -
  have "length (bytes_to_hex xs) = length (bytes_to_hex ys)" using assms by simp
  then have len: "length xs = length ys" by simp
  have "hexToArray32_loop (bytes_to_hex xs) 0 (length xs)
      = hexToArray32_loop (bytes_to_hex ys) 0 (length ys)"
    by (simp only: assms len)
  then show ?thesis
    using hexToArray32_loop_inverse [of 0 "length xs" xs] hexToArray32_loop_inverse [of 0 "length ys" ys]
    by simp
qed

text \<open>HexToArray32 inverts bytes\_to\_hex on every 32-byte array.\<close>

theorem hexToArray32_bytes_to_hex: "length bs = 32 \<Longrightarrow> hexToArray32 (bytes_to_hex bs) = Inr bs"
  by (simp add: hexToArray32_def hexToArray32_loop_inverse)

theorem hexToArray32_bytes_to_hex_witness:
  "hexToArray32 (bytes_to_hex (replicate 32 0xA7)) = Inr (replicate 32 0xA7)"
  by (rule hexToArray32_bytes_to_hex) simp

end
