(* ===== verification/Crypto.thy ===== *)
theory Crypto
  imports Picosha2 Ripemd160 Utils
begin

text \<open>
  \<open>include/crypto/ecdsa.h\<close>, \<open>ecdsa.cpp\<close>: the hash wrappers and the four operations on keys and
  signatures. The libsecp256k1 functions they call are not part of the sources (only the
  header is): they are the fields of a record \<open>secp256k1\<close> every operation takes, with a return
  value 0 as \<open>None\<close> and the out parameters as the result. What \<open>secp256k1.h\<close> documents of
  them is \<open>secp_documented\<close>. An \<open>EXIT_FAILURE\<close> of an operation is \<open>None\<close>.
\<close>

section \<open>Hash wrappers\<close>

definition string_bytes :: "string \<Rightarrow> bytes" where
  "string_bytes s = map of_char s"

definition hash_sha256 :: "bytes \<Rightarrow> bytes" where
  "hash_sha256 input = hash256 input"

text \<open>\<open>picosha2::output_hex\<close> prints each byte with width 2 and fill character 0 in base 16.\<close>

fun output_hex :: "bytes \<Rightarrow> string" where
  "output_hex [] = []"
| "output_hex (b # bs) = byte_to_hex b @ output_hex bs"

definition hash256_hex_string :: "string \<Rightarrow> string" where
  "hash256_hex_string src = output_hex (hash256 (string_bytes src))"

definition hash_sha256_string :: "string \<Rightarrow> string" where
  "hash_sha256_string input = hash256_hex_string input"

definition hash_double_sha256 :: "bytes \<Rightarrow> bytes" where
  "hash_double_sha256 input = (let first = hash_sha256 input in hash_sha256 first)"

definition hash_double_sha256_string :: "string \<Rightarrow> string" where
  "hash_double_sha256_string input = hash_sha256_string (hash_sha256_string input)"

definition hash_ripemd160 :: "bytes \<Rightarrow> bytes" where
  "hash_ripemd160 input = CalculateDigest input"

lemma output_hex_eq: "output_hex bs = bytes_to_hex bs"
  by (induction bs) simp_all

lemma length_hash_sha256 [simp]: "length (hash_sha256 input) = 32"
  by (simp add: hash_sha256_def)

lemma length_hash_double_sha256 [simp]: "length (hash_double_sha256 input) = 32"
  by (simp add: hash_double_sha256_def)

lemma length_hash_ripemd160 [simp]: "length (hash_ripemd160 input) = 20"
  by (simp add: hash_ripemd160_def)

section \<open>The libsecp256k1 interface\<close>

record secp256k1 =
  ec_seckey_verify :: "bytes \<Rightarrow> bool"
  ec_pubkey_create :: "bytes \<Rightarrow> bytes option"
  ec_pubkey_serialize :: "bytes \<Rightarrow> (bytes \<times> nat) option"
  ec_pubkey_parse :: "bytes \<Rightarrow> bytes option"
  ecdsa_sign :: "bytes \<Rightarrow> bytes \<Rightarrow> bytes option"
  sig_serialize_compact :: "bytes \<Rightarrow> bytes option"
  sig_parse_compact :: "bytes \<Rightarrow> bytes option"
  ecdsa_verify :: "bytes \<Rightarrow> bytes \<Rightarrow> bytes \<Rightarrow> bool"

text \<open>
  From the comments of \<open>secp256k1.h\<close>: a verified secret key has a public key; its compressed
  serialisation has 33 bytes and parses back; signing a 32-byte hash with a verified key
  succeeds, the compact form has 64 bytes and parses back, and the signature verifies under the
  public key of that secret key.
\<close>

definition secp_documented :: "secp256k1 \<Rightarrow> bool" where
  "secp_documented S \<longleftrightarrow>
     (\<forall>sk. ec_seckey_verify S sk \<longrightarrow>
        (\<exists>pk c. ec_pubkey_create S sk = Some pk \<and> ec_pubkey_serialize S pk = Some (c, 33)
           \<and> length c = 33 \<and> ec_pubkey_parse S c = Some pk
           \<and> (\<forall>m. length m = 32 \<longrightarrow>
                (\<exists>sg r. ecdsa_sign S m sk = Some sg \<and> sig_serialize_compact S sg = Some r
                   \<and> length r = 64 \<and> sig_parse_compact S r = Some sg
                   \<and> ecdsa_verify S sg m pk))))"

section \<open>Keys and signatures\<close>

text \<open>\<open>random\<close> is what \<open>fill_random\<close> wrote into the 32-byte \<open>seckey\<close>, \<open>None\<close> when it failed.\<close>

record key_material =
  km_strings :: "string list"
  km_seckey :: bytes
  km_pubkey :: bytes
  km_compressed :: bytes

definition generate_keypair :: "secp256k1 \<Rightarrow> bytes option \<Rightarrow> string \<Rightarrow> key_material option" where
  "generate_keypair S random input =
     (case random of
        None \<Rightarrow> None
      | Some seckey \<Rightarrow>
          if \<not> ec_seckey_verify S seckey then None
          else
            (case ec_pubkey_create S seckey of
               None \<Rightarrow> None
             | Some pubkey \<Rightarrow>
                 (case ec_pubkey_serialize S pubkey of
                    None \<Rightarrow> None
                  | Some (compressed, len) \<Rightarrow>
                      if len \<noteq> 33 then None
                      else Some \<lparr>km_strings = [''0x'' @ bytes_to_hex seckey,
                                              ''0x'' @ bytes_to_hex compressed],
                                 km_seckey = seckey, km_pubkey = pubkey,
                                 km_compressed = compressed\<rparr>)))"

definition create_address_from_pubkey :: "bytes \<Rightarrow> (bytes \<times> string) option" where
  "create_address_from_pubkey compressed_pubkey =
     (let h = hash_sha256 compressed_pubkey;
          ripemd160_hash = hash_ripemd160 h
      in if length (bytes_to_hex ripemd160_hash) div 2 \<noteq> 20 then None
         else Some (ripemd160_hash, ''0x'' @ bytes_to_hex ripemd160_hash))"

record sign_material =
  sm_serialized :: bytes
  sm_string :: string
  sm_sig :: bytes
  sm_hash :: bytes

definition generate_sign :: "secp256k1 \<Rightarrow> string \<Rightarrow> bytes \<Rightarrow> sign_material option" where
  "generate_sign S input seckey =
     (let input_hash = hash_sha256 (string_bytes input) in
      case ecdsa_sign S input_hash seckey of
        None \<Rightarrow> None
      | Some sg \<Rightarrow>
          (case sig_serialize_compact S sg of
             None \<Rightarrow> None
           | Some ser \<Rightarrow>
               Some \<lparr>sm_serialized = ser, sm_string = ''0x'' @ bytes_to_hex ser,
                     sm_sig = sg, sm_hash = input_hash\<rparr>))"

text \<open>\<open>verify_sign\<close> returns \<open>EXIT_SUCCESS\<close> exactly when this is \<open>True\<close>.\<close>

definition verify_sign :: "secp256k1 \<Rightarrow> bytes \<Rightarrow> bytes \<Rightarrow> bytes \<Rightarrow> bool" where
  "verify_sign S serialized_signature compressed_pubkey input_hash =
     (case sig_parse_compact S serialized_signature of
        None \<Rightarrow> False
      | Some sg \<Rightarrow>
          (case ec_pubkey_parse S compressed_pubkey of
             None \<Rightarrow> False
           | Some pubkey \<Rightarrow> ecdsa_verify S sg input_hash pubkey))"

section \<open>Lemmas\<close>

lemma create_address_total:
  "create_address_from_pubkey c =
     Some (hash_ripemd160 (hash_sha256 c), ''0x'' @ bytes_to_hex (hash_ripemd160 (hash_sha256 c)))"
  by (simp add: create_address_from_pubkey_def Let_def)

lemma secp_documentedE:
  assumes "secp_documented S" and "ec_seckey_verify S sk" and "length m = 32"
  obtains pk c sg r where "ec_pubkey_create S sk = Some pk" "ec_pubkey_serialize S pk = Some (c, 33)"
    "length c = 33" "ec_pubkey_parse S c = Some pk" "ecdsa_sign S m sk = Some sg"
    "sig_serialize_compact S sg = Some r" "length r = 64" "sig_parse_compact S r = Some sg"
    "ecdsa_verify S sg m pk"
  using assms unfolding secp_documented_def by blast

lemma generate_sign_verify:
  assumes "secp_documented S" and "ec_seckey_verify S sk"
    and "ec_pubkey_create S sk = Some pk" and "ec_pubkey_serialize S pk = Some (c, len)"
  shows "\<exists>sm. generate_sign S msg sk = Some sm \<and> length (sm_serialized sm) = 64
    \<and> verify_sign S (sm_serialized sm) c (sm_hash sm) \<and> sm_hash sm = hash_sha256 (string_bytes msg)"
proof -
  have "length (hash_sha256 (string_bytes msg)) = 32" by simp
  from assms(1,2) this obtain pk' c' sg r where *: "ec_pubkey_create S sk = Some pk'"
    "ec_pubkey_serialize S pk' = Some (c', 33)" "ec_pubkey_parse S c' = Some pk'"
    "ecdsa_sign S (hash_sha256 (string_bytes msg)) sk = Some sg"
    "sig_serialize_compact S sg = Some r" "length r = 64" "sig_parse_compact S r = Some sg"
    "ecdsa_verify S sg (hash_sha256 (string_bytes msg)) pk'"
    by (rule secp_documentedE)
  from *(1,2) assms(3,4) have "pk' = pk" "c' = c" by simp_all
  with * show ?thesis by (simp add: generate_sign_def verify_sign_def Let_def)
qed

text \<open>A small instance of the interface that meets its documentation: keys are 32 bytes, the
  public key is the secret key, a signature is the hash with the key.\<close>

definition toy_secp :: secp256k1 where
  "toy_secp = \<lparr>
     ec_seckey_verify = (\<lambda>sk. length sk = 32),
     ec_pubkey_create = (\<lambda>sk. Some sk),
     ec_pubkey_serialize = (\<lambda>pk. Some (2 # pk, 33)),
     ec_pubkey_parse = (\<lambda>c. case c of [] \<Rightarrow> None | _ # pk \<Rightarrow> Some pk),
     ecdsa_sign = (\<lambda>m sk. Some (m @ sk)),
     sig_serialize_compact = (\<lambda>sg. Some sg),
     sig_parse_compact = (\<lambda>r. Some r),
     ecdsa_verify = (\<lambda>sg m pk. sg = m @ pk)\<rparr>"

lemma toy_secp_documented: "secp_documented toy_secp"
  by (simp add: secp_documented_def toy_secp_def)

end
