(* ===== verification/Transaction.thy ===== *)
theory Transaction
  imports Serializer Crypto
begin

text \<open>
  \<open>include/core/transaction.h\<close>, \<open>transaction.cpp\<close>: outpoints, inputs, outputs, transactions,
  their binary format and their hash, and the UTXO set.

  \<open>std::array<uint8_t, 32>\<close> is a byte list of length 32 (the \<open>wf\<close> predicates say so).
  \<open>UtxoSet\<close>, an \<open>unordered_map\<close>, is an association list: \<open>emplace\<close> leaves an existing entry
  alone, \<open>erase\<close> removes the key, and the list order stands for the iteration order of
  the hash table, which is unspecified, so theorems hold for every order.
\<close>

section \<open>Data\<close>

datatype COutPoint = COutPoint (out_txid: bytes) (out_n: u32)

definition COutPoint_null :: COutPoint where
  "COutPoint_null = COutPoint (replicate 32 0) 0xFFFFFFFF"

record CTxIn =
  prevout :: COutPoint
  scriptSig :: bytes
  nSequence :: u32

definition CTxIn_default :: CTxIn where
  "CTxIn_default = \<lparr>prevout = COutPoint_null, scriptSig = [], nSequence = 0xFFFFFFFF\<rparr>"

definition mk_CTxIn :: "COutPoint \<Rightarrow> bytes \<Rightarrow> CTxIn" where
  "mk_CTxIn out sig = \<lparr>prevout = out, scriptSig = sig, nSequence = 0xFFFFFFFF\<rparr>"

record CTxOut =
  nValue :: i64
  scriptPubKey :: bytes

record Transaction =
  tx_nVersion :: i32
  vin :: "CTxIn list"
  vout :: "CTxOut list"
  nLockTime :: u32
  tx_hash :: bytes

text \<open>The constructor leaves \<open>tx_hash\<close> at its default, all zeros.\<close>

definition mk_Transaction :: "i32 \<Rightarrow> CTxIn list \<Rightarrow> CTxOut list \<Rightarrow> u32 \<Rightarrow> Transaction" where
  "mk_Transaction version inputs outputs lockTime =
     \<lparr>tx_nVersion = version, vin = inputs, vout = outputs, nLockTime = lockTime,
      tx_hash = replicate 32 0\<rparr>"

section \<open>Outpoints\<close>

definition IsNull :: "COutPoint \<Rightarrow> bool" where
  "IsNull p \<longleftrightarrow> out_n p = 0xFFFFFFFF \<and> list_all (\<lambda>b. b = 0) (out_txid p)"

definition COutPoint_Serialize :: "COutPoint \<Rightarrow> bytes" where
  "COutPoint_Serialize p =
     (let buffer = write_bytes [] (out_txid p) (length (out_txid p))
      in write_uint_32LE buffer (out_n p))"

definition COutPoint_Deserialize :: "bytes \<Rightarrow> COutPoint reader" where
  "COutPoint_Deserialize data off =
     rbind (read_bytes32 data off) (\<lambda>(h, off1).
     rbind (read_uint_32LE data off1) (\<lambda>(k, off2).
     Inr (COutPoint h k, off2)))"

definition outpoint_less :: "COutPoint \<Rightarrow> COutPoint \<Rightarrow> bool" where
  "outpoint_less p q \<longleftrightarrow>
     (if out_txid p \<noteq> out_txid q then out_txid p < out_txid q else out_n p < out_n q)"

lemma outpoint_eq_iff: "p = q \<longleftrightarrow> out_txid p = out_txid q \<and> out_n p = out_n q"
  by (cases p; cases q) simp

instantiation COutPoint :: linorder
begin

definition less_COutPoint :: "COutPoint \<Rightarrow> COutPoint \<Rightarrow> bool" where
  "less_COutPoint p q = outpoint_less p q"

definition less_eq_COutPoint :: "COutPoint \<Rightarrow> COutPoint \<Rightarrow> bool" where
  "less_eq_COutPoint p q \<longleftrightarrow> outpoint_less p q \<or> p = q"

instance
  by standard
    (auto simp: less_COutPoint_def less_eq_COutPoint_def outpoint_less_def outpoint_eq_iff
      split: if_splits)

end

text \<open>\<open>COutPointHash\<close>: \<open>size_t\<close> arithmetic in 64 bits; \<open>std::hash<uint32_t>\<close> is the identity in the
  standard libraries the project builds with.\<close>

definition COutPointHash :: "COutPoint \<Rightarrow> u64" where
  "COutPointHash p =
     foldl (\<lambda>h b. h * 131 + ucast b) 0 (out_txid p) XOR push_bit 1 (ucast (out_n p))"

section \<open>Inputs and outputs\<close>

definition CTxIn_Serialize :: "CTxIn \<Rightarrow> bytes" where
  "CTxIn_Serialize i =
     (let buffer = [] @ COutPoint_Serialize (prevout i);
          buffer = write_var_int32 buffer (word_of_nat (length (scriptSig i)));
          buffer = write_bytes buffer (scriptSig i) (length (scriptSig i))
      in write_uint_32LE buffer (nSequence i))"

definition CTxIn_Deserialize :: "bytes \<Rightarrow> CTxIn reader" where
  "CTxIn_Deserialize data off =
     rbind (COutPoint_Deserialize data off) (\<lambda>(p, off1).
     rbind (read_var_int32 data off1) (\<lambda>(script_len, off2).
     rbind (read_bytes data off2 (unat script_len)) (\<lambda>(sig, off3).
     rbind (read_uint_32LE data off3) (\<lambda>(sq, off4).
     Inr (\<lparr>prevout = p, scriptSig = sig, nSequence = sq\<rparr>, off4)))))"

definition CTxOut_Serialize :: "CTxOut \<Rightarrow> bytes" where
  "CTxOut_Serialize t =
     (let buffer = write_uint_64LE [] (nValue t);
          buffer = write_var_int32 buffer (word_of_nat (length (scriptPubKey t)))
      in write_bytes buffer (scriptPubKey t) (length (scriptPubKey t)))"

definition CTxOut_Deserialize :: "bytes \<Rightarrow> CTxOut reader" where
  "CTxOut_Deserialize data off =
     rbind (read_uint_64LE data off) (\<lambda>(v, off1).
     rbind (read_var_int32 data off1) (\<lambda>(script_len, off2).
     rbind (read_bytes data off2 (unat script_len)) (\<lambda>(spk, off3).
     Inr (\<lparr>nValue = v, scriptPubKey = spk\<rparr>, off3))))"

section \<open>Transactions\<close>

definition Transaction_Serialize :: "Transaction \<Rightarrow> bytes" where
  "Transaction_Serialize tx =
     (let buffer = write_uint_32LE [] (tx_nVersion tx);
          buffer = write_var_int32 buffer (word_of_nat (length (vin tx)));
          buffer = foldl (\<lambda>buf i. buf @ CTxIn_Serialize i) buffer (vin tx);
          buffer = write_var_int32 buffer (word_of_nat (length (vout tx)));
          buffer = foldl (\<lambda>buf t. buf @ CTxOut_Serialize t) buffer (vout tx)
      in write_uint_32LE buffer (nLockTime tx))"

definition Transaction_GetHash :: "Transaction \<Rightarrow> bytes" where
  "Transaction_GetHash tx = hash_double_sha256 (Transaction_Serialize tx)"

text \<open>The assignment \<open>tx.tx_hash = tx.GetHash()\<close>.\<close>

definition set_hash :: "Transaction \<Rightarrow> Transaction" where
  "set_hash tx = tx\<lparr>tx_hash := Transaction_GetHash tx\<rparr>"

definition IsCoinbase :: "Transaction \<Rightarrow> bool" where
  "IsCoinbase tx \<longleftrightarrow> vin tx = [] \<or> IsNull (prevout (vin tx ! 0))"

definition Transaction_Deserialize :: "bytes \<Rightarrow> Transaction reader" where
  "Transaction_Deserialize data off =
     rbind (read_uint_32LE data off) (\<lambda>(ver, off1).
     rbind (read_var_int32 data off1) (\<lambda>(vin_count, off2).
     rbind (read_many (CTxIn_Deserialize data) (unat vin_count) off2) (\<lambda>(ins, off3).
     rbind (read_var_int32 data off3) (\<lambda>(vout_count, off4).
     rbind (read_many (CTxOut_Deserialize data) (unat vout_count) off4) (\<lambda>(outs, off5).
     rbind (read_uint_32LE data off5) (\<lambda>(lt, off6).
     Inr (set_hash (mk_Transaction ver ins outs lt), off6)))))))"

section \<open>The UTXO set\<close>

type_synonym UtxoSet = "(COutPoint \<times> CTxOut) list"

definition utxo_find :: "UtxoSet \<Rightarrow> COutPoint \<Rightarrow> CTxOut option" where
  "utxo_find utxos p = map_of utxos p"

definition utxo_emplace :: "COutPoint \<Rightarrow> CTxOut \<Rightarrow> UtxoSet \<Rightarrow> UtxoSet" where
  "utxo_emplace p t utxos =
     (case utxo_find utxos p of Some _ \<Rightarrow> utxos | None \<Rightarrow> (p, t) # utxos)"

definition utxo_erase :: "COutPoint \<Rightarrow> UtxoSet \<Rightarrow> UtxoSet" where
  "utxo_erase p utxos = filter (\<lambda>(q, t). q \<noteq> p) utxos"

section \<open>The UTXO map contract\<close>

text \<open>
  What the validation code relies on of the hash table: what a lookup returns after an
  insertion or a removal, and that every operation keeps the table well formed. The client
  lemmas are the two loops of the code: inserting every output of a transaction, erasing every
  outpoint its inputs name.
\<close>

locale utxo_store =
  fixes find :: "'m \<Rightarrow> 'k \<Rightarrow> 'v option"
    and emplace :: "'k \<Rightarrow> 'v \<Rightarrow> 'm \<Rightarrow> 'm"
    and erase :: "'k \<Rightarrow> 'm \<Rightarrow> 'm"
    and invar :: "'m \<Rightarrow> bool"
  assumes find_emplace:
      "find (emplace p t m) q = (if q = p \<and> find m p = None then Some t else find m q)"
    and find_erase: "find (erase p m) q = (if q = p then None else find m q)"
    and invar_emplace: "invar m \<Longrightarrow> invar (emplace p t m)"
    and invar_erase: "invar m \<Longrightarrow> invar (erase p m)"
begin

lemma find_fold_emplace:
  "find (fold (\<lambda>(p, t). emplace p t) kvs m) q
     = (case find m q of Some t \<Rightarrow> Some t | None \<Rightarrow> map_of kvs q)"
  by (induction kvs arbitrary: m) (auto simp: find_emplace split: option.splits)

lemma find_fold_erase: "find (fold erase ps m) q = (if q \<in> set ps then None else find m q)"
  by (induction ps arbitrary: m) (auto simp: find_erase)

lemma invar_fold_emplace: "invar m \<Longrightarrow> invar (fold (\<lambda>(p, t). emplace p t) kvs m)"
  by (induction kvs arbitrary: m) (auto intro: invar_emplace)

lemma invar_fold_erase: "invar m \<Longrightarrow> invar (fold erase ps m)"
  by (induction ps arbitrary: m) (auto intro: invar_erase)

end

definition utxo_distinct :: "UtxoSet \<Rightarrow> bool" where
  "utxo_distinct utxos \<longleftrightarrow> distinct (map fst utxos)"

lemma map_of_filter_other:
  "map_of (filter (\<lambda>(q, t). q \<noteq> p) xs) q = (if q = p then None else map_of xs q)"
  by (induction xs) auto

interpretation utxos: utxo_store utxo_find utxo_emplace utxo_erase utxo_distinct
proof unfold_locales
  fix p q t m
  show "utxo_find (utxo_emplace p t m) q
      = (if q = p \<and> utxo_find m p = None then Some t else utxo_find m q)"
    by (auto simp: utxo_emplace_def utxo_find_def split: option.splits)
next
  fix p q m
  show "utxo_find (utxo_erase p m) q = (if q = p then None else utxo_find m q)"
    by (simp add: utxo_find_def utxo_erase_def map_of_filter_other)
next
  fix m p t assume "utxo_distinct m"
  then show "utxo_distinct (utxo_emplace p t m)"
    by (auto simp: utxo_distinct_def utxo_emplace_def utxo_find_def map_of_eq_None_iff
        split: option.splits)
next
  fix m p assume "utxo_distinct m"
  then show "utxo_distinct (utxo_erase p m)"
    by (auto simp: utxo_distinct_def utxo_erase_def intro: distinct_map_filter)
qed

section \<open>Codecs\<close>

lemma foldl_append_concat: "foldl (\<lambda>buf x. buf @ f x) buf xs = buf @ concat (map f xs)"
  by (induction xs arbitrary: buf) simp_all

definition wf_outpoint :: "COutPoint \<Rightarrow> bool" where
  [wf_defs]: "wf_outpoint p \<longleftrightarrow> length (out_txid p) = 32"

definition wf_txin :: "CTxIn \<Rightarrow> bool" where
  [wf_defs]: "wf_txin i \<longleftrightarrow> wf_outpoint (prevout i) \<and> length (scriptSig i) < 2 ^ 32"

definition wf_txout :: "CTxOut \<Rightarrow> bool" where
  [wf_defs]: "wf_txout t \<longleftrightarrow> length (scriptPubKey t) < 2 ^ 32"

text \<open>A transaction is well formed when its vectors fit the 32-bit counts of the format and its
  cached hash is the hash of its fields, which every code path that builds one ensures.\<close>

definition wf_tx :: "Transaction \<Rightarrow> bool" where
  [wf_defs]: "wf_tx tx \<longleftrightarrow> length (vin tx) < 2 ^ 32 \<and> length (vout tx) < 2 ^ 32
     \<and> list_all wf_txin (vin tx) \<and> list_all wf_txout (vout tx)
     \<and> tx_hash tx = Transaction_GetHash tx"

lemma COutPoint_Serialize_eq [codec_simps]:
  "COutPoint_Serialize p = out_txid p @ le32 (out_n p)"
  by (simp add: COutPoint_Serialize_def codec_simps)

lemma CTxIn_Serialize_eq [codec_simps]:
  "CTxIn_Serialize i = COutPoint_Serialize (prevout i) @ le32 (word_of_nat (length (scriptSig i)))
     @ scriptSig i @ le32 (nSequence i)"
  by (simp add: CTxIn_Serialize_def Let_def write_var_int32_eq write_uint_32LE_eq write_bytes_eq)

lemma CTxOut_Serialize_eq [codec_simps]:
  "CTxOut_Serialize t = le64 (nValue t) @ le32 (word_of_nat (length (scriptPubKey t)))
     @ scriptPubKey t"
  by (simp add: CTxOut_Serialize_def Let_def write_var_int32_eq write_uint_64LE_eq write_bytes_eq)

lemma Transaction_Serialize_eq:
  "Transaction_Serialize tx = le32 (tx_nVersion tx) @ le32 (word_of_nat (length (vin tx)))
     @ concat (map CTxIn_Serialize (vin tx)) @ le32 (word_of_nat (length (vout tx)))
     @ concat (map CTxOut_Serialize (vout tx)) @ le32 (nLockTime tx)"
  by (simp add: Transaction_Serialize_def Let_def foldl_append_concat write_var_int32_eq
      write_uint_32LE_eq)

lemma Transaction_Serialize_tx_hash [simp]:
  "Transaction_Serialize (tx\<lparr>tx_hash := h\<rparr>) = Transaction_Serialize tx"
  by (simp add: Transaction_Serialize_eq)

lemma Transaction_GetHash_tx_hash [simp]:
  "Transaction_GetHash (tx\<lparr>tx_hash := h\<rparr>) = Transaction_GetHash tx"
  by (simp add: Transaction_GetHash_def)

lemma set_hash_sel [simp]:
  "tx_nVersion (set_hash tx) = tx_nVersion tx" "vin (set_hash tx) = vin tx"
  "vout (set_hash tx) = vout tx" "nLockTime (set_hash tx) = nLockTime tx"
  "tx_hash (set_hash tx) = Transaction_GetHash tx"
  by (simp_all add: set_hash_def)

lemma Transaction_Serialize_set_hash [simp]:
  "Transaction_Serialize (set_hash tx) = Transaction_Serialize tx"
  by (simp add: set_hash_def)

lemma Transaction_GetHash_set_hash [simp]:
  "Transaction_GetHash (set_hash tx) = Transaction_GetHash tx"
  by (simp add: set_hash_def)

lemma mk_Transaction_sel [simp]:
  "tx_nVersion (mk_Transaction v i t l) = v" "vin (mk_Transaction v i t l) = i"
  "vout (mk_Transaction v i t l) = t" "nLockTime (mk_Transaction v i t l) = l"
  by (simp_all add: mk_Transaction_def)

lemma set_hash_mk_Transaction:
  assumes "tx_hash tx = Transaction_GetHash tx"
  shows "set_hash (mk_Transaction (tx_nVersion tx) (vin tx) (vout tx) (nLockTime tx)) = tx"
proof -
  have "mk_Transaction (tx_nVersion tx) (vin tx) (vout tx) (nLockTime tx)
      = tx\<lparr>tx_hash := replicate 32 0\<rparr>"
    by (simp add: mk_Transaction_def)
  then have "set_hash (mk_Transaction (tx_nVersion tx) (vin tx) (vout tx) (nLockTime tx))
      = tx\<lparr>tx_hash := Transaction_GetHash tx\<rparr>"
    by (simp only: set_hash_def Transaction_GetHash_tx_hash Transaction.update_convs(5)) simp
  then show ?thesis by (simp add: assms [symmetric])
qed

lemma length_Transaction_GetHash [simp]: "length (Transaction_GetHash tx) = 32"
  by (simp add: Transaction_GetHash_def)

interpretation outpoint_codec: codec COutPoint_Serialize COutPoint_Deserialize wf_outpoint
proof unfold_locales
  fix p data off
  assume "wf_outpoint p" and "bytes_at data off (COutPoint_Serialize p)"
  then show "COutPoint_Deserialize data off = Inr (p, off + length (COutPoint_Serialize p))"
    by (auto simp: COutPoint_Deserialize_def wf_defs codec_simps)
next
  fix p data off off'
  assume "COutPoint_Deserialize data off = Inr (p, off')"
  then show "wf_outpoint p \<and> bytes_at data off (COutPoint_Serialize p)
      \<and> off' = off + length (COutPoint_Serialize p)"
    by (auto simp: COutPoint_Deserialize_def wf_defs codec_simps
        elim!: rbindE dest!: read_field_sound)
qed

interpretation txin_codec: codec CTxIn_Serialize CTxIn_Deserialize wf_txin
proof unfold_locales
  fix i data off
  assume "wf_txin i" and "bytes_at data off (CTxIn_Serialize i)"
  then show "CTxIn_Deserialize data off = Inr (i, off + length (CTxIn_Serialize i))"
    by (auto simp: CTxIn_Deserialize_def outpoint_codec.des_ser wf_txin_def CTxIn_Serialize_eq
        bytes_at_append read_field_at word_of_nat_inverse32)
next
  fix i data off off'
  assume "CTxIn_Deserialize data off = Inr (i, off')"
  then show "wf_txin i \<and> bytes_at data off (CTxIn_Serialize i)
      \<and> off' = off + length (CTxIn_Serialize i)"
    by (auto simp: CTxIn_Deserialize_def wf_txin_def CTxIn_Serialize_eq bytes_at_append
        elim!: rbindE dest!: read_field_sound outpoint_codec.des_sound)
qed

interpretation txout_codec: codec CTxOut_Serialize CTxOut_Deserialize wf_txout
proof unfold_locales
  fix t data off
  assume "wf_txout t" and "bytes_at data off (CTxOut_Serialize t)"
  then show "CTxOut_Deserialize data off = Inr (t, off + length (CTxOut_Serialize t))"
    by (auto simp: CTxOut_Deserialize_def wf_txout_def CTxOut_Serialize_eq
        bytes_at_append read_field_at word_of_nat_inverse32)
next
  fix t data off off'
  assume "CTxOut_Deserialize data off = Inr (t, off')"
  then show "wf_txout t \<and> bytes_at data off (CTxOut_Serialize t)
      \<and> off' = off + length (CTxOut_Serialize t)"
    by (auto simp: CTxOut_Deserialize_def wf_txout_def CTxOut_Serialize_eq bytes_at_append
        elim!: rbindE dest!: read_field_sound)
qed

lemma Transaction_Deserialize_ser:
  assumes wf: "wf_tx tx" and at: "bytes_at data off (Transaction_Serialize tx)"
  shows "Transaction_Deserialize data off = Inr (tx, off + length (Transaction_Serialize tx))"
proof -
  let ?ins = "concat (map CTxIn_Serialize (vin tx))"
  let ?outs = "concat (map CTxOut_Serialize (vout tx))"
  from wf have lens: "unat (word_of_nat (length (vin tx)) :: u32) = length (vin tx)"
      "unat (word_of_nat (length (vout tx)) :: u32) = length (vout tx)"
    and ok: "list_all wf_txin (vin tx)" "list_all wf_txout (vout tx)"
    and hash: "tx_hash tx = Transaction_GetHash tx"
    by (auto simp: wf_tx_def word_of_nat_inverse32)
  from at have at': "bytes_at data off (le32 (tx_nVersion tx))"
      "bytes_at data (off + 4) (le32 (word_of_nat (length (vin tx))))"
      "bytes_at data (off + 8) ?ins"
      "bytes_at data (off + 8 + length ?ins) (le32 (word_of_nat (length (vout tx))))"
      "bytes_at data (off + 12 + length ?ins) ?outs"
      "bytes_at data (off + 12 + length ?ins + length ?outs) (le32 (nLockTime tx))"
    by (simp_all add: Transaction_Serialize_eq bytes_at_append add.assoc add.commute
        add.left_commute)
  have ins: "read_many (CTxIn_Deserialize data) (length (vin tx)) (off + 8)
      = Inr (vin tx, off + 8 + length ?ins)"
    using txin_codec.read_many_ser [OF ok(1) at'(3)] .
  have outs: "read_many (CTxOut_Deserialize data) (length (vout tx)) (off + 12 + length ?ins)
      = Inr (vout tx, off + 12 + length ?ins + length ?outs)"
    using txout_codec.read_many_ser [OF ok(2) at'(5)] .
  have rd: "read_uint_32LE data off = Inr (tx_nVersion tx, off + 4)"
    "read_var_int32 data (off + 4) = Inr (word_of_nat (length (vin tx)), off + 8)"
    "read_var_int32 data (off + 8 + length ?ins)
       = Inr (word_of_nat (length (vout tx)), off + 12 + length ?ins)"
    "read_uint_32LE data (off + 12 + length ?ins + length ?outs)
       = Inr (nLockTime tx, off + 12 + length ?ins + length ?outs + 4)"
    using read_field_at(1) [OF at'(1)] read_var_int32_at [OF at'(2)] read_var_int32_at [OF at'(4)]
      read_field_at(1) [OF at'(6)]
    by (simp_all add: add.commute add.left_commute)
  show ?thesis
    by (simp only: Transaction_Deserialize_def rd lens ins outs rbind_Inr prod.case
        set_hash_mk_Transaction [OF hash])
      (simp add: Transaction_Serialize_eq add.assoc)
qed

lemma Transaction_Deserialize_sound:
  assumes "Transaction_Deserialize data off = Inr (tx, off')"
  shows "wf_tx tx \<and> bytes_at data off (Transaction_Serialize tx)
    \<and> off' = off + length (Transaction_Serialize tx)"
proof -
  from assms obtain ver o1 ci o2 ins o3 co o4 outs o5 lt where
    r1: "read_uint_32LE data off = Inr (ver, o1)" and r2: "read_var_int32 data o1 = Inr (ci, o2)"
    and r3: "read_many (CTxIn_Deserialize data) (unat ci) o2 = Inr (ins, o3)"
    and r4: "read_var_int32 data o3 = Inr (co, o4)"
    and r5: "read_many (CTxOut_Deserialize data) (unat co) o4 = Inr (outs, o5)"
    and r6: "read_uint_32LE data o5 = Inr (lt, off')"
    and tx: "tx_nVersion tx = ver" "vin tx = ins" "vout tx = outs" "nLockTime tx = lt"
      "tx_hash tx = Transaction_GetHash tx"
    unfolding Transaction_Deserialize_def by (force elim!: rbindE)
  from r1 r2 have a: "bytes_at data off (le32 ver)" "bytes_at data (off + 4) (le32 ci)" "o2 = off + 8"
    by (auto dest!: read_field_sound)
  then have "o2 \<le> length data" using bytes_at_bound [OF a(2)] by simp
  from txin_codec.read_many_sound [OF r3 this]
  have b: "list_all wf_txin ins" "length ins = unat ci"
    "bytes_at data o2 (concat (map CTxIn_Serialize ins))"
    "o3 = o2 + length (concat (map CTxIn_Serialize ins))" by auto
  from r4 have c: "bytes_at data o3 (le32 co)" "o4 = o3 + 4" by (auto dest!: read_field_sound)
  then have "o4 \<le> length data" using bytes_at_bound [OF c(1)] by simp
  from txout_codec.read_many_sound [OF r5 this]
  have d: "list_all wf_txout outs" "length outs = unat co"
    "bytes_at data o4 (concat (map CTxOut_Serialize outs))"
    "o5 = o4 + length (concat (map CTxOut_Serialize outs))" by auto
  from r6 have e: "bytes_at data o5 (le32 lt)" "off' = o5 + 4" by (auto dest!: read_field_sound)
  show ?thesis
    using a b c d e tx
    by (simp add: wf_tx_def Transaction_Serialize_eq bytes_at_append add.assoc)
qed

interpretation tx_codec: codec Transaction_Serialize Transaction_Deserialize wf_tx
  by unfold_locales (auto simp: Transaction_Deserialize_ser dest: Transaction_Deserialize_sound)

section \<open>Properties\<close>

text \<open>A well-formed transaction serialised anywhere in a buffer deserialises to the same
  transaction, cached hash included, with the cursor right after its bytes.\<close>

theorem transaction_roundtrip:
  "wf_tx tx \<Longrightarrow> Transaction_Deserialize (pre @ Transaction_Serialize tx @ post) (length pre)
     = Inr (tx, length pre + length (Transaction_Serialize tx))"
  by (erule tx_codec.des_ser) (rule bytes_at_middle)

definition sample_tx :: Transaction where
  "sample_tx =
     set_hash (mk_Transaction 1 [CTxIn_default\<lparr>scriptSig := [0]\<rparr>]
       [\<lparr>nValue = 100000, scriptPubKey = [0xAA, 0xBB]\<rparr>] 0)"

lemma sample_tx_wf: "wf_tx sample_tx"
  by (simp add: sample_tx_def wf_defs CTxIn_default_def COutPoint_null_def)

theorem transaction_roundtrip_witness:
  "Transaction_Deserialize ([7] @ Transaction_Serialize sample_tx @ []) 1
     = Inr (sample_tx, 1 + length (Transaction_Serialize sample_tx))"
  using transaction_roundtrip [OF sample_tx_wf, of "[7]" "[]"] by simp

text \<open>C30: the transaction format is canonical. Whatever bytes Deserialize accepts are exactly the
  serialisation of the transaction it returns, and the hash it caches is the double SHA-256 of
  those bytes, so a peer cannot make two byte strings stand for one transaction.\<close>

theorem transaction_canonical:
  assumes "Transaction_Deserialize data off = Inr (tx, off')"
  shows "slice data off (off' - off) = Transaction_Serialize tx
    \<and> tx_hash tx = hash_double_sha256 (slice data off (off' - off)) \<and> off' \<le> length data"
  using tx_codec.des_sound [OF assms]
  by (auto simp: bytes_at_def wf_tx_def Transaction_GetHash_def)

theorem transaction_canonical_witness:
  "slice (Transaction_Serialize sample_tx) 0 (length (Transaction_Serialize sample_tx))
     = Transaction_Serialize sample_tx"
  using transaction_canonical [OF tx_codec.des_whole [OF sample_tx_wf]] by simp

end
