(* ===== verification/Block.thy ===== *)
theory Block
  imports Transaction
begin

text \<open>
  \<open>include/core/block.h\<close>, \<open>block.cpp\<close>: the 80-byte header and its hash, the block, its binary
  format, and the Merkle root. \<open>CBlock\<close> inherits from \<open>CBlockHeader\<close>: the record extends the
  header's record, and what the header class does works on both.
\<close>

record CBlockHeader =
  nVersion :: i32
  hashPrevBlock :: bytes
  hashMerkleRoot :: bytes
  nTime :: u32
  nBits :: u32
  nNonce :: u32

record CBlock = CBlockHeader +
  vtx :: "Transaction list"

definition CBlockHeader_Serialize :: "'z CBlockHeader_scheme \<Rightarrow> bytes" where
  "CBlockHeader_Serialize h =
     (let buffer = write_uint_32LE [] (nVersion h);
          buffer = write_bytes buffer (hashPrevBlock h) (length (hashPrevBlock h));
          buffer = write_bytes buffer (hashMerkleRoot h) (length (hashMerkleRoot h));
          buffer = write_uint_32LE buffer (nTime h);
          buffer = write_uint_32LE buffer (nBits h)
      in write_uint_32LE buffer (nNonce h))"

definition CBlockHeader_Deserialize :: "bytes \<Rightarrow> CBlockHeader reader" where
  "CBlockHeader_Deserialize data off =
     rbind (read_uint_32LE data off) (\<lambda>(ver, off1).
     rbind (read_bytes32 data off1) (\<lambda>(prev, off2).
     rbind (read_bytes32 data off2) (\<lambda>(root, off3).
     rbind (read_uint_32LE data off3) (\<lambda>(time, off4).
     rbind (read_uint_32LE data off4) (\<lambda>(bits, off5).
     rbind (read_uint_32LE data off5) (\<lambda>(nonce, off6).
     Inr (\<lparr>nVersion = ver, hashPrevBlock = prev, hashMerkleRoot = root, nTime = time,
           nBits = bits, nNonce = nonce\<rparr>, off6)))))))"

definition GetHash :: "'z CBlockHeader_scheme \<Rightarrow> bytes" where
  "GetHash h = hash_double_sha256 (CBlockHeader_Serialize h)"

section \<open>The Merkle root\<close>

text \<open>The inner loop of \<open>BuildMerkleRoot\<close>: hash neighbours together, an odd last one with itself.\<close>

fun next_layer :: "bytes list \<Rightarrow> bytes list" where
  "next_layer [] = []"
| "next_layer [left] = [hash_double_sha256 (left @ left)]"
| "next_layer (left # right # rest) = hash_double_sha256 (left @ right) # next_layer rest"

lemma length_next_layer [simp]: "length (next_layer ls) = (length ls + 1) div 2"
  by (induction ls rule: next_layer.induct) simp_all

function merkle_loop :: "bytes list \<Rightarrow> bytes list" where
  "merkle_loop layers = (if length layers > 1 then merkle_loop (next_layer layers) else layers)"
  by pat_completeness auto
termination
  by (relation "measure length") auto

declare merkle_loop.simps [simp del]

definition BuildMerkleRoot :: "CBlock \<Rightarrow> bytes" where
  "BuildMerkleRoot blk =
     (let layers = merkle_loop (map tx_hash (vtx blk))
      in case layers of [] \<Rightarrow> replicate 32 0 | l # _ \<Rightarrow> l)"

definition IsMerkleRootValid :: "CBlock \<Rightarrow> bool" where
  "IsMerkleRootValid blk \<longleftrightarrow> BuildMerkleRoot blk = hashMerkleRoot blk"

definition IsValid :: "CBlock \<Rightarrow> bool" where
  "IsValid blk \<longleftrightarrow> IsMerkleRootValid blk"

section \<open>Blocks\<close>

definition CBlock_Serialize :: "CBlock \<Rightarrow> bytes" where
  "CBlock_Serialize blk =
     (let buffer = CBlockHeader_Serialize blk;
          buffer = write_var_int32 buffer (word_of_nat (length (vtx blk)))
      in foldl (\<lambda>buf tx. buf @ Transaction_Serialize tx) buffer (vtx blk))"

text \<open>The base-class part of a block, \<open>static_cast<const CBlockHeader&>(blk)\<close>, and the assignment
  to it.\<close>

definition header_of :: "CBlock \<Rightarrow> CBlockHeader" where
  "header_of blk = CBlockHeader.truncate blk"

definition mk_block :: "CBlockHeader \<Rightarrow> Transaction list \<Rightarrow> CBlock" where
  "mk_block h txs =
     \<lparr>nVersion = nVersion h, hashPrevBlock = hashPrevBlock h, hashMerkleRoot = hashMerkleRoot h,
      nTime = nTime h, nBits = nBits h, nNonce = nNonce h, vtx = txs\<rparr>"

definition CBlock_Deserialize :: "bytes \<Rightarrow> CBlock reader" where
  "CBlock_Deserialize data off =
     rbind (CBlockHeader_Deserialize data off) (\<lambda>(h, off1).
     rbind (read_var_int32 data off1) (\<lambda>(tx_count, off2).
     rbind (read_many (Transaction_Deserialize data) (unat tx_count) off2) (\<lambda>(txs, off3).
     Inr (mk_block h txs, off3))))"

section \<open>Codecs\<close>

definition wf_header :: "'z CBlockHeader_scheme \<Rightarrow> bool" where
  [wf_defs]: "wf_header h \<longleftrightarrow> length (hashPrevBlock h) = 32 \<and> length (hashMerkleRoot h) = 32"

definition wf_block :: "CBlock \<Rightarrow> bool" where
  [wf_defs]: "wf_block blk \<longleftrightarrow> wf_header blk \<and> length (vtx blk) < 2 ^ 32 \<and> list_all wf_tx (vtx blk)"

lemma CBlockHeader_Serialize_eq:
  "CBlockHeader_Serialize h = le32 (nVersion h) @ hashPrevBlock h @ hashMerkleRoot h
     @ le32 (nTime h) @ le32 (nBits h) @ le32 (nNonce h)"
  by (simp add: CBlockHeader_Serialize_def Let_def write_uint_32LE_eq write_bytes_eq)

lemma CBlock_Serialize_eq:
  "CBlock_Serialize blk = CBlockHeader_Serialize blk @ le32 (word_of_nat (length (vtx blk)))
     @ concat (map Transaction_Serialize (vtx blk))"
  by (simp add: CBlock_Serialize_def Let_def foldl_append_concat write_var_int32_eq)

lemma mk_block_sel [simp]:
  "nVersion (mk_block h txs) = nVersion h" "hashPrevBlock (mk_block h txs) = hashPrevBlock h"
  "hashMerkleRoot (mk_block h txs) = hashMerkleRoot h" "nTime (mk_block h txs) = nTime h"
  "nBits (mk_block h txs) = nBits h" "nNonce (mk_block h txs) = nNonce h"
  "vtx (mk_block h txs) = txs"
  by (simp_all add: mk_block_def)

lemma header_of_sel [simp]:
  "nVersion (header_of blk) = nVersion blk" "hashPrevBlock (header_of blk) = hashPrevBlock blk"
  "hashMerkleRoot (header_of blk) = hashMerkleRoot blk" "nTime (header_of blk) = nTime blk"
  "nBits (header_of blk) = nBits blk" "nNonce (header_of blk) = nNonce blk"
  by (simp_all add: header_of_def CBlockHeader.defs)

lemma mk_block_header_of [simp]: "mk_block (header_of blk) (vtx blk) = blk"
  by (simp add: mk_block_def)

lemma header_of_mk_block [simp]: "header_of (mk_block h txs) = h"
  by (simp add: mk_block_def header_of_def CBlockHeader.defs)

lemma Serialize_header_of [simp]:
  "CBlockHeader_Serialize (header_of blk) = CBlockHeader_Serialize blk"
  by (simp add: CBlockHeader_Serialize_eq)

lemma Serialize_mk_block [simp]:
  "CBlockHeader_Serialize (mk_block h txs) = CBlockHeader_Serialize h"
  by (simp add: CBlockHeader_Serialize_eq)

lemma GetHash_header_of [simp]: "GetHash (header_of blk) = GetHash blk"
  by (simp add: GetHash_def)

lemma GetHash_mk_block [simp]: "GetHash (mk_block h txs) = GetHash h"
  by (simp add: GetHash_def)

lemma length_GetHash [simp]: "length (GetHash h) = 32"
  by (simp add: GetHash_def)

lemma length_CBlockHeader_Serialize: "wf_header h \<Longrightarrow> length (CBlockHeader_Serialize h) = 80"
  by (simp add: CBlockHeader_Serialize_eq wf_header_def)

interpretation header_codec:
  codec "CBlockHeader_Serialize :: CBlockHeader \<Rightarrow> bytes" CBlockHeader_Deserialize wf_header
proof unfold_locales
  fix h :: CBlockHeader and data off
  assume "wf_header h" and "bytes_at data off (CBlockHeader_Serialize h)"
  then show "CBlockHeader_Deserialize data off = Inr (h, off + length (CBlockHeader_Serialize h))"
    by (auto simp: CBlockHeader_Deserialize_def wf_header_def CBlockHeader_Serialize_eq
        bytes_at_append read_field_at)
next
  fix h data off off'
  assume "CBlockHeader_Deserialize data off = Inr (h, off')"
  then show "wf_header h \<and> bytes_at data off (CBlockHeader_Serialize h)
      \<and> off' = off + length (CBlockHeader_Serialize h)"
    by (auto simp: CBlockHeader_Deserialize_def wf_header_def CBlockHeader_Serialize_eq
        bytes_at_append elim!: rbindE dest!: read_field_sound)
qed

interpretation block_codec: codec CBlock_Serialize CBlock_Deserialize wf_block
proof unfold_locales
  fix blk data off
  assume wf: "wf_block blk" and at: "bytes_at data off (CBlock_Serialize blk)"
  let ?txs = "concat (map Transaction_Serialize (vtx blk))"
  let ?o = "off + length (CBlockHeader_Serialize blk)"
  from wf have h: "wf_header (header_of blk)" and txs: "list_all wf_tx (vtx blk)"
    and len: "unat (word_of_nat (length (vtx blk)) :: u32) = length (vtx blk)"
    by (simp_all add: wf_defs word_of_nat_inverse32)
  from at have at': "bytes_at data off (CBlockHeader_Serialize (header_of blk))"
    "bytes_at data ?o (le32 (word_of_nat (length (vtx blk))))" "bytes_at data (?o + 4) ?txs"
    by (simp_all add: CBlock_Serialize_eq bytes_at_append)
  show "CBlock_Deserialize data off = Inr (blk, off + length (CBlock_Serialize blk))"
    using header_codec.des_ser [OF h at'(1)] read_var_int32_at [OF at'(2)]
      tx_codec.read_many_ser [OF txs at'(3)] len
    by (simp add: CBlock_Deserialize_def CBlock_Serialize_eq add.assoc)
next
  fix blk data off off'
  assume "CBlock_Deserialize data off = Inr (blk, off')"
  then obtain h o1 k o2 txs where r1: "CBlockHeader_Deserialize data off = Inr (h, o1)"
    and r2: "read_var_int32 data o1 = Inr (k, o2)"
    and r3: "read_many (Transaction_Deserialize data) (unat k) o2 = Inr (txs, off')"
    and blk: "blk = mk_block h txs"
    by (auto simp: CBlock_Deserialize_def elim!: rbindE)
  from header_codec.des_sound [OF r1] read_var_int32_sound [OF r2]
  have a: "wf_header h" "bytes_at data off (CBlockHeader_Serialize h)"
    "o1 = off + length (CBlockHeader_Serialize h)" "bytes_at data o1 (le32 k)" "o2 = o1 + 4"
    by auto
  then have "o2 \<le> length data" using bytes_at_bound [OF a(4)] by simp
  from tx_codec.read_many_sound [OF r3 this] a
  show "wf_block blk \<and> bytes_at data off (CBlock_Serialize blk)
      \<and> off' = off + length (CBlock_Serialize blk)"
    by (simp add: blk wf_block_def wf_header_def CBlock_Serialize_eq bytes_at_append add.assoc)
qed

section \<open>The Merkle root as a tree\<close>

text \<open>
  A reference definition, from the top down: the root of a tree of height \<open>k\<close> over at most
  \<open>2 ^ k\<close> leaves hashes the roots of its two halves; a missing right half is a copy of the
  left one.
\<close>

fun tree_root :: "nat \<Rightarrow> bytes list \<Rightarrow> bytes" where
  "tree_root 0 xs = hd xs"
| "tree_root (Suc k) xs =
     (if length xs \<le> 2 ^ k
      then hash_double_sha256 (tree_root k xs @ tree_root k xs)
      else hash_double_sha256 (tree_root k (take (2 ^ k) xs) @ tree_root k (drop (2 ^ k) xs)))"

lemma next_layer_append:
  "even (length xs) \<Longrightarrow> next_layer (xs @ ys) = next_layer xs @ next_layer ys"
  by (induction xs rule: next_layer.induct) auto

lemma next_layer_take_drop:
  assumes "2 * m \<le> length xs"
  shows "next_layer (take (2 * m) xs) = take m (next_layer xs)"
    and "next_layer (drop (2 * m) xs) = drop m (next_layer xs)"
proof -
  have "next_layer xs = next_layer (take (2 * m) xs) @ next_layer (drop (2 * m) xs)"
    using next_layer_append [of "take (2 * m) xs" "drop (2 * m) xs"] assms by simp
  moreover have "length (next_layer (take (2 * m) xs)) = m" using assms by simp
  ultimately show "next_layer (take (2 * m) xs) = take m (next_layer xs)"
    and "next_layer (drop (2 * m) xs) = drop m (next_layer xs)" by simp_all
qed

lemma tree_root_next_layer:
  "0 < length xs \<Longrightarrow> length xs \<le> 2 ^ Suc k \<Longrightarrow> tree_root (Suc k) xs = tree_root k (next_layer xs)"
proof (induction k arbitrary: xs)
  case 0
  then consider x where "xs = [x]" | x y where "xs = [x, y]"
    by (cases xs rule: next_layer.cases) auto
  then show ?case by cases simp_all
next
  case (Suc k)
  show ?case
  proof (cases "length xs \<le> 2 ^ Suc k")
    case True
    moreover from True have "length (next_layer xs) \<le> 2 ^ k" by simp
    ultimately show ?thesis using Suc.IH [of xs] Suc.prems(1)
      by (simp only: tree_root.simps(2) [of "Suc k" xs] tree_root.simps(2) [of k "next_layer xs"] if_True)
  next
    case False
    let ?l = "take (2 ^ Suc k) xs" and ?r = "drop (2 ^ Suc k) xs"
    have "\<not> length (next_layer xs) \<le> 2 ^ k" using False by simp
    moreover have "tree_root (Suc k) ?l = tree_root k (take (2 ^ k) (next_layer xs))"
      using Suc.IH [of ?l] Suc.prems(1) False next_layer_take_drop(1) [of "2 ^ k" xs] by simp
    moreover have "tree_root (Suc k) ?r = tree_root k (drop (2 ^ k) (next_layer xs))"
      using Suc.IH [of ?r] Suc.prems(2) False next_layer_take_drop(2) [of "2 ^ k" xs] by simp
    ultimately show ?thesis using False
      by (simp only: tree_root.simps(2) [of "Suc k" xs] tree_root.simps(2) [of k "next_layer xs"] if_False)
  qed
qed

lemma merkle_loop_single [simp]: "merkle_loop [x] = [x]"
  by (simp add: merkle_loop.simps)

lemma merkle_loop_Nil [simp]: "merkle_loop [] = []"
  by (simp add: merkle_loop.simps)

lemma merkle_loop_step: "1 < length xs \<Longrightarrow> merkle_loop xs = merkle_loop (next_layer xs)"
  by (subst merkle_loop.simps) simp

text \<open>The loop runs \<open>k\<close> times on a layer of more than \<open>2 ^ (k - 1)\<close> and at most \<open>2 ^ k\<close> hashes.\<close>

definition tree_height :: "nat \<Rightarrow> nat \<Rightarrow> bool" where
  "tree_height m k \<longleftrightarrow> 0 < m \<and> m \<le> 2 ^ k \<and> (k = 0 \<or> 2 ^ (k - 1) < m)"

lemma merkle_loop_tree: "tree_height (length xs) k \<Longrightarrow> merkle_loop xs = [tree_root k xs]"
proof (induction k arbitrary: xs)
  case 0
  then have "length xs = 1" by (simp add: tree_height_def del: length_greater_0_conv)
  then obtain x where "xs = [x]" by (auto simp: length_Suc_conv)
  then show ?case by simp
next
  case (Suc k)
  then have len: "0 < length xs" "length xs \<le> 2 ^ Suc k" "2 ^ k < length xs"
    by (auto simp: tree_height_def)
  then have "1 < length xs" using one_le_power [of "2 :: nat" k] by linarith
  moreover have "tree_height (length (next_layer xs)) k"
    using len by (cases k) (auto simp: tree_height_def)
  ultimately show ?case
    using Suc.IH [of "next_layer xs"] tree_root_next_layer [OF len(1,2)]
    by (simp add: merkle_loop_step)
qed

lemma next_layer_dup_last:
  "odd (length xs) \<Longrightarrow> next_layer (xs @ [last xs]) = next_layer xs"
proof (induction xs rule: next_layer.induct)
  case (3 l r rest)
  then have "rest \<noteq> []" by auto
  with 3 show ?case by simp
qed simp_all

lemma merkle_loop_dup_last:
  assumes "odd (length xs)" and "1 < length xs"
  shows "merkle_loop (xs @ [last xs]) = merkle_loop xs"
proof -
  have "1 < length (xs @ [last xs])" using assms(2) by (cases xs) auto
  from merkle_loop_step [OF this] merkle_loop_step [OF assms(2)] show ?thesis
    by (simp add: next_layer_dup_last [OF assms(1)])
qed

text \<open>The pairs that are hashed while the root of a layer is built.\<close>

fun layer_inputs :: "bytes list \<Rightarrow> bytes list" where
  "layer_inputs [] = []"
| "layer_inputs [l] = [l @ l]"
| "layer_inputs (l # r # rest) = (l @ r) # layer_inputs rest"

function merkle_inputs :: "bytes list \<Rightarrow> bytes list" where
  "merkle_inputs xs = (if length xs > 1 then layer_inputs xs @ merkle_inputs (next_layer xs) else [])"
  by pat_completeness auto
termination
  by (relation "measure length") auto

declare merkle_inputs.simps [simp del]

lemma next_layer_map: "next_layer xs = map hash_double_sha256 (layer_inputs xs)"
  by (induction xs rule: next_layer.induct) simp_all

lemma layer_inputs_inject:
  "length xs = length ys \<Longrightarrow> list_all (\<lambda>h. length h = 32) xs \<Longrightarrow> list_all (\<lambda>h. length h = 32) ys \<Longrightarrow>
     layer_inputs xs = layer_inputs ys \<Longrightarrow> xs = ys"
proof (induction xs arbitrary: ys rule: layer_inputs.induct)
  case (2 l)
  then have "length ys = Suc 0" by simp
  then obtain m where "ys = [m]" by (auto simp: length_Suc_conv)
  with 2 show ?case by simp
next
  case (3 l r rest)
  then obtain l' r' rest' where "ys = l' # r' # rest'"
    by (metis length_Suc_conv length_Cons)
  with 3 show ?case by auto
qed simp

lemma next_layer_lengths: "list_all (\<lambda>h. length h = 32) (next_layer xs)"
  by (simp add: next_layer_map list_all_iff)

lemma merkle_loop_inject:
  "length xs = length ys \<Longrightarrow> list_all (\<lambda>h. length h = 32) xs \<Longrightarrow> list_all (\<lambda>h. length h = 32) ys \<Longrightarrow>
     inj_on hash_double_sha256 (set (merkle_inputs xs) \<union> set (merkle_inputs ys)) \<Longrightarrow>
     merkle_loop xs = merkle_loop ys \<Longrightarrow> xs = ys"
proof (induction xs arbitrary: ys rule: merkle_loop.induct)
  case (1 xs)
  show ?case
  proof (cases "1 < length xs")
    case True
    then have ins: "merkle_inputs xs = layer_inputs xs @ merkle_inputs (next_layer xs)"
      "merkle_inputs ys = layer_inputs ys @ merkle_inputs (next_layer ys)"
      using merkle_inputs.simps [of xs] merkle_inputs.simps [of ys] "1.prems"(1) by simp_all
    have "inj_on hash_double_sha256
        (set (merkle_inputs (next_layer xs)) \<union> set (merkle_inputs (next_layer ys)))"
      using "1.prems"(4) by (rule inj_on_subset) (auto simp: ins)
    moreover have "merkle_loop (next_layer xs) = merkle_loop (next_layer ys)"
      using True "1.prems"(1,5) merkle_loop_step [of xs] merkle_loop_step [of ys] by simp
    ultimately have "next_layer xs = next_layer ys"
      using "1.IH" [OF True _ next_layer_lengths next_layer_lengths, of ys] "1.prems"(1) by simp
    then have "map hash_double_sha256 (layer_inputs xs) = map hash_double_sha256 (layer_inputs ys)"
      by (simp add: next_layer_map)
    moreover have "inj_on hash_double_sha256 (set (layer_inputs xs) \<union> set (layer_inputs ys))"
      using "1.prems"(4) by (rule inj_on_subset) (auto simp: ins)
    ultimately have "layer_inputs xs = layer_inputs ys" using inj_on_map_eq_map by blast
    then show ?thesis by (rule layer_inputs_inject [OF "1.prems"(1-3)])
  next
    case False
    then have "merkle_loop xs = xs" "merkle_loop ys = ys"
      using merkle_loop.simps [of xs] merkle_loop.simps [of ys] "1.prems"(1) by simp_all
    with "1.prems"(5) show ?thesis by simp
  qed
qed

lemma length_layer_inputs: "length (layer_inputs xs) = (length xs + 1) div 2"
  by (induction xs rule: layer_inputs.induct) simp_all

lemma merkle_loop_nonempty: "xs \<noteq> [] \<Longrightarrow> length (merkle_loop xs) = 1"
proof (induction xs rule: merkle_loop.induct)
  case (1 xs)
  show ?case
  proof (cases "1 < length xs")
    case True
    then have "next_layer xs \<noteq> []" by (cases xs rule: next_layer.cases) auto
    with 1 True show ?thesis by (simp add: merkle_loop_step)
  next
    case False
    with "1.prems" show ?thesis by (cases xs) (simp_all add: merkle_loop.simps)
  qed
qed

lemma merkle_loop_root: "xs \<noteq> [] \<Longrightarrow> \<exists>r. merkle_loop xs = [r]"
  using merkle_loop_nonempty [of xs] by (auto simp: length_Suc_conv)

section \<open>Properties\<close>

text \<open>A well-formed block serialised anywhere in a buffer deserialises to the same block, header
  and transactions, with the cursor right after its bytes.\<close>

theorem block_roundtrip:
  "wf_block blk \<Longrightarrow> CBlock_Deserialize (pre @ CBlock_Serialize blk @ post) (length pre)
     = Inr (blk, length pre + length (CBlock_Serialize blk))"
  by (erule block_codec.des_ser) (rule bytes_at_middle)

definition sample_block :: CBlock where
  "sample_block =
     \<lparr>nVersion = 1, hashPrevBlock = replicate 32 0, hashMerkleRoot = tx_hash sample_tx, nTime = 5,
      nBits = 0x207fffff, nNonce = 7, vtx = [sample_tx]\<rparr>"

lemma sample_block_wf: "wf_block sample_block"
  using sample_tx_wf by (simp add: sample_block_def wf_block_def wf_header_def sample_tx_def)

theorem block_roundtrip_witness:
  "CBlock_Deserialize ([] @ CBlock_Serialize sample_block @ [1, 2]) 0
     = Inr (sample_block, length (CBlock_Serialize sample_block))"
  using block_roundtrip [OF sample_block_wf, of "[]" "[1, 2]"] by simp

text \<open>C28: the layer-by-layer loop of BuildMerkleRoot computes the root of the binary hash tree over
  the transaction hashes in which a missing right subtree is a copy of its left sibling; an empty
  block has the all-zero root.\<close>

theorem merkle_root_is_tree_root:
  "BuildMerkleRoot blk =
     (if vtx blk = [] then replicate 32 0
      else tree_root (LEAST k. length (vtx blk) \<le> 2 ^ k) (map tx_hash (vtx blk)))"
proof (cases "vtx blk = []")
  case False
  define k where "k = (LEAST k. length (vtx blk) \<le> 2 ^ k)"
  have "length (vtx blk) \<le> 2 ^ length (vtx blk)"
    using less_exp [of "length (vtx blk)"] by simp
  then have "length (vtx blk) \<le> 2 ^ k" unfolding k_def by (rule LeastI)
  moreover have "k = 0 \<or> 2 ^ (k - 1) < length (vtx blk)"
    using not_less_Least [of "k - 1" "\<lambda>k. length (vtx blk) \<le> 2 ^ k"] unfolding k_def [symmetric]
    by (cases k) auto
  ultimately have "tree_height (length (map tx_hash (vtx blk))) k"
    using False by (simp add: tree_height_def)
  from merkle_loop_tree [OF this] False show ?thesis
    by (simp add: BuildMerkleRoot_def k_def)
qed (simp add: BuildMerkleRoot_def)

text \<open>C29: for a given number of transactions the Merkle root commits to the list: two blocks with
  equally many transactions have the same root exactly when they have the same transaction hashes in
  the same order, unless double SHA-256 collides on two of the node pairs the two computations hash.\<close>

theorem merkle_root_commits:
  assumes "length (vtx b1) = length (vtx b2)"
    and "list_all (\<lambda>tx. length (tx_hash tx) = 32) (vtx b1 @ vtx b2)"
    and "inj_on hash_double_sha256
           (set (merkle_inputs (map tx_hash (vtx b1))) \<union> set (merkle_inputs (map tx_hash (vtx b2))))"
  shows "BuildMerkleRoot b1 = BuildMerkleRoot b2 \<longleftrightarrow> map tx_hash (vtx b1) = map tx_hash (vtx b2)"
proof
  assume same: "BuildMerkleRoot b1 = BuildMerkleRoot b2"
  show "map tx_hash (vtx b1) = map tx_hash (vtx b2)"
  proof (cases "vtx b1 = []")
    case False
    then have "map tx_hash (vtx b1) \<noteq> []" "map tx_hash (vtx b2) \<noteq> []" using assms(1) by auto
    from merkle_loop_root [OF this(1)] merkle_loop_root [OF this(2)] same
    have "merkle_loop (map tx_hash (vtx b1)) = merkle_loop (map tx_hash (vtx b2))"
      by (auto simp: BuildMerkleRoot_def)
    moreover have "list_all (\<lambda>h. length h = 32) (map tx_hash (vtx b1))"
      "list_all (\<lambda>h. length h = 32) (map tx_hash (vtx b2))"
      using assms(2) by (simp_all add: list_all_iff)
    moreover have "length (map tx_hash (vtx b1)) = length (map tx_hash (vtx b2))"
      using assms(1) by simp
    ultimately show ?thesis using assms(3) merkle_loop_inject by blast
  qed (use assms(1) in simp)
qed (auto simp: BuildMerkleRoot_def)

text \<open>The duplication of an odd last node makes the root blind to a repeated last transaction:
  a block with an odd number (three or more) of transactions keeps its Merkle root, and so stays
  valid for IsMerkleRootValid, when its last transaction is appended once more.\<close>

theorem merkle_root_duplicate_last:
  assumes "odd (length (vtx blk))" and "1 < length (vtx blk)"
  shows "BuildMerkleRoot (blk\<lparr>vtx := vtx blk @ [last (vtx blk)]\<rparr>) = BuildMerkleRoot blk
    \<and> IsMerkleRootValid (blk\<lparr>vtx := vtx blk @ [last (vtx blk)]\<rparr>) = IsMerkleRootValid blk"
proof -
  have "vtx blk \<noteq> []" using assms(2) by auto
  then have "map tx_hash (vtx blk) @ [tx_hash (last (vtx blk))]
      = map tx_hash (vtx blk) @ [last (map tx_hash (vtx blk))]"
    by (simp add: last_map)
  with assms merkle_loop_dup_last [of "map tx_hash (vtx blk)"] show ?thesis
    by (simp add: BuildMerkleRoot_def IsMerkleRootValid_def)
qed

theorem merkle_root_duplicate_last_witness:
  "BuildMerkleRoot (sample_block\<lparr>vtx := [sample_tx, sample_tx, sample_tx, sample_tx]\<rparr>)
     = BuildMerkleRoot (sample_block\<lparr>vtx := [sample_tx, sample_tx, sample_tx]\<rparr>)"
  using merkle_root_duplicate_last [of "sample_block\<lparr>vtx := [sample_tx, sample_tx, sample_tx]\<rparr>"]
  by simp

end
