(* ===== verification/Storage.thy ===== *)
theory Storage
  imports Block
begin

text \<open>
  \<open>include/storage/storage.h\<close>: the chain, the UTXO set and the mempool as files, and the chain as
  the body of a CHAIN message. A disk is the content of the files that exist and which paths can
  be opened for writing; writing an open file is taken to succeed, but may be cut short when the
  process is stopped. Allocation failures of
  \<open>reserve\<close> with an absurd count are not modelled.
\<close>

record disk =
  files :: "string \<Rightarrow> bytes option"
  writable :: "string \<Rightarrow> bool"

definition read_file :: "disk \<Rightarrow> string \<Rightarrow> bytes result" where
  "read_file d path =
     (case files d path of
        None \<Rightarrow> Inl (Runtime_error (''read_file: cannot open '' @ path @ '' for reading''))
      | Some buffer \<Rightarrow> Inr buffer)"

text \<open>\<open>write_file\<close> opens the file, which empties it, and then puts the bytes; a process that is stopped in
  between leaves the file with a first part of them.\<close>

definition open_trunc :: "disk \<Rightarrow> string \<Rightarrow> disk result" where
  "open_trunc d path =
     (if \<not> writable d path
      then Inl (Runtime_error (''write_file: cannot open '' @ path @ '' for writing''))
      else Inr (d\<lparr>files := (files d)(path \<mapsto> [])\<rparr>))"

definition put_bytes :: "string \<Rightarrow> bytes \<Rightarrow> disk \<Rightarrow> disk" where
  "put_bytes path buffer d =
     d\<lparr>files := (files d)(path \<mapsto> (case files d path of None \<Rightarrow> [] | Some content \<Rightarrow> content) @ buffer)\<rparr>"

definition write_file :: "disk \<Rightarrow> string \<Rightarrow> bytes \<Rightarrow> disk result" where
  "write_file d path buffer = rbind (open_trunc d path) (\<lambda>d. Inr (put_bytes path buffer d))"

definition cut_write :: "disk \<Rightarrow> string \<Rightarrow> bytes \<Rightarrow> nat \<Rightarrow> disk result" where
  "cut_write d path buffer k = rbind (open_trunc d path) (\<lambda>d. Inr (put_bytes path (take k buffer) d))"

lemma write_file_eq:
  "write_file d path buffer =
     (if \<not> writable d path
      then Inl (Runtime_error (''write_file: cannot open '' @ path @ '' for writing''))
      else Inr (d\<lparr>files := (files d)(path \<mapsto> buffer)\<rparr>))"
  by (simp add: write_file_def open_trunc_def put_bytes_def)

lemma cut_write_eq: "cut_write d path buffer k = write_file d path (take k buffer)"
  by (simp add: cut_write_def write_file_def)

definition serialize_chain :: "CBlock list \<Rightarrow> bytes" where
  "serialize_chain chain =
     (let buffer = write_var_int32 [] (word_of_nat (length chain))
      in foldl (\<lambda>buf blk. buf @ CBlock_Serialize blk) buffer chain)"

definition deserialize_chain :: "bytes \<Rightarrow> CBlock list result" where
  "deserialize_chain buffer =
     rbind (read_var_int32 buffer 0) (\<lambda>(block_count, off).
     rbind (read_many (CBlock_Deserialize buffer) (unat block_count) off) (\<lambda>(chain, _).
     Inr chain))"

definition save_chain :: "CBlock list \<Rightarrow> string \<Rightarrow> disk \<Rightarrow> disk result" where
  "save_chain chain path d = write_file d path (serialize_chain chain)"

definition load_chain :: "disk \<Rightarrow> string \<Rightarrow> CBlock list result" where
  "load_chain d path = rbind (read_file d path) deserialize_chain"

definition utxo_entry_bytes :: "COutPoint \<times> CTxOut \<Rightarrow> bytes" where
  "utxo_entry_bytes = (\<lambda>(outpoint, txout). COutPoint_Serialize outpoint @ CTxOut_Serialize txout)"

definition read_utxo_entry :: "bytes \<Rightarrow> (COutPoint \<times> CTxOut) reader" where
  "read_utxo_entry buffer off =
     rbind (COutPoint_Deserialize buffer off) (\<lambda>(outpoint, off1).
     rbind (CTxOut_Deserialize buffer off1) (\<lambda>(txout, off2).
     Inr ((outpoint, txout), off2)))"

definition save_utxo_set :: "UtxoSet \<Rightarrow> string \<Rightarrow> disk \<Rightarrow> disk result" where
  "save_utxo_set utxos path d =
     (let buffer = write_var_int32 [] (word_of_nat (length utxos));
          buffer = foldl (\<lambda>buf e. buf @ utxo_entry_bytes e) buffer utxos
      in write_file d path buffer)"

text \<open>The loop reads and inserts entry by entry; a read that throws drops the map built so far.\<close>

definition load_utxo_set :: "disk \<Rightarrow> string \<Rightarrow> UtxoSet result" where
  "load_utxo_set d path =
     rbind (read_file d path) (\<lambda>buffer.
     rbind (read_var_int32 buffer 0) (\<lambda>(entry_count, off).
     rbind (read_many (read_utxo_entry buffer) (unat entry_count) off) (\<lambda>(entries, _).
     Inr (fold (\<lambda>(outpoint, txout). utxo_emplace outpoint txout) entries []))))"

definition save_mempool :: "Transaction list \<Rightarrow> string \<Rightarrow> disk \<Rightarrow> disk result" where
  "save_mempool mempool path d =
     (let buffer = write_var_int32 [] (word_of_nat (length mempool));
          buffer = foldl (\<lambda>buf tx. buf @ Transaction_Serialize tx) buffer mempool
      in write_file d path buffer)"

definition load_mempool :: "disk \<Rightarrow> string \<Rightarrow> Transaction list result" where
  "load_mempool d path =
     rbind (read_file d path) (\<lambda>buffer.
     rbind (read_var_int32 buffer 0) (\<lambda>(count, off).
     rbind (read_many (Transaction_Deserialize buffer) (unat count) off) (\<lambda>(mempool, _).
     Inr mempool)))"

section \<open>Count-prefixed sequences\<close>

context codec
begin

definition counted :: "'a list \<Rightarrow> bytes" where
  "counted xs = le32 (word_of_nat (length xs)) @ concat (map ser xs)"

lemma read_counted:
  assumes "list_all wf xs" and "length xs < 2 ^ 32"
  shows "read_var_int32 (counted xs) 0 = Inr (word_of_nat (length xs), 4)"
    and "read_many (des (counted xs)) (length xs) 4 = Inr (xs, length (counted xs))"
    and "unat (word_of_nat (length xs) :: u32) = length xs"
proof -
  have "bytes_at (counted xs) 0 (le32 (word_of_nat (length xs)))"
    "bytes_at (counted xs) 4 (concat (map ser xs))"
    using bytes_at_whole [of "counted xs"] unfolding counted_def bytes_at_append by simp_all
  then show "read_var_int32 (counted xs) 0 = Inr (word_of_nat (length xs), 4)"
    and "read_many (des (counted xs)) (length xs) 4 = Inr (xs, length (counted xs))"
    using read_var_int32_at read_many_ser [OF assms(1)] by (fastforce simp: counted_def)+
  show "unat (word_of_nat (length xs) :: u32) = length xs"
    using assms(2) by (rule word_of_nat_inverse32)
qed

lemma read_counted_sound:
  assumes "read_var_int32 buf 0 = Inr (k, off)" and "read_many (des buf) (unat k) off = Inr (xs, off')"
  shows "list_all wf xs \<and> length xs < 2 ^ 32 \<and> bytes_at buf 0 (counted xs)"
proof -
  from read_var_int32_sound [OF assms(1)] have k: "bytes_at buf 0 (le32 k)" "off = 4" by simp_all
  then have "off \<le> length buf" using bytes_at_bound by fastforce
  from read_many_sound [OF assms(2) this] have "list_all wf xs" "length xs = unat k"
    "bytes_at buf 4 (concat (map ser xs))" by (simp_all add: k)
  with k(1) show ?thesis by (simp add: counted_def bytes_at_append)
qed

end

interpretation utxo_entry_codec:
  codec utxo_entry_bytes read_utxo_entry "\<lambda>(p, t). wf_outpoint p \<and> wf_txout t"
  by unfold_locales
    (auto simp: utxo_entry_bytes_def read_utxo_entry_def bytes_at_append outpoint_codec.des_ser
      txout_codec.des_ser elim!: rbindE dest!: outpoint_codec.des_sound txout_codec.des_sound)

lemma serialize_chain_eq: "serialize_chain chain = block_codec.counted chain"
  by (simp add: serialize_chain_def block_codec.counted_def Let_def write_var_int32_eq foldl_append_concat)

lemma save_utxo_set_eq: "save_utxo_set utxos path d = write_file d path (utxo_entry_codec.counted utxos)"
  by (simp add: save_utxo_set_def utxo_entry_codec.counted_def Let_def write_var_int32_eq foldl_append_concat)

lemma save_mempool_eq: "save_mempool txs path d = write_file d path (tx_codec.counted txs)"
  by (simp add: save_mempool_def tx_codec.counted_def Let_def write_var_int32_eq foldl_append_concat)

lemma read_write_file:
  "write_file d path buffer = Inr d' \<Longrightarrow>
     read_file d' path = Inr buffer \<and> (\<forall>p. p \<noteq> path \<longrightarrow> read_file d' p = read_file d p)"
  by (auto simp: write_file_eq read_file_def split: if_splits)

lemma deserialize_serialize_chain:
  "list_all wf_block chain \<Longrightarrow> length chain < 2 ^ 32 \<Longrightarrow> deserialize_chain (serialize_chain chain) = Inr chain"
  using block_codec.read_counted [of chain] by (simp add: deserialize_chain_def serialize_chain_eq)

lemma deserialize_chain_wf: "deserialize_chain buf = Inr chain \<Longrightarrow> list_all wf_block chain"
  by (auto simp: deserialize_chain_def elim!: rbindE dest: block_codec.read_counted_sound)

section \<open>Round trips through the disk\<close>

definition empty_disk :: disk where
  "empty_disk = \<lparr>files = Map.empty, writable = \<lambda>_. True\<rparr>"

lemma write_empty_disk: "\<exists>d'. write_file empty_disk path buffer = Inr d'"
  by (simp add: write_file_eq empty_disk_def)

lemma load_saved_chain:
  assumes "list_all wf_block chain" and "length chain < 2 ^ 32" and "save_chain chain path d = Inr d'"
  shows "load_chain d' path = Inr chain \<and> (\<forall>p. p \<noteq> path \<longrightarrow> read_file d' p = read_file d p)"
  using read_write_file [of d path "serialize_chain chain" d'] deserialize_serialize_chain [OF assms(1,2)] assms(3)
  by (simp add: save_chain_def load_chain_def)

text \<open>C32: A saved chain loads back block for block, and saving it leaves every other file alone.\<close>

theorem load_save_chain:
  assumes "list_all wf_block chain" and "length chain < 2 ^ 32" and "save_chain chain path d = Inr d'"
  shows "load_chain d' path = Inr chain \<and> (\<forall>p. p \<noteq> path \<longrightarrow> read_file d' p = read_file d p)"
  using assms by (rule load_saved_chain)

lemma load_save_chain_witness:
  "\<exists>d'. save_chain [sample_block] ''chain.dat'' empty_disk = Inr d'
     \<and> load_chain d' ''chain.dat'' = Inr [sample_block]"
proof -
  obtain d' where d': "save_chain [sample_block] ''chain.dat'' empty_disk = Inr d'"
    using write_empty_disk unfolding save_chain_def by blast
  from load_save_chain [OF _ _ this] sample_block_wf d' show ?thesis by auto
qed

text \<open>A saved UTXO set loads back as the same map from outpoints to outputs.\<close>

theorem load_save_utxo_set:
  assumes "list_all (\<lambda>(p, t). wf_outpoint p \<and> wf_txout t) utxos" and "length utxos < 2 ^ 32"
    and "utxo_distinct utxos" and "save_utxo_set utxos path d = Inr d'"
  shows "\<exists>loaded. load_utxo_set d' path = Inr loaded \<and> utxo_distinct loaded
    \<and> utxo_find loaded = utxo_find utxos"
proof -
  let ?l = "fold (\<lambda>(p, t). utxo_emplace p t) utxos []"
  have "read_file d' path = Inr (utxo_entry_codec.counted utxos)"
    using read_write_file assms(4) unfolding save_utxo_set_eq by blast
  then have "load_utxo_set d' path = Inr ?l"
    using utxo_entry_codec.read_counted [OF assms(1,2)] by (simp add: load_utxo_set_def)
  moreover have "utxo_distinct ?l"
    using utxos.invar_fold_emplace [of "[]" utxos] by (simp add: utxo_distinct_def)
  moreover have "utxo_find ?l q = utxo_find utxos q" for q
    by (simp add: utxos.find_fold_emplace utxo_find_def [of "[]"] utxo_find_def [of utxos])
  ultimately show ?thesis by blast
qed

lemma load_save_utxo_set_witness:
  "\<exists>d' loaded. save_utxo_set [(COutPoint (replicate 32 1) 0, \<lparr>nValue = 5000, scriptPubKey = []\<rparr>)]
        ''utxo.dat'' empty_disk = Inr d'
     \<and> load_utxo_set d' ''utxo.dat'' = Inr loaded
     \<and> utxo_find loaded (COutPoint (replicate 32 1) 0) = Some \<lparr>nValue = 5000, scriptPubKey = []\<rparr>"
proof -
  let ?u = "[(COutPoint (replicate 32 1) 0, \<lparr>nValue = 5000, scriptPubKey = []\<rparr>)]"
  obtain d' where d': "save_utxo_set ?u ''utxo.dat'' empty_disk = Inr d'"
    using write_empty_disk unfolding save_utxo_set_eq by blast
  have "\<exists>loaded. load_utxo_set d' ''utxo.dat'' = Inr loaded \<and> utxo_distinct loaded
      \<and> utxo_find loaded = utxo_find ?u"
    by (rule load_save_utxo_set [OF _ _ _ d']) (simp_all add: wf_defs utxo_distinct_def)
  moreover have "utxo_find ?u (COutPoint (replicate 32 1) 0) = Some \<lparr>nValue = 5000, scriptPubKey = []\<rparr>"
    by (simp add: utxo_find_def)
  ultimately show ?thesis using d' by metis
qed

text \<open>A saved mempool loads back transaction by transaction, in order.\<close>

theorem load_save_mempool:
  assumes "list_all wf_tx mempool" and "length mempool < 2 ^ 32" and "save_mempool mempool path d = Inr d'"
  shows "load_mempool d' path = Inr mempool"
proof -
  have "read_file d' path = Inr (tx_codec.counted mempool)"
    using read_write_file assms(3) unfolding save_mempool_eq by blast
  then show ?thesis using tx_codec.read_counted [OF assms(1,2)] by (simp add: load_mempool_def)
qed

lemma load_save_mempool_witness:
  "\<exists>d'. save_mempool [sample_tx] ''mempool.dat'' empty_disk = Inr d'
     \<and> load_mempool d' ''mempool.dat'' = Inr [sample_tx]"
proof -
  obtain d' where d': "save_mempool [sample_tx] ''mempool.dat'' empty_disk = Inr d'"
    using write_empty_disk unfolding save_mempool_eq by blast
  from load_save_mempool [OF _ _ this] sample_tx_wf d' show ?thesis by auto
qed

end
