(* ===== verification/Network.thy ===== *)
theory Network
  imports Serializer Crypto "HOL-Library.Sublist"
begin

text \<open>
  \<open>include/network/socket.h\<close>, \<open>message.h\<close>, \<open>peer.h\<close>: exact sends and receives over partial ones,
  and message framing. A connection is what the peer has sent and we have not yet received, what
  we have sent, and how many bytes the next \<open>recv\<close> and \<open>send\<close> calls move at most (0 stands for
  an error); when such a list is used up, a call moves all it can. A \<open>recv\<close> with nothing left
  returns 0, the peer having closed the connection; \<open>waited\<close> keeps what had been sent when this
  happened first, which no function of the program reads (see \<open>Dialogue\<close>). A \<open>send\<close> to a peer that has
  closed is an error here; the program passes no flag and installs no handler against the signal SIGPIPE, so on POSIX it
  ends the process, which is not modelled.
\<close>

section \<open>Sockets\<close>

record conn =
  inbox :: bytes
  recv_sizes :: "nat list"
  outbox :: bytes
  send_sizes :: "nat list"
  waited :: "bytes option"

definition next_size :: "nat list \<Rightarrow> nat \<Rightarrow> nat" where
  "next_size sizes len = (case sizes of [] \<Rightarrow> len | s # _ \<Rightarrow> min s len)"

definition sys_recv :: "conn \<Rightarrow> nat \<Rightarrow> bytes \<times> conn" where
  "sys_recv c len =
     (let chunk = take (next_size (recv_sizes c) len) (inbox c)
      in (chunk, c\<lparr>inbox := drop (length chunk) (inbox c), recv_sizes := tl (recv_sizes c),
           waited := (if inbox c = [] \<and> waited c = None then Some (outbox c) else waited c)\<rparr>))"

definition sys_send :: "conn \<Rightarrow> bytes \<Rightarrow> nat \<times> conn" where
  "sys_send c data =
     (let chunk = take (next_size (send_sizes c) (length data)) data
      in (length chunk, c\<lparr>outbox := outbox c @ chunk, send_sizes := tl (send_sizes c)\<rparr>))"

text \<open>\<open>send_all\<close> from position \<open>sent_total\<close>, \<open>recv_exact\<close> with \<open>received\<close> in the buffer.\<close>

function send_loop :: "conn \<Rightarrow> bytes \<Rightarrow> nat \<Rightarrow> bool \<times> conn" where
  "send_loop c data sent_total =
     (if sent_total < length data then
        (let (chunk, c) = sys_send c (drop sent_total data)
         in if chunk = 0 then (False, c) else send_loop c data (sent_total + chunk))
      else (True, c))"
  by pat_completeness auto
termination
  by (relation "measure (\<lambda>(_, data, n). length data - n)") auto

definition send_all :: "conn \<Rightarrow> bytes \<Rightarrow> bool \<times> conn" where
  "send_all c data = send_loop c data 0"

function recv_loop :: "conn \<Rightarrow> nat \<Rightarrow> bytes \<Rightarrow> bytes option \<times> conn" where
  "recv_loop c len received =
     (if length received < len then
        (let (chunk, c) = sys_recv c (len - length received)
         in if chunk = [] then (None, c) else recv_loop c len (received @ chunk))
      else (Some received, c))"
  by pat_completeness auto
termination
  by (relation "measure (\<lambda>(_, len, r). len - length r)") (auto simp: neq_Nil_conv)

definition recv_exact :: "conn \<Rightarrow> nat \<Rightarrow> bytes option \<times> conn" where
  "recv_exact c len = recv_loop c len []"

declare send_loop.simps [simp del] recv_loop.simps [simp del]

section \<open>Messages\<close>

definition MAGIC_BYTES :: bytes where
  "MAGIC_BYTES = string_bytes ''SILQ''"

definition COMMAND_SIZE :: nat where "COMMAND_SIZE = 12"
definition HEADER_SIZE :: nat where "HEADER_SIZE = 4 + COMMAND_SIZE + 4 + 4"
definition MAX_PAYLOAD_SIZE :: u32 where "MAX_PAYLOAD_SIZE = 4 * 1024 * 1024"
definition PROTOCOL_VERSION :: u32 where "PROTOCOL_VERSION = 1"

definition cmd_VERSION :: string where "cmd_VERSION = ''version''"
definition cmd_VERACK :: string where "cmd_VERACK = ''verack''"
definition cmd_INV :: string where "cmd_INV = ''inv''"
definition cmd_GETDATA :: string where "cmd_GETDATA = ''getdata''"
definition cmd_BLOCK :: string where "cmd_BLOCK = ''block''"
definition cmd_TX :: string where "cmd_TX = ''tx''"
definition cmd_GETBLOCKS :: string where "cmd_GETBLOCKS = ''getblocks''"
definition cmd_CHAIN :: string where "cmd_CHAIN = ''chain''"

record Message =
  m_command :: string
  m_payload :: bytes

definition build_version_payload :: bytes where
  "build_version_payload = write_uint_32LE [] PROTOCOL_VERSION"

definition command_field :: "string \<Rightarrow> bytes" where
  "command_field cmd =
     (let taken = take (min (length cmd) COMMAND_SIZE) (string_bytes cmd)
      in taken @ replicate (COMMAND_SIZE - length taken) 0)"

text \<open>The buffer \<open>send_message\<close> builds, and the call.\<close>

definition message_bytes :: "string \<Rightarrow> bytes \<Rightarrow> bytes" where
  "message_bytes cmd payload =
     (let buffer = write_bytes [] MAGIC_BYTES (length MAGIC_BYTES);
          cmd_field = command_field cmd;
          buffer = write_bytes buffer cmd_field (length cmd_field);
          buffer = write_uint_32LE buffer (word_of_nat (length payload));
          hash = hash_double_sha256 payload;
          buffer = write_bytes buffer hash 4
      in buffer @ payload)"

definition send_message :: "conn \<Rightarrow> string \<Rightarrow> bytes \<Rightarrow> bool \<times> conn" where
  "send_message c cmd payload = send_all c (message_bytes cmd payload)"

definition bytes_string :: "bytes \<Rightarrow> string" where
  "bytes_string bs = map (\<lambda>b. char_of (unat b)) bs"

text \<open>The fields of a header: command, payload length, checksum.\<close>

definition parse_header :: "bytes \<Rightarrow> (string \<times> u32 \<times> bytes) result" where
  "parse_header header =
     rbind (read_bytes header (length MAGIC_BYTES) COMMAND_SIZE) (\<lambda>(cmd_bytes, off1).
     (let raw_cmd = bytes_string cmd_bytes;
          cmd = takeWhile (\<lambda>ch. ch \<noteq> char_of (0 :: nat)) raw_cmd
      in rbind (read_uint_32LE header off1) (\<lambda>(len, off2).
         Inr (cmd, len, slice header off2 4))))"

text \<open>\<open>None\<close> is the return value \<open>false\<close>.\<close>

definition receive_message :: "conn \<Rightarrow> (Message option \<times> conn) result" where
  "receive_message c =
     (case recv_exact c HEADER_SIZE of
        (None, c) \<Rightarrow> Inr (None, c)
      | (Some header, c) \<Rightarrow>
          if take (length MAGIC_BYTES) header \<noteq> MAGIC_BYTES then Inr (None, c)
          else
            rbind (parse_header header) (\<lambda>(cmd, len, checksum).
            if len > MAX_PAYLOAD_SIZE then Inr (None, c)
            else
              (case (if len > 0 then recv_exact c (unat len) else (Some [], c)) of
                 (None, c) \<Rightarrow> Inr (None, c)
               | (Some payload, c) \<Rightarrow>
                   if checksum \<noteq> take 4 (hash_double_sha256 payload) then Inr (None, c)
                   else Inr (Some \<lparr>m_command = cmd, m_payload = payload\<rparr>, c))))"

text \<open>\<open>Peer\<close> forwards to these.\<close>

definition Peer_Send :: "conn \<Rightarrow> string \<Rightarrow> bytes \<Rightarrow> bool \<times> conn" where
  "Peer_Send peer cmd payload = send_message peer cmd payload"

definition Peer_Receive :: "conn \<Rightarrow> (Message option \<times> conn) result" where
  "Peer_Receive peer = receive_message peer"

section \<open>Exact transfers\<close>

abbreviation no_errors :: "nat list \<Rightarrow> bool" where
  "no_errors sizes \<equiv> list_all (\<lambda>s. 0 < s) sizes"

lemma next_size_le: "next_size sizes k \<le> k"
  by (simp add: next_size_def split: list.splits)

lemma next_size_pos: "no_errors sizes \<Longrightarrow> 0 < k \<Longrightarrow> 0 < next_size sizes k"
  by (auto simp: next_size_def split: list.splits)

lemma no_errors_tl: "no_errors sizes \<Longrightarrow> no_errors (tl sizes)"
  by (cases sizes) simp_all

lemma recv_loop_enough:
  "inbox c = bs @ rest \<Longrightarrow> length received + length bs = len \<Longrightarrow> no_errors (recv_sizes c) \<Longrightarrow>
     \<exists>sizes. recv_loop c len received = (Some (received @ bs), c\<lparr>inbox := rest, recv_sizes := sizes\<rparr>)
        \<and> no_errors sizes"
proof (induction c len received arbitrary: bs rule: recv_loop.induct)
  case (1 c len received)
  show ?case
  proof (cases "bs = []")
    case True
    with "1.prems" show ?thesis
      by (intro exI [of _ "recv_sizes c"]) (simp add: recv_loop.simps)
  next
    case False
    define k where "k = next_size (recv_sizes c) (len - length received)"
    define c1 where "c1 = c\<lparr>inbox := drop k (inbox c), recv_sizes := tl (recv_sizes c)\<rparr>"
    have k: "0 < k" "k \<le> length bs"
      using next_size_pos [OF "1.prems"(3)] next_size_le [of "recv_sizes c"] "1.prems"(2) False
      by (auto simp: k_def)
    have step: "sys_recv c (len - length received) = (take k bs, c1)"
      using k "1.prems"(1) False by (simp add: sys_recv_def Let_def k_def [symmetric] c1_def)
    have "take k bs \<noteq> []" using k by auto
    from "1.IH" [OF _ step [symmetric] refl this, of "drop k bs"] "1.prems" False k
    obtain sizes where "recv_loop c1 len (received @ take k bs)
        = (Some ((received @ take k bs) @ drop k bs), c1\<lparr>inbox := rest, recv_sizes := sizes\<rparr>)" "no_errors sizes"
      by (auto simp: c1_def no_errors_tl)
    moreover have "length received < len" using False "1.prems"(2) by auto
    ultimately show ?thesis using step \<open>take k bs \<noteq> []\<close>
      by (intro exI [of _ sizes]) (simp add: recv_loop.simps [of c] c1_def)
  qed
qed

lemma recv_exact_enough:
  assumes "inbox c = bs @ rest" and "length bs = len" and "no_errors (recv_sizes c)"
  obtains sizes where "recv_exact c len = (Some bs, c\<lparr>inbox := rest, recv_sizes := sizes\<rparr>)" "no_errors sizes"
  using recv_loop_enough [of c bs rest "[]" len] assms by (auto simp: recv_exact_def)

lemma recv_loop_sound:
  "recv_loop c len received = (Some r, c') \<Longrightarrow> length received \<le> len \<Longrightarrow>
     \<exists>bs. r = received @ bs \<and> length r = len \<and> inbox c = bs @ inbox c'"
proof (induction c len received rule: recv_loop.induct)
  case (1 c len received)
  show ?case
  proof (cases "length received < len")
    case False
    with "1.prems" show ?thesis by (simp add: recv_loop.simps [of c])
  next
    case True
    define k where "k = next_size (recv_sizes c) (len - length received)"
    obtain chunk c1 where step: "sys_recv c (len - length received) = (chunk, c1)" by fastforce
    then have ch: "chunk = take k (inbox c)" "inbox c1 = drop (length chunk) (inbox c)"
      by (auto simp: sys_recv_def Let_def k_def)
    have "k \<le> len - length received" by (simp add: k_def next_size_le)
    then have fits: "length (received @ chunk) \<le> len" using True ch by auto
    from True step "1.prems" have ne: "chunk \<noteq> []" and rest: "recv_loop c1 len (received @ chunk) = (Some r, c')"
      by (simp_all add: recv_loop.simps [of c] split: if_splits)
    from "1.IH" [OF True step [symmetric] refl ne rest fits] obtain bs where
      "r = (received @ chunk) @ bs" "length r = len" "inbox c1 = bs @ inbox c'" by blast
    moreover from ch have "inbox c = chunk @ inbox c1" by (simp add: min_def)
    ultimately show ?thesis by (intro exI [of _ "chunk @ bs"]) simp
  qed
qed

lemma recv_exact_sound:
  "recv_exact c len = (Some r, c') \<Longrightarrow> length r = len \<and> inbox c = r @ inbox c'"
  using recv_loop_sound [of c len "[]" r c'] by (simp add: recv_exact_def)

lemma send_loop_result:
  "sent \<le> length data \<Longrightarrow> send_loop c data sent = (ok, c') \<Longrightarrow>
     \<exists>k. sent \<le> k \<and> k \<le> length data \<and> outbox c' = outbox c @ slice data sent (k - sent)
       \<and> inbox c' = inbox c \<and> (ok \<longleftrightarrow> k = length data)"
proof (induction c data sent rule: send_loop.induct)
  case (1 c data sent)
  show ?case
  proof (cases "sent < length data")
    case False
    with "1.prems" show ?thesis by (intro exI [of _ sent]) (auto simp: send_loop.simps [of c])
  next
    case True
    define k where "k = next_size (send_sizes c) (length (drop sent data))"
    define c1 where "c1 = c\<lparr>outbox := outbox c @ take k (drop sent data), send_sizes := tl (send_sizes c)\<rparr>"
    have k: "k \<le> length data - sent" using next_size_le [of "send_sizes c"] by (simp add: k_def)
    then have step: "sys_send c (drop sent data) = (k, c1)"
      unfolding sys_send_def Let_def k_def [symmetric] c1_def by simp
    show ?thesis
    proof (cases "k = 0")
      case z: True
      with True step "1.prems" show ?thesis
        by (intro exI [of _ sent]) (auto simp: send_loop.simps [of c] c1_def)
    next
      case False
      with True step "1.prems"(2) have rest: "send_loop c1 data (sent + k) = (ok, c')"
        by (simp add: send_loop.simps [of c])
      have "sent + k \<le> length data" using k True by linarith
      from "1.IH" [OF True step [symmetric] refl False this rest] obtain k' where
        k': "sent + k \<le> k'" "k' \<le> length data" "outbox c' = outbox c1 @ slice data (sent + k) (k' - (sent + k))"
        "inbox c' = inbox c1" "ok \<longleftrightarrow> k' = length data" by blast
      have "slice data sent (k' - sent) = take k (drop sent data) @ slice data (sent + k) (k' - (sent + k))"
      proof -
        have "k' - sent = k + (k' - (sent + k))" using k' by simp
        then show ?thesis unfolding slice_def by (metis add.commute drop_drop take_add)
      qed
      with k' show ?thesis by (intro exI [of _ k']) (simp add: c1_def)
    qed
  qed
qed

section \<open>Frames\<close>

definition frame_header :: "bytes \<Rightarrow> bytes \<Rightarrow> bytes" where
  "frame_header cf payload =
     MAGIC_BYTES @ cf @ le32 (word_of_nat (length payload)) @ take 4 (hash_double_sha256 payload)"

lemma length_MAGIC [simp]: "length MAGIC_BYTES = 4"
  by (simp add: MAGIC_BYTES_def string_bytes_def)

lemma length_command_field [simp]: "length (command_field cmd) = 12"
  by (simp add: command_field_def COMMAND_SIZE_def Let_def string_bytes_def)

lemma message_bytes_eq: "message_bytes cmd payload = frame_header (command_field cmd) payload @ payload"
  by (simp add: message_bytes_def frame_header_def Let_def write_bytes_def write_uint_32LE_eq)

lemma length_frame_header: "length cf = 12 \<Longrightarrow> length (frame_header cf payload) = HEADER_SIZE"
  by (simp add: frame_header_def HEADER_SIZE_def COMMAND_SIZE_def)

lemma parse_header_parts:
  assumes "length cf = 12" and "length cs = 4"
  shows "parse_header (MAGIC_BYTES @ cf @ le32 k @ cs)
    = Inr (takeWhile (\<lambda>ch. ch \<noteq> char_of (0 :: nat)) (bytes_string cf), k, cs)"
proof -
  let ?h = "MAGIC_BYTES @ cf @ le32 k @ cs"
  have at: "bytes_at ?h 4 cf" "bytes_at ?h 16 (le32 k)" "bytes_at ?h 20 cs"
    using bytes_at_whole [of ?h] unfolding bytes_at_append by (simp_all add: assms)
  have "slice ?h 20 4 = cs" using at(3) assms(2) by (simp add: bytes_at_def)
  with read_bytes_at [OF at(1)] u32_codec.des_ser [OF _ at(2)] assms(1) show ?thesis
    by (simp add: parse_header_def COMMAND_SIZE_def)
qed

lemma four_bytes_le32: "length bs = 4 \<Longrightarrow> \<exists>k. bs = le32 k"
proof -
  assume "length bs = 4"
  then obtain a b c d where "bs = [a, b, c, d]" by (auto simp: numeral_eq_Suc length_Suc_conv)
  then show ?thesis by (metis le32_join32)
qed

lemma header_parts:
  assumes "length h = HEADER_SIZE" and "take (length MAGIC_BYTES) h = MAGIC_BYTES"
  obtains cf k cs where "h = MAGIC_BYTES @ cf @ le32 k @ cs" "length cf = 12" "length cs = 4"
proof -
  have len: "length h = 24" using assms(1) by (simp add: HEADER_SIZE_def COMMAND_SIZE_def)
  have "take 12 (drop 4 h) @ drop 12 (drop 4 h) = drop 4 h" "take 4 (drop 16 h) @ drop 4 (drop 16 h) = drop 16 h"
    by (simp_all only: append_take_drop_id)
  then have "take 12 (drop 4 h) @ drop 16 h = drop 4 h" "take 4 (drop 16 h) @ drop 20 h = drop 16 h"
    by simp_all
  then have h: "h = take 4 h @ take 12 (drop 4 h) @ take 4 (drop 16 h) @ drop 20 h"
    by (simp only: append_take_drop_id)
  obtain k where "take 4 (drop 16 h) = le32 k" using four_bytes_le32 [of "take 4 (drop 16 h)"] len by auto
  with h len assms(2) show ?thesis by (intro that [of "take 12 (drop 4 h)" k "drop 20 h"]) auto
qed

lemma char_byte_char [simp]: "char_of (unat (of_char c :: byte)) = c"
proof -
  have "unat (of_char c :: byte) = of_char c mod 256"
    using unat_of_nat [of "of_char c", where 'a = 8] by (simp add: of_nat_of_char)
  then show ?thesis by simp
qed

definition command_ok :: "string \<Rightarrow> bool" where
  "command_ok cmd \<longleftrightarrow> length cmd \<le> COMMAND_SIZE \<and> list_all (\<lambda>ch. ch \<noteq> char_of (0 :: nat)) cmd"

lemma command_field_read:
  assumes "command_ok cmd"
  shows "takeWhile (\<lambda>ch. ch \<noteq> char_of (0 :: nat)) (bytes_string (command_field cmd)) = cmd"
proof -
  have "bytes_string (command_field cmd) = cmd @ replicate (12 - length cmd) (char_of (0 :: nat))"
    using assms by (simp add: command_ok_def command_field_def COMMAND_SIZE_def Let_def string_bytes_def
        bytes_string_def comp_def)
  moreover have "takeWhile (\<lambda>ch. ch \<noteq> char_of (0 :: nat)) (replicate (12 - length cmd) (char_of (0 :: nat))) = []"
    by (cases "12 - length cmd") simp_all
  ultimately show ?thesis using assms by (simp add: command_ok_def list_all_iff takeWhile_append2)
qed

section \<open>Messages across a connection\<close>

text \<open>The header part of \<open>receive_message\<close> on a well-formed header.\<close>

lemma receive_message_header:
  assumes "recv_exact c HEADER_SIZE = (Some (MAGIC_BYTES @ cf @ le32 k @ cs), c1)"
    and "length cf = 12" and "length cs = 4"
  shows "receive_message c =
    (if k > MAX_PAYLOAD_SIZE then Inr (None, c1)
     else (case (if k > 0 then recv_exact c1 (unat k) else (Some [], c1)) of
         (None, c) \<Rightarrow> Inr (None, c)
       | (Some payload, c) \<Rightarrow>
           if cs \<noteq> take 4 (hash_double_sha256 payload) then Inr (None, c)
           else Inr (Some \<lparr>m_command = takeWhile (\<lambda>ch. ch \<noteq> char_of (0 :: nat)) (bytes_string cf),
             m_payload = payload\<rparr>, c)))"
  using assms by (simp add: receive_message_def parse_header_parts)

lemma not_gt_0_unat: "\<not> 0 < (k :: u32) \<Longrightarrow> unat k = 0"
  by (simp add: word_gt_0)

lemma payload_receive:
  fixes k :: u32
  assumes "inbox c = payload @ rest" and "no_errors (recv_sizes c)" and "unat k = length payload"
  obtains sizes where "(if k > 0 then recv_exact c (unat k) else (Some [], c))
    = (Some payload, c\<lparr>inbox := rest, recv_sizes := sizes\<rparr>)" "no_errors sizes"
proof (cases "k > 0")
  case True
  from recv_exact_enough [OF assms(1) assms(3) [symmetric] assms(2)] obtain sizes where
    "recv_exact c (unat k) = (Some payload, c\<lparr>inbox := rest, recv_sizes := sizes\<rparr>)" "no_errors sizes" .
  with True that show ?thesis by simp
next
  case False
  with assms(3) have "payload = []" using not_gt_0_unat by simp
  with False assms that [of "recv_sizes c"] show ?thesis by simp
qed

lemma receive_frame_sizes:
  assumes "inbox c = message_bytes cmd payload @ rest" and "no_errors (recv_sizes c)"
    and "command_ok cmd" and "length payload \<le> unat MAX_PAYLOAD_SIZE"
  shows "\<exists>sizes. receive_message c
    = Inr (Some \<lparr>m_command = cmd, m_payload = payload\<rparr>, c\<lparr>inbox := rest, recv_sizes := sizes\<rparr>) \<and> no_errors sizes"
proof -
  let ?h = "frame_header (command_field cmd) payload"
  let ?k = "word_of_nat (length payload) :: u32"
  have len: "length payload \<le> 4194304" using assms(4) by (simp add: MAX_PAYLOAD_SIZE_def)
  then have k: "unat ?k = length payload" by (simp add: word_of_nat_inverse32)
  then have small: "\<not> ?k > MAX_PAYLOAD_SIZE" using assms(4) by (simp add: word_less_nat_alt not_less)
  from recv_exact_enough [of c ?h "payload @ rest" HEADER_SIZE] assms(1,2) obtain sizes1 where
    r1: "recv_exact c HEADER_SIZE = (Some ?h, c\<lparr>inbox := payload @ rest, recv_sizes := sizes1\<rparr>)" "no_errors sizes1"
    by (auto simp: message_bytes_eq length_frame_header)
  from payload_receive [of "c\<lparr>inbox := payload @ rest, recv_sizes := sizes1\<rparr>" payload rest ?k] r1(2) k
  obtain sizes2 where r2: "(if ?k > 0 then recv_exact (c\<lparr>inbox := payload @ rest, recv_sizes := sizes1\<rparr>) (unat ?k)
      else (Some [], c\<lparr>inbox := payload @ rest, recv_sizes := sizes1\<rparr>))
    = (Some payload, c\<lparr>inbox := rest, recv_sizes := sizes2\<rparr>)" "no_errors sizes2" by auto
  show ?thesis
    unfolding receive_message_header [OF r1(1) [unfolded frame_header_def] length_command_field, simplified] r2(1)
    using small r2(2) by (auto simp: command_field_read [OF assms(3)])
qed

text \<open>C27: A message sent is the message received, however TCP cuts the stream into pieces: for a payload of
  at most 4 MiB and a command of at most 12 characters, none of them zero, when the bytes of
  \<open>send_message\<close> come first in the stream and no \<open>recv\<close> fails, \<open>receive_message\<close> returns that command
  and payload and leaves the rest of the stream unread. (A larger payload is always dropped, see
  \<open>oversized_message_dropped\<close>.)\<close>

theorem receive_sent_message:
  assumes "inbox c = message_bytes cmd payload @ rest" and "no_errors (recv_sizes c)"
    and "command_ok cmd" and "length payload \<le> unat MAX_PAYLOAD_SIZE"
  shows "\<exists>sizes. receive_message c
    = Inr (Some \<lparr>m_command = cmd, m_payload = payload\<rparr>, c\<lparr>inbox := rest, recv_sizes := sizes\<rparr>)"
  using receive_frame_sizes [OF assms] by blast

lemma receive_sent_message_witness:
  "\<exists>sizes. receive_message \<lparr>inbox = message_bytes ''verack'' [] @ [1, 2], recv_sizes = [5, 1, 30], outbox = [], send_sizes = [], waited = None\<rparr>
     = Inr (Some \<lparr>m_command = ''verack'', m_payload = []\<rparr>,
         \<lparr>inbox = [1, 2], recv_sizes = sizes, outbox = [], send_sizes = [], waited = None\<rparr>)"
proof -
  have "command_ok ''verack''" by code_simp
  with receive_sent_message [of "\<lparr>inbox = message_bytes ''verack'' [] @ [1, 2], recv_sizes = [5, 1, 30],
      outbox = [], send_sizes = [], waited = None\<rparr>" "''verack''" "[]" "[1, 2]"]
  show ?thesis by simp
qed

text \<open>The sender puts no bound on a payload that the receiver bounds at 4 MiB: a frame with a larger
  payload (and less than 4 GiB) is sent, but the receiver always drops it. A chain of more than 4 MiB
  can never be handed over for fork resolution.\<close>

theorem oversized_message_dropped:
  assumes "inbox c = message_bytes cmd payload @ rest"
    and "unat MAX_PAYLOAD_SIZE < length payload" and "length payload < 2 ^ 32"
  shows "\<exists>c'. receive_message c = Inr (None, c')"
proof -
  let ?k = "word_of_nat (length payload) :: u32"
  have big: "?k > MAX_PAYLOAD_SIZE"
    using assms(2,3) by (simp add: word_less_nat_alt word_of_nat_inverse32)
  obtain h c1 where r1: "recv_exact c HEADER_SIZE = (h, c1)" by fastforce
  show ?thesis
  proof (cases h)
    case None
    with r1 show ?thesis by (simp add: receive_message_def)
  next
    case (Some hd)
    from recv_exact_sound [OF r1 [unfolded Some]] assms(1) have
      "hd = frame_header (command_field cmd) payload"
      by (auto simp: message_bytes_eq append_eq_append_conv length_frame_header)
    with r1 Some have "recv_exact c HEADER_SIZE
        = (Some (MAGIC_BYTES @ command_field cmd @ le32 ?k @ take 4 (hash_double_sha256 payload)), c1)"
      by (simp add: frame_header_def)
    from receive_message_header [OF this] big show ?thesis by simp
  qed
qed

lemma oversized_message_dropped_witness:
  "\<exists>c'. receive_message \<lparr>inbox = message_bytes cmd_CHAIN (replicate 4194305 0), recv_sizes = [], outbox = [], send_sizes = [], waited = None\<rparr>
     = Inr (None, c')"
  by (rule oversized_message_dropped [of _ cmd_CHAIN "replicate 4194305 0" "[]"])
    (simp_all add: MAX_PAYLOAD_SIZE_def)

text \<open>\<open>send_message\<close> returns true exactly when the whole frame went out after what was sent before;
  when it returns false, a proper prefix of the frame may have gone out. It never touches what is
  still to be received.\<close>

theorem send_message_result:
  "\<exists>k ok c'. send_message c cmd payload = (ok, c') \<and> k \<le> length (message_bytes cmd payload)
     \<and> outbox c' = outbox c @ take k (message_bytes cmd payload) \<and> inbox c' = inbox c
     \<and> (ok \<longleftrightarrow> k = length (message_bytes cmd payload))"
proof -
  obtain ok c' where "send_loop c (message_bytes cmd payload) 0 = (ok, c')" by fastforce
  with send_loop_result [OF _ this] show ?thesis
    by (auto simp: send_message_def send_all_def slice_def)
qed

lemma receive_message_total:
  "\<exists>m c'. receive_message c = Inr (m, c') \<and>
     (\<forall>msg. m = Some msg \<longrightarrow> length (m_payload msg) \<le> unat MAX_PAYLOAD_SIZE \<and>
        (\<exists>cf. length cf = 12 \<and> m_command msg = takeWhile (\<lambda>ch. ch \<noteq> char_of (0 :: nat)) (bytes_string cf)
           \<and> inbox c = frame_header cf (m_payload msg) @ m_payload msg @ inbox c'))"
proof -
  obtain h c1 where r1: "recv_exact c HEADER_SIZE = (h, c1)" by fastforce
  show ?thesis
  proof (cases h)
    case None
    with r1 show ?thesis by (simp add: receive_message_def)
  next
    case (Some hd)
    note hd = recv_exact_sound [OF r1 [unfolded Some]]
    show ?thesis
    proof (cases "take (length MAGIC_BYTES) hd = MAGIC_BYTES")
      case False
      with r1 Some show ?thesis by (simp add: receive_message_def)
    next
      case True
      from header_parts [OF conjunct1 [OF hd] True] obtain cf k cs where
        parts: "hd = MAGIC_BYTES @ cf @ le32 k @ cs" "length cf = 12" "length cs = 4" .
      note rm = receive_message_header [OF r1 [unfolded Some parts(1)] parts(2,3)]
      obtain p c2 where r2: "(if k > 0 then recv_exact c1 (unat k) else (Some [], c1)) = (p, c2)" by fastforce
      have pay: "length payload = unat k \<and> inbox c1 = payload @ inbox c2" if "p = Some payload" for payload
        using r2 recv_exact_sound [of c1 "unat k" payload c2] not_gt_0_unat that by (auto split: if_splits)
      show ?thesis
      proof (cases "\<not> k > MAX_PAYLOAD_SIZE \<and> (\<exists>payload. p = Some payload \<and> cs = take 4 (hash_double_sha256 payload))")
        case True
        then obtain payload where p: "p = Some payload" "cs = take 4 (hash_double_sha256 payload)"
          and k: "unat k \<le> unat MAX_PAYLOAD_SIZE" by (auto simp: word_less_nat_alt not_less)
        from True p(1) have "receive_message c = Inr (Some \<lparr>m_command = takeWhile (\<lambda>ch. ch \<noteq> char_of (0 :: nat)) (bytes_string cf),
            m_payload = payload\<rparr>, c2)"
          unfolding rm r2 by (simp add: p(2))
        moreover have "inbox c = frame_header cf payload @ payload @ inbox c2"
          using hd pay [OF p(1)] by (simp add: parts(1) p(2) frame_header_def)
        ultimately show ?thesis using parts(2) pay [OF p(1)] k by auto
      next
        case False
        then have "\<exists>c'. receive_message c = Inr (None, c')"
          unfolding rm r2 by (auto split: option.splits)
        then show ?thesis by blast
      qed
    qed
  qed
qed

text \<open>C26: Receiving a message never throws and never accepts a damaged one: an accepted message takes
  exactly its own frame off the stream, with the magic bytes, a payload of the announced length, at
  most 4 MiB, and the checksum of that payload.\<close>

theorem receive_message_sound:
  "case receive_message c of
     Inl e \<Rightarrow> False
   | Inr (None, c') \<Rightarrow> True
   | Inr (Some msg, c') \<Rightarrow> length (m_payload msg) \<le> unat MAX_PAYLOAD_SIZE \<and>
       (\<exists>cf. length cf = 12 \<and> m_command msg = takeWhile (\<lambda>ch. ch \<noteq> char_of (0 :: nat)) (bytes_string cf)
          \<and> inbox c = frame_header cf (m_payload msg) @ m_payload msg @ inbox c')"
  using receive_message_total [of c] by (auto split: option.split)

section \<open>Waiting\<close>

text \<open>What is sent before a \<open>recv\<close> has to wait: everything, when none has to. \<open>with_more c q\<close> is the connection
  on which the peer has sent \<open>q\<close> besides.\<close>

definition sent_first :: "conn \<Rightarrow> bytes" where
  "sent_first c = (case waited c of None \<Rightarrow> outbox c | Some before \<Rightarrow> before)"

definition with_more :: "conn \<Rightarrow> bytes \<Rightarrow> conn" where
  "with_more c q = c\<lparr>inbox := inbox c @ q\<rparr>"

lemma with_more_sel [simp]:
  "inbox (with_more c q) = inbox c @ q" "recv_sizes (with_more c q) = recv_sizes c" "outbox (with_more c q) = outbox c"
  "send_sizes (with_more c q) = send_sizes c" "waited (with_more c q) = waited c"
  by (simp_all add: with_more_def)

lemma sent_first_simps [simp]: "waited c = None \<Longrightarrow> sent_first c = outbox c" "waited c = Some before \<Longrightarrow> sent_first c = before"
  by (simp_all add: sent_first_def)

text \<open>Receiving sends nothing, and marks at most where it had to wait first.\<close>

definition only_waits :: "conn \<Rightarrow> conn \<Rightarrow> bool" where
  "only_waits c c' \<longleftrightarrow> outbox c' = outbox c \<and> (waited c' = waited c \<or> waited c = None \<and> waited c' = Some (outbox c))"

lemma only_waits_refl [simp]: "only_waits c c"
  by (simp add: only_waits_def)

lemma only_waits_trans: "only_waits c c1 \<Longrightarrow> only_waits c1 c2 \<Longrightarrow> only_waits c c2"
  by (auto simp: only_waits_def)

lemma only_waits_None: "only_waits c c' \<Longrightarrow> waited c' = None \<Longrightarrow> waited c = None"
  by (auto simp: only_waits_def)

lemma recv_loop_only_waits: "recv_loop c len received = (res, c') \<Longrightarrow> only_waits c c'"
proof (induction c len received rule: recv_loop.induct)
  case (1 c len received)
  show ?case
  proof (cases "length received < len")
    case True
    obtain chunk c1 where step: "sys_recv c (len - length received) = (chunk, c1)" by fastforce
    then have c1: "only_waits c c1" by (auto simp: sys_recv_def Let_def only_waits_def split: if_splits)
    show ?thesis
    proof (cases "chunk = []")
      case True
      with \<open>length received < len\<close> step c1 "1.prems" show ?thesis by (simp add: recv_loop.simps [of c])
    next
      case False
      with True step "1.prems" have "recv_loop c1 len (received @ chunk) = (res, c')" by (simp add: recv_loop.simps [of c])
      from "1.IH" [OF True step [symmetric] refl False this] c1 show ?thesis by (rule only_waits_trans [rotated])
    qed
  qed (use "1.prems" in \<open>simp add: recv_loop.simps [of c]\<close>)
qed

lemma recv_loop_starved: "inbox c = [] \<Longrightarrow> length received < len \<Longrightarrow> waited (snd (recv_loop c len received)) \<noteq> None"
  by (simp add: recv_loop.simps [of c] sys_recv_def)

text \<open>A receive that does not wait does the same when more has arrived.\<close>

lemma recv_loop_more:
  "recv_loop c len received = (res, c') \<Longrightarrow> waited c' = None \<Longrightarrow> recv_loop (with_more c q) len received = (res, with_more c' q)"
proof (induction c len received rule: recv_loop.induct)
  case (1 c len received)
  show ?case
  proof (cases "length received < len")
    case less: True
    define k where "k = next_size (recv_sizes c) (len - length received)"
    obtain chunk c1 where step: "sys_recv c (len - length received) = (chunk, c1)" by fastforce
    then have ch: "chunk = take k (inbox c)"
      and c1: "c1 = c\<lparr>inbox := drop (length chunk) (inbox c), recv_sizes := tl (recv_sizes c), waited := waited c1\<rparr>"
      and w1: "waited c1 = (if inbox c = [] \<and> waited c = None then Some (outbox c) else waited c)"
      by (auto simp: sys_recv_def Let_def k_def)
    have "only_waits c1 c'"
    proof (cases "chunk = []")
      case True
      with less step "1.prems"(1) show ?thesis by (simp add: recv_loop.simps [of c])
    next
      case False
      with less step "1.prems"(1) have "recv_loop c1 len (received @ chunk) = (res, c')" by (simp add: recv_loop.simps [of c])
      then show ?thesis by (rule recv_loop_only_waits)
    qed
    with "1.prems"(2) have "waited c1 = None" by (blast dest: only_waits_None)
    with w1 have w: "inbox c \<noteq> []" "waited c = None" by (auto split: if_splits)
    have k: "k \<le> length (inbox c)"
    proof (rule ccontr)
      assume "\<not> k \<le> length (inbox c)"
      then have all: "chunk = inbox c" "inbox c1 = []" using ch c1 by (auto dest: arg_cong [of _ _ inbox])
      have "k \<le> len - length received" by (simp add: k_def next_size_le)
      then have "length (received @ chunk) < len" using all(1) \<open>\<not> k \<le> length (inbox c)\<close> less by simp
      from recv_loop_starved [OF all(2) this] less step "1.prems" w(1) all(1) show False
        by (simp add: recv_loop.simps [of c])
    qed
    have step': "sys_recv (with_more c q) (len - length received) = (chunk, with_more c1 q)"
    proof -
      have "take k (inbox c @ q) = chunk" "drop (length chunk) (inbox c @ q) = drop (length chunk) (inbox c) @ q"
        using k by (simp_all add: ch)
      with w show ?thesis
        by (subst c1) (simp add: sys_recv_def Let_def k_def [symmetric] with_more_def \<open>waited c1 = None\<close>)
    qed
    show ?thesis
    proof (cases "chunk = []")
      case True
      with less step step' "1.prems"(1) show ?thesis by (simp add: recv_loop.simps [of c] recv_loop.simps [of "with_more c q"])
    next
      case False
      with less step "1.prems"(1) have "recv_loop c1 len (received @ chunk) = (res, c')" by (simp add: recv_loop.simps [of c])
      from "1.IH" [OF less step [symmetric] refl False this "1.prems"(2)] less step' False show ?thesis
        by (simp add: recv_loop.simps [of "with_more c q"])
    qed
  qed (use "1.prems" in \<open>auto simp: recv_loop.simps [of c] recv_loop.simps [of "with_more _ q"]\<close>)
qed

lemma recv_exact_waits:
  "recv_exact c len = (res, c') \<Longrightarrow> only_waits c c'"
  "recv_exact c len = (res, c') \<Longrightarrow> waited c' = None \<Longrightarrow> recv_exact (with_more c q) len = (res, with_more c' q)"
  by (auto simp: recv_exact_def recv_loop_only_waits recv_loop_more)

lemma payload_waits:
  assumes "(if 0 < (k :: u32) then recv_exact c (unat k) else (Some [], c)) = (res, c')"
  shows "only_waits c c'"
    and "waited c' = None \<Longrightarrow> (if 0 < k then recv_exact (with_more c q) (unat k) else (Some [], with_more c q)) = (res, with_more c' q)"
  using assms recv_exact_waits [of c "unat k" res c'] by (auto split: if_splits)

lemma receive_message_waits:
  assumes "receive_message c = Inr (m, c')"
  shows "only_waits c c'" and "waited c' = None \<Longrightarrow> receive_message (with_more c q) = Inr (m, with_more c' q)"
proof -
  obtain h c1 where h: "recv_exact c HEADER_SIZE = (h, c1)" by fastforce
  have "only_waits c c' \<and> (waited c' = None \<longrightarrow> receive_message (with_more c q) = Inr (m, with_more c' q))"
  proof (cases "\<exists>hd cmd len checksum. h = Some hd \<and> take (length MAGIC_BYTES) hd = MAGIC_BYTES
      \<and> parse_header hd = Inr (cmd, len, checksum) \<and> \<not> len > MAX_PAYLOAD_SIZE")
    case False
    with h assms have "c' = c1" by (auto simp: receive_message_def elim!: rbindE split: option.splits if_splits)
    with False h assms recv_exact_waits [OF h] show ?thesis
      by (auto simp: receive_message_def elim!: rbindE split: option.splits if_splits)
  next
    case True
    then obtain hd cmd len checksum where hd: "h = Some hd" "take (length MAGIC_BYTES) hd = MAGIC_BYTES"
      "parse_header hd = Inr (cmd, len, checksum)" "\<not> len > MAX_PAYLOAD_SIZE" by blast
    obtain p c2 where p: "(if 0 < len then recv_exact c1 (unat len) else (Some [], c1)) = (p, c2)" by fastforce
    from h hd p assms have c2: "c' = c2" by (auto simp: receive_message_def split: option.splits if_splits)
    note w = recv_exact_waits [OF h] payload_waits [OF p]
    show ?thesis
    proof (intro conjI impI)
      show "only_waits c c'" using w(1,3) unfolding c2 by (rule only_waits_trans)
      assume none: "waited c' = None"
      with w(3) have "waited c1 = None" unfolding c2 by (rule only_waits_None)
      from w(2) [OF this, of q] w(4) [of q] none h hd p assms show "receive_message (with_more c q) = Inr (m, with_more c' q)"
        by (auto simp: receive_message_def c2 split: option.splits if_splits)
    qed
  qed
  then show "only_waits c c'" and "waited c' = None \<Longrightarrow> receive_message (with_more c q) = Inr (m, with_more c' q)" by blast+
qed

lemma sys_send_more: "sys_send c data = (k, c') \<Longrightarrow> sys_send (with_more c q) data = (k, with_more c' q) \<and> waited c' = waited c"
  by (auto simp: sys_send_def Let_def with_more_def)

lemma send_loop_more:
  "send_loop c data n = (ok, c') \<Longrightarrow> send_loop (with_more c q) data n = (ok, with_more c' q) \<and> waited c' = waited c"
proof (induction c data n rule: send_loop.induct)
  case (1 c data n)
  obtain k c1 where step: "sys_send c (drop n data) = (k, c1)" by fastforce
  note step' = sys_send_more [OF step]
  show ?case
  proof (cases "n < length data \<and> k \<noteq> 0")
    case True
    with step "1.prems" have "send_loop c1 data (n + k) = (ok, c')" by (simp add: send_loop.simps [of c])
    from "1.IH" [OF _ step [symmetric] refl _ this] True step' show ?thesis by (simp add: send_loop.simps [of "with_more c q"])
  next
    case False
    with step step' "1.prems" show ?thesis
      by (auto simp: send_loop.simps [of c] send_loop.simps [of "with_more _ q"] split: if_splits)
  qed
qed

lemma Peer_Send_more:
  assumes "Peer_Send c cmd payload = (ok, c')"
  shows "Peer_Send (with_more c q) cmd payload = (ok, with_more c' q)" and "waited c' = waited c" and "prefix (outbox c) (outbox c')"
proof -
  have s: "send_loop c (message_bytes cmd payload) 0 = (ok, c')"
    using assms by (simp add: Peer_Send_def send_message_def send_all_def)
  from send_loop_more [OF this, of q] show "Peer_Send (with_more c q) cmd payload = (ok, with_more c' q)" "waited c' = waited c"
    by (simp_all add: Peer_Send_def send_message_def send_all_def)
  from send_loop_result [OF _ s] show "prefix (outbox c) (outbox c')" by auto
qed

section \<open>Connections without errors\<close>

lemma send_loop_enough:
  "no_errors (send_sizes c) \<Longrightarrow> sent \<le> length data \<Longrightarrow>
     \<exists>sizes. send_loop c data sent = (True, c\<lparr>outbox := outbox c @ drop sent data, send_sizes := sizes\<rparr>)
        \<and> no_errors sizes"
proof (induction c data sent rule: send_loop.induct)
  case (1 c data sent)
  show ?case
  proof (cases "sent < length data")
    case False
    with "1.prems" show ?thesis
      by (intro exI [of _ "send_sizes c"]) (simp add: send_loop.simps [of c])
  next
    case True
    define k where "k = next_size (send_sizes c) (length (drop sent data))"
    define c1 where "c1 = c\<lparr>outbox := outbox c @ take k (drop sent data), send_sizes := tl (send_sizes c)\<rparr>"
    have k: "0 < k" "k \<le> length data - sent"
      using next_size_pos [OF "1.prems"(1), of "length (drop sent data)"] next_size_le [of "send_sizes c"] True
      by (simp_all add: k_def)
    then have step: "sys_send c (drop sent data) = (k, c1)"
      unfolding sys_send_def Let_def k_def [symmetric] c1_def by simp
    have "no_errors (send_sizes c1)" "sent + k \<le> length data"
      using "1.prems"(1) k True by (simp_all add: c1_def no_errors_tl)
    from "1.IH" [OF True step [symmetric] refl _ this] k(1) obtain sizes where
      "send_loop c1 data (sent + k) = (True, c1\<lparr>outbox := outbox c1 @ drop (sent + k) data, send_sizes := sizes\<rparr>)"
      "no_errors sizes" by auto
    moreover have "take k (drop sent data) @ drop (sent + k) data = drop sent data"
      by (metis add.commute append_take_drop_id drop_drop)
    ultimately show ?thesis using True step k(1)
      by (intro exI [of _ sizes]) (simp add: send_loop.simps [of c] c1_def)
  qed
qed

definition clean :: "conn \<Rightarrow> bool" where
  "clean c \<longleftrightarrow> no_errors (recv_sizes c) \<and> no_errors (send_sizes c)"

lemma send_frame:
  assumes "clean c"
  shows "\<exists>c'. Peer_Send c cmd payload = (True, c') \<and> clean c' \<and> inbox c' = inbox c
    \<and> outbox c' = outbox c @ message_bytes cmd payload \<and> waited c' = waited c"
  using send_loop_enough [of c 0 "message_bytes cmd payload"] assms
  by (auto simp: Peer_Send_def send_message_def send_all_def clean_def)

lemma receive_frame:
  assumes "clean c" and "inbox c = message_bytes cmd payload @ rest"
    and "command_ok cmd" and "length payload \<le> unat MAX_PAYLOAD_SIZE"
  shows "\<exists>c'. Peer_Receive c = Inr (Some \<lparr>m_command = cmd, m_payload = payload\<rparr>, c') \<and> clean c'
    \<and> inbox c' = rest \<and> outbox c' = outbox c \<and> waited c' = waited c"
  using receive_frame_sizes [OF assms(2) _ assms(3,4)] assms(1)
  by (auto simp: Peer_Receive_def clean_def)

lemma receive_end:
  assumes "clean c" and "inbox c = []"
  shows "\<exists>c'. Peer_Receive c = Inr (None, c') \<and> clean c' \<and> inbox c' = [] \<and> outbox c' = outbox c
    \<and> waited c' = Some (sent_first c)"
proof -
  have "recv_exact c HEADER_SIZE = (None, c\<lparr>recv_sizes := tl (recv_sizes c), waited := Some (sent_first c)\<rparr>)"
    using assms(2)
    by (simp add: recv_exact_def recv_loop.simps [of c] sys_recv_def Let_def HEADER_SIZE_def COMMAND_SIZE_def sent_first_def
        split: option.split)
  with assms show ?thesis
    by (simp add: Peer_Receive_def receive_message_def clean_def no_errors_tl)
qed

lemma commands_ok [simp]:
  "command_ok cmd_VERSION" "command_ok cmd_VERACK" "command_ok cmd_INV" "command_ok cmd_GETDATA"
  "command_ok cmd_BLOCK" "command_ok cmd_TX" "command_ok cmd_GETBLOCKS" "command_ok cmd_CHAIN"
  by code_simp+

end
