(* ===== verification/World.thy ===== *)
theory World
  imports Storage Network
begin

text \<open>
  What the node's commands run in: the disk, the one connection a command handles, and the number of
  socket handles that are open. An action yields a value or an exception and the world it leaves
  behind, in both cases. The rest of \<open>include/network/socket.h\<close> (opening, accepting, connecting,
  closing) is here; the answers of the operating system to those calls are the record \<open>os\<close>.
\<close>

section \<open>Actions\<close>

record world =
  w_disk :: disk
  w_peer :: conn
  w_sockets :: int

type_synonym 'a io = "world \<Rightarrow> 'a result \<times> world"

definition io_return :: "'a \<Rightarrow> 'a io" where
  "io_return x = (\<lambda>w. (Inr x, w))"

definition io_lift :: "'a result \<Rightarrow> 'a io" where
  "io_lift r = (\<lambda>w. (r, w))"

definition io_bind :: "'a io \<Rightarrow> ('a \<Rightarrow> 'b io) \<Rightarrow> 'b io" where
  "io_bind m f = (\<lambda>w. case m w of (Inl e, w') \<Rightarrow> (Inl e, w') | (Inr x, w') \<Rightarrow> f x w')"

text \<open>\<open>try m catch (const std::exception&) h\<close>.\<close>

definition io_catch :: "'a io \<Rightarrow> 'a io \<Rightarrow> 'a io" where
  "io_catch m h = (\<lambda>w. case m w of
      (Inl e, w') \<Rightarrow> if catchable e then h w' else (Inl e, w')
    | (Inr x, w') \<Rightarrow> (Inr x, w'))"

text \<open>A computation that reads the disk, and one that writes it: a write that throws changes nothing.\<close>

definition io_read :: "(disk \<Rightarrow> 'a result) \<Rightarrow> 'a io" where
  "io_read f = (\<lambda>w. (f (w_disk w), w))"

definition io_write :: "(disk \<Rightarrow> disk result) \<Rightarrow> unit io" where
  "io_write f = (\<lambda>w. case f (w_disk w) of Inl e \<Rightarrow> (Inl e, w) | Inr d \<Rightarrow> (Inr (), w\<lparr>w_disk := d\<rparr>))"

lemma io_bind_return [simp]: "io_bind (io_return x) f = f x"
  by (simp add: io_bind_def io_return_def)

lemma io_bind_lift [simp]: "io_bind (io_lift (Inr x)) f = f x" "io_bind (io_lift (Inl e)) f = io_lift (Inl e)"
  by (simp_all add: io_bind_def io_lift_def fun_eq_iff)

lemma io_bind_assoc: "io_bind (io_bind m f) g = io_bind m (\<lambda>x. io_bind (f x) g)"
  by (auto simp: io_bind_def fun_eq_iff split: prod.split sum.split)

text \<open>Running an action, step by step.\<close>

lemma io_run [simp]:
  "io_return x w = (Inr x, w)"
  "io_lift r w = (r, w)"
  "io_read f w = (f (w_disk w), w)"
  by (simp_all add: io_return_def io_lift_def io_read_def)

lemma io_bind_run:
  "m w = (Inr x, w') \<Longrightarrow> io_bind m f w = f x w'"
  "m w = (Inl e, w') \<Longrightarrow> io_bind m f w = (Inl e, w')"
  by (simp_all add: io_bind_def)

lemma io_write_run:
  "f (w_disk w) = Inr d \<Longrightarrow> io_write f w = (Inr (), w\<lparr>w_disk := d\<rparr>)"
  "f (w_disk w) = Inl e \<Longrightarrow> io_write f w = (Inl e, w)"
  by (simp_all add: io_write_def)

lemma io_catch_run:
  "m w = (Inr x, w') \<Longrightarrow> io_catch m h w = (Inr x, w')"
  "m w = (Inl e, w') \<Longrightarrow> catchable e \<Longrightarrow> io_catch m h w = h w'"
  "m w = (Inl e, w') \<Longrightarrow> \<not> catchable e \<Longrightarrow> io_catch m h w = (Inl e, w')"
  by (simp_all add: io_catch_def)

section \<open>What an action guarantees\<close>

text \<open>\<open>leads P m Q\<close>: started in a world with \<open>P\<close>, the action \<open>m\<close> leaves one with \<open>Q\<close>, whether it returns or
  throws. \<open>keeps I m\<close> is the case of an invariant.\<close>

definition leads :: "(world \<Rightarrow> bool) \<Rightarrow> 'a io \<Rightarrow> (world \<Rightarrow> bool) \<Rightarrow> bool" where
  "leads P m Q \<longleftrightarrow> (\<forall>w. P w \<longrightarrow> Q (snd (m w)))"

abbreviation keeps :: "(world \<Rightarrow> bool) \<Rightarrow> 'a io \<Rightarrow> bool" where
  "keeps I m \<equiv> leads I m I"

named_theorems leads_intros \<open>rules that push \<open>leads\<close> through an action\<close>

lemma leadsD: "leads P m Q \<Longrightarrow> P w \<Longrightarrow> Q (snd (m w))"
  by (simp add: leads_def)

lemma leads_weaken: "leads P m Q \<Longrightarrow> (\<And>w. Q w \<Longrightarrow> Q' w) \<Longrightarrow> leads P m Q'"
  by (simp add: leads_def)

lemma leads_same [leads_intros]:
  assumes "\<And>w. P w \<Longrightarrow> Q w"
  shows "leads P (io_return x) Q" "leads P (io_lift r) Q" "leads P (io_read f) Q"
  using assms by (simp_all add: leads_def)

lemma leads_bind:
  "leads P m P \<Longrightarrow> (\<And>x. leads P (f x) Q) \<Longrightarrow> (\<And>w. P w \<Longrightarrow> Q w) \<Longrightarrow> leads P (io_bind m f) Q"
  by (auto simp: leads_def io_bind_def split: prod.splits sum.splits)

lemma leads_bind_lift:
  "(\<And>x. r = Inr x \<Longrightarrow> leads P (f x) Q) \<Longrightarrow> (\<And>w. P w \<Longrightarrow> Q w) \<Longrightarrow> leads P (io_bind (io_lift r) f) Q"
  by (cases r) (auto simp: leads_def)

lemma leads_catch: "leads P m P \<Longrightarrow> leads P h P \<Longrightarrow> leads P (io_catch m h) P"
  by (auto simp: leads_def io_catch_def split: prod.splits sum.splits)

lemma leads_if [leads_intros]:
  "(b \<Longrightarrow> leads P m Q) \<Longrightarrow> (\<not> b \<Longrightarrow> leads P m' Q) \<Longrightarrow> leads P (if b then m else m') Q"
  by simp

lemma leads_write:
  "(\<And>w d. P w \<Longrightarrow> f (w_disk w) = Inr d \<Longrightarrow> Q (w\<lparr>w_disk := d\<rparr>)) \<Longrightarrow> (\<And>w. P w \<Longrightarrow> Q w) \<Longrightarrow> leads P (io_write f) Q"
  by (auto simp: leads_def io_write_def split: sum.splits)

section \<open>Sockets\<close>

record os =
  os_socket :: bool
  os_bind :: "u16 \<Rightarrow> bool"
  os_listen :: bool
  os_accept :: bool
  os_inet_pton :: "string \<Rightarrow> bool"
  os_connect :: "string \<Rightarrow> u16 \<Rightarrow> bool"

definition open_socket :: "world \<Rightarrow> world" where
  "open_socket w = w\<lparr>w_sockets := w_sockets w + 1\<rparr>"

definition close_socket :: "unit io" where
  "close_socket = (\<lambda>w. (Inr (), w\<lparr>w_sockets := w_sockets w - 1\<rparr>))"

definition create_listener :: "os \<Rightarrow> u16 \<Rightarrow> unit io" where
  "create_listener E port = (\<lambda>w.
     if \<not> os_socket E then (Inl (Runtime_error ''create_listener: socket() failed''), w)
     else
       (let w = open_socket w in
        if \<not> os_bind E port
        then io_bind close_socket (\<lambda>_. io_lift (Inl (Runtime_error ''create_listener: bind() failed''))) w
        else if \<not> os_listen E
        then io_bind close_socket (\<lambda>_. io_lift (Inl (Runtime_error ''create_listener: listen() failed''))) w
        else (Inr (), w)))"

definition accept_connection :: "os \<Rightarrow> unit io" where
  "accept_connection E = (\<lambda>w.
     if \<not> os_accept E then (Inl (Runtime_error ''accept_connection: accept() failed''), w)
     else (Inr (), open_socket w))"

definition connect_to :: "os \<Rightarrow> string \<Rightarrow> u16 \<Rightarrow> unit io" where
  "connect_to E host port = (\<lambda>w.
     if \<not> os_socket E then (Inl (Runtime_error ''connect_to: socket() failed''), w)
     else
       (let w = open_socket w in
        if \<not> os_inet_pton E host
        then io_bind close_socket (\<lambda>_. io_lift (Inl (Runtime_error ''connect_to: invalid address''))) w
        else if \<not> os_connect E host port
        then io_bind close_socket (\<lambda>_. io_lift (Inl (Runtime_error ''connect_to: connect() failed''))) w
        else (Inr (), w)))"

text \<open>The scope of a \<open>Peer\<close>: its destructor closes the socket however the scope is left.\<close>

definition with_peer :: "'a io \<Rightarrow> 'a io" where
  "with_peer m = (\<lambda>w. case m w of (r, w') \<Rightarrow> (r, snd (close_socket w')))"

definition peer_send :: "string \<Rightarrow> bytes \<Rightarrow> bool io" where
  "peer_send cmd payload = (\<lambda>w.
     let (ok, c) = Peer_Send (w_peer w) cmd payload in (Inr ok, w\<lparr>w_peer := c\<rparr>))"

definition peer_receive :: "Message option io" where
  "peer_receive = (\<lambda>w.
     case Peer_Receive (w_peer w) of
       Inl e \<Rightarrow> (Inl e, w)
     | Inr (msg, c) \<Rightarrow> (Inr msg, w\<lparr>w_peer := c\<rparr>))"

text \<open>The test every step of a conversation starts with: \<open>!peer.Receive(msg) || msg.command != cmd\<close> fails.\<close>

definition expect :: "string \<Rightarrow> (bytes \<Rightarrow> 'a io) \<Rightarrow> 'a io \<Rightarrow> 'a io" where
  "expect cmd f otherwise =
     io_bind peer_receive (\<lambda>m.
     case m of
       None \<Rightarrow> otherwise
     | Some msg \<Rightarrow> if m_command msg \<noteq> cmd then otherwise else f (m_payload msg))"

section \<open>Connections and sockets leave the disk alone\<close>

text \<open>Predicates on the disk only.\<close>

definition disk_only :: "(world \<Rightarrow> bool) \<Rightarrow> bool" where
  "disk_only I \<longleftrightarrow> (\<forall>w w'. w_disk w = w_disk w' \<longrightarrow> I w = I w')"

lemma disk_only_disk [simp]: "disk_only (\<lambda>w. Q (w_disk w))"
  unfolding disk_only_def by metis

lemma disk_onlyD: "disk_only I \<Longrightarrow> w_disk w = w_disk w' \<Longrightarrow> I w = I w'"
  unfolding disk_only_def by blast

lemma net_disk:
  "w_disk (snd (create_listener E port w)) = w_disk w" "w_disk (snd (accept_connection E w)) = w_disk w"
  "w_disk (snd (connect_to E host port w)) = w_disk w" "w_disk (snd (close_socket w)) = w_disk w"
  "w_disk (snd (peer_send cmd payload w)) = w_disk w" "w_disk (snd (peer_receive w)) = w_disk w"
  by (auto simp: create_listener_def accept_connection_def connect_to_def close_socket_def
      peer_send_def peer_receive_def open_socket_def io_bind_def Let_def split: prod.splits sum.splits)

lemma leads_net [leads_intros]:
  assumes "disk_only I"
  shows "leads I (create_listener E port) I" "leads I (accept_connection E) I" "leads I (connect_to E host port) I"
    "leads I close_socket I" "leads I (peer_send cmd payload) I" "leads I peer_receive I"
  using disk_onlyD [OF assms net_disk(1)] disk_onlyD [OF assms net_disk(2)] disk_onlyD [OF assms net_disk(3)]
    disk_onlyD [OF assms net_disk(4)] disk_onlyD [OF assms net_disk(5)] disk_onlyD [OF assms net_disk(6)]
  by (simp_all add: leads_def)

lemma leads_with_peer:
  assumes "disk_only Q" and "leads P m Q"
  shows "leads P (with_peer m) Q"
  using assms(2) disk_onlyD [OF assms(1) net_disk(4)]
  by (auto simp: leads_def with_peer_def split: prod.splits)

lemma leads_expect:
  assumes "disk_only P" and "\<And>p. leads P (f p) Q" and "leads P other Q" and "\<And>w. P w \<Longrightarrow> Q w"
  shows "leads P (expect cmd f other) Q"
  unfolding expect_def
  by (rule leads_bind [OF leads_net(6) [OF assms(1)]]) (auto simp: assms split: option.split)

lemma leads_send:
  "(\<And>x. leads P (f x) Q) \<Longrightarrow> disk_only P \<Longrightarrow> (\<And>w. P w \<Longrightarrow> Q w) \<Longrightarrow> leads P (io_bind (peer_send cmd payload) f) Q"
  by (rule leads_bind [OF leads_net(5)])

lemma leads_connect:
  "(\<And>x. leads P (f x) Q) \<Longrightarrow> disk_only P \<Longrightarrow> (\<And>w. P w \<Longrightarrow> Q w) \<Longrightarrow> leads P (io_bind (connect_to E host port) f) Q"
  by (rule leads_bind [OF leads_net(3)])

lemma leads_listen:
  "(\<And>x. leads P (f x) Q) \<Longrightarrow> disk_only P \<Longrightarrow> (\<And>w. P w \<Longrightarrow> Q w) \<Longrightarrow> leads P (io_bind (create_listener E port) f) Q"
  by (rule leads_bind [OF leads_net(1)])

lemma leads_accept:
  "(\<And>x. leads P (f x) Q) \<Longrightarrow> disk_only P \<Longrightarrow> (\<And>w. P w \<Longrightarrow> Q w) \<Longrightarrow> leads P (io_bind (accept_connection E) f) Q"
  by (rule leads_bind [OF leads_net(2)])

section \<open>Socket handles\<close>

text \<open>A command that closes what it opens, whatever way it ends.\<close>

definition balanced :: "'a io \<Rightarrow> int \<Rightarrow> bool" where
  "balanced m k \<longleftrightarrow> (\<forall>w. w_sockets (snd (m w)) = w_sockets w + k)"

lemma balancedD: "balanced m k \<Longrightarrow> w_sockets (snd (m w)) = w_sockets w + k"
  by (simp add: balanced_def)

lemma balanced_basic:
  "balanced (io_return x) 0" "balanced (io_lift r) 0" "balanced (io_read f) 0" "balanced (io_write g) 0"
  "balanced (peer_send cmd payload) 0" "balanced peer_receive 0" "balanced close_socket (- 1)"
  by (auto simp: balanced_def io_write_def peer_send_def peer_receive_def close_socket_def
      split: prod.splits sum.splits)

lemma balanced_bind: "balanced m 0 \<Longrightarrow> (\<And>x. balanced (f x) 0) \<Longrightarrow> balanced (io_bind m f) 0"
  by (simp add: balanced_def io_bind_def split: prod.split sum.split) (metis snd_conv)

lemma balanced_catch: "balanced m 0 \<Longrightarrow> balanced h 0 \<Longrightarrow> balanced (io_catch m h) 0"
  by (simp add: balanced_def io_catch_def split: prod.split sum.split) (metis snd_conv)

lemma balanced_if: "balanced m k \<Longrightarrow> balanced m' k \<Longrightarrow> balanced (if b then m else m') k"
  by simp

lemma balanced_expect: "(\<And>p. balanced (f p) 0) \<Longrightarrow> balanced other 0 \<Longrightarrow> balanced (expect cmd f other) 0"
  unfolding expect_def by (rule balanced_bind [OF balanced_basic(6)]) (auto split: option.split)

text \<open>The scope of a \<open>Peer\<close> on a connection just opened: the handle is closed even when an exception leaves
  it, and a failed \<open>connect_to\<close> has closed its own.\<close>

lemma balanced_connected:
  assumes "balanced m 0"
  shows "balanced (io_bind (connect_to E host port) (\<lambda>_. with_peer m)) 0"
proof -
  have m: "w_sockets (snd (with_peer m w)) = w_sockets w - 1" for w
    using balancedD [OF assms, of w] by (auto simp: with_peer_def close_socket_def split: prod.split)
  show ?thesis
    by (simp add: balanced_def io_bind_def connect_to_def close_socket_def open_socket_def Let_def m)
qed

section \<open>Conversations\<close>

text \<open>\<open>talks m d ins outs r d' ins' outs'\<close>: on a connection without errors, with \<open>ins\<close> still to come from the
  peer and \<open>outs\<close> sent so far, \<open>m\<close> ends with \<open>r\<close> and leaves the disk \<open>d'\<close> and these streams, and no \<open>recv\<close>
  of it had to wait for more than \<open>ins\<close>.\<close>

definition peer_is :: "bytes \<Rightarrow> bytes \<Rightarrow> world \<Rightarrow> bool" where
  "peer_is ins outs w \<longleftrightarrow>
     clean (w_peer w) \<and> inbox (w_peer w) = ins \<and> outbox (w_peer w) = outs \<and> waited (w_peer w) = None"

definition talks :: "'a io \<Rightarrow> disk \<Rightarrow> bytes \<Rightarrow> bytes \<Rightarrow> 'a result \<Rightarrow> disk \<Rightarrow> bytes \<Rightarrow> bytes \<Rightarrow> bool" where
  "talks m d ins outs r d' ins' outs' \<longleftrightarrow>
     (\<forall>w. w_disk w = d \<and> peer_is ins outs w \<longrightarrow>
        (\<exists>w'. m w = (r, w') \<and> w_disk w' = d' \<and> peer_is ins' outs' w'))"

lemma talksD:
  assumes "talks m d ins outs r d' ins' outs'" and "w_disk w = d" and "peer_is ins outs w"
  obtains w' where "m w = (r, w')" "w_disk w' = d'" "peer_is ins' outs' w'"
  using assms by (auto simp: talks_def)

lemma talks_return: "talks (io_return x) d ins outs (Inr x) d ins outs"
  by (simp add: talks_def)

lemma talks_write: "f d = Inr d' \<Longrightarrow> talks (io_write f) d ins outs (Inr ()) d' ins outs"
  by (simp add: talks_def io_write_def peer_is_def)

lemma talks_close: "talks close_socket d ins outs (Inr ()) d ins outs"
  by (simp add: talks_def close_socket_def peer_is_def)

lemma talks_bind:
  assumes "talks m d ins outs (Inr x) d1 ins1 outs1" and "talks (f x) d1 ins1 outs1 r d' ins' outs'"
  shows "talks (io_bind m f) d ins outs r d' ins' outs'"
  using assms by (fastforce simp: talks_def io_bind_def)

lemma talks_lift:
  "r = Inr x \<Longrightarrow> talks (f x) d ins outs q d' ins' outs' \<Longrightarrow> talks (io_bind (io_lift r) f) d ins outs q d' ins' outs'"
  by (simp add: talks_def)

lemma talks_sent: "talks (peer_send cmd payload) d ins outs (Inr True) d ins (outs @ message_bytes cmd payload)"
  unfolding talks_def
proof (intro allI impI)
  fix w assume w: "w_disk w = d \<and> peer_is ins outs w"
  with send_frame [of "w_peer w" cmd payload] obtain c where c: "Peer_Send (w_peer w) cmd payload = (True, c)"
    "clean c" "inbox c = ins" "outbox c = outs @ message_bytes cmd payload" "waited c = None"
    by (auto simp: peer_is_def)
  with w show "\<exists>w'. peer_send cmd payload w = (Inr True, w') \<and> w_disk w' = d
      \<and> peer_is ins (outs @ message_bytes cmd payload) w'"
    by (simp add: peer_send_def peer_is_def)
qed

lemma talks_send:
  "talks (f True) d ins (outs @ message_bytes cmd payload) r d' ins' outs' \<Longrightarrow>
     talks (io_bind (peer_send cmd payload) f) d ins outs r d' ins' outs'"
  by (rule talks_bind [OF talks_sent])

lemma talks_received:
  assumes "command_ok cmd" and "length payload \<le> unat MAX_PAYLOAD_SIZE"
  shows "talks peer_receive d (message_bytes cmd payload @ ins) outs
    (Inr (Some \<lparr>m_command = cmd, m_payload = payload\<rparr>)) d ins outs"
  unfolding talks_def
proof (intro allI impI)
  fix w assume w: "w_disk w = d \<and> peer_is (message_bytes cmd payload @ ins) outs w"
  with receive_frame [of "w_peer w" cmd payload ins] assms obtain c where
    c: "Peer_Receive (w_peer w) = Inr (Some \<lparr>m_command = cmd, m_payload = payload\<rparr>, c)"
    "clean c" "inbox c = ins" "outbox c = outs" "waited c = None"
    by (auto simp: peer_is_def)
  with w show "\<exists>w'. peer_receive w = (Inr (Some \<lparr>m_command = cmd, m_payload = payload\<rparr>), w') \<and> w_disk w' = d
      \<and> peer_is ins outs w'"
    by (simp add: peer_receive_def peer_is_def)
qed

lemma talks_expect:
  assumes "command_ok cmd" and "length payload \<le> unat MAX_PAYLOAD_SIZE"
    and "talks (f payload) d ins outs r d' ins' outs'"
  shows "talks (expect cmd f other) d (message_bytes cmd payload @ ins) outs r d' ins' outs'"
  unfolding expect_def by (rule talks_bind [OF talks_received [OF assms(1,2)]]) (simp add: assms(3))

lemma talks_with_peer: "talks m d ins outs r d' ins' outs' \<Longrightarrow> talks (with_peer m) d ins outs r d' ins' outs'"
  by (fastforce simp: talks_def with_peer_def close_socket_def peer_is_def)

end
