(* ===== verification/Dialogue.thy ===== *)
theory Dialogue
  imports World
begin

text \<open>
  Two programs at the two ends of a connection. What a program has sent when all that has arrived is
  \<open>ins\<close>, and it waits for more or has ended, is a function of \<open>ins\<close>: the field \<open>waited\<close> of a connection
  records it. A conversation of two programs is any order in which the network hands over what the two
  have sent so far; nothing arrives that has not been sent. The theory gives the proof rules for what a
  program has sent when it waits, shows that it only grows with what arrives, and concludes that
  a conversation which is complete in one order is complete in every order: no order ends with both
  sides waiting for each other. Buffers take what is sent, and a side that closes has its bytes
  delivered first.
\<close>

section \<open>Conversations\<close>

definition sends_after :: "'a io \<Rightarrow> world \<Rightarrow> bytes \<Rightarrow> bytes" where
  "sends_after m w ins = sent_first (w_peer (snd (m (w\<lparr>w_peer := (w_peer w)\<lparr>inbox := ins\<rparr>\<rparr>))))"

text \<open>What the client and the server have received so far; \<open>f\<close> and \<open>g\<close> give what they have sent then. Any part
  of it may arrive next.\<close>

inductive delivery :: "(bytes \<Rightarrow> bytes) \<Rightarrow> (bytes \<Rightarrow> bytes) \<Rightarrow> bytes \<times> bytes \<Rightarrow> bytes \<times> bytes \<Rightarrow> bool" for f g where
  to_client: "strict_prefix p p' \<Longrightarrow> prefix p' (g q) \<Longrightarrow> delivery f g (p, q) (p', q)"
| to_server: "strict_prefix q q' \<Longrightarrow> prefix q' (f p) \<Longrightarrow> delivery f g (p, q) (p, q')"

inductive_cases deliveryE: "delivery f g (p, q) s"

text \<open>However the deliveries go, they stay within these requests and replies and can go on until these have
  arrived in full; then there is nothing left to deliver.\<close>

definition completes :: "(bytes \<Rightarrow> bytes) \<Rightarrow> (bytes \<Rightarrow> bytes) \<Rightarrow> bytes \<Rightarrow> bytes \<Rightarrow> bool" where
  "completes f g requests replies \<longleftrightarrow> f replies = requests \<and> g requests = replies \<and>
     (\<forall>p q. (delivery f g)\<^sup>*\<^sup>* ([], []) (p, q) \<longrightarrow> prefix p replies \<and> prefix q requests
        \<and> ((p, q) = (replies, requests) \<or> (\<exists>s. delivery f g (p, q) s)))"

definition converse :: "'a io \<Rightarrow> disk \<Rightarrow> 'b io \<Rightarrow> disk \<Rightarrow> bytes \<Rightarrow> bytes \<Rightarrow> bool" where
  "converse client dc server ds requests replies \<longleftrightarrow>
     (\<forall>wc ws. w_disk wc = dc \<and> peer_is [] [] wc \<and> w_disk ws = ds \<and> peer_is [] [] ws \<longrightarrow>
        completes (sends_after client wc) (sends_after server ws) requests replies)"

section \<open>Deliveries between monotone programs\<close>

definition grows :: "(bytes \<Rightarrow> bytes) \<Rightarrow> bool" where
  "grows f \<longleftrightarrow> (\<forall>x y. prefix x y \<longrightarrow> prefix (f x) (f y))"

lemma growsD: "grows f \<Longrightarrow> prefix x y \<Longrightarrow> prefix (f x) (f y)"
  by (simp add: grows_def)

text \<open>One order of a conversation: the two sides take turns.\<close>

inductive exchanged :: "(bytes \<Rightarrow> bytes) \<Rightarrow> (bytes \<Rightarrow> bytes) \<Rightarrow> bytes \<Rightarrow> bytes \<Rightarrow> bool" for f g where
  nothing: "exchanged f g [] []"
| ask: "exchanged f g a b \<Longrightarrow> exchanged f g (f b) b"
| answer: "exchanged f g a b \<Longrightarrow> exchanged f g a (g a)"

lemma exchanged_least:
  assumes "exchanged f g a b" and "grows f" and "grows g" and "f p = q" and "g q = p"
  shows "prefix a q \<and> prefix b p"
  using assms(1)
proof (induction rule: exchanged.induct)
  case (ask a b)
  with growsD [OF assms(2)] show ?case unfolding assms(4) [symmetric] by blast
next
  case (answer a b)
  with growsD [OF assms(3), of a q] assms(5) show ?case by simp
qed simp

lemma delivered_within:
  assumes "(delivery f g)\<^sup>*\<^sup>* ([], []) (p, q)" and "grows f" and "grows g" and "f b = a" and "g a = b"
  shows "prefix p (g q) \<and> prefix q (f p) \<and> prefix p b \<and> prefix q a"
  using assms(1)
proof (induction rule: rtranclp_induct2)
  case (step p q p' q')
  from step.hyps(2) show ?case
  proof (rule deliveryE)
    fix p2 assume s: "(p', q') = (p2, q)" "strict_prefix p p2" "prefix p2 (g q)"
    have "prefix (g q) b" using step.IH growsD [OF assms(3), of q a] assms(5) by simp
    moreover have "prefix (f p) (f p2)" using s(2) growsD [OF assms(2)] by (simp add: strict_prefix_def)
    ultimately show ?case using step.IH s by (auto intro: prefix_order.trans)
  next
    fix q2 assume s: "(p', q') = (p, q2)" "strict_prefix q q2" "prefix q2 (f p)"
    have "prefix (f p) a" using step.IH growsD [OF assms(2), of p b] assms(4) by simp
    moreover have "prefix (g q) (g q2)" using s(2) growsD [OF assms(3)] by (simp add: strict_prefix_def)
    ultimately show ?case using step.IH s by (auto intro: prefix_order.trans)
  qed
qed simp

lemma exchanged_completes:
  assumes "exchanged f g a b" and "grows f" and "grows g" and "f b = a" and "g a = b"
  shows "completes f g a b"
  unfolding completes_def
proof (intro conjI allI impI)
  fix p q assume "(delivery f g)\<^sup>*\<^sup>* ([], []) (p, q)"
  note w = delivered_within [OF this assms(2-5)]
  show "prefix p b" "prefix q a" using w by simp_all
  show "(p, q) = (b, a) \<or> (\<exists>s. delivery f g (p, q) s)"
  proof (cases "p = g q \<and> q = f p")
    case True
    note least = exchanged_least [OF assms(1-3) conjunct2 [OF True, symmetric] conjunct1 [OF True, symmetric]]
    have "p = b" by (rule prefix_order.antisym) (use w least in blast)+
    moreover have "q = a" by (rule prefix_order.antisym) (use w least in blast)+
    ultimately show ?thesis by blast
  next
    case False
    with w have "strict_prefix p (g q) \<or> strict_prefix q (f p)" by (auto simp: strict_prefix_def)
    then show ?thesis using to_client [of p "g q" g q f] to_server [of q "f p" f p g] by blast
  qed
qed (use assms(4,5) in simp_all)

section \<open>Programs only react to what has arrived\<close>

definition more_to :: "world \<Rightarrow> bytes \<Rightarrow> world" where
  "more_to w q = w\<lparr>w_peer := with_more (w_peer w) q\<rparr>"

lemma more_to_sel [simp]:
  "w_disk (more_to w q) = w_disk w" "w_peer (more_to w q) = with_more (w_peer w) q" "w_sockets (more_to w q) = w_sockets w"
  by (simp_all add: more_to_def)

lemma sent_first_more [simp]: "sent_first (with_more c q) = sent_first c"
  by (simp add: sent_first_def split: option.split)

text \<open>An action keeps what it has sent, and where it waited first.\<close>

definition steady_at :: "'a io \<Rightarrow> world \<Rightarrow> bool" where
  "steady_at m w \<longleftrightarrow> prefix (outbox (w_peer w)) (outbox (w_peer (snd (m w))))
     \<and> (waited (w_peer w) \<noteq> None \<longrightarrow> waited (w_peer (snd (m w))) = waited (w_peer w))
     \<and> prefix (sent_first (w_peer w)) (sent_first (w_peer (snd (m w))))"

definition steady :: "'a io \<Rightarrow> bool" where
  "steady m \<longleftrightarrow> (\<forall>w. steady_at m w)"

text \<open>When it does not wait it does the same with more to come, and when it does, it has sent what it also
  sends with more to come.\<close>

definition causal_at :: "'a io \<Rightarrow> world \<Rightarrow> bool" where
  "causal_at m w \<longleftrightarrow> (\<forall>q.
     (waited (w_peer (snd (m w))) = None \<longrightarrow> m (more_to w q) = (fst (m w), more_to (snd (m w)) q))
     \<and> prefix (sent_first (w_peer (snd (m w)))) (sent_first (w_peer (snd (m (more_to w q))))))"

definition causal :: "'a io \<Rightarrow> bool" where
  "causal m \<longleftrightarrow> steady m \<and> (\<forall>w. causal_at m w)"

lemma causal_steady: "causal m \<Longrightarrow> steady m"
  by (simp add: causal_def)

text \<open>Two actions in a row; \<open>k\<close> gets the result of the first, an exception included.\<close>

definition io_seq :: "'a io \<Rightarrow> ('a result \<Rightarrow> 'b io) \<Rightarrow> 'b io" where
  "io_seq m k = (\<lambda>w. case m w of (r, w') \<Rightarrow> k r w')"

lemma steady_at_seq: "steady_at m w \<Longrightarrow> (\<And>r w'. m w = (r, w') \<Longrightarrow> steady_at (k r) w') \<Longrightarrow> steady_at (io_seq m k) w"
proof -
  assume m: "steady_at m w" and k: "\<And>r w'. m w = (r, w') \<Longrightarrow> steady_at (k r) w'"
  obtain r w' where "m w = (r, w')" by fastforce
  with m k [OF this] show ?thesis
    by (auto simp: steady_at_def io_seq_def intro: prefix_order.trans)
qed

lemma causal_at_seq:
  assumes "steady_at m w" and "causal_at m w"
    and "\<And>r w'. m w = (r, w') \<Longrightarrow> steady_at (k r) w' \<and> causal_at (k r) w'"
    and "\<And>r. steady (k r)"
  shows "causal_at (io_seq m k) w"
  unfolding causal_at_def
proof (intro allI conjI impI)
  fix q
  obtain r w1 where m: "m w = (r, w1)" by fastforce
  obtain r2 w2 where m2: "m (more_to w q) = (r2, w2)" by fastforce
  note k = assms(3) [OF m]
  have none: "waited (w_peer w1) = None \<Longrightarrow> (r2, w2) = (r, more_to w1 q)"
    using assms(2) m m2 by (simp add: causal_at_def)
  {
    assume w: "waited (w_peer (snd (io_seq m k w))) = None"
    then have "waited (w_peer w1) = None" using k by (cases "waited (w_peer w1)") (auto simp: io_seq_def m steady_at_def)
    with none k w show "io_seq m k (more_to w q) = (fst (io_seq m k w), more_to (snd (io_seq m k w)) q)"
      by (auto simp: io_seq_def m m2 causal_at_def)
  }
  show "prefix (sent_first (w_peer (snd (io_seq m k w)))) (sent_first (w_peer (snd (io_seq m k (more_to w q)))))"
  proof (cases "waited (w_peer w1)")
    case None
    with none k show ?thesis by (auto simp: io_seq_def m m2 causal_at_def)
  next
    case (Some before)
    then have "waited (w_peer (snd (k r w1))) = Some before" using k by (auto simp: steady_at_def)
    moreover have "prefix (sent_first (w_peer w1)) (sent_first (w_peer w2))"
      using assms(2) m m2 by (auto simp: causal_at_def dest: spec [of _ q])
    moreover have "prefix (sent_first (w_peer w2)) (sent_first (w_peer (snd (k r2 w2))))"
      using assms(4) by (simp add: steady_def steady_at_def)
    ultimately show ?thesis using Some by (auto simp: io_seq_def m m2 intro: prefix_order.trans)
  qed
qed

lemma steady_seq: "steady m \<Longrightarrow> (\<And>r. steady (k r)) \<Longrightarrow> steady (io_seq m k)"
  by (simp add: steady_def steady_at_seq)

lemma causal_seq:
  assumes "causal m" and "\<And>r. causal (k r)"
  shows "causal (io_seq m k)"
proof -
  have "causal_at (io_seq m k) w" for w
    by (rule causal_at_seq) (use assms in \<open>simp_all add: causal_def steady_def\<close>)
  moreover have "steady (io_seq m k)"
    using assms by (intro steady_seq) (simp_all add: causal_def)
  ultimately show ?thesis by (simp add: causal_def)
qed

named_theorems causal_intros \<open>rules that push \<open>causal\<close> through an action\<close>

text \<open>Actions that leave the connection alone.\<close>

lemma causal_local:
  assumes "\<And>w c. m (w\<lparr>w_peer := c\<rparr>) = (fst (m w), (snd (m w))\<lparr>w_peer := c\<rparr>)"
  shows "causal m"
proof -
  have same: "w_peer (snd (m w)) = w_peer w" for w
  proof -
    have "snd (m w) = (snd (m w))\<lparr>w_peer := w_peer w\<rparr>" using assms [of "w_peer w" w] by (simp add: prod_eq_iff)
    from arg_cong [OF this, of w_peer] show ?thesis by simp
  qed
  show ?thesis
    unfolding causal_def steady_def steady_at_def causal_at_def
    by (simp add: same) (simp add: more_to_def assms same)
qed

lemma causal_basic [causal_intros]:
  "causal (io_return x)" "causal (io_lift r)" "causal (io_read f)" "causal (io_write g)" "causal close_socket"
  "causal (create_listener E port)" "causal (accept_connection E)" "causal (connect_to E host port)"
  by (rule causal_local; simp add: io_write_def close_socket_def create_listener_def accept_connection_def
      connect_to_def open_socket_def io_bind_def Let_def split: sum.split)+

lemma io_bind_seq: "io_bind m f = io_seq m (\<lambda>r. case r of Inl e \<Rightarrow> io_lift (Inl e) | Inr x \<Rightarrow> f x)"
  by (auto simp: io_bind_def io_seq_def fun_eq_iff split: prod.split sum.split)

lemma io_catch_seq:
  "io_catch m h = io_seq m (\<lambda>r. case r of Inl e \<Rightarrow> if catchable e then h else io_lift (Inl e) | Inr x \<Rightarrow> io_return x)"
  by (auto simp: io_catch_def io_seq_def fun_eq_iff split: prod.split sum.split)

lemma with_peer_seq: "with_peer m = io_seq m (\<lambda>r. io_seq close_socket (\<lambda>_. io_lift r))"
  by (auto simp: with_peer_def io_seq_def fun_eq_iff split: prod.split)

lemma causal_bind [causal_intros]: "causal m \<Longrightarrow> (\<And>x. causal (f x)) \<Longrightarrow> causal (io_bind m f)"
  unfolding io_bind_seq by (rule causal_seq) (auto intro: causal_basic split: sum.split)

lemma causal_catch [causal_intros]: "causal m \<Longrightarrow> causal h \<Longrightarrow> causal (io_catch m h)"
  unfolding io_catch_seq by (rule causal_seq) (auto intro: causal_basic split: sum.split)

lemma causal_with_peer [causal_intros]: "causal m \<Longrightarrow> causal (with_peer m)"
  unfolding with_peer_seq by (intro causal_seq causal_basic)

lemma causal_if [causal_intros]: "(b \<Longrightarrow> causal m) \<Longrightarrow> (\<not> b \<Longrightarrow> causal m') \<Longrightarrow> causal (if b then m else m')"
  by simp

lemma causal_option [causal_intros]:
  "causal m \<Longrightarrow> (\<And>x. causal (f x)) \<Longrightarrow> causal (case opt of None \<Rightarrow> m | Some x \<Rightarrow> f x)"
  by (cases opt) simp_all

lemma causal_prod [causal_intros]: "(\<And>x y. causal (f x y)) \<Longrightarrow> causal (case p of (x, y) \<Rightarrow> f x y)"
  by (cases p) simp

text \<open>Sending and receiving.\<close>

lemma causal_send [causal_intros]: "causal (peer_send cmd payload)"
proof -
  have "steady_at (peer_send cmd payload) w \<and> causal_at (peer_send cmd payload) w" for w
  proof -
    obtain ok c where s: "Peer_Send (w_peer w) cmd payload = (ok, c)" by fastforce
    note p = Peer_Send_more [OF s]
    have "prefix (sent_first (w_peer w)) (sent_first c)"
      using p(2,3) by (auto simp: sent_first_def split: option.split)
    with p s show ?thesis
      by (simp add: steady_at_def causal_at_def peer_send_def more_to_def)
  qed
  then show ?thesis by (simp add: causal_def steady_def)
qed

lemma Peer_Receive_Inr: "\<exists>m c'. Peer_Receive c = Inr (m, c')"
  using receive_message_total [of c] by (auto simp: Peer_Receive_def)

lemma only_waits_sent: "only_waits c c' \<Longrightarrow> sent_first c' = sent_first c"
  by (auto simp: only_waits_def sent_first_def split: option.split)

lemma causal_receive [causal_intros]: "causal peer_receive"
proof -
  have "steady_at peer_receive w \<and> causal_at peer_receive w" for w
  proof -
    obtain m c where r: "Peer_Receive (w_peer w) = Inr (m, c)" using Peer_Receive_Inr by blast
    note p = receive_message_waits [OF r [unfolded Peer_Receive_def]]
    have same: "sent_first (w_peer (snd (peer_receive w'))) = sent_first (w_peer w')" for w'
    proof -
      obtain m' c' where r': "Peer_Receive (w_peer w') = Inr (m', c')" using Peer_Receive_Inr by blast
      with only_waits_sent [OF receive_message_waits(1) [OF r' [unfolded Peer_Receive_def]]] show ?thesis
        by (simp add: peer_receive_def)
    qed
    have "steady_at peer_receive w"
      using p(1) same [of w] by (auto simp: steady_at_def peer_receive_def r only_waits_def)
    moreover have "causal_at peer_receive w"
      unfolding causal_at_def same
    proof (intro allI conjI impI)
      fix q assume "waited (w_peer (snd (peer_receive w))) = None"
      then have "Peer_Receive (with_more (w_peer w) q) = Inr (m, with_more c q)"
        using p(2) [of q] by (simp add: peer_receive_def r) (simp add: Peer_Receive_def)
      then show "peer_receive (more_to w q) = (fst (peer_receive w), more_to (snd (peer_receive w)) q)"
        by (simp add: peer_receive_def r more_to_def)
    qed simp
    ultimately show ?thesis ..
  qed
  then show ?thesis by (simp add: causal_def steady_def)
qed

lemma causal_expect [causal_intros]: "(\<And>p. causal (f p)) \<Longrightarrow> causal other \<Longrightarrow> causal (expect cmd f other)"
  unfolding expect_def by (intro causal_intros)

text \<open>A loop whose every further turn has taken something off the stream.\<close>

lemma causal_loop:
  assumes eq: "\<And>s. loop s = io_bind (m s) (\<lambda>s'. if stop s' then io_return () else loop s')"
    and m: "\<And>s. causal (m s)"
    and less: "\<And>s w s' w'. m s w = (Inr s', w') \<Longrightarrow> \<not> stop s' \<Longrightarrow> length (inbox (w_peer w')) < length (inbox (w_peer w))"
  shows "causal (loop s)"
proof -
  define k where "k = (\<lambda>r. case r of Inl e \<Rightarrow> io_lift (Inl e) | Inr s' \<Rightarrow> if stop s' then io_return () else loop s')"
  have loop: "loop s = io_seq (m s) k" for s
    unfolding k_def by (subst eq) (rule io_bind_seq)
  have basic: "steady (io_return ())" "steady (io_lift r)" "causal_at (io_return ()) w" "causal_at (io_lift r) w" for r :: "unit result" and w
    using causal_basic(1) [of "()"] causal_basic(2) [of r] by (simp_all add: causal_def)
  have steady: "steady_at (loop s) w" for s w
  proof (induction "length (inbox (w_peer w))" arbitrary: s w rule: less_induct)
    case less
    show ?case
      unfolding loop
    proof (rule steady_at_seq)
      show "steady_at (m s) w" using m [of s] by (simp add: causal_def steady_def)
      show "steady_at (k r) w'" if "m s w = (r, w')" for r w'
        using that less assms(3) basic(1,2) by (auto simp: k_def steady_def split: sum.split)
    qed
  qed
  then have steady_k: "steady (k r)" for r
    using basic(1,2) by (auto simp: k_def steady_def split: sum.split)
  have "causal_at (loop s) w" for s w
  proof (induction "length (inbox (w_peer w))" arbitrary: s w rule: less_induct)
    case less
    show ?case
      unfolding loop
    proof (rule causal_at_seq)
      show "steady_at (m s) w" "causal_at (m s) w" using m [of s] by (simp_all add: causal_def steady_def)
      show "steady_at (k r) w' \<and> causal_at (k r) w'" if "m s w = (r, w')" for r w'
        using that less assms(3) basic(3,4) steady_k by (auto simp: k_def steady_def split: sum.split)
    qed (rule steady_k)
  qed
  with steady show ?thesis by (simp add: causal_def steady_def)
qed

text \<open>What a program has sent when it waits grows with what has arrived.\<close>

lemma causal_grows:
  assumes "causal m" and "waited (w_peer w) = None"
  shows "grows (sends_after m w)"
  unfolding grows_def
proof (intro allI impI)
  fix x y :: bytes assume "prefix x y"
  then obtain q where y: "y = x @ q" by (auto elim: prefixE)
  let ?w = "\<lambda>i. w\<lparr>w_peer := (w_peer w)\<lparr>inbox := i\<rparr>\<rparr>"
  have "?w y = more_to (?w x) q" by (simp add: more_to_def with_more_def y)
  with assms(1) show "prefix (sends_after m w x) (sends_after m w y)"
    by (simp add: sends_after_def causal_def causal_at_def)
qed

section \<open>What a program has sent when it waits\<close>

text \<open>With \<open>ins\<close> to come and \<open>outs\<close> sent: \<open>waits\<close> when all of \<open>ins\<close> is not enough and \<open>sent\<close> has been sent
  then, \<open>says\<close> when \<open>m\<close> waits or ends with \<open>sent\<close>, \<open>ends\<close> when \<open>m\<close> waits for more and returns once the
  peer closes instead, without sending anything else.\<close>

definition says :: "'a io \<Rightarrow> disk \<Rightarrow> bytes \<Rightarrow> bytes \<Rightarrow> bytes \<Rightarrow> bool" where
  "says m d ins outs sent \<longleftrightarrow>
     (\<forall>w. w_disk w = d \<and> peer_is ins outs w \<longrightarrow> sent_first (w_peer (snd (m w))) = sent)"

definition waits :: "'a io \<Rightarrow> disk \<Rightarrow> bytes \<Rightarrow> bytes \<Rightarrow> bytes \<Rightarrow> bool" where
  "waits m d ins outs sent \<longleftrightarrow>
     (\<forall>w. w_disk w = d \<and> peer_is ins outs w \<longrightarrow> waited (w_peer (snd (m w))) = Some sent)"

definition ends :: "'a io \<Rightarrow> disk \<Rightarrow> bytes \<Rightarrow> bytes \<Rightarrow> 'a result \<Rightarrow> disk \<Rightarrow> bytes \<Rightarrow> bool" where
  "ends m d ins outs r d' sent \<longleftrightarrow>
     (\<forall>w. w_disk w = d \<and> peer_is ins outs w \<longrightarrow>
        (\<exists>w'. m w = (r, w') \<and> w_disk w' = d' \<and> inbox (w_peer w') = [] \<and> outbox (w_peer w') = sent
           \<and> waited (w_peer w') = Some sent))"

lemma ends_waits: "ends m d ins outs r d' sent \<Longrightarrow> waits m d ins outs sent"
  by (fastforce simp: ends_def waits_def)

lemma waits_says: "waits m d ins outs sent \<Longrightarrow> says m d ins outs sent"
  by (simp add: waits_def says_def)

lemma talks_says: "talks m d ins outs r d' ins' outs' \<Longrightarrow> says m d ins outs outs'"
  by (fastforce simp: talks_def says_def peer_is_def)

lemma steady_waited: "steady m \<Longrightarrow> waited (w_peer w) = Some sent \<Longrightarrow> waited (w_peer (snd (m w))) = Some sent"
  by (simp add: steady_def steady_at_def)

lemma waits_first:
  assumes "waits m d ins outs sent" and "\<And>x. steady (f x)"
  shows "waits (io_bind m f) d ins outs sent"
  unfolding waits_def
proof (intro allI impI)
  fix w assume "w_disk w = d \<and> peer_is ins outs w"
  with assms(1) have "waited (w_peer (snd (m w))) = Some sent" by (simp add: waits_def)
  with assms(2) show "waited (w_peer (snd (io_bind m f w))) = Some sent"
    by (auto simp: io_bind_def steady_waited split: prod.split sum.split)
qed

lemma waits_bind:
  "talks m d ins outs (Inr x) d1 ins1 outs1 \<Longrightarrow> waits (f x) d1 ins1 outs1 sent \<Longrightarrow> waits (io_bind m f) d ins outs sent"
  by (fastforce simp: talks_def waits_def io_bind_def)

lemma ends_bind:
  "talks m d ins outs (Inr x) d1 ins1 outs1 \<Longrightarrow> ends (f x) d1 ins1 outs1 r d' sent \<Longrightarrow> ends (io_bind m f) d ins outs r d' sent"
  by (fastforce simp: talks_def ends_def io_bind_def)

lemma ends_close: "ends m d ins outs (Inr x) d' sent \<Longrightarrow> ends (io_bind m (\<lambda>_. close_socket)) d ins outs (Inr ()) d' sent"
  by (fastforce simp: ends_def io_bind_def close_socket_def)

lemma ends_with_peer: "ends m d ins outs r d' sent \<Longrightarrow> ends (with_peer m) d ins outs r d' sent"
  by (fastforce simp: ends_def with_peer_def close_socket_def)

lemma waits_with_peer: "waits m d ins outs sent \<Longrightarrow> waits (with_peer m) d ins outs sent"
  by (auto simp: waits_def with_peer_def close_socket_def split: prod.split)

lemma waits_send:
  assumes "waits (f True) d ins (outs @ message_bytes cmd payload) sent"
  shows "waits (io_bind (peer_send cmd payload) f) d ins outs sent"
  by (rule waits_bind [OF talks_sent]) (rule assms)

lemma ends_send:
  assumes "ends (f True) d ins (outs @ message_bytes cmd payload) r d' sent"
  shows "ends (io_bind (peer_send cmd payload) f) d ins outs r d' sent"
  by (rule ends_bind [OF talks_sent]) (rule assms)

lemma waits_expect:
  assumes "command_ok cmd" and "length payload \<le> unat MAX_PAYLOAD_SIZE" and "waits (f payload) d ins outs sent"
  shows "waits (expect cmd f other) d (message_bytes cmd payload @ ins) outs sent"
  unfolding expect_def by (rule waits_bind [OF talks_received [OF assms(1,2)]]) (simp add: assms(3))

lemma ends_expect:
  assumes "command_ok cmd" and "length payload \<le> unat MAX_PAYLOAD_SIZE" and "ends (f payload) d ins outs r d' sent"
  shows "ends (expect cmd f other) d (message_bytes cmd payload @ ins) outs r d' sent"
  unfolding expect_def by (rule ends_bind [OF talks_received [OF assms(1,2)]]) (simp add: assms(3))

lemma waits_here:
  assumes "\<And>p. causal (f p)" and "causal other"
  shows "waits (expect cmd f other) d [] outs outs"
  unfolding expect_def
proof (rule waits_first)
  show "waits peer_receive d [] outs outs"
    unfolding waits_def
  proof (intro allI impI)
    fix w assume "w_disk w = d \<and> peer_is [] outs w"
    then have "clean (w_peer w)" "inbox (w_peer w) = []" "sent_first (w_peer w) = outs" by (auto simp: peer_is_def)
    with receive_end [of "w_peer w"] show "waited (w_peer (snd (peer_receive w))) = Some outs"
      by (auto simp: peer_receive_def)
  qed
  show "steady (case m of None \<Rightarrow> other | Some msg \<Rightarrow> if m_command msg \<noteq> cmd then other else f (m_payload msg))" for m
    using assms by (auto intro: causal_steady split: option.split)
qed

section \<open>Two programs taking turns\<close>

inductive turns :: "'a io \<Rightarrow> disk \<Rightarrow> 'b io \<Rightarrow> disk \<Rightarrow> bytes \<Rightarrow> bytes \<Rightarrow> bool" for A da B db where
  turns_start: "turns A da B db [] []"
| turns_ask: "turns A da B db a b \<Longrightarrow> says A da b [] a' \<Longrightarrow> turns A da B db a' b"
| turns_answer: "turns A da B db a b \<Longrightarrow> says B db a [] b' \<Longrightarrow> turns A da B db a b'"

lemma says_sends:
  assumes "says m d ins [] sent" and "w_disk w = d" and "peer_is [] [] w"
  shows "sends_after m w ins = sent"
  using assms by (simp add: says_def sends_after_def peer_is_def clean_def)

text \<open>Turns that end with both sides satisfied show that every order of the conversation completes.\<close>

lemma turns_converse:
  assumes "turns A da B db a b" and "says A da b [] a" and "says B db a [] b" and "causal A" and "causal B"
  shows "converse A da B db a b"
  unfolding converse_def
proof (intro allI impI)
  fix wa wb assume w: "w_disk wa = da \<and> peer_is [] [] wa \<and> w_disk wb = db \<and> peer_is [] [] wb"
  let ?f = "sends_after A wa" and ?g = "sends_after B wb"
  have "exchanged ?f ?g a b"
    using assms(1)
  proof (induction rule: turns.induct)
    case turns_start
    show ?case by (rule exchanged.nothing)
  next
    case (turns_ask a b a')
    with w exchanged.ask [OF turns_ask.IH] says_sends [OF turns_ask.hyps(2)] show ?case by simp
  next
    case (turns_answer a b b')
    with w exchanged.answer [OF turns_answer.IH] says_sends [OF turns_answer.hyps(2)] show ?case by simp
  qed
  moreover have "grows ?f" "grows ?g" using w assms(4,5) by (auto intro: causal_grows simp: peer_is_def)
  moreover have "?f b = a" "?g a = b" using w says_sends [OF assms(2)] says_sends [OF assms(3)] by simp_all
  ultimately show "completes ?f ?g a b" by (rule exchanged_completes)
qed

end
