(* ===== verification/Compressions.thy ===== *)
theory Compressions
  imports Picosha2
begin

text \<open>
  SHA-256 evaluated in the kernel: each lemma \<open>compression_<n>\<close> is the value of one call of
  \<open>hash256_block\<close>, 64 rounds on concrete words. They are the calls that hashing the two
  coinbases and the two headers of theory \<open>Mined\<close> makes.
\<close>

section \<open>Evaluating SHA-256\<close>

text \<open>The message schedule is checked, not computed: each entry from the 17th on against the 16 before it.\<close>

fun sched_ok :: "word_t list \<Rightarrow> bool" where
  "sched_ok (w0 # w1 # w2 # w3 # w4 # w5 # w6 # w7 # w8 # w9 # w10 # w11 # w12 # w13 # w14 # w15 # w16 # ws) \<longleftrightarrow>
     mask_32bit (((ssig1 w14 + w9) + ssig0 w1) + w0) = w16
     \<and> sched_ok (w1 # w2 # w3 # w4 # w5 # w6 # w7 # w8 # w9 # w10 # w11 # w12 # w13 # w14 # w15 # w16 # ws)"
| "sched_ok ws = True"

lemma sched_ok_nth:
  "sched_ok ws \<Longrightarrow> i + 16 < length ws \<Longrightarrow>
     ws ! (i + 16) = mask_32bit (((ssig1 (ws ! (i + 14)) + ws ! (i + 9)) + ssig0 (ws ! (i + 1))) + ws ! i)"
proof (induction ws arbitrary: i rule: sched_ok.induct)
  case (1 w0 w1 w2 w3 w4 w5 w6 w7 w8 w9 w10 w11 w12 w13 w14 w15 w16 ws)
  show ?case
  proof (cases i)
    case 0
    with "1.prems" show ?thesis by simp
  next
    case (Suc j)
    with "1.IH" [of j] "1.prems" show ?thesis by simp
  qed
qed simp_all

lemma extend_schedule_prefix:
  "sched_ok ws \<Longrightarrow> 16 \<le> i \<Longrightarrow> i + n = length ws \<Longrightarrow> extend_schedule (take i ws) n = ws"
proof (induction n arbitrary: i)
  case (Suc n)
  have "i - 16 + 16 = i" "i - 16 + 14 = i - 2" "i - 16 + 9 = i - 7" "i - 16 + 1 = i - 15"
    using Suc.prems by simp_all
  with sched_ok_nth [of ws "i - 16"] Suc.prems
  have "ws ! i = mask_32bit (((ssig1 (ws ! (i - 2)) + ws ! (i - 7)) + ssig0 (ws ! (i - 15))) + ws ! (i - 16))"
    by simp
  moreover have "take (Suc i) ws = take i ws @ [ws ! i]"
    using Suc.prems by (intro take_Suc_conv_app_nth) simp
  ultimately show ?case using Suc.IH [of "Suc i"] Suc.prems by (simp add: Let_def min_def)
qed simp

lemma message_scheduleI:
  "sched_ok ws \<Longrightarrow> length ws = 64 \<Longrightarrow> map (block_word blk) [0..<16] = take 16 ws \<Longrightarrow> message_schedule blk = ws"
  using extend_schedule_prefix [of ws 16 48] by (simp add: message_schedule_def)

lemma round_step_eq:
  "round_step k wi (a, b, c, d, e, f, g, h) =
     (mask_32bit (((((h + bsig1 e) + ch e f g) + k) + wi) + (bsig0 a + maj a b c)), a, b, c,
      mask_32bit (d + ((((h + bsig1 e) + ch e f g) + k) + wi)), e, f, g)"
  by (simp add: round_step_def Let_def)

lemma rounds_append:
  "length ks = length ws \<Longrightarrow> rounds (ks @ ks') (ws @ ws') r = rounds ks' ws' (rounds ks ws r)"
  by (induction ks ws r rule: rounds.induct) simp_all

lemma rounds_chunks:
  "rounds ka w1 r0 = r1 \<Longrightarrow> rounds kb w2 r1 = r2 \<Longrightarrow> rounds kc w3 r2 = r3 \<Longrightarrow> rounds kd w4 r3 = r4 \<Longrightarrow>
     length ka = length w1 \<Longrightarrow> length kb = length w2 \<Longrightarrow> length kc = length w3 \<Longrightarrow>
     rounds (ka @ kb @ kc @ kd) (w1 @ w2 @ w3 @ w4) r0 = r4"
  by (simp add: rounds_append)

lemma block_words:
  "map (block_word blk) [0..<16] = map (block_word blk) [0, 1, 2, 3, 4, 5, 6, 7, 8, 9, 10, 11, 12, 13, 14, 15]"
  by (simp add: upt_rec eval_nat_numeral)

lemmas sha_ops = mask_32bit_def mask_8bit_def bsig0_def bsig1_def ssig0_def ssig1_def ch_def maj_def rotr_def shr_def

section \<open>The compressions\<close>


definition schedule_0 :: "word_t list" where
  "schedule_0 =
    [0x1000000, 0x1000000, 0, 0, 0, 0, 0, 0, 0, 0, 0xFFFFFFFF, 0x4000000, 0, 0xFFFFFFFF, 0x1000000,
     0xF2052A, 0x12240E0, 0x43307CE5, 0x6C6C4825, 0x31FEC5E1, 0xAD0D00A8, 0xBB40C171, 0x215C0591,
     0x79DA7BD8, 0xC5A36069, 0xFEF58D6C, 0xE8F799D, 0x28315E6F, 0x2F3F46B8, 0xA66E8319, 0x9BB07E14,
     0xA879EEC2, 0xEDF40A6, 0x71AF2059, 0x52068140, 0xDA4B9B1A, 0xA85B1E20, 0x3CD754FD, 0xD813322E,
     0xDCCD2447, 0xDC2F9993, 0x6D43E7C5, 0xB57536A8, 0x3A56614, 0x310A120C, 0xC40E6818, 0xAFB8E296,
     0x1BD7D693, 0x5E167A9E, 0x63763C10, 0xFF29B72, 0x78BC8D6E, 0xB41A4BDC, 0x4DCF0A22, 0x3DD59CD0,
     0x7983168B, 0x3C26E241, 0x712F9850, 0x4D905B2C, 0x91BE896B, 0x58C9C86A, 0x97AEA0AB, 0xD753E1BA,
     0x863D7F81]"

lemma schedule_0_ok: "sched_ok schedule_0"
  by (simp add: schedule_0_def sha_ops)

lemma rounds_0_0:
  "rounds [0x428A2F98, 0x71374491, 0xB5C0FBCF, 0xE9B5DBA5, 0x3956C25B, 0x59F111F1, 0x923F82A4, 0xAB1C5ED5,
     0xD807AA98, 0x12835B01, 0x243185BE, 0x550C7DC3, 0x72BE5D74, 0x80DEB1FE, 0x9BDC06A7, 0xC19BF174]
    [0x1000000, 0x1000000, 0, 0, 0, 0, 0, 0, 0, 0, 0xFFFFFFFF, 0x4000000, 0, 0xFFFFFFFF, 0x1000000,
     0xF2052A]
    (0x6A09E667, 0xBB67AE85, 0x3C6EF372, 0xA54FF53A, 0x510E527F, 0x9B05688C, 0x1F83D9AB, 0x5BE0CD19)
   = (0xE22684DA, 0x7A6E1F59, 0xDD2AE231, 0xB86A7EE3, 0x6C1C7F7F, 0x9CE93CB6, 0x3042BA41, 0xE2994C22)"
  by (simp add: round_step_eq sha_ops)

lemma rounds_0_1:
  "rounds [0xE49B69C1, 0xEFBE4786, 0xFC19DC6, 0x240CA1CC, 0x2DE92C6F, 0x4A7484AA, 0x5CB0A9DC, 0x76F988DA,
     0x983E5152, 0xA831C66D, 0xB00327C8, 0xBF597FC7, 0xC6E00BF3, 0xD5A79147, 0x6CA6351, 0x14292967]
    [0x12240E0, 0x43307CE5, 0x6C6C4825, 0x31FEC5E1, 0xAD0D00A8, 0xBB40C171, 0x215C0591, 0x79DA7BD8,
     0xC5A36069, 0xFEF58D6C, 0xE8F799D, 0x28315E6F, 0x2F3F46B8, 0xA66E8319, 0x9BB07E14, 0xA879EEC2]
    (0xE22684DA, 0x7A6E1F59, 0xDD2AE231, 0xB86A7EE3, 0x6C1C7F7F, 0x9CE93CB6, 0x3042BA41, 0xE2994C22)
   = (0xA1C7E6AF, 0x91715FF8, 0x61612550, 0x5A7CC3FC, 0xB4692E70, 0xFEFCC78B, 0xB246CFE6, 0xFC934909)"
  by (simp add: round_step_eq sha_ops)

lemma rounds_0_2:
  "rounds [0x27B70A85, 0x2E1B2138, 0x4D2C6DFC, 0x53380D13, 0x650A7354, 0x766A0ABB, 0x81C2C92E, 0x92722C85,
     0xA2BFE8A1, 0xA81A664B, 0xC24B8B70, 0xC76C51A3, 0xD192E819, 0xD6990624, 0xF40E3585, 0x106AA070]
    [0xEDF40A6, 0x71AF2059, 0x52068140, 0xDA4B9B1A, 0xA85B1E20, 0x3CD754FD, 0xD813322E, 0xDCCD2447,
     0xDC2F9993, 0x6D43E7C5, 0xB57536A8, 0x3A56614, 0x310A120C, 0xC40E6818, 0xAFB8E296, 0x1BD7D693]
    (0xA1C7E6AF, 0x91715FF8, 0x61612550, 0x5A7CC3FC, 0xB4692E70, 0xFEFCC78B, 0xB246CFE6, 0xFC934909)
   = (0xC4F1E0DB, 0xA4C14FCF, 0x984995B0, 0xB2C4241E, 0x6FF269C8, 0xC64B3D0E, 0x4D9A636E, 0x199E0872)"
  by (simp add: round_step_eq sha_ops)

lemma rounds_0_3:
  "rounds [0x19A4C116, 0x1E376C08, 0x2748774C, 0x34B0BCB5, 0x391C0CB3, 0x4ED8AA4A, 0x5B9CCA4F, 0x682E6FF3,
     0x748F82EE, 0x78A5636F, 0x84C87814, 0x8CC70208, 0x90BEFFFA, 0xA4506CEB, 0xBEF9A3F7, 0xC67178F2]
    [0x5E167A9E, 0x63763C10, 0xFF29B72, 0x78BC8D6E, 0xB41A4BDC, 0x4DCF0A22, 0x3DD59CD0, 0x7983168B,
     0x3C26E241, 0x712F9850, 0x4D905B2C, 0x91BE896B, 0x58C9C86A, 0x97AEA0AB, 0xD753E1BA, 0x863D7F81]
    (0xC4F1E0DB, 0xA4C14FCF, 0x984995B0, 0xB2C4241E, 0x6FF269C8, 0xC64B3D0E, 0x4D9A636E, 0x199E0872)
   = (0x6A6B030A, 0x53EE8EEC, 0x860F6E3B, 0x526F57E8, 0xE8DC7787, 0x435A2097, 0x5F8283E, 0x3ACE2022)"
  by (simp add: round_step_eq sha_ops)

lemma compression_0:
  "hash256_block [0x6A09E667, 0xBB67AE85, 0x3C6EF372, 0xA54FF53A, 0x510E527F, 0x9B05688C, 0x1F83D9AB, 0x5BE0CD19]
    [1, 0, 0, 0, 1, 0, 0, 0, 0, 0, 0, 0, 0, 0, 0, 0, 0, 0, 0, 0, 0, 0, 0, 0, 0, 0, 0, 0, 0, 0, 0, 0,
     0, 0, 0, 0, 0, 0, 0, 0, 0xFF, 0xFF, 0xFF, 0xFF, 4, 0, 0, 0, 0, 0, 0, 0, 0xFF, 0xFF, 0xFF, 0xFF,
     1, 0, 0, 0, 0, 0xF2, 5, 0x2A]
   = [0xD474E971, 0xF563D71, 0xC27E61AD, 0xF7BF4D22, 0x39EACA06, 0xDE5F8923, 0x257C01E9, 0x96AEED3B]"
proof -
  let ?blk = "[1, 0, 0, 0, 1, 0, 0, 0, 0, 0, 0, 0, 0, 0, 0, 0, 0, 0, 0, 0, 0, 0, 0, 0, 0, 0, 0, 0, 0, 0, 0, 0,
     0, 0, 0, 0, 0, 0, 0, 0, 0xFF, 0xFF, 0xFF, 0xFF, 4, 0, 0, 0, 0, 0, 0, 0, 0xFF, 0xFF, 0xFF, 0xFF,
     1, 0, 0, 0, 0, 0xF2, 5, 0x2A] :: bytes"
  have "map (block_word ?blk) [0..<16] = take 16 schedule_0"
    unfolding block_words by (simp add: block_word_def mask_8bit_def schedule_0_def)
  then have "message_schedule ?blk = schedule_0"
    by (intro message_scheduleI schedule_0_ok) (simp_all add: schedule_0_def)
  moreover have "rounds add_constant schedule_0 (0x6A09E667, 0xBB67AE85, 0x3C6EF372, 0xA54FF53A, 0x510E527F, 0x9B05688C, 0x1F83D9AB, 0x5BE0CD19) = (0x6A6B030A, 0x53EE8EEC, 0x860F6E3B, 0x526F57E8, 0xE8DC7787, 0x435A2097, 0x5F8283E, 0x3ACE2022)"
    using rounds_chunks [OF rounds_0_0 rounds_0_1 rounds_0_2 rounds_0_3]
    by (simp add: add_constant_def schedule_0_def)
  ultimately show ?thesis
    by (simp add: hash256_block_def mask_32bit_def)
qed

definition schedule_1 :: "word_t list" where
  "schedule_1 =
    [0x1000000, 0x19000000, 0x76A91400, 0, 0, 0, 0, 0x88, 0xAC000000, 0x800000, 0, 0, 0, 0, 0,
     0x328, 0x4920640, 0x66296D02, 0xBA923A5A, 0x9B38F58A, 0x5A48AE95, 0x6452D0C6, 0x52B0977E,
     0x4BCD1BDF, 0x6B7EBC4D, 0xE998FA33, 0x24EEBD09, 0xBCAE9E56, 0xED7F5E0B, 0xEF7F39E3, 0xE196F109,
     0xE8807AF3, 0xE81290A8, 0xE9E7A0F4, 0xCCF00FF3, 0xB76FB5D9, 0x846FF30A, 0x4590DFF3, 0x34100776,
     0xE0A0CB02, 0x9D2C0AA0, 0xECF8527C, 0x7DFAAAF0, 0x42615579, 0x47937076, 0x5745DE28, 0x7CD9C17D,
     0xC369C300, 0xCA6B0BD1, 0x3FAE026A, 0x3CE6F031, 0xB9C25A8D, 0x5B8D3CAA, 0x13DB6AA3, 0x5C66314C,
     0xD344F229, 0xAC4C8B12, 0x573D0518, 0xBC13CEA7, 0xF88A5965, 0x27E32E39, 0xA08A45D1, 0xAC1CDEA8,
     0x525EDACE]"

lemma schedule_1_ok: "sched_ok schedule_1"
  by (simp add: schedule_1_def sha_ops)

lemma rounds_1_0:
  "rounds [0x428A2F98, 0x71374491, 0xB5C0FBCF, 0xE9B5DBA5, 0x3956C25B, 0x59F111F1, 0x923F82A4, 0xAB1C5ED5,
     0xD807AA98, 0x12835B01, 0x243185BE, 0x550C7DC3, 0x72BE5D74, 0x80DEB1FE, 0x9BDC06A7, 0xC19BF174]
    [0x1000000, 0x19000000, 0x76A91400, 0, 0, 0, 0, 0x88, 0xAC000000, 0x800000, 0, 0, 0, 0, 0, 0x328]
    (0xD474E971, 0xF563D71, 0xC27E61AD, 0xF7BF4D22, 0x39EACA06, 0xDE5F8923, 0x257C01E9, 0x96AEED3B)
   = (0x88B993E6, 0x1222A05D, 0x10EA1FF7, 0x1ABE00B, 0x108F3D04, 0xAD4441EC, 0x6D2A6835, 0x8EB3F45)"
  by (simp add: round_step_eq sha_ops)

lemma rounds_1_1:
  "rounds [0xE49B69C1, 0xEFBE4786, 0xFC19DC6, 0x240CA1CC, 0x2DE92C6F, 0x4A7484AA, 0x5CB0A9DC, 0x76F988DA,
     0x983E5152, 0xA831C66D, 0xB00327C8, 0xBF597FC7, 0xC6E00BF3, 0xD5A79147, 0x6CA6351, 0x14292967]
    [0x4920640, 0x66296D02, 0xBA923A5A, 0x9B38F58A, 0x5A48AE95, 0x6452D0C6, 0x52B0977E, 0x4BCD1BDF,
     0x6B7EBC4D, 0xE998FA33, 0x24EEBD09, 0xBCAE9E56, 0xED7F5E0B, 0xEF7F39E3, 0xE196F109, 0xE8807AF3]
    (0x88B993E6, 0x1222A05D, 0x10EA1FF7, 0x1ABE00B, 0x108F3D04, 0xAD4441EC, 0x6D2A6835, 0x8EB3F45)
   = (0x72D68551, 0xBF672E83, 0x38A705DC, 0xEFB4B62E, 0xDDBA4775, 0xECC841C9, 0xC222BA45, 0x25E41C3A)"
  by (simp add: round_step_eq sha_ops)

lemma rounds_1_2:
  "rounds [0x27B70A85, 0x2E1B2138, 0x4D2C6DFC, 0x53380D13, 0x650A7354, 0x766A0ABB, 0x81C2C92E, 0x92722C85,
     0xA2BFE8A1, 0xA81A664B, 0xC24B8B70, 0xC76C51A3, 0xD192E819, 0xD6990624, 0xF40E3585, 0x106AA070]
    [0xE81290A8, 0xE9E7A0F4, 0xCCF00FF3, 0xB76FB5D9, 0x846FF30A, 0x4590DFF3, 0x34100776, 0xE0A0CB02,
     0x9D2C0AA0, 0xECF8527C, 0x7DFAAAF0, 0x42615579, 0x47937076, 0x5745DE28, 0x7CD9C17D, 0xC369C300]
    (0x72D68551, 0xBF672E83, 0x38A705DC, 0xEFB4B62E, 0xDDBA4775, 0xECC841C9, 0xC222BA45, 0x25E41C3A)
   = (0xD2027F62, 0x2BFBCC03, 0x6B2CF56A, 0x83EEBEFB, 0xA10DD6C0, 0xBDA013A8, 0x9E3D5B71, 0x23BA07A1)"
  by (simp add: round_step_eq sha_ops)

lemma rounds_1_3:
  "rounds [0x19A4C116, 0x1E376C08, 0x2748774C, 0x34B0BCB5, 0x391C0CB3, 0x4ED8AA4A, 0x5B9CCA4F, 0x682E6FF3,
     0x748F82EE, 0x78A5636F, 0x84C87814, 0x8CC70208, 0x90BEFFFA, 0xA4506CEB, 0xBEF9A3F7, 0xC67178F2]
    [0xCA6B0BD1, 0x3FAE026A, 0x3CE6F031, 0xB9C25A8D, 0x5B8D3CAA, 0x13DB6AA3, 0x5C66314C, 0xD344F229,
     0xAC4C8B12, 0x573D0518, 0xBC13CEA7, 0xF88A5965, 0x27E32E39, 0xA08A45D1, 0xAC1CDEA8, 0x525EDACE]
    (0xD2027F62, 0x2BFBCC03, 0x6B2CF56A, 0x83EEBEFB, 0xA10DD6C0, 0xBDA013A8, 0x9E3D5B71, 0x23BA07A1)
   = (0xB716714E, 0x5F879FA6, 0xFD1AF7F6, 0x220BF0D, 0xE81A52B5, 0x5817A188, 0xC643E042, 0x185B7774)"
  by (simp add: round_step_eq sha_ops)

lemma compression_1:
  "hash256_block [0xD474E971, 0xF563D71, 0xC27E61AD, 0xF7BF4D22, 0x39EACA06, 0xDE5F8923, 0x257C01E9, 0x96AEED3B]
    [1, 0, 0, 0, 0x19, 0, 0, 0, 0x76, 0xA9, 0x14, 0, 0, 0, 0, 0, 0, 0, 0, 0, 0, 0, 0, 0, 0, 0, 0, 0,
     0, 0, 0, 0x88, 0xAC, 0, 0, 0, 0, 0x80, 0, 0, 0, 0, 0, 0, 0, 0, 0, 0, 0, 0, 0, 0, 0, 0, 0, 0, 0,
     0, 0, 0, 0, 0, 3, 0x28]
   = [0x8B8B5ABF, 0x6EDDDD17, 0xBF9959A3, 0xF9E00C2F, 0x22051CBB, 0x36772AAB, 0xEBBFE22B, 0xAF0A64AF]"
proof -
  let ?blk = "[1, 0, 0, 0, 0x19, 0, 0, 0, 0x76, 0xA9, 0x14, 0, 0, 0, 0, 0, 0, 0, 0, 0, 0, 0, 0, 0, 0, 0, 0, 0,
     0, 0, 0, 0x88, 0xAC, 0, 0, 0, 0, 0x80, 0, 0, 0, 0, 0, 0, 0, 0, 0, 0, 0, 0, 0, 0, 0, 0, 0, 0, 0,
     0, 0, 0, 0, 0, 3, 0x28] :: bytes"
  have "map (block_word ?blk) [0..<16] = take 16 schedule_1"
    unfolding block_words by (simp add: block_word_def mask_8bit_def schedule_1_def)
  then have "message_schedule ?blk = schedule_1"
    by (intro message_scheduleI schedule_1_ok) (simp_all add: schedule_1_def)
  moreover have "rounds add_constant schedule_1 (0xD474E971, 0xF563D71, 0xC27E61AD, 0xF7BF4D22, 0x39EACA06, 0xDE5F8923, 0x257C01E9, 0x96AEED3B) = (0xB716714E, 0x5F879FA6, 0xFD1AF7F6, 0x220BF0D, 0xE81A52B5, 0x5817A188, 0xC643E042, 0x185B7774)"
    using rounds_chunks [OF rounds_1_0 rounds_1_1 rounds_1_2 rounds_1_3]
    by (simp add: add_constant_def schedule_1_def)
  ultimately show ?thesis
    by (simp add: hash256_block_def mask_32bit_def)
qed

definition schedule_2 :: "word_t list" where
  "schedule_2 =
    [0x8B8B5ABF, 0x6EDDDD17, 0xBF9959A3, 0xF9E00C2F, 0x22051CBB, 0x36772AAB, 0xEBBFE22B, 0xAF0A64AF,
     0x80000000, 0, 0, 0, 0, 0, 0, 0x100, 0xDFCF366E, 0x7662D378, 0x812AE15B, 0x62D91AA7,
     0xE8B4DD60, 0x96C18F8A, 0xB47ADB44, 0x95EB64F8, 0x2D4AA57C, 0x5FF103EC, 0x68F3DC4C, 0x8A5135A6,
     0x2C77151A, 0x70BFDB73, 0xFE50B38A, 0x4FF46F8C, 0xDA4A7179, 0xB8ECEC86, 0x8658A5C8, 0x66EDA84C,
     0x40895FF, 0x1F7ECB95, 0x97594A9C, 0x81A2950A, 0x62A769D, 0x612AA801, 0x56B55430, 0x84032953,
     0x6AABC67F, 0x208FE0DC, 0x2660B258, 0xD7404A36, 0xAC3193BC, 0xE4C02674, 0x3E216F7, 0xC55E1052,
     0x972731D, 0x8954A97D, 0x86FEC5C0, 0x96F5A524, 0x4A4BE13C, 0xA97F948, 0x269B258E, 0x93253440,
     0x2EE7CD4C, 0x7C32180E, 0x4225BEDA, 0x78D7A2E7]"

lemma schedule_2_ok: "sched_ok schedule_2"
  by (simp add: schedule_2_def sha_ops)

lemma rounds_2_0:
  "rounds [0x428A2F98, 0x71374491, 0xB5C0FBCF, 0xE9B5DBA5, 0x3956C25B, 0x59F111F1, 0x923F82A4, 0xAB1C5ED5,
     0xD807AA98, 0x12835B01, 0x243185BE, 0x550C7DC3, 0x72BE5D74, 0x80DEB1FE, 0x9BDC06A7, 0xC19BF174]
    [0x8B8B5ABF, 0x6EDDDD17, 0xBF9959A3, 0xF9E00C2F, 0x22051CBB, 0x36772AAB, 0xEBBFE22B, 0xAF0A64AF,
     0x80000000, 0, 0, 0, 0, 0, 0, 0x100]
    (0x6A09E667, 0xBB67AE85, 0x3C6EF372, 0xA54FF53A, 0x510E527F, 0x9B05688C, 0x1F83D9AB, 0x5BE0CD19)
   = (0x87E51E68, 0xE1C3EAD3, 0x64622AD3, 0xFBCEF44E, 0xECF0951C, 0x339D5276, 0x43C51D91, 0x8C20DC6E)"
  by (simp add: round_step_eq sha_ops)

lemma rounds_2_1:
  "rounds [0xE49B69C1, 0xEFBE4786, 0xFC19DC6, 0x240CA1CC, 0x2DE92C6F, 0x4A7484AA, 0x5CB0A9DC, 0x76F988DA,
     0x983E5152, 0xA831C66D, 0xB00327C8, 0xBF597FC7, 0xC6E00BF3, 0xD5A79147, 0x6CA6351, 0x14292967]
    [0xDFCF366E, 0x7662D378, 0x812AE15B, 0x62D91AA7, 0xE8B4DD60, 0x96C18F8A, 0xB47ADB44, 0x95EB64F8,
     0x2D4AA57C, 0x5FF103EC, 0x68F3DC4C, 0x8A5135A6, 0x2C77151A, 0x70BFDB73, 0xFE50B38A, 0x4FF46F8C]
    (0x87E51E68, 0xE1C3EAD3, 0x64622AD3, 0xFBCEF44E, 0xECF0951C, 0x339D5276, 0x43C51D91, 0x8C20DC6E)
   = (0x72BCEB83, 0x61B93860, 0xB21D9D23, 0xDBBF9E06, 0x2F1D47F7, 0xB4718C76, 0x7BE623C9, 0x7C39FD2)"
  by (simp add: round_step_eq sha_ops)

lemma rounds_2_2:
  "rounds [0x27B70A85, 0x2E1B2138, 0x4D2C6DFC, 0x53380D13, 0x650A7354, 0x766A0ABB, 0x81C2C92E, 0x92722C85,
     0xA2BFE8A1, 0xA81A664B, 0xC24B8B70, 0xC76C51A3, 0xD192E819, 0xD6990624, 0xF40E3585, 0x106AA070]
    [0xDA4A7179, 0xB8ECEC86, 0x8658A5C8, 0x66EDA84C, 0x40895FF, 0x1F7ECB95, 0x97594A9C, 0x81A2950A,
     0x62A769D, 0x612AA801, 0x56B55430, 0x84032953, 0x6AABC67F, 0x208FE0DC, 0x2660B258, 0xD7404A36]
    (0x72BCEB83, 0x61B93860, 0xB21D9D23, 0xDBBF9E06, 0x2F1D47F7, 0xB4718C76, 0x7BE623C9, 0x7C39FD2)
   = (0x1473BC2C, 0xD3AD98E1, 0x44E8DFED, 0xD84DF4, 0x8D4C70FA, 0x68FF1116, 0x6B335C6D, 0xD062ED60)"
  by (simp add: round_step_eq sha_ops)

lemma rounds_2_3:
  "rounds [0x19A4C116, 0x1E376C08, 0x2748774C, 0x34B0BCB5, 0x391C0CB3, 0x4ED8AA4A, 0x5B9CCA4F, 0x682E6FF3,
     0x748F82EE, 0x78A5636F, 0x84C87814, 0x8CC70208, 0x90BEFFFA, 0xA4506CEB, 0xBEF9A3F7, 0xC67178F2]
    [0xAC3193BC, 0xE4C02674, 0x3E216F7, 0xC55E1052, 0x972731D, 0x8954A97D, 0x86FEC5C0, 0x96F5A524,
     0x4A4BE13C, 0xA97F948, 0x269B258E, 0x93253440, 0x2EE7CD4C, 0x7C32180E, 0x4225BEDA, 0x78D7A2E7]
    (0x1473BC2C, 0xD3AD98E1, 0x44E8DFED, 0xD84DF4, 0x8D4C70FA, 0x68FF1116, 0x6B335C6D, 0xD062ED60)
   = (0x98C0CC4, 0x94C2B96B, 0x34297275, 0x6572CA0E, 0xAB19985F, 0xD720FA42, 0x259D4C3C, 0x72912D2E)"
  by (simp add: round_step_eq sha_ops)

lemma compression_2:
  "hash256_block [0x6A09E667, 0xBB67AE85, 0x3C6EF372, 0xA54FF53A, 0x510E527F, 0x9B05688C, 0x1F83D9AB, 0x5BE0CD19]
    [0x8B, 0x8B, 0x5A, 0xBF, 0x6E, 0xDD, 0xDD, 0x17, 0xBF, 0x99, 0x59, 0xA3, 0xF9, 0xE0, 0xC, 0x2F,
     0x22, 5, 0x1C, 0xBB, 0x36, 0x77, 0x2A, 0xAB, 0xEB, 0xBF, 0xE2, 0x2B, 0xAF, 0xA, 0x64, 0xAF,
     0x80, 0, 0, 0, 0, 0, 0, 0, 0, 0, 0, 0, 0, 0, 0, 0, 0, 0, 0, 0, 0, 0, 0, 0, 0, 0, 0, 0, 0, 0, 1,
     0]
   = [0x7395F32B, 0x502A67F0, 0x709865E7, 0xAC2BF48, 0xFC27EADE, 0x722662CE, 0x452125E7, 0xCE71FA47]"
proof -
  let ?blk = "[0x8B, 0x8B, 0x5A, 0xBF, 0x6E, 0xDD, 0xDD, 0x17, 0xBF, 0x99, 0x59, 0xA3, 0xF9, 0xE0, 0xC, 0x2F,
     0x22, 5, 0x1C, 0xBB, 0x36, 0x77, 0x2A, 0xAB, 0xEB, 0xBF, 0xE2, 0x2B, 0xAF, 0xA, 0x64, 0xAF,
     0x80, 0, 0, 0, 0, 0, 0, 0, 0, 0, 0, 0, 0, 0, 0, 0, 0, 0, 0, 0, 0, 0, 0, 0, 0, 0, 0, 0, 0, 0, 1,
     0] :: bytes"
  have "map (block_word ?blk) [0..<16] = take 16 schedule_2"
    unfolding block_words by (simp add: block_word_def mask_8bit_def schedule_2_def)
  then have "message_schedule ?blk = schedule_2"
    by (intro message_scheduleI schedule_2_ok) (simp_all add: schedule_2_def)
  moreover have "rounds add_constant schedule_2 (0x6A09E667, 0xBB67AE85, 0x3C6EF372, 0xA54FF53A, 0x510E527F, 0x9B05688C, 0x1F83D9AB, 0x5BE0CD19) = (0x98C0CC4, 0x94C2B96B, 0x34297275, 0x6572CA0E, 0xAB19985F, 0xD720FA42, 0x259D4C3C, 0x72912D2E)"
    using rounds_chunks [OF rounds_2_0 rounds_2_1 rounds_2_2 rounds_2_3]
    by (simp add: add_constant_def schedule_2_def)
  ultimately show ?thesis
    by (simp add: hash256_block_def mask_32bit_def)
qed

definition schedule_3 :: "word_t list" where
  "schedule_3 =
    [0x1000000, 0, 0, 0, 0, 0, 0, 0, 0, 0x7395F32B, 0x502A67F0, 0x709865E7, 0xAC2BF48, 0xFC27EADE,
     0x722662CE, 0x452125E7, 0x71B871FA, 0x6886A6D, 0xA7767EDE, 0x433D40D7, 0xECC545A8, 0x7A87E977,
     0x4F7B8092, 0x7B4465E3, 0xDB306485, 0x4CB88217, 0xABD823FF, 0xED57DDA1, 0xF3C08CE5, 0x6B16267B,
     0xD495382B, 0xDEE48A7E, 0xB9DE05E2, 0xBCBF26F3, 0x4E05DB28, 0xCBB16CCC, 0xCAB64834, 0xB83F4764,
     0xEC753755, 0x8A844B23, 0xDCF694D9, 0x2A68D10D, 0xB962A865, 0x2162BC97, 0x1F3A39C6, 0x648E0252,
     0x7FF47624, 0xD0864F6D, 0xD36299C4, 0x9427E66A, 0x6B2940E6, 0xDD974F3B, 0xC7683594, 0x8204E5CB,
     0x1DD20B69, 0x59745DF1, 0xE157D62D, 0xB12AEA7A, 0x2E306BC7, 0x12D1EABA, 0x29C63C2, 0xA4F786D8,
     0xE96D6B6C, 0x1B384371]"

lemma schedule_3_ok: "sched_ok schedule_3"
  by (simp add: schedule_3_def sha_ops)

lemma rounds_3_0:
  "rounds [0x428A2F98, 0x71374491, 0xB5C0FBCF, 0xE9B5DBA5, 0x3956C25B, 0x59F111F1, 0x923F82A4, 0xAB1C5ED5,
     0xD807AA98, 0x12835B01, 0x243185BE, 0x550C7DC3, 0x72BE5D74, 0x80DEB1FE, 0x9BDC06A7, 0xC19BF174]
    [0x1000000, 0, 0, 0, 0, 0, 0, 0, 0, 0x7395F32B, 0x502A67F0, 0x709865E7, 0xAC2BF48, 0xFC27EADE,
     0x722662CE, 0x452125E7]
    (0x6A09E667, 0xBB67AE85, 0x3C6EF372, 0xA54FF53A, 0x510E527F, 0x9B05688C, 0x1F83D9AB, 0x5BE0CD19)
   = (0x2F264348, 0x419F9723, 0xA416F2BF, 0x3693FF6A, 0x8C2764A9, 0xFD6C183C, 0x7D56BDCE, 0xBCFF3254)"
  by (simp add: round_step_eq sha_ops)

lemma rounds_3_1:
  "rounds [0xE49B69C1, 0xEFBE4786, 0xFC19DC6, 0x240CA1CC, 0x2DE92C6F, 0x4A7484AA, 0x5CB0A9DC, 0x76F988DA,
     0x983E5152, 0xA831C66D, 0xB00327C8, 0xBF597FC7, 0xC6E00BF3, 0xD5A79147, 0x6CA6351, 0x14292967]
    [0x71B871FA, 0x6886A6D, 0xA7767EDE, 0x433D40D7, 0xECC545A8, 0x7A87E977, 0x4F7B8092, 0x7B4465E3,
     0xDB306485, 0x4CB88217, 0xABD823FF, 0xED57DDA1, 0xF3C08CE5, 0x6B16267B, 0xD495382B, 0xDEE48A7E]
    (0x2F264348, 0x419F9723, 0xA416F2BF, 0x3693FF6A, 0x8C2764A9, 0xFD6C183C, 0x7D56BDCE, 0xBCFF3254)
   = (0x6154059D, 0xD907816C, 0x4DB04357, 0x97D91712, 0x4105576D, 0xE73BCC31, 0x4724764, 0xFE5A89FC)"
  by (simp add: round_step_eq sha_ops)

lemma rounds_3_2:
  "rounds [0x27B70A85, 0x2E1B2138, 0x4D2C6DFC, 0x53380D13, 0x650A7354, 0x766A0ABB, 0x81C2C92E, 0x92722C85,
     0xA2BFE8A1, 0xA81A664B, 0xC24B8B70, 0xC76C51A3, 0xD192E819, 0xD6990624, 0xF40E3585, 0x106AA070]
    [0xB9DE05E2, 0xBCBF26F3, 0x4E05DB28, 0xCBB16CCC, 0xCAB64834, 0xB83F4764, 0xEC753755, 0x8A844B23,
     0xDCF694D9, 0x2A68D10D, 0xB962A865, 0x2162BC97, 0x1F3A39C6, 0x648E0252, 0x7FF47624, 0xD0864F6D]
    (0x6154059D, 0xD907816C, 0x4DB04357, 0x97D91712, 0x4105576D, 0xE73BCC31, 0x4724764, 0xFE5A89FC)
   = (0xCB40C5, 0x407225EF, 0xD6BB2B6E, 0xBE1D47FD, 0x9AD8CE29, 0xEE514B7F, 0x865F8D25, 0xA270D2D6)"
  by (simp add: round_step_eq sha_ops)

lemma rounds_3_3:
  "rounds [0x19A4C116, 0x1E376C08, 0x2748774C, 0x34B0BCB5, 0x391C0CB3, 0x4ED8AA4A, 0x5B9CCA4F, 0x682E6FF3,
     0x748F82EE, 0x78A5636F, 0x84C87814, 0x8CC70208, 0x90BEFFFA, 0xA4506CEB, 0xBEF9A3F7, 0xC67178F2]
    [0xD36299C4, 0x9427E66A, 0x6B2940E6, 0xDD974F3B, 0xC7683594, 0x8204E5CB, 0x1DD20B69, 0x59745DF1,
     0xE157D62D, 0xB12AEA7A, 0x2E306BC7, 0x12D1EABA, 0x29C63C2, 0xA4F786D8, 0xE96D6B6C, 0x1B384371]
    (0xCB40C5, 0x407225EF, 0xD6BB2B6E, 0xBE1D47FD, 0x9AD8CE29, 0xEE514B7F, 0x865F8D25, 0xA270D2D6)
   = (0x516AF3C7, 0xB2067F5B, 0x7CB7F2F0, 0xB030E4D7, 0xCF7BCA90, 0x88BED71E, 0x446D4304, 0xB8204F36)"
  by (simp add: round_step_eq sha_ops)

lemma compression_3:
  "hash256_block [0x6A09E667, 0xBB67AE85, 0x3C6EF372, 0xA54FF53A, 0x510E527F, 0x9B05688C, 0x1F83D9AB, 0x5BE0CD19]
    [1, 0, 0, 0, 0, 0, 0, 0, 0, 0, 0, 0, 0, 0, 0, 0, 0, 0, 0, 0, 0, 0, 0, 0, 0, 0, 0, 0, 0, 0, 0, 0,
     0, 0, 0, 0, 0x73, 0x95, 0xF3, 0x2B, 0x50, 0x2A, 0x67, 0xF0, 0x70, 0x98, 0x65, 0xE7, 0xA, 0xC2,
     0xBF, 0x48, 0xFC, 0x27, 0xEA, 0xDE, 0x72, 0x26, 0x62, 0xCE, 0x45, 0x21, 0x25, 0xE7]
   = [0xBB74DA2E, 0x6D6E2DE0, 0xB926E662, 0x5580DA11, 0x208A1D0F, 0x23C43FAA, 0x63F11CAF, 0x14011C4F]"
proof -
  let ?blk = "[1, 0, 0, 0, 0, 0, 0, 0, 0, 0, 0, 0, 0, 0, 0, 0, 0, 0, 0, 0, 0, 0, 0, 0, 0, 0, 0, 0, 0, 0, 0, 0,
     0, 0, 0, 0, 0x73, 0x95, 0xF3, 0x2B, 0x50, 0x2A, 0x67, 0xF0, 0x70, 0x98, 0x65, 0xE7, 0xA, 0xC2,
     0xBF, 0x48, 0xFC, 0x27, 0xEA, 0xDE, 0x72, 0x26, 0x62, 0xCE, 0x45, 0x21, 0x25, 0xE7] :: bytes"
  have "map (block_word ?blk) [0..<16] = take 16 schedule_3"
    unfolding block_words by (simp add: block_word_def mask_8bit_def schedule_3_def)
  then have "message_schedule ?blk = schedule_3"
    by (intro message_scheduleI schedule_3_ok) (simp_all add: schedule_3_def)
  moreover have "rounds add_constant schedule_3 (0x6A09E667, 0xBB67AE85, 0x3C6EF372, 0xA54FF53A, 0x510E527F, 0x9B05688C, 0x1F83D9AB, 0x5BE0CD19) = (0x516AF3C7, 0xB2067F5B, 0x7CB7F2F0, 0xB030E4D7, 0xCF7BCA90, 0x88BED71E, 0x446D4304, 0xB8204F36)"
    using rounds_chunks [OF rounds_3_0 rounds_3_1 rounds_3_2 rounds_3_3]
    by (simp add: add_constant_def schedule_3_def)
  ultimately show ?thesis
    by (simp add: hash256_block_def mask_32bit_def)
qed

definition schedule_4 :: "word_t list" where
  "schedule_4 =
    [0xCE71FA47, 0x2F15365, 0xFFFF7F20, 0, 0x80000000, 0, 0, 0, 0, 0, 0, 0, 0, 0, 0, 0x280,
     0x6CF482BD, 0x85C9824A, 0xD111A5E4, 0x24D803D, 0x667AB6C3, 0x7019B20F, 0xDA043DF, 0x5C4ED320,
     0xAF6091BE, 0x84F4DBFE, 0x5D10DAB5, 0x5D1C6695, 0xE634F32B, 0xCD2F8613, 0x44B7D655, 0x3B418B80,
     0xE8FA8832, 0x92924B5C, 0x5D958FCD, 0x7D176D1C, 0x26137614, 0xBF5D08EA, 0x1E9C3346, 0xB76EB325,
     0xBD281CA0, 0xCA1B9068, 0x20D02E5F, 0xB4FBE561, 0x98399913, 0xD1884FBF, 0x61B2F7AE, 0x148372E,
     0x11F0F245, 0xC3CFD9BE, 0x661FA864, 0x1E349241, 0x9972B2D4, 0x7FBE5C39, 0x20455488, 0xDBA210,
     0xAEA27388, 0x8751DD0D, 0xE3529111, 0x75E8E588, 0xA907FBBD, 0x4D54962D, 0xB6F1D0F4, 0x3E37C0AB]"

lemma schedule_4_ok: "sched_ok schedule_4"
  by (simp add: schedule_4_def sha_ops)

lemma rounds_4_0:
  "rounds [0x428A2F98, 0x71374491, 0xB5C0FBCF, 0xE9B5DBA5, 0x3956C25B, 0x59F111F1, 0x923F82A4, 0xAB1C5ED5,
     0xD807AA98, 0x12835B01, 0x243185BE, 0x550C7DC3, 0x72BE5D74, 0x80DEB1FE, 0x9BDC06A7, 0xC19BF174]
    [0xCE71FA47, 0x2F15365, 0xFFFF7F20, 0, 0x80000000, 0, 0, 0, 0, 0, 0, 0, 0, 0, 0, 0x280]
    (0xBB74DA2E, 0x6D6E2DE0, 0xB926E662, 0x5580DA11, 0x208A1D0F, 0x23C43FAA, 0x63F11CAF, 0x14011C4F)
   = (0xEAAB5939, 0xD6B0123E, 0x168B28A, 0x63DD8096, 0x753C720, 0x33EEE294, 0x2B57FBB5, 0xECEA580C)"
  by (simp add: round_step_eq sha_ops)

lemma rounds_4_1:
  "rounds [0xE49B69C1, 0xEFBE4786, 0xFC19DC6, 0x240CA1CC, 0x2DE92C6F, 0x4A7484AA, 0x5CB0A9DC, 0x76F988DA,
     0x983E5152, 0xA831C66D, 0xB00327C8, 0xBF597FC7, 0xC6E00BF3, 0xD5A79147, 0x6CA6351, 0x14292967]
    [0x6CF482BD, 0x85C9824A, 0xD111A5E4, 0x24D803D, 0x667AB6C3, 0x7019B20F, 0xDA043DF, 0x5C4ED320,
     0xAF6091BE, 0x84F4DBFE, 0x5D10DAB5, 0x5D1C6695, 0xE634F32B, 0xCD2F8613, 0x44B7D655, 0x3B418B80]
    (0xEAAB5939, 0xD6B0123E, 0x168B28A, 0x63DD8096, 0x753C720, 0x33EEE294, 0x2B57FBB5, 0xECEA580C)
   = (0x151FC296, 0xD346EBA6, 0xB328EB28, 0xAEF42FD2, 0xE33CB2FB, 0x9DBB1E40, 0xEA7DD4F1, 0x7EA52285)"
  by (simp add: round_step_eq sha_ops)

lemma rounds_4_2:
  "rounds [0x27B70A85, 0x2E1B2138, 0x4D2C6DFC, 0x53380D13, 0x650A7354, 0x766A0ABB, 0x81C2C92E, 0x92722C85,
     0xA2BFE8A1, 0xA81A664B, 0xC24B8B70, 0xC76C51A3, 0xD192E819, 0xD6990624, 0xF40E3585, 0x106AA070]
    [0xE8FA8832, 0x92924B5C, 0x5D958FCD, 0x7D176D1C, 0x26137614, 0xBF5D08EA, 0x1E9C3346, 0xB76EB325,
     0xBD281CA0, 0xCA1B9068, 0x20D02E5F, 0xB4FBE561, 0x98399913, 0xD1884FBF, 0x61B2F7AE, 0x148372E]
    (0x151FC296, 0xD346EBA6, 0xB328EB28, 0xAEF42FD2, 0xE33CB2FB, 0x9DBB1E40, 0xEA7DD4F1, 0x7EA52285)
   = (0x3DA44252, 0x246A6024, 0xD8D42344, 0xB111811E, 0x5B8735C1, 0xC0CC0C2C, 0xD19BAEAB, 0x1E2AEDF6)"
  by (simp add: round_step_eq sha_ops)

lemma rounds_4_3:
  "rounds [0x19A4C116, 0x1E376C08, 0x2748774C, 0x34B0BCB5, 0x391C0CB3, 0x4ED8AA4A, 0x5B9CCA4F, 0x682E6FF3,
     0x748F82EE, 0x78A5636F, 0x84C87814, 0x8CC70208, 0x90BEFFFA, 0xA4506CEB, 0xBEF9A3F7, 0xC67178F2]
    [0x11F0F245, 0xC3CFD9BE, 0x661FA864, 0x1E349241, 0x9972B2D4, 0x7FBE5C39, 0x20455488, 0xDBA210,
     0xAEA27388, 0x8751DD0D, 0xE3529111, 0x75E8E588, 0xA907FBBD, 0x4D54962D, 0xB6F1D0F4, 0x3E37C0AB]
    (0x3DA44252, 0x246A6024, 0xD8D42344, 0xB111811E, 0x5B8735C1, 0xC0CC0C2C, 0xD19BAEAB, 0x1E2AEDF6)
   = (0xA8A869B2, 0x62F1B440, 0x236FEC8B, 0x4F59C4FD, 0xEC80D59E, 0x1D795F8F, 0x358F57B7, 0x4026F0D4)"
  by (simp add: round_step_eq sha_ops)

lemma compression_4:
  "hash256_block [0xBB74DA2E, 0x6D6E2DE0, 0xB926E662, 0x5580DA11, 0x208A1D0F, 0x23C43FAA, 0x63F11CAF, 0x14011C4F]
    [0xCE, 0x71, 0xFA, 0x47, 2, 0xF1, 0x53, 0x65, 0xFF, 0xFF, 0x7F, 0x20, 0, 0, 0, 0, 0x80, 0, 0, 0,
     0, 0, 0, 0, 0, 0, 0, 0, 0, 0, 0, 0, 0, 0, 0, 0, 0, 0, 0, 0, 0, 0, 0, 0, 0, 0, 0, 0, 0, 0, 0, 0,
     0, 0, 0, 0, 0, 0, 0, 0, 0, 0, 2, 0x80]
   = [0x641D43E0, 0xD05FE220, 0xDC96D2ED, 0xA4DA9F0E, 0xD0AF2AD, 0x413D9F39, 0x99807466, 0x54280D23]"
proof -
  let ?blk = "[0xCE, 0x71, 0xFA, 0x47, 2, 0xF1, 0x53, 0x65, 0xFF, 0xFF, 0x7F, 0x20, 0, 0, 0, 0, 0x80, 0, 0, 0,
     0, 0, 0, 0, 0, 0, 0, 0, 0, 0, 0, 0, 0, 0, 0, 0, 0, 0, 0, 0, 0, 0, 0, 0, 0, 0, 0, 0, 0, 0, 0, 0,
     0, 0, 0, 0, 0, 0, 0, 0, 0, 0, 2, 0x80] :: bytes"
  have "map (block_word ?blk) [0..<16] = take 16 schedule_4"
    unfolding block_words by (simp add: block_word_def mask_8bit_def schedule_4_def)
  then have "message_schedule ?blk = schedule_4"
    by (intro message_scheduleI schedule_4_ok) (simp_all add: schedule_4_def)
  moreover have "rounds add_constant schedule_4 (0xBB74DA2E, 0x6D6E2DE0, 0xB926E662, 0x5580DA11, 0x208A1D0F, 0x23C43FAA, 0x63F11CAF, 0x14011C4F) = (0xA8A869B2, 0x62F1B440, 0x236FEC8B, 0x4F59C4FD, 0xEC80D59E, 0x1D795F8F, 0x358F57B7, 0x4026F0D4)"
    using rounds_chunks [OF rounds_4_0 rounds_4_1 rounds_4_2 rounds_4_3]
    by (simp add: add_constant_def schedule_4_def)
  ultimately show ?thesis
    by (simp add: hash256_block_def mask_32bit_def)
qed

definition schedule_5 :: "word_t list" where
  "schedule_5 =
    [0x641D43E0, 0xD05FE220, 0xDC96D2ED, 0xA4DA9F0E, 0xD0AF2AD, 0x413D9F39, 0x99807466, 0x54280D23,
     0x80000000, 0, 0, 0, 0, 0, 0, 0x100, 0x740BB77, 0x459062FD, 0xD57CD63C, 0xC91B1662, 0x1C633A67,
     0xEE27C2A8, 0xE35E6F8D, 0x85A3CBC1, 0xBF9FFD5C, 0x723670D3, 0xCA454625, 0x12D29528, 0xFA0C8FE3,
     0xFB942F23, 0x5C16CD47, 0x1226BDD7, 0x2319EA82, 0xEFB5E24E, 0xC992E59F, 0x13AA53B9, 0x2F86F25,
     0x4A3BDB1C, 0x914B2C23, 0x9198C8A5, 0xD79E4667, 0xBC80C418, 0xC0F083C6, 0x8BB8E48E, 0xE94142A4,
     0x323EF90F, 0x7A01AE0C, 0x7F57B67, 0xBB2E4D25, 0x634B8F8A, 0x2920C5C8, 0x4AC0310, 0x76A2E014,
     0xE42BCA79, 0x308F11AA, 0x2DD6DBD3, 0xBDC589AE, 0x51A8520A, 0x70AE4EC4, 0x29FF5E18, 0x6274194A,
     0x23CAA0ED, 0xC795EEB8, 0x9979C83E]"

lemma schedule_5_ok: "sched_ok schedule_5"
  by (simp add: schedule_5_def sha_ops)

lemma rounds_5_0:
  "rounds [0x428A2F98, 0x71374491, 0xB5C0FBCF, 0xE9B5DBA5, 0x3956C25B, 0x59F111F1, 0x923F82A4, 0xAB1C5ED5,
     0xD807AA98, 0x12835B01, 0x243185BE, 0x550C7DC3, 0x72BE5D74, 0x80DEB1FE, 0x9BDC06A7, 0xC19BF174]
    [0x641D43E0, 0xD05FE220, 0xDC96D2ED, 0xA4DA9F0E, 0xD0AF2AD, 0x413D9F39, 0x99807466, 0x54280D23,
     0x80000000, 0, 0, 0, 0, 0, 0, 0x100]
    (0x6A09E667, 0xBB67AE85, 0x3C6EF372, 0xA54FF53A, 0x510E527F, 0x9B05688C, 0x1F83D9AB, 0x5BE0CD19)
   = (0x5EB0DA4, 0x1899AEE4, 0xA83EB27A, 0x61AE3690, 0x65A2CC1C, 0x6588054C, 0x6F573A04, 0x6BDFF68B)"
  by (simp add: round_step_eq sha_ops)

lemma rounds_5_1:
  "rounds [0xE49B69C1, 0xEFBE4786, 0xFC19DC6, 0x240CA1CC, 0x2DE92C6F, 0x4A7484AA, 0x5CB0A9DC, 0x76F988DA,
     0x983E5152, 0xA831C66D, 0xB00327C8, 0xBF597FC7, 0xC6E00BF3, 0xD5A79147, 0x6CA6351, 0x14292967]
    [0x740BB77, 0x459062FD, 0xD57CD63C, 0xC91B1662, 0x1C633A67, 0xEE27C2A8, 0xE35E6F8D, 0x85A3CBC1,
     0xBF9FFD5C, 0x723670D3, 0xCA454625, 0x12D29528, 0xFA0C8FE3, 0xFB942F23, 0x5C16CD47, 0x1226BDD7]
    (0x5EB0DA4, 0x1899AEE4, 0xA83EB27A, 0x61AE3690, 0x65A2CC1C, 0x6588054C, 0x6F573A04, 0x6BDFF68B)
   = (0x867B2B25, 0x47AACC51, 0xE4B821A2, 0x645EC8DC, 0xAF4EDE38, 0x22E7E57E, 0x4D6FE95A, 0xD42785F8)"
  by (simp add: round_step_eq sha_ops)

lemma rounds_5_2:
  "rounds [0x27B70A85, 0x2E1B2138, 0x4D2C6DFC, 0x53380D13, 0x650A7354, 0x766A0ABB, 0x81C2C92E, 0x92722C85,
     0xA2BFE8A1, 0xA81A664B, 0xC24B8B70, 0xC76C51A3, 0xD192E819, 0xD6990624, 0xF40E3585, 0x106AA070]
    [0x2319EA82, 0xEFB5E24E, 0xC992E59F, 0x13AA53B9, 0x2F86F25, 0x4A3BDB1C, 0x914B2C23, 0x9198C8A5,
     0xD79E4667, 0xBC80C418, 0xC0F083C6, 0x8BB8E48E, 0xE94142A4, 0x323EF90F, 0x7A01AE0C, 0x7F57B67]
    (0x867B2B25, 0x47AACC51, 0xE4B821A2, 0x645EC8DC, 0xAF4EDE38, 0x22E7E57E, 0x4D6FE95A, 0xD42785F8)
   = (0x349C28C6, 0xD4E99290, 0x5965C027, 0xDEE1BE95, 0x51F1E183, 0x4E3A4B00, 0xAD0D74F7, 0xB3547A74)"
  by (simp add: round_step_eq sha_ops)

lemma rounds_5_3:
  "rounds [0x19A4C116, 0x1E376C08, 0x2748774C, 0x34B0BCB5, 0x391C0CB3, 0x4ED8AA4A, 0x5B9CCA4F, 0x682E6FF3,
     0x748F82EE, 0x78A5636F, 0x84C87814, 0x8CC70208, 0x90BEFFFA, 0xA4506CEB, 0xBEF9A3F7, 0xC67178F2]
    [0xBB2E4D25, 0x634B8F8A, 0x2920C5C8, 0x4AC0310, 0x76A2E014, 0xE42BCA79, 0x308F11AA, 0x2DD6DBD3,
     0xBDC589AE, 0x51A8520A, 0x70AE4EC4, 0x29FF5E18, 0x6274194A, 0x23CAA0ED, 0xC795EEB8, 0x9979C83E]
    (0x349C28C6, 0xD4E99290, 0x5965C027, 0xDEE1BE95, 0x51F1E183, 0x4E3A4B00, 0xAD0D74F7, 0xB3547A74)
   = (0xF35D5B9E, 0x380880D9, 0x23ADE9C3, 0x7CBE9BD2, 0x4BB10B80, 0xD98D0A38, 0xD4FCB495, 0x3510E44B)"
  by (simp add: round_step_eq sha_ops)

lemma compression_5:
  "hash256_block [0x6A09E667, 0xBB67AE85, 0x3C6EF372, 0xA54FF53A, 0x510E527F, 0x9B05688C, 0x1F83D9AB, 0x5BE0CD19]
    [0x64, 0x1D, 0x43, 0xE0, 0xD0, 0x5F, 0xE2, 0x20, 0xDC, 0x96, 0xD2, 0xED, 0xA4, 0xDA, 0x9F, 0xE,
     0xD, 0xA, 0xF2, 0xAD, 0x41, 0x3D, 0x9F, 0x39, 0x99, 0x80, 0x74, 0x66, 0x54, 0x28, 0xD, 0x23,
     0x80, 0, 0, 0, 0, 0, 0, 0, 0, 0, 0, 0, 0, 0, 0, 0, 0, 0, 0, 0, 0, 0, 0, 0, 0, 0, 0, 0, 0, 0, 1,
     0]
   = [0x5D674205, 0xF3702F5E, 0x601CDD35, 0x220E910C, 0x9CBF5DFF, 0x749272C4, 0xF4808E40, 0x90F1B164]"
proof -
  let ?blk = "[0x64, 0x1D, 0x43, 0xE0, 0xD0, 0x5F, 0xE2, 0x20, 0xDC, 0x96, 0xD2, 0xED, 0xA4, 0xDA, 0x9F, 0xE,
     0xD, 0xA, 0xF2, 0xAD, 0x41, 0x3D, 0x9F, 0x39, 0x99, 0x80, 0x74, 0x66, 0x54, 0x28, 0xD, 0x23,
     0x80, 0, 0, 0, 0, 0, 0, 0, 0, 0, 0, 0, 0, 0, 0, 0, 0, 0, 0, 0, 0, 0, 0, 0, 0, 0, 0, 0, 0, 0, 1,
     0] :: bytes"
  have "map (block_word ?blk) [0..<16] = take 16 schedule_5"
    unfolding block_words by (simp add: block_word_def mask_8bit_def schedule_5_def)
  then have "message_schedule ?blk = schedule_5"
    by (intro message_scheduleI schedule_5_ok) (simp_all add: schedule_5_def)
  moreover have "rounds add_constant schedule_5 (0x6A09E667, 0xBB67AE85, 0x3C6EF372, 0xA54FF53A, 0x510E527F, 0x9B05688C, 0x1F83D9AB, 0x5BE0CD19) = (0xF35D5B9E, 0x380880D9, 0x23ADE9C3, 0x7CBE9BD2, 0x4BB10B80, 0xD98D0A38, 0xD4FCB495, 0x3510E44B)"
    using rounds_chunks [OF rounds_5_0 rounds_5_1 rounds_5_2 rounds_5_3]
    by (simp add: add_constant_def schedule_5_def)
  ultimately show ?thesis
    by (simp add: hash256_block_def mask_32bit_def)
qed

definition schedule_6 :: "word_t list" where
  "schedule_6 =
    [0x1000000, 0x1000000, 0, 0, 0, 0, 0, 0, 0, 0, 0xFFFFFFFF, 0x4000000, 0x1000000, 0xFFFFFFFF,
     0x1000000, 0xF2052A, 0x12240E0, 0x43307CE5, 0x6C6C4825, 0x32FEC5E1, 0xAD0D00A8, 0xBB400091,
     0x215C0591, 0x1967BA8, 0xC5A36069, 0x7F0DAD8B, 0xF8F799D, 0x149A13F4, 0x303EC678, 0x6CFFB42A,
     0x93EAB1E4, 0x433EB675, 0x6CF34F38, 0x3600C766, 0xC4A8CCD5, 0xE3617BA1, 0xCE091487, 0x8D438E5,
     0xDC573C6D, 0x1D1B3703, 0xE7ADD966, 0x26A6D866, 0xB8DEAD12, 0xE1D34FF8, 0x7064CF0E, 0x8EB5B03C,
     0xFEFDD361, 0x47B0A000, 0xE2F33C55, 0xB31A74A7, 0xA157A410, 0x1C2EF75D, 0x48934383, 0xBC3D7155,
     0xB6055DC0, 0xBE213392, 0x1EBE39B7, 0x20C1C3DD, 0xEF005E89, 0x253363E9, 0x561549A4, 0xCB364758,
     0xEB8B9039, 0xCA738471]"

lemma schedule_6_ok: "sched_ok schedule_6"
  by (simp add: schedule_6_def sha_ops)

lemma rounds_6_0:
  "rounds [0x428A2F98, 0x71374491, 0xB5C0FBCF, 0xE9B5DBA5, 0x3956C25B, 0x59F111F1, 0x923F82A4, 0xAB1C5ED5,
     0xD807AA98, 0x12835B01, 0x243185BE, 0x550C7DC3, 0x72BE5D74, 0x80DEB1FE, 0x9BDC06A7, 0xC19BF174]
    [0x1000000, 0x1000000, 0, 0, 0, 0, 0, 0, 0, 0, 0xFFFFFFFF, 0x4000000, 0x1000000, 0xFFFFFFFF,
     0x1000000, 0xF2052A]
    (0x6A09E667, 0xBB67AE85, 0x3C6EF372, 0xA54FF53A, 0x510E527F, 0x9B05688C, 0x1F83D9AB, 0x5BE0CD19)
   = (0x2DA2361, 0xECDF2176, 0x5DEECA35, 0xB96A7EE3, 0xD773EE38, 0x1CE94CF2, 0xB0469A41, 0xE3994C22)"
  by (simp add: round_step_eq sha_ops)

lemma rounds_6_1:
  "rounds [0xE49B69C1, 0xEFBE4786, 0xFC19DC6, 0x240CA1CC, 0x2DE92C6F, 0x4A7484AA, 0x5CB0A9DC, 0x76F988DA,
     0x983E5152, 0xA831C66D, 0xB00327C8, 0xBF597FC7, 0xC6E00BF3, 0xD5A79147, 0x6CA6351, 0x14292967]
    [0x12240E0, 0x43307CE5, 0x6C6C4825, 0x32FEC5E1, 0xAD0D00A8, 0xBB400091, 0x215C0591, 0x1967BA8,
     0xC5A36069, 0x7F0DAD8B, 0xF8F799D, 0x149A13F4, 0x303EC678, 0x6CFFB42A, 0x93EAB1E4, 0x433EB675]
    (0x2DA2361, 0xECDF2176, 0x5DEECA35, 0xB96A7EE3, 0xD773EE38, 0x1CE94CF2, 0xB0469A41, 0xE3994C22)
   = (0xA91602A6, 0xA12CB321, 0xD16D0B8F, 0x9DD75EE8, 0xB4D7F8B7, 0xB9F922D, 0xE19C8ACC, 0x26C3716E)"
  by (simp add: round_step_eq sha_ops)

lemma rounds_6_2:
  "rounds [0x27B70A85, 0x2E1B2138, 0x4D2C6DFC, 0x53380D13, 0x650A7354, 0x766A0ABB, 0x81C2C92E, 0x92722C85,
     0xA2BFE8A1, 0xA81A664B, 0xC24B8B70, 0xC76C51A3, 0xD192E819, 0xD6990624, 0xF40E3585, 0x106AA070]
    [0x6CF34F38, 0x3600C766, 0xC4A8CCD5, 0xE3617BA1, 0xCE091487, 0x8D438E5, 0xDC573C6D, 0x1D1B3703,
     0xE7ADD966, 0x26A6D866, 0xB8DEAD12, 0xE1D34FF8, 0x7064CF0E, 0x8EB5B03C, 0xFEFDD361, 0x47B0A000]
    (0xA91602A6, 0xA12CB321, 0xD16D0B8F, 0x9DD75EE8, 0xB4D7F8B7, 0xB9F922D, 0xE19C8ACC, 0x26C3716E)
   = (0xB7ECB642, 0x2CA8042D, 0x575F11EF, 0x226E9BA7, 0x2DA47CEF, 0x9DAE543D, 0x37D9924, 0x366FDCBF)"
  by (simp add: round_step_eq sha_ops)

lemma rounds_6_3:
  "rounds [0x19A4C116, 0x1E376C08, 0x2748774C, 0x34B0BCB5, 0x391C0CB3, 0x4ED8AA4A, 0x5B9CCA4F, 0x682E6FF3,
     0x748F82EE, 0x78A5636F, 0x84C87814, 0x8CC70208, 0x90BEFFFA, 0xA4506CEB, 0xBEF9A3F7, 0xC67178F2]
    [0xE2F33C55, 0xB31A74A7, 0xA157A410, 0x1C2EF75D, 0x48934383, 0xBC3D7155, 0xB6055DC0, 0xBE213392,
     0x1EBE39B7, 0x20C1C3DD, 0xEF005E89, 0x253363E9, 0x561549A4, 0xCB364758, 0xEB8B9039, 0xCA738471]
    (0xB7ECB642, 0x2CA8042D, 0x575F11EF, 0x226E9BA7, 0x2DA47CEF, 0x9DAE543D, 0x37D9924, 0x366FDCBF)
   = (0x527F4791, 0x459185A2, 0xEA69860, 0xAE06C7A2, 0xE9CAA780, 0xD8DF873C, 0xE1B06F16, 0x2A67F61B)"
  by (simp add: round_step_eq sha_ops)

lemma compression_6:
  "hash256_block [0x6A09E667, 0xBB67AE85, 0x3C6EF372, 0xA54FF53A, 0x510E527F, 0x9B05688C, 0x1F83D9AB, 0x5BE0CD19]
    [1, 0, 0, 0, 1, 0, 0, 0, 0, 0, 0, 0, 0, 0, 0, 0, 0, 0, 0, 0, 0, 0, 0, 0, 0, 0, 0, 0, 0, 0, 0, 0,
     0, 0, 0, 0, 0, 0, 0, 0, 0xFF, 0xFF, 0xFF, 0xFF, 4, 0, 0, 0, 1, 0, 0, 0, 0xFF, 0xFF, 0xFF, 0xFF,
     1, 0, 0, 0, 0, 0xF2, 5, 0x2A]
   = [0xBC892DF8, 0xF93427, 0x4B158BD2, 0x5356BCDC, 0x3AD8F9FF, 0x73E4EFC8, 0x13448C1, 0x8648C334]"
proof -
  let ?blk = "[1, 0, 0, 0, 1, 0, 0, 0, 0, 0, 0, 0, 0, 0, 0, 0, 0, 0, 0, 0, 0, 0, 0, 0, 0, 0, 0, 0, 0, 0, 0, 0,
     0, 0, 0, 0, 0, 0, 0, 0, 0xFF, 0xFF, 0xFF, 0xFF, 4, 0, 0, 0, 1, 0, 0, 0, 0xFF, 0xFF, 0xFF, 0xFF,
     1, 0, 0, 0, 0, 0xF2, 5, 0x2A] :: bytes"
  have "map (block_word ?blk) [0..<16] = take 16 schedule_6"
    unfolding block_words by (simp add: block_word_def mask_8bit_def schedule_6_def)
  then have "message_schedule ?blk = schedule_6"
    by (intro message_scheduleI schedule_6_ok) (simp_all add: schedule_6_def)
  moreover have "rounds add_constant schedule_6 (0x6A09E667, 0xBB67AE85, 0x3C6EF372, 0xA54FF53A, 0x510E527F, 0x9B05688C, 0x1F83D9AB, 0x5BE0CD19) = (0x527F4791, 0x459185A2, 0xEA69860, 0xAE06C7A2, 0xE9CAA780, 0xD8DF873C, 0xE1B06F16, 0x2A67F61B)"
    using rounds_chunks [OF rounds_6_0 rounds_6_1 rounds_6_2 rounds_6_3]
    by (simp add: add_constant_def schedule_6_def)
  ultimately show ?thesis
    by (simp add: hash256_block_def mask_32bit_def)
qed

definition schedule_7 :: "word_t list" where
  "schedule_7 =
    [0x1000000, 0x19000000, 0x76A91400, 0, 0, 0, 0, 0x88, 0xAC000000, 0x800000, 0, 0, 0, 0, 0,
     0x328, 0x4920640, 0x66296D02, 0xBA923A5A, 0x9B38F58A, 0x5A48AE95, 0x6452D0C6, 0x52B0977E,
     0x4BCD1BDF, 0x6B7EBC4D, 0xE998FA33, 0x24EEBD09, 0xBCAE9E56, 0xED7F5E0B, 0xEF7F39E3, 0xE196F109,
     0xE8807AF3, 0xE81290A8, 0xE9E7A0F4, 0xCCF00FF3, 0xB76FB5D9, 0x846FF30A, 0x4590DFF3, 0x34100776,
     0xE0A0CB02, 0x9D2C0AA0, 0xECF8527C, 0x7DFAAAF0, 0x42615579, 0x47937076, 0x5745DE28, 0x7CD9C17D,
     0xC369C300, 0xCA6B0BD1, 0x3FAE026A, 0x3CE6F031, 0xB9C25A8D, 0x5B8D3CAA, 0x13DB6AA3, 0x5C66314C,
     0xD344F229, 0xAC4C8B12, 0x573D0518, 0xBC13CEA7, 0xF88A5965, 0x27E32E39, 0xA08A45D1, 0xAC1CDEA8,
     0x525EDACE]"

lemma schedule_7_ok: "sched_ok schedule_7"
  by (simp add: schedule_7_def sha_ops)

lemma rounds_7_0:
  "rounds [0x428A2F98, 0x71374491, 0xB5C0FBCF, 0xE9B5DBA5, 0x3956C25B, 0x59F111F1, 0x923F82A4, 0xAB1C5ED5,
     0xD807AA98, 0x12835B01, 0x243185BE, 0x550C7DC3, 0x72BE5D74, 0x80DEB1FE, 0x9BDC06A7, 0xC19BF174]
    [0x1000000, 0x19000000, 0x76A91400, 0, 0, 0, 0, 0x88, 0xAC000000, 0x800000, 0, 0, 0, 0, 0, 0x328]
    (0xBC892DF8, 0xF93427, 0x4B158BD2, 0x5356BCDC, 0x3AD8F9FF, 0x73E4EFC8, 0x13448C1, 0x8648C334)
   = (0xF18AFE79, 0x8136A262, 0x47DAEB82, 0x68E571CC, 0xECBE0C1A, 0x42E675B5, 0x98E6622, 0x3A5F7ABD)"
  by (simp add: round_step_eq sha_ops)

lemma rounds_7_1:
  "rounds [0xE49B69C1, 0xEFBE4786, 0xFC19DC6, 0x240CA1CC, 0x2DE92C6F, 0x4A7484AA, 0x5CB0A9DC, 0x76F988DA,
     0x983E5152, 0xA831C66D, 0xB00327C8, 0xBF597FC7, 0xC6E00BF3, 0xD5A79147, 0x6CA6351, 0x14292967]
    [0x4920640, 0x66296D02, 0xBA923A5A, 0x9B38F58A, 0x5A48AE95, 0x6452D0C6, 0x52B0977E, 0x4BCD1BDF,
     0x6B7EBC4D, 0xE998FA33, 0x24EEBD09, 0xBCAE9E56, 0xED7F5E0B, 0xEF7F39E3, 0xE196F109, 0xE8807AF3]
    (0xF18AFE79, 0x8136A262, 0x47DAEB82, 0x68E571CC, 0xECBE0C1A, 0x42E675B5, 0x98E6622, 0x3A5F7ABD)
   = (0x54A30F71, 0xE5F1EEB5, 0x95B9EF2B, 0xD0B22717, 0xD6014C14, 0x64372A06, 0x32519D0B, 0xBF97B8CE)"
  by (simp add: round_step_eq sha_ops)

lemma rounds_7_2:
  "rounds [0x27B70A85, 0x2E1B2138, 0x4D2C6DFC, 0x53380D13, 0x650A7354, 0x766A0ABB, 0x81C2C92E, 0x92722C85,
     0xA2BFE8A1, 0xA81A664B, 0xC24B8B70, 0xC76C51A3, 0xD192E819, 0xD6990624, 0xF40E3585, 0x106AA070]
    [0xE81290A8, 0xE9E7A0F4, 0xCCF00FF3, 0xB76FB5D9, 0x846FF30A, 0x4590DFF3, 0x34100776, 0xE0A0CB02,
     0x9D2C0AA0, 0xECF8527C, 0x7DFAAAF0, 0x42615579, 0x47937076, 0x5745DE28, 0x7CD9C17D, 0xC369C300]
    (0x54A30F71, 0xE5F1EEB5, 0x95B9EF2B, 0xD0B22717, 0xD6014C14, 0x64372A06, 0x32519D0B, 0xBF97B8CE)
   = (0x67A7B1C6, 0x2B0CCBEC, 0x773634F1, 0x52E16D5A, 0x94DA7F30, 0x2F7A3982, 0xEDBD2E83, 0x777CEF14)"
  by (simp add: round_step_eq sha_ops)

lemma rounds_7_3:
  "rounds [0x19A4C116, 0x1E376C08, 0x2748774C, 0x34B0BCB5, 0x391C0CB3, 0x4ED8AA4A, 0x5B9CCA4F, 0x682E6FF3,
     0x748F82EE, 0x78A5636F, 0x84C87814, 0x8CC70208, 0x90BEFFFA, 0xA4506CEB, 0xBEF9A3F7, 0xC67178F2]
    [0xCA6B0BD1, 0x3FAE026A, 0x3CE6F031, 0xB9C25A8D, 0x5B8D3CAA, 0x13DB6AA3, 0x5C66314C, 0xD344F229,
     0xAC4C8B12, 0x573D0518, 0xBC13CEA7, 0xF88A5965, 0x27E32E39, 0xA08A45D1, 0xAC1CDEA8, 0x525EDACE]
    (0x67A7B1C6, 0x2B0CCBEC, 0x773634F1, 0x52E16D5A, 0x94DA7F30, 0x2F7A3982, 0xEDBD2E83, 0x777CEF14)
   = (0x67466910, 0xD716C408, 0xC4E33DD7, 0x7C9DFED2, 0xE180293F, 0xA1E4DED4, 0x725945F, 0xF8D0C5F7)"
  by (simp add: round_step_eq sha_ops)

lemma compression_7:
  "hash256_block [0xBC892DF8, 0xF93427, 0x4B158BD2, 0x5356BCDC, 0x3AD8F9FF, 0x73E4EFC8, 0x13448C1, 0x8648C334]
    [1, 0, 0, 0, 0x19, 0, 0, 0, 0x76, 0xA9, 0x14, 0, 0, 0, 0, 0, 0, 0, 0, 0, 0, 0, 0, 0, 0, 0, 0, 0,
     0, 0, 0, 0x88, 0xAC, 0, 0, 0, 0, 0x80, 0, 0, 0, 0, 0, 0, 0, 0, 0, 0, 0, 0, 0, 0, 0, 0, 0, 0, 0,
     0, 0, 0, 0, 0, 3, 0x28]
   = [0x23CF9708, 0xD80FF82F, 0xFF8C9A9, 0xCFF4BBAE, 0x1C59233E, 0x15C9CE9C, 0x859DD20, 0x7F19892B]"
proof -
  let ?blk = "[1, 0, 0, 0, 0x19, 0, 0, 0, 0x76, 0xA9, 0x14, 0, 0, 0, 0, 0, 0, 0, 0, 0, 0, 0, 0, 0, 0, 0, 0, 0,
     0, 0, 0, 0x88, 0xAC, 0, 0, 0, 0, 0x80, 0, 0, 0, 0, 0, 0, 0, 0, 0, 0, 0, 0, 0, 0, 0, 0, 0, 0, 0,
     0, 0, 0, 0, 0, 3, 0x28] :: bytes"
  have "map (block_word ?blk) [0..<16] = take 16 schedule_7"
    unfolding block_words by (simp add: block_word_def mask_8bit_def schedule_7_def)
  then have "message_schedule ?blk = schedule_7"
    by (intro message_scheduleI schedule_7_ok) (simp_all add: schedule_7_def)
  moreover have "rounds add_constant schedule_7 (0xBC892DF8, 0xF93427, 0x4B158BD2, 0x5356BCDC, 0x3AD8F9FF, 0x73E4EFC8, 0x13448C1, 0x8648C334) = (0x67466910, 0xD716C408, 0xC4E33DD7, 0x7C9DFED2, 0xE180293F, 0xA1E4DED4, 0x725945F, 0xF8D0C5F7)"
    using rounds_chunks [OF rounds_7_0 rounds_7_1 rounds_7_2 rounds_7_3]
    by (simp add: add_constant_def schedule_7_def)
  ultimately show ?thesis
    by (simp add: hash256_block_def mask_32bit_def)
qed

definition schedule_8 :: "word_t list" where
  "schedule_8 =
    [0x23CF9708, 0xD80FF82F, 0xFF8C9A9, 0xCFF4BBAE, 0x1C59233E, 0x15C9CE9C, 0x859DD20, 0x7F19892B,
     0x80000000, 0, 0, 0, 0, 0, 0, 0x100, 0xDE89ADFE, 0x3A3AA387, 0x5DFAAEA6, 0xD2EC1D7, 0x681F6E63,
     0x4EF8526, 0x9E999AE8, 0xA0DA5034, 0xB8499E80, 0xC02FA188, 0x9ED1B21, 0x8CE4E25D, 0x33E663B3,
     0x8BDFE9BE, 0x9EBD566D, 0x4F279434, 0x4269131B, 0x69645E31, 0xB6A82B32, 0xF624EF2A, 0xB2AFAE41,
     0x324EB04E, 0xF9DD4A95, 0xE33F3F10, 0xFBBCCB1, 0xF510AA1A, 0x31F189DA, 0x78FFBCE6, 0xF21316B8,
     0x4D20B8B0, 0xF02C2772, 0x244FE8DE, 0x47570372, 0x1E48A5F9, 0x251104B, 0xAD1D0AE5, 0xE03BA411,
     0xACED69DF, 0xB74597B9, 0xD559A914, 0xA8D9382C, 0xA92ABF26, 0xC72022D2, 0xBA1A494, 0xFB15B942,
     0xDD7A1DE1, 0x7434A3E5, 0x475D8C5C]"

lemma schedule_8_ok: "sched_ok schedule_8"
  by (simp add: schedule_8_def sha_ops)

lemma rounds_8_0:
  "rounds [0x428A2F98, 0x71374491, 0xB5C0FBCF, 0xE9B5DBA5, 0x3956C25B, 0x59F111F1, 0x923F82A4, 0xAB1C5ED5,
     0xD807AA98, 0x12835B01, 0x243185BE, 0x550C7DC3, 0x72BE5D74, 0x80DEB1FE, 0x9BDC06A7, 0xC19BF174]
    [0x23CF9708, 0xD80FF82F, 0xFF8C9A9, 0xCFF4BBAE, 0x1C59233E, 0x15C9CE9C, 0x859DD20, 0x7F19892B,
     0x80000000, 0, 0, 0, 0, 0, 0, 0x100]
    (0x6A09E667, 0xBB67AE85, 0x3C6EF372, 0xA54FF53A, 0x510E527F, 0x9B05688C, 0x1F83D9AB, 0x5BE0CD19)
   = (0x4DA41E9E, 0x21B3F5D5, 0xF98D5F93, 0xD9DFBFF9, 0x985B595F, 0x6FEE2E86, 0x52DD481, 0xE276CEFC)"
  by (simp add: round_step_eq sha_ops)

lemma rounds_8_1:
  "rounds [0xE49B69C1, 0xEFBE4786, 0xFC19DC6, 0x240CA1CC, 0x2DE92C6F, 0x4A7484AA, 0x5CB0A9DC, 0x76F988DA,
     0x983E5152, 0xA831C66D, 0xB00327C8, 0xBF597FC7, 0xC6E00BF3, 0xD5A79147, 0x6CA6351, 0x14292967]
    [0xDE89ADFE, 0x3A3AA387, 0x5DFAAEA6, 0xD2EC1D7, 0x681F6E63, 0x4EF8526, 0x9E999AE8, 0xA0DA5034,
     0xB8499E80, 0xC02FA188, 0x9ED1B21, 0x8CE4E25D, 0x33E663B3, 0x8BDFE9BE, 0x9EBD566D, 0x4F279434]
    (0x4DA41E9E, 0x21B3F5D5, 0xF98D5F93, 0xD9DFBFF9, 0x985B595F, 0x6FEE2E86, 0x52DD481, 0xE276CEFC)
   = (0x61F55412, 0x93074105, 0x3A08F184, 0x5C13FFAE, 0xF3A6DF82, 0x6EC4FBF1, 0x4819A77C, 0x2EC0F55F)"
  by (simp add: round_step_eq sha_ops)

lemma rounds_8_2:
  "rounds [0x27B70A85, 0x2E1B2138, 0x4D2C6DFC, 0x53380D13, 0x650A7354, 0x766A0ABB, 0x81C2C92E, 0x92722C85,
     0xA2BFE8A1, 0xA81A664B, 0xC24B8B70, 0xC76C51A3, 0xD192E819, 0xD6990624, 0xF40E3585, 0x106AA070]
    [0x4269131B, 0x69645E31, 0xB6A82B32, 0xF624EF2A, 0xB2AFAE41, 0x324EB04E, 0xF9DD4A95, 0xE33F3F10,
     0xFBBCCB1, 0xF510AA1A, 0x31F189DA, 0x78FFBCE6, 0xF21316B8, 0x4D20B8B0, 0xF02C2772, 0x244FE8DE]
    (0x61F55412, 0x93074105, 0x3A08F184, 0x5C13FFAE, 0xF3A6DF82, 0x6EC4FBF1, 0x4819A77C, 0x2EC0F55F)
   = (0x3DBE3999, 0x3A9733B3, 0xDF0454A7, 0x587C1716, 0x6F83F91A, 0x55A56C5B, 0x8AF3E4BB, 0xF4CD4666)"
  by (simp add: round_step_eq sha_ops)

lemma rounds_8_3:
  "rounds [0x19A4C116, 0x1E376C08, 0x2748774C, 0x34B0BCB5, 0x391C0CB3, 0x4ED8AA4A, 0x5B9CCA4F, 0x682E6FF3,
     0x748F82EE, 0x78A5636F, 0x84C87814, 0x8CC70208, 0x90BEFFFA, 0xA4506CEB, 0xBEF9A3F7, 0xC67178F2]
    [0x47570372, 0x1E48A5F9, 0x251104B, 0xAD1D0AE5, 0xE03BA411, 0xACED69DF, 0xB74597B9, 0xD559A914,
     0xA8D9382C, 0xA92ABF26, 0xC72022D2, 0xBA1A494, 0xFB15B942, 0xDD7A1DE1, 0x7434A3E5, 0x475D8C5C]
    (0x3DBE3999, 0x3A9733B3, 0xDF0454A7, 0x587C1716, 0x6F83F91A, 0x55A56C5B, 0x8AF3E4BB, 0xF4CD4666)
   = (0xCD5202DD, 0xA5CE910D, 0x6E3C2346, 0x96B4CE87, 0xEB5D7A31, 0x76876089, 0x504DDADB, 0xB8F626C2)"
  by (simp add: round_step_eq sha_ops)

lemma compression_8:
  "hash256_block [0x6A09E667, 0xBB67AE85, 0x3C6EF372, 0xA54FF53A, 0x510E527F, 0x9B05688C, 0x1F83D9AB, 0x5BE0CD19]
    [0x23, 0xCF, 0x97, 8, 0xD8, 0xF, 0xF8, 0x2F, 0xF, 0xF8, 0xC9, 0xA9, 0xCF, 0xF4, 0xBB, 0xAE,
     0x1C, 0x59, 0x23, 0x3E, 0x15, 0xC9, 0xCE, 0x9C, 8, 0x59, 0xDD, 0x20, 0x7F, 0x19, 0x89, 0x2B,
     0x80, 0, 0, 0, 0, 0, 0, 0, 0, 0, 0, 0, 0, 0, 0, 0, 0, 0, 0, 0, 0, 0, 0, 0, 0, 0, 0, 0, 0, 0, 1,
     0]
   = [0x375BE944, 0x61363F92, 0xAAAB16B8, 0x3C04C3C1, 0x3C6BCCB0, 0x118CC915, 0x6FD1B486, 0x14D6F3DB]"
proof -
  let ?blk = "[0x23, 0xCF, 0x97, 8, 0xD8, 0xF, 0xF8, 0x2F, 0xF, 0xF8, 0xC9, 0xA9, 0xCF, 0xF4, 0xBB, 0xAE,
     0x1C, 0x59, 0x23, 0x3E, 0x15, 0xC9, 0xCE, 0x9C, 8, 0x59, 0xDD, 0x20, 0x7F, 0x19, 0x89, 0x2B,
     0x80, 0, 0, 0, 0, 0, 0, 0, 0, 0, 0, 0, 0, 0, 0, 0, 0, 0, 0, 0, 0, 0, 0, 0, 0, 0, 0, 0, 0, 0, 1,
     0] :: bytes"
  have "map (block_word ?blk) [0..<16] = take 16 schedule_8"
    unfolding block_words by (simp add: block_word_def mask_8bit_def schedule_8_def)
  then have "message_schedule ?blk = schedule_8"
    by (intro message_scheduleI schedule_8_ok) (simp_all add: schedule_8_def)
  moreover have "rounds add_constant schedule_8 (0x6A09E667, 0xBB67AE85, 0x3C6EF372, 0xA54FF53A, 0x510E527F, 0x9B05688C, 0x1F83D9AB, 0x5BE0CD19) = (0xCD5202DD, 0xA5CE910D, 0x6E3C2346, 0x96B4CE87, 0xEB5D7A31, 0x76876089, 0x504DDADB, 0xB8F626C2)"
    using rounds_chunks [OF rounds_8_0 rounds_8_1 rounds_8_2 rounds_8_3]
    by (simp add: add_constant_def schedule_8_def)
  ultimately show ?thesis
    by (simp add: hash256_block_def mask_32bit_def)
qed

definition schedule_9 :: "word_t list" where
  "schedule_9 =
    [0x1000000, 0x5D674205, 0xF3702F5E, 0x601CDD35, 0x220E910C, 0x9CBF5DFF, 0x749272C4, 0xF4808E40,
     0x90F1B164, 0x375BE944, 0x61363F92, 0xAAAB16B8, 0x3C04C3C1, 0x3C6BCCB0, 0x118CC915, 0x6FD1B486,
     0x79FA4A6, 0x53C4E97F, 0x16706506, 0x3DED1B16, 0xD87225D6, 0xF7FD40BA, 0xF7B500FC, 0xBBFEFEA9,
     0x79E76A7B, 0x957B9749, 0x993E230D, 0xF18EC283, 0x9E9CD5C0, 0x7A677C5, 0x2A0FD173, 0x84AA33F5,
     0x7E396FAD, 0x644BCECE, 0xF3FBC38, 0xBAFCF422, 0x44F0569B, 0xADEFBF3C, 0x999178BB, 0x85DD24DD,
     0xD5F7F586, 0x5C663705, 0x1F41E9D, 0xBB92BA04, 0xF034B6BD, 0xC2ED4DA4, 0xF503B4B4, 0x78C86C97,
     0xEB83C2D4, 0x40FEDA01, 0xD2FF4850, 0x8D339DF7, 0xD81D7513, 0x9A89DB4A, 0x8FEF547, 0x32C0483A,
     0x47F587FB, 0x9A169A12, 0xB2BF4FC9, 0x7A674EBD, 0xDBA11676, 0xB4EB1B56, 0xC549F48, 0xF3BCEFFF]"

lemma schedule_9_ok: "sched_ok schedule_9"
  by (simp add: schedule_9_def sha_ops)

lemma rounds_9_0:
  "rounds [0x428A2F98, 0x71374491, 0xB5C0FBCF, 0xE9B5DBA5, 0x3956C25B, 0x59F111F1, 0x923F82A4, 0xAB1C5ED5,
     0xD807AA98, 0x12835B01, 0x243185BE, 0x550C7DC3, 0x72BE5D74, 0x80DEB1FE, 0x9BDC06A7, 0xC19BF174]
    [0x1000000, 0x5D674205, 0xF3702F5E, 0x601CDD35, 0x220E910C, 0x9CBF5DFF, 0x749272C4, 0xF4808E40,
     0x90F1B164, 0x375BE944, 0x61363F92, 0xAAAB16B8, 0x3C04C3C1, 0x3C6BCCB0, 0x118CC915, 0x6FD1B486]
    (0x6A09E667, 0xBB67AE85, 0x3C6EF372, 0xA54FF53A, 0x510E527F, 0x9B05688C, 0x1F83D9AB, 0x5BE0CD19)
   = (0x993FBF93, 0xAC3A833, 0xD1513ADF, 0xA57F4468, 0x42188E6C, 0xA2BCC184, 0x785CABF3, 0x668FBF6B)"
  by (simp add: round_step_eq sha_ops)

lemma rounds_9_1:
  "rounds [0xE49B69C1, 0xEFBE4786, 0xFC19DC6, 0x240CA1CC, 0x2DE92C6F, 0x4A7484AA, 0x5CB0A9DC, 0x76F988DA,
     0x983E5152, 0xA831C66D, 0xB00327C8, 0xBF597FC7, 0xC6E00BF3, 0xD5A79147, 0x6CA6351, 0x14292967]
    [0x79FA4A6, 0x53C4E97F, 0x16706506, 0x3DED1B16, 0xD87225D6, 0xF7FD40BA, 0xF7B500FC, 0xBBFEFEA9,
     0x79E76A7B, 0x957B9749, 0x993E230D, 0xF18EC283, 0x9E9CD5C0, 0x7A677C5, 0x2A0FD173, 0x84AA33F5]
    (0x993FBF93, 0xAC3A833, 0xD1513ADF, 0xA57F4468, 0x42188E6C, 0xA2BCC184, 0x785CABF3, 0x668FBF6B)
   = (0x97812433, 0x20A0AB5F, 0xCBB8990, 0x122962EE, 0xDA35FD6B, 0x41569910, 0x6601E301, 0xD358656D)"
  by (simp add: round_step_eq sha_ops)

lemma rounds_9_2:
  "rounds [0x27B70A85, 0x2E1B2138, 0x4D2C6DFC, 0x53380D13, 0x650A7354, 0x766A0ABB, 0x81C2C92E, 0x92722C85,
     0xA2BFE8A1, 0xA81A664B, 0xC24B8B70, 0xC76C51A3, 0xD192E819, 0xD6990624, 0xF40E3585, 0x106AA070]
    [0x7E396FAD, 0x644BCECE, 0xF3FBC38, 0xBAFCF422, 0x44F0569B, 0xADEFBF3C, 0x999178BB, 0x85DD24DD,
     0xD5F7F586, 0x5C663705, 0x1F41E9D, 0xBB92BA04, 0xF034B6BD, 0xC2ED4DA4, 0xF503B4B4, 0x78C86C97]
    (0x97812433, 0x20A0AB5F, 0xCBB8990, 0x122962EE, 0xDA35FD6B, 0x41569910, 0x6601E301, 0xD358656D)
   = (0x33B0AE1, 0x62AFE796, 0x486CF4E0, 0x39911C2, 0x69839A69, 0xB5C91B72, 0xDFBE222D, 0x55A3154B)"
  by (simp add: round_step_eq sha_ops)

lemma rounds_9_3:
  "rounds [0x19A4C116, 0x1E376C08, 0x2748774C, 0x34B0BCB5, 0x391C0CB3, 0x4ED8AA4A, 0x5B9CCA4F, 0x682E6FF3,
     0x748F82EE, 0x78A5636F, 0x84C87814, 0x8CC70208, 0x90BEFFFA, 0xA4506CEB, 0xBEF9A3F7, 0xC67178F2]
    [0xEB83C2D4, 0x40FEDA01, 0xD2FF4850, 0x8D339DF7, 0xD81D7513, 0x9A89DB4A, 0x8FEF547, 0x32C0483A,
     0x47F587FB, 0x9A169A12, 0xB2BF4FC9, 0x7A674EBD, 0xDBA11676, 0xB4EB1B56, 0xC549F48, 0xF3BCEFFF]
    (0x33B0AE1, 0x62AFE796, 0x486CF4E0, 0x39911C2, 0x69839A69, 0xB5C91B72, 0xDFBE222D, 0x55A3154B)
   = (0xC888A16E, 0x6FDEC5CD, 0x6F0D3854, 0x1AB7EA49, 0xFD6C6F49, 0xCD792425, 0x2B82D2F4, 0xBBE9C41D)"
  by (simp add: round_step_eq sha_ops)

lemma compression_9:
  "hash256_block [0x6A09E667, 0xBB67AE85, 0x3C6EF372, 0xA54FF53A, 0x510E527F, 0x9B05688C, 0x1F83D9AB, 0x5BE0CD19]
    [1, 0, 0, 0, 0x5D, 0x67, 0x42, 5, 0xF3, 0x70, 0x2F, 0x5E, 0x60, 0x1C, 0xDD, 0x35, 0x22, 0xE,
     0x91, 0xC, 0x9C, 0xBF, 0x5D, 0xFF, 0x74, 0x92, 0x72, 0xC4, 0xF4, 0x80, 0x8E, 0x40, 0x90, 0xF1,
     0xB1, 0x64, 0x37, 0x5B, 0xE9, 0x44, 0x61, 0x36, 0x3F, 0x92, 0xAA, 0xAB, 0x16, 0xB8, 0x3C, 4,
     0xC3, 0xC1, 0x3C, 0x6B, 0xCC, 0xB0, 0x11, 0x8C, 0xC9, 0x15, 0x6F, 0xD1, 0xB4, 0x86]
   = [0x329287D5, 0x2B467452, 0xAB7C2BC6, 0xC007DF83, 0x4E7AC1C8, 0x687E8CB1, 0x4B06AC9F, 0x17CA9136]"
proof -
  let ?blk = "[1, 0, 0, 0, 0x5D, 0x67, 0x42, 5, 0xF3, 0x70, 0x2F, 0x5E, 0x60, 0x1C, 0xDD, 0x35, 0x22, 0xE,
     0x91, 0xC, 0x9C, 0xBF, 0x5D, 0xFF, 0x74, 0x92, 0x72, 0xC4, 0xF4, 0x80, 0x8E, 0x40, 0x90, 0xF1,
     0xB1, 0x64, 0x37, 0x5B, 0xE9, 0x44, 0x61, 0x36, 0x3F, 0x92, 0xAA, 0xAB, 0x16, 0xB8, 0x3C, 4,
     0xC3, 0xC1, 0x3C, 0x6B, 0xCC, 0xB0, 0x11, 0x8C, 0xC9, 0x15, 0x6F, 0xD1, 0xB4, 0x86] :: bytes"
  have "map (block_word ?blk) [0..<16] = take 16 schedule_9"
    unfolding block_words by (simp add: block_word_def mask_8bit_def schedule_9_def)
  then have "message_schedule ?blk = schedule_9"
    by (intro message_scheduleI schedule_9_ok) (simp_all add: schedule_9_def)
  moreover have "rounds add_constant schedule_9 (0x6A09E667, 0xBB67AE85, 0x3C6EF372, 0xA54FF53A, 0x510E527F, 0x9B05688C, 0x1F83D9AB, 0x5BE0CD19) = (0xC888A16E, 0x6FDEC5CD, 0x6F0D3854, 0x1AB7EA49, 0xFD6C6F49, 0xCD792425, 0x2B82D2F4, 0xBBE9C41D)"
    using rounds_chunks [OF rounds_9_0 rounds_9_1 rounds_9_2 rounds_9_3]
    by (simp add: add_constant_def schedule_9_def)
  ultimately show ?thesis
    by (simp add: hash256_block_def mask_32bit_def)
qed

definition schedule_10 :: "word_t list" where
  "schedule_10 =
    [0x14D6F3DB, 0x6F15365, 0xFFFF7F20, 0, 0x80000000, 0, 0, 0, 0, 0, 0, 0, 0, 0, 0, 0x280,
     0xB2E17D51, 0x89C9824A, 0x912DD693, 0x24E87BD, 0xD1BFF1C6, 0x9329B2CF, 0x6EFDF94, 0xA1FC6EEE,
     0x9E02BAA7, 0x4BB0D26D, 0xC6F442C, 0x4529D260, 0xDDBA4F3A, 0xDA5D3FD9, 0x10E9CB3C, 0xC0918039,
     0xC0480118, 0xC707C7E4, 0xB299208B, 0x672D473D, 0x4285BCEC, 0x8EA97823, 0x44445C9, 0xE7D04286,
     0xF6E15F4B, 0xB0128310, 0xB4C54206, 0x9738640E, 0x5CDBF01A, 0x2638CBCF, 0x8A70C3EF, 0x5DDA79A0,
     0xA9AF320, 0x38D558A8, 0x99ACD2DD, 0x8B4711C2, 0x64923BF0, 0x8084244, 0xBE51EADF, 0xFAB6D1AA,
     0x8F78CDEB, 0x480E759B, 0xD64295AF, 0xB35BCD6E, 0x25B4550A, 0x82622B49, 0xFABDBDC3, 0x3BCF1AA6]"

lemma schedule_10_ok: "sched_ok schedule_10"
  by (simp add: schedule_10_def sha_ops)

lemma rounds_10_0:
  "rounds [0x428A2F98, 0x71374491, 0xB5C0FBCF, 0xE9B5DBA5, 0x3956C25B, 0x59F111F1, 0x923F82A4, 0xAB1C5ED5,
     0xD807AA98, 0x12835B01, 0x243185BE, 0x550C7DC3, 0x72BE5D74, 0x80DEB1FE, 0x9BDC06A7, 0xC19BF174]
    [0x14D6F3DB, 0x6F15365, 0xFFFF7F20, 0, 0x80000000, 0, 0, 0, 0, 0, 0, 0, 0, 0, 0, 0x280]
    (0x329287D5, 0x2B467452, 0xAB7C2BC6, 0xC007DF83, 0x4E7AC1C8, 0x687E8CB1, 0x4B06AC9F, 0x17CA9136)
   = (0xB0720FE8, 0xFC14A8F2, 0x2D061440, 0x5F592EE, 0xC2296723, 0x5C7DCDDD, 0xBAA3F782, 0x2A7F746D)"
  by (simp add: round_step_eq sha_ops)

lemma rounds_10_1:
  "rounds [0xE49B69C1, 0xEFBE4786, 0xFC19DC6, 0x240CA1CC, 0x2DE92C6F, 0x4A7484AA, 0x5CB0A9DC, 0x76F988DA,
     0x983E5152, 0xA831C66D, 0xB00327C8, 0xBF597FC7, 0xC6E00BF3, 0xD5A79147, 0x6CA6351, 0x14292967]
    [0xB2E17D51, 0x89C9824A, 0x912DD693, 0x24E87BD, 0xD1BFF1C6, 0x9329B2CF, 0x6EFDF94, 0xA1FC6EEE,
     0x9E02BAA7, 0x4BB0D26D, 0xC6F442C, 0x4529D260, 0xDDBA4F3A, 0xDA5D3FD9, 0x10E9CB3C, 0xC0918039]
    (0xB0720FE8, 0xFC14A8F2, 0x2D061440, 0x5F592EE, 0xC2296723, 0x5C7DCDDD, 0xBAA3F782, 0x2A7F746D)
   = (0x16F93B8F, 0x9B23C224, 0x3C96B469, 0xA651A9C2, 0x7CC79E01, 0xFBB93A2C, 0xAA896E0F, 0x38458AD7)"
  by (simp add: round_step_eq sha_ops)

lemma rounds_10_2:
  "rounds [0x27B70A85, 0x2E1B2138, 0x4D2C6DFC, 0x53380D13, 0x650A7354, 0x766A0ABB, 0x81C2C92E, 0x92722C85,
     0xA2BFE8A1, 0xA81A664B, 0xC24B8B70, 0xC76C51A3, 0xD192E819, 0xD6990624, 0xF40E3585, 0x106AA070]
    [0xC0480118, 0xC707C7E4, 0xB299208B, 0x672D473D, 0x4285BCEC, 0x8EA97823, 0x44445C9, 0xE7D04286,
     0xF6E15F4B, 0xB0128310, 0xB4C54206, 0x9738640E, 0x5CDBF01A, 0x2638CBCF, 0x8A70C3EF, 0x5DDA79A0]
    (0x16F93B8F, 0x9B23C224, 0x3C96B469, 0xA651A9C2, 0x7CC79E01, 0xFBB93A2C, 0xAA896E0F, 0x38458AD7)
   = (0xC3A615B8, 0xB1F53B62, 0xAFBF90D1, 0x4FD8E016, 0x23CB951C, 0xA177626E, 0x2ED19EB8, 0x393B6A8C)"
  by (simp add: round_step_eq sha_ops)

lemma rounds_10_3:
  "rounds [0x19A4C116, 0x1E376C08, 0x2748774C, 0x34B0BCB5, 0x391C0CB3, 0x4ED8AA4A, 0x5B9CCA4F, 0x682E6FF3,
     0x748F82EE, 0x78A5636F, 0x84C87814, 0x8CC70208, 0x90BEFFFA, 0xA4506CEB, 0xBEF9A3F7, 0xC67178F2]
    [0xA9AF320, 0x38D558A8, 0x99ACD2DD, 0x8B4711C2, 0x64923BF0, 0x8084244, 0xBE51EADF, 0xFAB6D1AA,
     0x8F78CDEB, 0x480E759B, 0xD64295AF, 0xB35BCD6E, 0x25B4550A, 0x82622B49, 0xFABDBDC3, 0x3BCF1AA6]
    (0xC3A615B8, 0xB1F53B62, 0xAFBF90D1, 0x4FD8E016, 0x23CB951C, 0xA177626E, 0x2ED19EB8, 0x393B6A8C)
   = (0x89B9C097, 0xEB0448C0, 0xC0C9E08E, 0xD3C78B3, 0x64EE50DA, 0x989EF3E3, 0x8129502E, 0x7DA61781)"
  by (simp add: round_step_eq sha_ops)

lemma compression_10:
  "hash256_block [0x329287D5, 0x2B467452, 0xAB7C2BC6, 0xC007DF83, 0x4E7AC1C8, 0x687E8CB1, 0x4B06AC9F, 0x17CA9136]
    [0x14, 0xD6, 0xF3, 0xDB, 6, 0xF1, 0x53, 0x65, 0xFF, 0xFF, 0x7F, 0x20, 0, 0, 0, 0, 0x80, 0, 0, 0,
     0, 0, 0, 0, 0, 0, 0, 0, 0, 0, 0, 0, 0, 0, 0, 0, 0, 0, 0, 0, 0, 0, 0, 0, 0, 0, 0, 0, 0, 0, 0, 0,
     0, 0, 0, 0, 0, 0, 0, 0, 0, 0, 2, 0x80]
   = [0xBC4C486C, 0x164ABD12, 0x6C460C54, 0xCD445836, 0xB36912A2, 0x11D8094, 0xCC2FFCCD, 0x9570A8B7]"
proof -
  let ?blk = "[0x14, 0xD6, 0xF3, 0xDB, 6, 0xF1, 0x53, 0x65, 0xFF, 0xFF, 0x7F, 0x20, 0, 0, 0, 0, 0x80, 0, 0, 0,
     0, 0, 0, 0, 0, 0, 0, 0, 0, 0, 0, 0, 0, 0, 0, 0, 0, 0, 0, 0, 0, 0, 0, 0, 0, 0, 0, 0, 0, 0, 0, 0,
     0, 0, 0, 0, 0, 0, 0, 0, 0, 0, 2, 0x80] :: bytes"
  have "map (block_word ?blk) [0..<16] = take 16 schedule_10"
    unfolding block_words by (simp add: block_word_def mask_8bit_def schedule_10_def)
  then have "message_schedule ?blk = schedule_10"
    by (intro message_scheduleI schedule_10_ok) (simp_all add: schedule_10_def)
  moreover have "rounds add_constant schedule_10 (0x329287D5, 0x2B467452, 0xAB7C2BC6, 0xC007DF83, 0x4E7AC1C8, 0x687E8CB1, 0x4B06AC9F, 0x17CA9136) = (0x89B9C097, 0xEB0448C0, 0xC0C9E08E, 0xD3C78B3, 0x64EE50DA, 0x989EF3E3, 0x8129502E, 0x7DA61781)"
    using rounds_chunks [OF rounds_10_0 rounds_10_1 rounds_10_2 rounds_10_3]
    by (simp add: add_constant_def schedule_10_def)
  ultimately show ?thesis
    by (simp add: hash256_block_def mask_32bit_def)
qed

definition schedule_11 :: "word_t list" where
  "schedule_11 =
    [0xBC4C486C, 0x164ABD12, 0x6C460C54, 0xCD445836, 0xB36912A2, 0x11D8094, 0xCC2FFCCD, 0x9570A8B7,
     0x80000000, 0, 0, 0, 0, 0, 0, 0x100, 0x45ED8FB6, 0x3D301395, 0x44C24E63, 0xF09F2A1B,
     0x6A5A9860, 0xEEBEF595, 0x42FFBDA8, 0x90A23DA2, 0xE6A1AA64, 0x9E03812D, 0xD0E67209, 0x1AEF9481,
     0xE630E188, 0x7BD5D377, 0xFDAF21AA, 0x42494EDA, 0x820988A6, 0xFA469D3C, 0x388D1D3B, 0xDF5F7C19,
     0x9ED51CDD, 0xF5D6334B, 0x8B797E60, 0xB21E07D5, 0x1A7DE2D3, 0x2F0CFDD1, 0xE1C3CA2D, 0xD0866734,
     0xDC3203B, 0x88BC2ABE, 0x9361ECE4, 0x2C5E6E77, 0x3ED3EA2A, 0xD374366, 0x88C69764, 0x26CF9558,
     0xC691C3F3, 0x5128C478, 0xCE60BD33, 0x4968DB7F, 0x98CFA8E, 0xE4063385, 0xD524FA57, 0x36509B6D,
     0xA7E99CE8, 0x56676C52, 0x4ADA3FD6, 0x3ACFB64E]"

lemma schedule_11_ok: "sched_ok schedule_11"
  by (simp add: schedule_11_def sha_ops)

lemma rounds_11_0:
  "rounds [0x428A2F98, 0x71374491, 0xB5C0FBCF, 0xE9B5DBA5, 0x3956C25B, 0x59F111F1, 0x923F82A4, 0xAB1C5ED5,
     0xD807AA98, 0x12835B01, 0x243185BE, 0x550C7DC3, 0x72BE5D74, 0x80DEB1FE, 0x9BDC06A7, 0xC19BF174]
    [0xBC4C486C, 0x164ABD12, 0x6C460C54, 0xCD445836, 0xB36912A2, 0x11D8094, 0xCC2FFCCD, 0x9570A8B7,
     0x80000000, 0, 0, 0, 0, 0, 0, 0x100]
    (0x6A09E667, 0xBB67AE85, 0x3C6EF372, 0xA54FF53A, 0x510E527F, 0x9B05688C, 0x1F83D9AB, 0x5BE0CD19)
   = (0xB49414E8, 0x1E7D53ED, 0x164A1A04, 0xAB50BB7D, 0xC6460189, 0xF222E406, 0x578BA8E9, 0x48518F07)"
  by (simp add: round_step_eq sha_ops)

lemma rounds_11_1:
  "rounds [0xE49B69C1, 0xEFBE4786, 0xFC19DC6, 0x240CA1CC, 0x2DE92C6F, 0x4A7484AA, 0x5CB0A9DC, 0x76F988DA,
     0x983E5152, 0xA831C66D, 0xB00327C8, 0xBF597FC7, 0xC6E00BF3, 0xD5A79147, 0x6CA6351, 0x14292967]
    [0x45ED8FB6, 0x3D301395, 0x44C24E63, 0xF09F2A1B, 0x6A5A9860, 0xEEBEF595, 0x42FFBDA8, 0x90A23DA2,
     0xE6A1AA64, 0x9E03812D, 0xD0E67209, 0x1AEF9481, 0xE630E188, 0x7BD5D377, 0xFDAF21AA, 0x42494EDA]
    (0xB49414E8, 0x1E7D53ED, 0x164A1A04, 0xAB50BB7D, 0xC6460189, 0xF222E406, 0x578BA8E9, 0x48518F07)
   = (0xD621F5EC, 0xDA389680, 0xAED8E2F8, 0xDE4FF6D4, 0x7E85C053, 0x1D007CF4, 0xC896D5B6, 0x9310391E)"
  by (simp add: round_step_eq sha_ops)

lemma rounds_11_2:
  "rounds [0x27B70A85, 0x2E1B2138, 0x4D2C6DFC, 0x53380D13, 0x650A7354, 0x766A0ABB, 0x81C2C92E, 0x92722C85,
     0xA2BFE8A1, 0xA81A664B, 0xC24B8B70, 0xC76C51A3, 0xD192E819, 0xD6990624, 0xF40E3585, 0x106AA070]
    [0x820988A6, 0xFA469D3C, 0x388D1D3B, 0xDF5F7C19, 0x9ED51CDD, 0xF5D6334B, 0x8B797E60, 0xB21E07D5,
     0x1A7DE2D3, 0x2F0CFDD1, 0xE1C3CA2D, 0xD0866734, 0xDC3203B, 0x88BC2ABE, 0x9361ECE4, 0x2C5E6E77]
    (0xD621F5EC, 0xDA389680, 0xAED8E2F8, 0xDE4FF6D4, 0x7E85C053, 0x1D007CF4, 0xC896D5B6, 0x9310391E)
   = (0x6DCD8A78, 0x6993A15B, 0xFBBEBCE5, 0x191E8F7A, 0x56F61786, 0x260305B3, 0x42694B36, 0x1F48D24C)"
  by (simp add: round_step_eq sha_ops)

lemma rounds_11_3:
  "rounds [0x19A4C116, 0x1E376C08, 0x2748774C, 0x34B0BCB5, 0x391C0CB3, 0x4ED8AA4A, 0x5B9CCA4F, 0x682E6FF3,
     0x748F82EE, 0x78A5636F, 0x84C87814, 0x8CC70208, 0x90BEFFFA, 0xA4506CEB, 0xBEF9A3F7, 0xC67178F2]
    [0x3ED3EA2A, 0xD374366, 0x88C69764, 0x26CF9558, 0xC691C3F3, 0x5128C478, 0xCE60BD33, 0x4968DB7F,
     0x98CFA8E, 0xE4063385, 0xD524FA57, 0x36509B6D, 0xA7E99CE8, 0x56676C52, 0x4ADA3FD6, 0x3ACFB64E]
    (0x6DCD8A78, 0x6993A15B, 0xFBBEBCE5, 0x191E8F7A, 0x56F61786, 0x260305B3, 0x42694B36, 0x1F48D24C)
   = (0xDC20E90B, 0x189CA474, 0x2157A79C, 0xC0CA07EB, 0xA2AA7F60, 0x8D7AB429, 0x1E85E60D, 0xA04E4350)"
  by (simp add: round_step_eq sha_ops)

lemma compression_11:
  "hash256_block [0x6A09E667, 0xBB67AE85, 0x3C6EF372, 0xA54FF53A, 0x510E527F, 0x9B05688C, 0x1F83D9AB, 0x5BE0CD19]
    [0xBC, 0x4C, 0x48, 0x6C, 0x16, 0x4A, 0xBD, 0x12, 0x6C, 0x46, 0xC, 0x54, 0xCD, 0x44, 0x58, 0x36,
     0xB3, 0x69, 0x12, 0xA2, 1, 0x1D, 0x80, 0x94, 0xCC, 0x2F, 0xFC, 0xCD, 0x95, 0x70, 0xA8, 0xB7,
     0x80, 0, 0, 0, 0, 0, 0, 0, 0, 0, 0, 0, 0, 0, 0, 0, 0, 0, 0, 0, 0, 0, 0, 0, 0, 0, 0, 0, 0, 0, 1,
     0]
   = [0x462ACF72, 0xD40452F9, 0x5DC69B0E, 0x6619FD25, 0xF3B8D1DF, 0x28801CB5, 0x3E09BFB8, 0xFC2F1069]"
proof -
  let ?blk = "[0xBC, 0x4C, 0x48, 0x6C, 0x16, 0x4A, 0xBD, 0x12, 0x6C, 0x46, 0xC, 0x54, 0xCD, 0x44, 0x58, 0x36,
     0xB3, 0x69, 0x12, 0xA2, 1, 0x1D, 0x80, 0x94, 0xCC, 0x2F, 0xFC, 0xCD, 0x95, 0x70, 0xA8, 0xB7,
     0x80, 0, 0, 0, 0, 0, 0, 0, 0, 0, 0, 0, 0, 0, 0, 0, 0, 0, 0, 0, 0, 0, 0, 0, 0, 0, 0, 0, 0, 0, 1,
     0] :: bytes"
  have "map (block_word ?blk) [0..<16] = take 16 schedule_11"
    unfolding block_words by (simp add: block_word_def mask_8bit_def schedule_11_def)
  then have "message_schedule ?blk = schedule_11"
    by (intro message_scheduleI schedule_11_ok) (simp_all add: schedule_11_def)
  moreover have "rounds add_constant schedule_11 (0x6A09E667, 0xBB67AE85, 0x3C6EF372, 0xA54FF53A, 0x510E527F, 0x9B05688C, 0x1F83D9AB, 0x5BE0CD19) = (0xDC20E90B, 0x189CA474, 0x2157A79C, 0xC0CA07EB, 0xA2AA7F60, 0x8D7AB429, 0x1E85E60D, 0xA04E4350)"
    using rounds_chunks [OF rounds_11_0 rounds_11_1 rounds_11_2 rounds_11_3]
    by (simp add: add_constant_def schedule_11_def)
  ultimately show ?thesis
    by (simp add: hash256_block_def mask_32bit_def)
qed

end
