(* ===== verification/Float64.thy ===== *)
theory Float64
  imports Complex_Main
begin

text \<open>
  The C++ \<open>double\<close> as the difficulty and chain-work code uses it: IEEE 754 binary64, round to
  nearest with ties to even. That code only ever makes non-negative doubles, so the model has
  no sign. \<open>F64 m e\<close> is the number \<open>m * 2 ^ e\<close>; an arithmetic result is exact arithmetic on
  such numbers followed by one rounding, \<open>f64_round\<close>.
\<close>

datatype f64 = F64 nat int | F64_inf | F64_nan

fun bit_length :: "nat \<Rightarrow> nat" where
  "bit_length n = (if n = 0 then 0 else Suc (bit_length (n div 2)))"

declare bit_length.simps [simp del]

text \<open>The exponent \<open>l\<close> with \<open>2 ^ l \<le> p / q < 2 ^ (l + 1)\<close>.\<close>

definition log2_ratio :: "nat \<Rightarrow> nat \<Rightarrow> int" where
  "log2_ratio p q =
     (let d = int (bit_length p) - int (bit_length q)
      in if (if 0 \<le> d then q * 2 ^ nat d \<le> p else q \<le> p * 2 ^ nat (- d)) then d else d - 1)"

text \<open>Round \<open>(p / q) * 2 ^ e\<close>: the quantum is \<open>2 ^ k\<close>, with 53 significant bits for a normal
  number and \<open>2 ^ -1074\<close> for a subnormal one.\<close>

definition quantum :: "nat \<Rightarrow> nat \<Rightarrow> int \<Rightarrow> int" where
  "quantum p q e = max (- 1074) (log2_ratio p q + e - 52)"

definition round_even :: "nat \<Rightarrow> nat \<Rightarrow> nat" where
  "round_even num den =
     (let n0 = num div den; r = num mod den
      in if 2 * r > den \<or> (2 * r = den \<and> odd n0) then n0 + 1 else n0)"

definition f64_round :: "nat \<Rightarrow> nat \<Rightarrow> int \<Rightarrow> f64" where
  "f64_round p q e =
     (if p = 0 then F64 0 0
      else
        (let k = quantum p q e;
             n = (if k \<le> e then round_even (p * 2 ^ nat (e - k)) q
                  else round_even p (q * 2 ^ nat (k - e)))
         in if 0 \<le> k \<and> 2 ^ 1024 \<le> n * 2 ^ nat k then F64_inf else F64 n k))"

definition f64_of_nat :: "nat \<Rightarrow> f64" where
  "f64_of_nat n = f64_round n 1 0"

text \<open>\<open>std::pow(2.0, k)\<close> for an integral \<open>k\<close>.\<close>

definition f64_pow2 :: "int \<Rightarrow> f64" where
  "f64_pow2 k = f64_round 1 1 k"

fun f64_mul :: "f64 \<Rightarrow> f64 \<Rightarrow> f64" where
  "f64_mul (F64 m1 e1) (F64 m2 e2) = f64_round (m1 * m2) 1 (e1 + e2)"
| "f64_mul (F64 m e) F64_inf = (if m = 0 then F64_nan else F64_inf)"
| "f64_mul F64_inf (F64 m e) = (if m = 0 then F64_nan else F64_inf)"
| "f64_mul F64_inf F64_inf = F64_inf"
| "f64_mul _ _ = F64_nan"

fun f64_div :: "f64 \<Rightarrow> f64 \<Rightarrow> f64" where
  "f64_div (F64 m1 e1) (F64 m2 e2) =
     (if m2 = 0 then (if m1 = 0 then F64_nan else F64_inf) else f64_round m1 m2 (e1 - e2))"
| "f64_div (F64 m e) F64_inf = F64 0 0"
| "f64_div F64_inf (F64 m e) = F64_inf"
| "f64_div _ _ = F64_nan"

fun f64_add :: "f64 \<Rightarrow> f64 \<Rightarrow> f64" where
  "f64_add (F64 m1 e1) (F64 m2 e2) =
     (let e = min e1 e2
      in f64_round (m1 * 2 ^ nat (e1 - e) + m2 * 2 ^ nat (e2 - e)) 1 e)"
| "f64_add F64_nan _ = F64_nan"
| "f64_add _ F64_nan = F64_nan"
| "f64_add _ _ = F64_inf"

text \<open>\<open>a <= b\<close> and \<open>a < b\<close>; every comparison with a NaN is false.\<close>

fun f64_le :: "f64 \<Rightarrow> f64 \<Rightarrow> bool" where
  "f64_le (F64 m1 e1) (F64 m2 e2) \<longleftrightarrow>
     (let e = min e1 e2 in m1 * 2 ^ nat (e1 - e) \<le> m2 * 2 ^ nat (e2 - e))"
| "f64_le (F64 m e) F64_inf = True"
| "f64_le F64_inf F64_inf = True"
| "f64_le _ _ = False"

fun f64_less :: "f64 \<Rightarrow> f64 \<Rightarrow> bool" where
  "f64_less (F64 m1 e1) (F64 m2 e2) \<longleftrightarrow>
     (let e = min e1 e2 in m1 * 2 ^ nat (e1 - e) < m2 * 2 ^ nat (e2 - e))"
| "f64_less (F64 m e) F64_inf = True"
| "f64_less _ _ = False"

text \<open>Truncation towards zero, the value part of a conversion to an integer type.\<close>

fun f64_trunc :: "f64 \<Rightarrow> nat option" where
  "f64_trunc (F64 m e) = Some (if 0 \<le> e then m * 2 ^ nat e else m div 2 ^ nat (- e))"
| "f64_trunc _ = None"

section \<open>Values\<close>

fun f64_val :: "f64 \<Rightarrow> real" where
  "f64_val (F64 m e) = real m * 2 powi e"
| "f64_val _ = 0"

fun f64_ok :: "f64 \<Rightarrow> bool" where
  "f64_ok (F64 m e) \<longleftrightarrow> m \<le> 2 ^ 53 \<and> - 1074 \<le> e"
| "f64_ok _ = True"

lemma powi_nat_diff: "k \<le> (e :: int) \<Longrightarrow> (2 :: real) powi e = 2 ^ nat (e - k) * 2 powi k"
  by (simp flip: power_int_of_nat add: power_int_add [symmetric])

lemma bit_length_bounds: "0 < p \<Longrightarrow> 2 ^ (bit_length p - 1) \<le> p \<and> p < 2 ^ bit_length p \<and> 0 < bit_length p"
proof (induction p rule: bit_length.induct)
  case (1 p)
  show ?case
  proof (cases "p div 2 = 0")
    case True
    with "1.prems" have "p = 1" by simp
    then show ?thesis by (simp add: bit_length.simps)
  next
    case False
    then have IH: "2 ^ (bit_length (p div 2) - 1) \<le> p div 2" "p div 2 < 2 ^ bit_length (p div 2)"
      "0 < bit_length (p div 2)"
      using 1 by auto
    obtain b where b: "bit_length (p div 2) = Suc b" using IH(3) by (cases "bit_length (p div 2)") auto
    have "bit_length p = Suc (Suc b)" using "1.prems" b by (subst bit_length.simps) simp
    with IH(1,2) b show ?thesis by simp linarith
  qed
qed

lemma log2_ratio_bounds:
  assumes "0 < p" and "0 < q"
  shows "2 powi log2_ratio p q \<le> real p / real q \<and> real p / real q < 2 powi (log2_ratio p q + 1)"
proof -
  define a b where "a = bit_length p" and "b = bit_length q"
  define d where "d = int a - int b"
  have p: "2 powi (int a - 1) \<le> real p" "real p < 2 powi int a"
    using bit_length_bounds [OF assms(1)] unfolding a_def [symmetric]
    by (auto simp: power_int_def nat_diff_distrib less_iff_succ_less_eq
        simp flip: of_nat_power of_nat_less_iff of_nat_le_iff)
  have q: "2 powi (int b - 1) \<le> real q" "real q < 2 powi int b"
    using bit_length_bounds [OF assms(2)] unfolding b_def [symmetric]
    by (auto simp: power_int_def nat_diff_distrib
        simp flip: of_nat_power of_nat_less_iff of_nat_le_iff)
  have test: "(if 0 \<le> d then q * 2 ^ nat d \<le> p else q \<le> p * 2 ^ nat (- d))
      \<longleftrightarrow> 2 powi d \<le> real p / real q"
    using assms
    by (auto simp: power_int_def field_simps simp flip: of_nat_le_iff [where 'a = real])
  have upper: "real p / real q < 2 powi (d + 1)"
  proof -
    have "real p < 2 powi int a" by (rule p)
    also have "(2 :: real) powi int a = 2 powi (d + 1) * 2 powi (int b - 1)"
      using power_int_add [of "2 :: real" "d + 1" "int b - 1"] by (simp add: d_def)
    also have "\<dots> \<le> 2 powi (d + 1) * real q" using q(1) by (intro mult_left_mono) auto
    finally show ?thesis using assms(2) by (simp add: field_simps)
  qed
  have lower: "2 powi (d - 1) \<le> real p / real q"
  proof -
    have "2 powi (d - 1) * real q \<le> 2 powi (d - 1) * 2 powi int b" using q(2) by (intro mult_left_mono) auto
    also have "\<dots> = 2 powi (int a - 1)"
      using power_int_add [of "2 :: real" "d - 1" "int b"] by (simp add: d_def)
    also have "\<dots> \<le> real p" by (rule p)
    finally show ?thesis using assms(2) by (simp add: field_simps)
  qed
  show ?thesis
    using test upper lower unfolding log2_ratio_def a_def [symmetric] b_def [symmetric] d_def [symmetric] Let_def
    by auto
qed

section \<open>Rounding\<close>

lemma round_even_ge:
  assumes "0 < den" and "z * den \<le> num"
  shows "z \<le> round_even num den"
proof -
  have "z \<le> num div den" using assms by (simp add: less_eq_div_iff_mult_less_eq)
  then show ?thesis by (simp add: round_even_def Let_def)
qed

lemma round_even_le:
  assumes "0 < den" and "num \<le> z * den"
  shows "round_even num den \<le> z"
proof (cases "num div den = z")
  case True
  then have "num mod den = 0"
    using assms(2) by (metis add_le_same_cancel1 div_mult_mod_eq le_zero_eq)
  with True assms(1) show ?thesis by (simp add: round_even_def)
next
  case False
  moreover have "num div den \<le> z" using assms by (metis div_le_mono nonzero_mult_div_cancel_right not_less0)
  ultimately show ?thesis by (simp add: round_even_def Let_def)
qed

definition ratio_val :: "nat \<Rightarrow> nat \<Rightarrow> int \<Rightarrow> real" where
  "ratio_val p q e = real p / real q * 2 powi e"

lemma f64_round_scaled:
  assumes "0 < p" and "0 < q"
  obtains num den where "0 < den" "real num = real den * (ratio_val p q e / 2 powi quantum p q e)"
    "f64_round p q e = (if 0 \<le> quantum p q e \<and> 2 ^ 1024 \<le> round_even num den * 2 ^ nat (quantum p q e)
       then F64_inf else F64 (round_even num den) (quantum p q e))"
proof (cases "quantum p q e \<le> e")
  case True
  have "(2 :: real) powi e / 2 powi quantum p q e = 2 ^ nat (e - quantum p q e)"
    using powi_nat_diff [OF True] by simp
  then have "real (p * 2 ^ nat (e - quantum p q e))
      = real q * (ratio_val p q e / 2 powi quantum p q e)"
    using assms(2) by (simp add: ratio_val_def field_simps)
  with True assms show ?thesis
    by (intro that [of q "p * 2 ^ nat (e - quantum p q e)"]) (simp_all add: f64_round_def Let_def)
next
  case False
  then have "(2 :: real) powi quantum p q e = 2 ^ nat (quantum p q e - e) * 2 powi e"
    by (intro powi_nat_diff) simp
  then have "real p = real (q * 2 ^ nat (quantum p q e - e))
      * (ratio_val p q e / 2 powi quantum p q e)"
    using assms(2) by (simp add: ratio_val_def field_simps)
  with False assms show ?thesis
    by (intro that [of "q * 2 ^ nat (quantum p q e - e)" p]) (simp_all add: f64_round_def Let_def)
qed

lemma ratio_val_bounds:
  assumes "0 < p" and "0 < q"
  shows "ratio_val p q e < 2 ^ 53 * 2 powi quantum p q e"
    and "quantum p q e = - 1074 \<or> 2 ^ 52 * 2 powi quantum p q e \<le> ratio_val p q e"
proof -
  define l where "l = log2_ratio p q"
  note lb = log2_ratio_bounds [OF assms, folded l_def]
  have "ratio_val p q e < 2 powi (l + 1) * 2 powi e"
    unfolding ratio_val_def by (rule mult_strict_right_mono) (use lb in auto)
  also have "\<dots> = 2 powi (l + 1 + e)" by (simp add: power_int_add)
  also have "\<dots> \<le> 2 powi (53 + quantum p q e)"
    by (intro power_int_increasing) (auto simp: quantum_def l_def)
  finally show "ratio_val p q e < 2 ^ 53 * 2 powi quantum p q e" by (simp add: power_int_add)
  show "quantum p q e = - 1074 \<or> 2 ^ 52 * 2 powi quantum p q e \<le> ratio_val p q e"
  proof (cases "quantum p q e = - 1074")
    case False
    then have "quantum p q e = l + e - 52" by (auto simp: quantum_def l_def)
    then have "2 ^ 52 * 2 powi quantum p q e = (2 :: real) powi (l + e)"
      using power_int_add [of "2 :: real" 52 "l + e - 52"] by simp
    also have "\<dots> = 2 powi l * 2 powi e" by (simp add: power_int_add)
    also have "\<dots> \<le> ratio_val p q e"
      unfolding ratio_val_def by (rule mult_right_mono) (use lb in auto)
    finally show ?thesis by simp
  qed simp
qed

text \<open>A rounding never crosses a representable number.\<close>

lemma f64_round_ge:
  assumes "0 < q" and m: "m \<le> 2 ^ 53" and j: "- 1074 \<le> j" and le: "real m * 2 powi j \<le> ratio_val p q e"
  shows "f64_round p q e = F64_inf \<or> real m * 2 powi j \<le> f64_val (f64_round p q e)"
proof (cases "p = 0")
  case True
  then show ?thesis using le by (simp add: f64_round_def ratio_val_def)
next
  case False
  then have p: "0 < p" by simp
  define k where "k = quantum p q e"
  from f64_round_scaled [OF p assms(1), of e, folded k_def] obtain num den where
    nd: "0 < den" "real num = real den * (ratio_val p q e / 2 powi k)"
    and rnd: "f64_round p q e = (if 0 \<le> k \<and> 2 ^ 1024 \<le> round_even num den * 2 ^ nat k
       then F64_inf else F64 (round_even num den) k)" .
  have reach: "z \<le> round_even num den" if "real z * 2 powi k \<le> ratio_val p q e" for z
  proof -
    have "real z \<le> ratio_val p q e / 2 powi k" using that by (simp add: pos_le_divide_eq)
    then have "real den * real z \<le> real num" unfolding nd(2) by (intro mult_left_mono) simp_all
    then have "z * den \<le> num" by (simp add: mult.commute flip: of_nat_mult)
    then show ?thesis using nd(1) by (rule round_even_ge [rotated])
  qed
  have "real m * 2 powi j \<le> real (round_even num den) * 2 powi k"
  proof (cases "k \<le> j")
    case True
    then have j': "real m * 2 powi j = real (m * 2 ^ nat (j - k)) * 2 powi k"
      using powi_nat_diff [of k j] by simp
    with le reach [of "m * 2 ^ nat (j - k)"] show ?thesis
      by (simp only: j' mult_right_mono of_nat_le_iff zero_le_power_int zero_le_numeral)
  next
    case False
    then have "k \<noteq> - 1074" using j by simp
    with ratio_val_bounds(2) [OF p assms(1), of e] have "2 ^ 52 * 2 powi k \<le> ratio_val p q e"
      by (simp add: k_def)
    then have n: "2 ^ 52 \<le> round_even num den" using reach [of "2 ^ 52"] by simp
    have "real m * 2 powi j \<le> 2 ^ 53 * 2 powi (k - 1)"
      using m False by (intro mult_mono power_int_increasing) auto
    also have "\<dots> = 2 ^ 52 * 2 powi k" by (simp add: power_int_diff)
    also have "\<dots> \<le> real (round_even num den) * 2 powi k"
      using of_nat_mono [OF n, where 'a = real] by (intro mult_right_mono) simp_all
    finally show ?thesis .
  qed
  then show ?thesis by (simp add: rnd)
qed

lemma f64_round_le:
  assumes "0 < q" and m: "m \<le> 2 ^ 53" and j: "- 1074 \<le> j" and le: "ratio_val p q e \<le> real m * 2 powi j"
    and fin: "real m * 2 powi j < 2 ^ 1024"
  shows "f64_round p q e \<noteq> F64_inf \<and> f64_val (f64_round p q e) \<le> real m * 2 powi j"
proof (cases "p = 0")
  case True
  then show ?thesis by (simp add: f64_round_def)
next
  case False
  then have p: "0 < p" by simp
  define k where "k = quantum p q e"
  from f64_round_scaled [OF p assms(1), of e, folded k_def] obtain num den where
    nd: "0 < den" "real num = real den * (ratio_val p q e / 2 powi k)"
    and rnd: "f64_round p q e = (if 0 \<le> k \<and> 2 ^ 1024 \<le> round_even num den * 2 ^ nat k
       then F64_inf else F64 (round_even num den) k)" .
  have reach: "round_even num den \<le> z" if "ratio_val p q e \<le> real z * 2 powi k" for z
  proof -
    have "ratio_val p q e / 2 powi k \<le> real z" using that by (simp add: pos_divide_le_eq)
    then have "real num \<le> real den * real z" unfolding nd(2) by (intro mult_left_mono) simp_all
    then have "num \<le> z * den" by (simp add: mult.commute flip: of_nat_mult)
    then show ?thesis using nd(1) by (rule round_even_le [rotated])
  qed
  have bound: "real (round_even num den) * 2 powi k \<le> real m * 2 powi j"
  proof (cases "k \<le> j")
    case True
    then have j': "real m * 2 powi j = real (m * 2 ^ nat (j - k)) * 2 powi k"
      using powi_nat_diff [of k j] by simp
    with le reach [of "m * 2 ^ nat (j - k)"] show ?thesis
      by (simp only: j' mult_right_mono of_nat_le_iff zero_le_power_int zero_le_numeral)
  next
    case False
    then have "k \<noteq> - 1074" using j by simp
    with ratio_val_bounds(2) [OF p assms(1), of e] have lo: "2 ^ 52 * 2 powi k \<le> ratio_val p q e"
      by (simp add: k_def)
    have "real m * 2 powi j \<le> 2 ^ 53 * 2 powi (k - 1)"
      using m False by (intro mult_mono power_int_increasing) auto
    also have "\<dots> = 2 ^ 52 * 2 powi k" by (simp add: power_int_diff)
    finally have "ratio_val p q e \<le> real (2 ^ 52) * 2 powi k" using le by simp
    then have n: "round_even num den \<le> 2 ^ 52" by (rule reach)
    have "real (round_even num den) * 2 powi k \<le> 2 ^ 52 * 2 powi k"
      using of_nat_mono [OF n, where 'a = real] by (intro mult_right_mono) simp_all
    also note lo
    also note le
    finally show ?thesis .
  qed
  have "\<not> (0 \<le> k \<and> 2 ^ 1024 \<le> round_even num den * 2 ^ nat k)"
  proof
    assume k: "0 \<le> k \<and> 2 ^ 1024 \<le> round_even num den * 2 ^ nat k"
    then have "real (2 ^ 1024) \<le> real (round_even num den * 2 ^ nat k)"
      by (simp only: of_nat_le_iff)
    also have "\<dots> = real (round_even num den) * 2 powi k" using k by (simp add: power_int_def)
    finally show False using bound fin by simp
  qed
  with bound show ?thesis by (simp add: rnd)
qed
text \<open>A representable number rounds to itself, and every result is representable.\<close>

lemma f64_round_exact:
  assumes "0 < q" and "m \<le> 2 ^ 53" and "- 1074 \<le> j" and "ratio_val p q e = real m * 2 powi j"
    and "real m * 2 powi j < 2 ^ 1024"
  shows "f64_round p q e \<noteq> F64_inf \<and> f64_val (f64_round p q e) = real m * 2 powi j"
  using f64_round_ge [OF assms(1-3), of p e] f64_round_le [OF assms(1-3), of p e] assms(4,5) by auto

lemma f64_round_not_nan [simp]: "f64_round p q e \<noteq> F64_nan"
  by (simp add: f64_round_def Let_def)

lemma f64_round_ok:
  assumes "0 < q"
  shows "f64_ok (f64_round p q e)"
proof (cases "p = 0")
  case False
  then have p: "0 < p" by simp
  define k where "k = quantum p q e"
  from f64_round_scaled [OF p assms, of e, folded k_def] obtain num den where
    nd: "0 < den" "real num = real den * (ratio_val p q e / 2 powi k)"
    and rnd: "f64_round p q e = (if 0 \<le> k \<and> 2 ^ 1024 \<le> round_even num den * 2 ^ nat k
       then F64_inf else F64 (round_even num den) k)" .
  have "ratio_val p q e / 2 powi k \<le> real (2 ^ 53)"
    using ratio_val_bounds(1) [OF p assms, of e] by (simp add: k_def pos_divide_le_eq)
  then have "real num \<le> real den * real (2 ^ 53)" unfolding nd(2) by (intro mult_left_mono) simp_all
  then have "real num \<le> real (2 ^ 53 * den)" by (simp add: mult.commute)
  then have "num \<le> 2 ^ 53 * den" by (simp only: of_nat_le_iff)
  with nd(1) have "round_even num den \<le> 2 ^ 53" by (rule round_even_le)
  then show ?thesis by (simp add: rnd k_def quantum_def)
qed (simp add: f64_round_def)

lemma f64_val_nonneg [simp]: "0 \<le> f64_val x"
  by (cases x) simp_all

lemma f64_le_val: "f64_le (F64 m1 e1) (F64 m2 e2) \<longleftrightarrow> f64_val (F64 m1 e1) \<le> f64_val (F64 m2 e2)"
proof -
  define e where "e = min e1 e2"
  have v: "f64_val (F64 m1 e1) = real (m1 * 2 ^ nat (e1 - e)) * 2 powi e"
    "f64_val (F64 m2 e2) = real (m2 * 2 ^ nat (e2 - e)) * 2 powi e"
    using powi_nat_diff [of e e1] powi_nat_diff [of e e2] by (simp_all add: e_def)
  show ?thesis
    unfolding v f64_le.simps Let_def e_def [symmetric]
    by (subst mult_le_cancel_right_pos) (simp, simp only: of_nat_le_iff)
qed

lemma f64_less_iff: "x \<noteq> F64_nan \<Longrightarrow> y \<noteq> F64_nan \<Longrightarrow> f64_less x y \<longleftrightarrow> \<not> f64_le y x"
  by (cases x; cases y) (auto simp: min.commute Let_def not_le)

lemma f64_le_refl: "x \<noteq> F64_nan \<Longrightarrow> f64_le x x"
  by (cases x) simp_all

lemma f64_le_trans: "f64_le x y \<Longrightarrow> f64_le y z \<Longrightarrow> f64_le x z"
  by (cases x; cases y; cases z) (simp_all only: f64_le_val, auto)

text \<open>Adding never loses: the sum of two doubles is at least each of them.\<close>

lemma f64_le_add:
  assumes "f64_ok x" and "x \<noteq> F64_nan" and "y \<noteq> F64_nan"
  shows "f64_le x (f64_add x y)"
proof (cases "x = F64_inf \<or> y = F64_inf")
  case True
  with assms show ?thesis by (cases x; cases y) auto
next
  case False
  then obtain m1 e1 m2 e2 where xy: "x = F64 m1 e1" "y = F64 m2 e2"
    using assms by (cases x; cases y) auto
  define e where "e = min e1 e2"
  define p where "p = m1 * 2 ^ nat (e1 - e) + m2 * 2 ^ nat (e2 - e)"
  have s: "f64_add x y = f64_round p 1 e" by (simp add: xy p_def e_def Let_def)
  have "ratio_val p 1 e = real m1 * 2 powi e1 + real m2 * 2 powi e2"
    using powi_nat_diff [of e e1] powi_nat_diff [of e e2]
    by (simp add: ratio_val_def p_def e_def algebra_simps)
  then have "real m1 * 2 powi e1 \<le> ratio_val p 1 e" by simp
  with f64_round_ge [of 1 m1 e1 p e] assms(1) have
    "f64_round p 1 e = F64_inf \<or> real m1 * 2 powi e1 \<le> f64_val (f64_round p 1 e)"
    by (simp add: xy)
  then show ?thesis unfolding s
    by (cases "f64_round p 1 e") (auto simp: xy f64_le_val simp del: f64_le.simps(1))
qed

lemma f64_add_ok: "f64_ok x \<Longrightarrow> f64_ok y \<Longrightarrow> f64_ok (f64_add x y)"
  by (cases x; cases y) (auto simp: Let_def f64_round_ok)

lemma f64_add_not_nan: "x \<noteq> F64_nan \<Longrightarrow> y \<noteq> F64_nan \<Longrightarrow> f64_add x y \<noteq> F64_nan"
  by (cases x; cases y) (auto simp: Let_def)

lemma f64_of_nat_exact:
  assumes "m \<le> 2 ^ 53"
  shows "f64_of_nat m \<noteq> F64_inf \<and> f64_of_nat m \<noteq> F64_nan \<and> f64_val (f64_of_nat m) = real m"
proof -
  have "real m \<le> real (2 ^ 53)" using assms by (simp only: of_nat_le_iff)
  also have "\<dots> < 2 ^ 1024" by simp
  finally show ?thesis
    using f64_round_exact [of 1 m 0 m 0] assms by (simp add: f64_of_nat_def ratio_val_def)
qed

text \<open>Products, quotients and integer parts of finite numbers, as roundings of the real ones.\<close>

definition f64_finite :: "f64 \<Rightarrow> bool" where
  "f64_finite x \<longleftrightarrow> x \<noteq> F64_inf \<and> x \<noteq> F64_nan"

lemma f64_finiteE:
  assumes "f64_finite x"
  obtains m e where "x = F64 m e"
  using assms by (cases x) (auto simp: f64_finite_def)

lemma f64_mul_rounds:
  assumes "f64_finite x" and "f64_finite y"
  obtains p e where "f64_mul x y = f64_round p 1 e" and "ratio_val p 1 e = f64_val x * f64_val y"
proof -
  from assms obtain m1 e1 m2 e2 where "x = F64 m1 e1" "y = F64 m2 e2" by (metis f64_finiteE)
  then show ?thesis
    by (intro that [of "m1 * m2" "e1 + e2"]) (simp_all add: ratio_val_def power_int_add)
qed

lemma f64_div_rounds:
  assumes "f64_finite x" and "f64_finite y" and "f64_val y \<noteq> 0"
  obtains p q e where "0 < q" and "f64_div x y = f64_round p q e" and "ratio_val p q e = f64_val x / f64_val y"
proof -
  from assms obtain m1 e1 m2 e2 where "x = F64 m1 e1" "y = F64 m2 e2" by (metis f64_finiteE)
  then show ?thesis using assms(3)
    by (intro that [of m2 m1 "e1 - e2"]) (simp_all add: ratio_val_def power_int_diff)
qed

lemma f64_trunc_floor:
  assumes "f64_finite x"
  shows "f64_trunc x = Some (nat \<lfloor>f64_val x\<rfloor>)"
proof -
  from assms obtain m e where x: "x = F64 m e" by (rule f64_finiteE)
  show ?thesis
  proof (cases "0 \<le> e")
    case True
    then have "f64_val x = real (m * 2 ^ nat e)" by (simp add: x power_int_def)
    then have "nat \<lfloor>f64_val x\<rfloor> = m * 2 ^ nat e" by (simp only: floor_of_nat nat_int)
    with True show ?thesis by (simp add: x)
  next
    case False
    then have "f64_val x = real m / real (2 ^ nat (- e))" by (simp add: x power_int_def power_one_over)
    then have "nat \<lfloor>f64_val x\<rfloor> = m div 2 ^ nat (- e)" by (simp only: floor_divide_of_nat_eq nat_int)
    with False show ?thesis by (simp only: x f64_trunc.simps if_False)
  qed
qed

lemma f64_le_of_nat_iff:
  assumes "m \<le> 2 ^ 53" and "f64_finite x"
  shows "f64_le (f64_of_nat m) x \<longleftrightarrow> real m \<le> f64_val x"
proof -
  from assms(2) obtain a e where x: "x = F64 a e" by (rule f64_finiteE)
  from f64_of_nat_exact [OF assms(1)] obtain b j where n: "f64_of_nat m = F64 b j"
    by (cases "f64_of_nat m") auto
  show ?thesis using f64_of_nat_exact [OF assms(1)] unfolding n x f64_le_val by simp
qed

end
