(* ===== verification/Pow.thy ===== *)
theory Pow
  imports Block Float64 "HOL-Library.While_Combinator"
begin

text \<open>
  \<open>include/consensus/pow.h\<close>: compact difficulty, proof of work, the mining loop, the retarget
  rule and chain work. Log lines are left out. The mining loop and the scaling loop of the
  retarget rule may run forever; they are \<open>while_option\<close>, and not returning is the value
  \<open>Inl No_return\<close>.
\<close>

definition bits_to_target :: "u32 \<Rightarrow> bytes" where
  "bits_to_target bits =
     (let target = replicate 32 (0 :: byte);
          exponent = drop_bit 24 bits;
          mantissa = bits AND 0x007FFFFF
      in if bits AND 0x00800000 \<noteq> 0 then target
         else if exponent > 32 then target
         else if exponent \<le> 3 then
           (let mantissa = drop_bit (8 * (3 - unat exponent)) mantissa
            in target[29 := ucast (drop_bit 16 mantissa AND 0xFF),
                      30 := ucast (drop_bit 8 mantissa AND 0xFF),
                      31 := ucast (mantissa AND 0xFF)])
         else
           (let offset = 32 - unat exponent
            in target[offset := ucast (drop_bit 16 mantissa AND 0xFF),
                      offset + 1 := ucast (drop_bit 8 mantissa AND 0xFF),
                      offset + 2 := ucast (mantissa AND 0xFF)]))"

definition check_proof_of_work :: "'z CBlockHeader_scheme \<Rightarrow> bool" where
  "check_proof_of_work header \<longleftrightarrow> GetHash header \<le> bits_to_target (nBits header)"

text \<open>One turn of the mining loop, and the loop.\<close>

definition mine_step :: "'z CBlockHeader_scheme \<Rightarrow> 'z CBlockHeader_scheme" where
  "mine_step header =
     (if nNonce header = 0xFFFFFFFF
      then header\<lparr>nNonce := 0, nTime := nTime header + 1\<rparr>
      else header\<lparr>nNonce := nNonce header + 1\<rparr>)"

definition mine_block :: "'z CBlockHeader_scheme \<Rightarrow> u32 \<Rightarrow> 'z CBlockHeader_scheme result" where
  "mine_block header nBitsTarget =
     (let header = header\<lparr>nBits := nBitsTarget, nNonce := 0\<rparr>;
          target = bits_to_target (nBits header)
      in case while_option (\<lambda>h. GetHash h > target) mine_step header of
           None \<Rightarrow> Inl No_return
         | Some h \<Rightarrow> Inr h)"

text \<open>
  The retarget rule. The time span is an \<open>int64_t\<close> difference of two 32-bit times and stays
  far inside that type; after the clamp it is not negative. A zero interval divides by zero,
  and a value that is not a number does not convert to \<open>uint32_t\<close>: C++ leaves both undefined.
\<close>

definition clamp_timespan :: "int \<Rightarrow> u32 \<Rightarrow> int" where
  "clamp_timespan actual target =
     (let min_timespan = uint target div 4;
          max_timespan = uint target * 4;
          actual = (if actual < min_timespan then min_timespan else actual)
      in if actual > max_timespan then max_timespan else actual)"

definition scaled_value :: "u32 \<Rightarrow> int \<Rightarrow> u32 \<Rightarrow> f64" where
  "scaled_value current_bits actual_timespan target_timespan_seconds =
     (let exponent = drop_bit 24 current_bits;
          mantissa = current_bits AND 0x007FFFFF;
          val = f64_mul (f64_of_nat (unat mantissa)) (f64_pow2 (8 * (uint exponent - 3)))
      in f64_mul val (f64_div (f64_of_nat (nat actual_timespan))
                              (f64_of_nat (unat target_timespan_seconds))))"

definition normalize_mantissa :: "f64 \<Rightarrow> (f64 \<times> u32) option" where
  "normalize_mantissa val =
     while_option (\<lambda>(m, _). f64_le (f64_of_nat 16777216) m)
       (\<lambda>(m, new_exponent). (f64_div m (f64_of_nat 256), new_exponent + 1)) (val, 3)"

definition get_next_work_required :: "'z CBlockHeader_scheme list \<Rightarrow> u32 \<Rightarrow> u32 \<Rightarrow> u32 result" where
  "get_next_work_required headers retarget_interval target_timespan_seconds =
     (if headers = [] then Inl (Invalid_argument ''get_next_work_required: empty header history'')
      else if retarget_interval = 0 then Inl (Undefined_behaviour ''modulo by zero'')
      else
        (let current_bits = nBits (last headers)
         in if length headers mod unat retarget_interval \<noteq> 0 then Inr current_bits
            else
              rbind (vector_at headers (length headers - unat retarget_interval)) (\<lambda>period_start.
              (let period_end = last headers;
                   actual = clamp_timespan (uint (nTime period_end) - uint (nTime period_start))
                     target_timespan_seconds;
                   val = scaled_value current_bits actual target_timespan_seconds
               in case normalize_mantissa val of
                    None \<Rightarrow> Inl No_return
                  | Some (m, new_exponent) \<Rightarrow>
                      (case f64_trunc m of
                         None \<Rightarrow> Inl (Undefined_behaviour ''conversion of NaN to uint32_t'')
                       | Some t \<Rightarrow>
                           Inr (push_bit 24 new_exponent OR (word_of_nat t AND 0x007FFFFF)))))))"

definition calculate_block_work :: "u32 \<Rightarrow> f64" where
  "calculate_block_work bits =
     (let exponent = drop_bit 24 bits;
          mantissa = bits AND 0x007FFFFF
      in if mantissa = 0 then F64 0 0
         else f64_div (f64_pow2 (280 - 8 * uint exponent)) (f64_of_nat (unat mantissa)))"

definition calculate_chain_work :: "'z CBlockHeader_scheme list \<Rightarrow> f64" where
  "calculate_chain_work headers =
     foldl (\<lambda>total header. f64_add total (calculate_block_work (nBits header))) (F64 0 0) headers"

section \<open>Targets as numbers\<close>

lemma three_bytes_update:
  assumes "i \<le> 29"
  shows "(replicate 32 (0 :: byte))[i := a, i + 1 := b, i + 2 := c]
    = replicate i 0 @ [a, b, c] @ replicate (29 - i) 0"
proof (rule nth_equalityI)
  fix j
  assume "j < length ((replicate 32 (0 :: byte))[i := a, i + 1 := b, i + 2 := c])"
  then show "(replicate 32 0)[i := a, i + 1 := b, i + 2 := c] ! j
      = (replicate i 0 @ [a, b, c] @ replicate (29 - i) 0) ! j"
    using assms by (auto simp: nth_list_update nth_append nth_Cons' less_Suc_eq)
qed (use assms in simp)

lemma nat_three_bytes:
  assumes "(x :: nat) < 2 ^ 24"
  shows "(x div 2 ^ 16 mod 256) * 65536 + (x div 2 ^ 8 mod 256) * 256 + x div 2 ^ 0 mod 256 = x"
proof -
  have "x div 65536 < 256" using assms by (simp add: div_less_iff_less_mult)
  moreover have "x div 65536 = x div 256 div 256" by (simp add: div_mult2_eq [symmetric])
  ultimately have top: "x div 65536 mod 256 = x div 256 div 256" by simp
  have "x = x div 256 * 256 + x mod 256" "x div 256 = x div 256 div 256 * 256 + x div 256 mod 256"
    by (simp_all only: div_mult_mod_eq)
  then have "x = x div 256 div 256 * 65536 + (x div 256 mod 256) * 256 + x mod 256" by linarith
  then show ?thesis by (simp add: top)
qed

lemma three_bytes_value:
  fixes m :: u32
  assumes "unat m < 2 ^ 24"
  shows "unat (ucast (drop_bit 16 m AND 0xFF) :: byte) * 65536
    + unat (ucast (drop_bit 8 m AND 0xFF) :: byte) * 256 + unat (ucast (m AND 0xFF) :: byte) = unat m"
proof -
  have b: "unat (ucast (drop_bit k m AND 0xFF) :: byte) = unat m div 2 ^ k mod 256" for k
    by (simp add: unsigned_ucast_eq take_bit_eq_mod unat_drop_bit_eq)
      (simp add: drop_bit_eq_div)
  have b0: "unat (ucast (m AND 0xFF) :: byte) = unat m div 2 ^ 0 mod 256"
    using b [of 0] by simp
  show ?thesis unfolding b b0 by (rule nat_three_bytes [OF assms])
qed

lemma be_nat_three:
  "be_nat (replicate i 0 @ [a, b, c] @ replicate j 0)
     = (unat a * 65536 + unat b * 256 + unat c) * 256 ^ j"
  by (simp add: be_nat_append power_add algebra_simps)

lemma mantissa_less: "unat (bits AND 0x007FFFFF :: u32) < 2 ^ 23"
proof -
  have m: "0x007FFFFF = (mask 23 :: u32)" by (simp add: mask_eq_exp_minus_1)
  show ?thesis unfolding m
    by (simp only: take_bit_eq_mask [symmetric] unsigned_take_bit_eq take_bit_nat_less_exp)
qed

lemma length_bits_to_target [simp]: "length (bits_to_target bits) = 32"
  by (simp add: bits_to_target_def Let_def)

text \<open>The number a valid compact difficulty stands for.\<close>

definition compact_value :: "u32 \<Rightarrow> nat" where
  "compact_value bits = unat (bits AND 0x007FFFFF) * 256 ^ unat (drop_bit 24 bits) div 256 ^ 3"

definition compact_valid :: "u32 \<Rightarrow> bool" where
  "compact_valid bits \<longleftrightarrow> bits AND 0x00800000 = 0 \<and> drop_bit 24 bits \<le> 32"

lemma bits_to_target_value:
  "be_nat (bits_to_target bits) = (if compact_valid bits then compact_value bits else 0)"
proof (cases "compact_valid bits")
  case False
  then show ?thesis by (auto simp: compact_valid_def bits_to_target_def Let_def not_le)
next
  case True
  define ex where "ex = drop_bit 24 bits"
  define m where "m = bits AND 0x007FFFFF"
  have m: "unat m < 2 ^ 23" using mantissa_less by (simp add: m_def)
  have valid: "bits AND 0x00800000 = 0" "unat ex \<le> 32" "\<not> ex > 32"
    using True by (simp_all add: compact_valid_def ex_def word_le_nat_alt word_less_nat_alt)
  show ?thesis
  proof (cases "ex \<le> 3")
    case le3: True
    then have e3: "unat ex \<le> 3" by (simp add: word_le_nat_alt)
    define m' where "m' = drop_bit (8 * (3 - unat ex)) m"
    have m': "unat m' = unat m div 256 ^ (3 - unat ex)"
      by (simp only: m'_def unat_drop_bit_eq) (simp add: drop_bit_eq_div power_mult)
    have "unat m div 256 ^ (3 - unat ex) \<le> unat m" by (rule div_le_dividend)
    then have small: "unat m' < 2 ^ 24" using m unfolding m' by (rule order.strict_trans1 [OF _ order.strict_trans]) simp
    have "be_nat (bits_to_target bits) = unat m'"
      using valid le3 three_bytes_update [of 29] be_nat_three [of 29 _ _ _ 0] three_bytes_value [OF small]
      by (simp add: bits_to_target_def Let_def flip: ex_def m_def m'_def)
    also have "\<dots> = unat m * 256 ^ unat ex div 256 ^ 3"
    proof -
      have "(256 :: nat) ^ 3 = 256 ^ unat ex * 256 ^ (3 - unat ex)"
        using e3 by (simp flip: power_add)
      then show ?thesis unfolding m' by (simp only: mult.commute [of "unat m"] div_mult2_eq) simp
    qed
    finally show ?thesis using True by (simp add: compact_value_def flip: ex_def m_def)
  next
    case False
    then have e3: "3 < unat ex" by (simp add: word_le_nat_alt)
    have small: "unat m < 2 ^ 24" using m by simp
    have i: "32 - unat ex \<le> 29" "29 - (32 - unat ex) = unat ex - 3" using e3 valid by auto
    have "be_nat (bits_to_target bits) = unat m * 256 ^ (unat ex - 3)"
      using valid False three_bytes_update [OF i(1)] be_nat_three [of "32 - unat ex"] three_bytes_value [OF small]
      by (simp add: bits_to_target_def Let_def i flip: ex_def m_def)
    also have "\<dots> = unat m * 256 ^ unat ex div 256 ^ 3"
    proof -
      have "(256 :: nat) ^ unat ex = 256 ^ (unat ex - 3) * 256 ^ 3"
        using e3 by (simp only: power_add [symmetric]) simp
      then show ?thesis by (simp only: mult.assoc [symmetric]) simp
    qed
    finally show ?thesis using True by (simp add: compact_value_def flip: ex_def m_def)
  qed
qed

lemma check_pow_value:
  "check_proof_of_work header \<longleftrightarrow>
     be_nat (GetHash header) \<le> (if compact_valid (nBits header) then compact_value (nBits header) else 0)"
proof -
  have "length (GetHash header) = length (bits_to_target (nBits header))" by simp
  from be_nat_le_iff [OF this] show ?thesis
    by (simp add: check_proof_of_work_def bits_to_target_value)
qed

text \<open>A header passes \<open>check_proof_of_work\<close> exactly when its compact difficulty is valid (sign
  bit clear, exponent at most 32) and its hash, read as a 256-bit big-endian number, is at most
  the number the compact difficulty stands for, \<open>mantissa * 256 ^ (exponent - 3)\<close> rounded down; with
  an invalid difficulty only the all-zero hash would pass.\<close>

theorem check_proof_of_work_iff:
  "check_proof_of_work header \<longleftrightarrow>
     be_nat (GetHash header) \<le> (if compact_valid (nBits header) then compact_value (nBits header) else 0)"
  by (rule check_pow_value)

section \<open>Mining\<close>

text \<open>The \<open>k\<close>-th header the mining loop tries.\<close>

definition candidate :: "'z CBlockHeader_scheme \<Rightarrow> u32 \<Rightarrow> nat \<Rightarrow> 'z CBlockHeader_scheme" where
  "candidate h bits k =
     h\<lparr>nBits := bits, nNonce := word_of_nat k, nTime := nTime h + word_of_nat (k div 2 ^ 32)\<rparr>"

lemma candidate_sel [simp]:
  "nBits (candidate h bits k) = bits" "nNonce (candidate h bits k) = word_of_nat k"
  "nTime (candidate h bits k) = nTime h + word_of_nat (k div 2 ^ 32)"
  "nVersion (candidate h bits k) = nVersion h" "hashPrevBlock (candidate h bits k) = hashPrevBlock h"
  "hashMerkleRoot (candidate h bits k) = hashMerkleRoot h"
  "CBlockHeader.more (candidate h bits k) = CBlockHeader.more h"
  by (simp_all add: candidate_def)

lemma nonce_max_iff: "word_of_nat k = (0xFFFFFFFF :: u32) \<longleftrightarrow> k mod 2 ^ 32 = 2 ^ 32 - 1"
  by (simp add: word_of_nat_eq_iff take_bit_eq_mod unat_of_nat word_unat_eq_iff)

lemma mine_step_candidate: "mine_step (candidate h bits k) = candidate h bits (Suc k)"
proof (cases "k mod 2 ^ 32 = 2 ^ 32 - 1")
  case True
  then have "Suc k mod 2 ^ 32 = 0" by (simp add: mod_Suc)
  moreover from this have "Suc k div 2 ^ 32 = Suc (k div 2 ^ 32)" by (simp add: div_Suc)
  moreover from calculation have "(word_of_nat (Suc k) :: u32) = 0"
    by (simp only: word_of_nat_eq_0_iff dvd_eq_mod_eq_0) simp
  ultimately show ?thesis
    using True nonce_max_iff [of k]
    by (simp add: mine_step_def candidate_def algebra_simps)
next
  case False
  then have "Suc k div 2 ^ 32 = k div 2 ^ 32" by (simp add: div_Suc mod_Suc)
  with False nonce_max_iff [of k] show ?thesis
    by (simp add: mine_step_def candidate_def add.commute)
qed

lemma mine_step_iter: "(mine_step ^^ k) (candidate h bits 0) = candidate h bits k"
  by (induction k) (simp_all add: mine_step_candidate)

lemma mine_block_eq:
  "mine_block header bits =
     (if \<exists>k. check_proof_of_work (candidate header bits k)
      then Inr (candidate header bits (LEAST k. check_proof_of_work (candidate header bits k)))
      else Inl No_return)"
proof -
  have start: "header\<lparr>nBits := bits, nNonce := 0\<rparr> = candidate header bits 0"
    by (simp add: candidate_def)
  have pow: "\<not> GetHash (candidate header bits k) > bits_to_target bits
      \<longleftrightarrow> check_proof_of_work (candidate header bits k)" for k
    by (simp add: check_proof_of_work_def not_less)
  show ?thesis
    by (simp add: mine_block_def Let_def start while_option_def mine_step_iter pow)
qed

text \<open>C18: \<open>mine_block\<close> returns exactly when some header it can reach, with the nonces tried in order
  and the time moved on by one second after every full round of nonces, has a proof of work for
  the requested difficulty; it then returns the first such header, with every other field
  untouched. Otherwise it never returns.\<close>

theorem mine_block_first:
  "mine_block header bits =
     (if \<exists>k. check_proof_of_work (candidate header bits k)
      then Inr (candidate header bits (LEAST k. check_proof_of_work (candidate header bits k)))
      else Inl No_return)"
  by (rule mine_block_eq)

section \<open>Chain work\<close>

lemma f64_div_pow2_ok: "f64_ok (f64_div (f64_round p 1 e) y)" "y \<noteq> F64_nan \<Longrightarrow> f64_val y \<noteq> 0 \<Longrightarrow>
    f64_div (f64_round p 1 e) y \<noteq> F64_nan"
  by (cases "f64_round p 1 e"; cases y; simp add: f64_round_ok)+


lemma block_work_double:
  "f64_ok (calculate_block_work bits) \<and> calculate_block_work bits \<noteq> F64_nan"
proof (cases "bits AND 0x007FFFFF = 0")
  case False
  then have pos: "0 < unat (bits AND 0x007FFFFF)" by (simp add: unat_gt_0)
  have "unat (bits AND 0x007FFFFF) \<le> 2 ^ 53" using mantissa_less [of bits] by simp
  note ex = f64_of_nat_exact [OF this]
  then have "f64_val (f64_of_nat (unat (bits AND 0x007FFFFF))) \<noteq> 0"
    using pos by (metis less_irrefl of_nat_0_less_iff)
  with ex False show ?thesis
    unfolding calculate_block_work_def Let_def f64_pow2_def
    by (simp only: if_False) (intro conjI f64_div_pow2_ok, simp_all)
qed (simp add: calculate_block_work_def)

lemma chain_work_double:
  "f64_ok (calculate_chain_work hs) \<and> calculate_chain_work hs \<noteq> F64_nan"
  by (induction hs rule: rev_induct)
    (simp_all add: calculate_chain_work_def f64_add_ok f64_add_not_nan block_work_double)

lemma chain_work_snoc:
  "calculate_chain_work (hs @ [h]) = f64_add (calculate_chain_work hs) (calculate_block_work (nBits h))"
  by (simp add: calculate_chain_work_def)

lemma chain_work_mono:
  "f64_le (calculate_chain_work headers) (calculate_chain_work (headers @ more_headers))"
proof (induction more_headers rule: rev_induct)
  case Nil
  show ?case using chain_work_double [of headers] by (simp add: f64_le_refl)
next
  case (snoc h hs)
  have "f64_le (calculate_chain_work (headers @ hs)) (calculate_chain_work ((headers @ hs) @ [h]))"
    unfolding chain_work_snoc using chain_work_double block_work_double by (blast intro: f64_le_add)
  with snoc show ?case by (simp add: f64_le_trans)
qed

text \<open>Chain work is a number (never NaN), and more headers never have less of it, in spite of the
  rounding of the double sum.\<close>

theorem chain_work_extend:
  "f64_le (calculate_chain_work headers) (calculate_chain_work (headers @ more_headers))"
  by (rule chain_work_mono)

section \<open>The retarget rule\<close>

lemma f64_div_256:
  assumes "f64_finite x" and "f64_ok x" and "2 ^ 24 \<le> f64_val x" and "f64_val x < 2 ^ 1024"
  shows "f64_finite (f64_div x (f64_of_nat 256)) \<and> f64_ok (f64_div x (f64_of_nat 256))
    \<and> f64_val (f64_div x (f64_of_nat 256)) = f64_val x / 256"
proof -
  from assms(1) obtain m e where x: "x = F64 m e" by (rule f64_finiteE)
  have n: "f64_finite (f64_of_nat 256)" "f64_val (f64_of_nat 256) = 256"
    using f64_of_nat_exact [of 256] by (simp_all add: f64_finite_def)
  have "f64_val (f64_of_nat 256) \<noteq> 0" using n(2) by simp
  from f64_div_rounds [OF assms(1) n(1) this] obtain p q j where
    d: "0 < q" "f64_div x (f64_of_nat 256) = f64_round p q j" "ratio_val p q j = f64_val x / 256"
    unfolding n(2) .
  have "- 29 \<le> e"
  proof (rule ccontr)
    assume "\<not> - 29 \<le> e"
    then have "(2 :: real) powi e \<le> 2 powi (- 30)" by (intro power_int_increasing) simp_all
    moreover have "real m \<le> 2 ^ 53" using assms(2) of_nat_mono [of m "2 ^ 53", where 'a = real] by (simp add: x)
    ultimately have "f64_val x \<le> 2 ^ 53 * 2 powi (- 30)" unfolding x f64_val.simps by (intro mult_mono) simp_all
    then show False using assms(3) by (simp add: power_int_def power_one_over)
  qed
  moreover have v: "f64_val x / 256 = real m * 2 powi (e - 8)" by (simp add: x power_int_diff)
  moreover have "real m * 2 powi (e - 8) < 2 ^ 1024"
    unfolding v [symmetric] by (rule le_less_trans [OF _ assms(4)]) simp
  ultimately have "f64_round p q j \<noteq> F64_inf \<and> f64_val (f64_round p q j) = f64_val x / 256"
    using f64_round_exact [OF d(1), of m "e - 8" p j] d(3) assms(2) unfolding x by auto
  then show ?thesis unfolding d(2) f64_finite_def by (simp add: f64_round_ok [OF d(1)])
qed

lemma normalize_mantissa_returns:
  assumes "f64_finite x" and "f64_ok x" and "f64_val x < 2 ^ 1024"
  obtains y k where "normalize_mantissa x = Some (y, 3 + word_of_nat k)" "f64_finite y"
    "f64_val y * 256 ^ k = f64_val x" "f64_val y < 2 ^ 24" "k = 0 \<or> 2 ^ 16 \<le> f64_val y"
proof -
  define b where "b = (\<lambda>(m, _ :: u32). f64_le (f64_of_nat 16777216) m)"
  define c where "c = (\<lambda>(m, ne :: u32). (f64_div m (f64_of_nat 256), ne + 1))"
  define P where "P = (\<lambda>(m, ne :: u32). f64_finite m \<and> f64_ok m \<and> f64_val m < 2 ^ 1024
    \<and> (\<exists>k. ne = 3 + word_of_nat k \<and> f64_val m * 256 ^ k = f64_val x \<and> (k = 0 \<or> 2 ^ 16 \<le> f64_val m)))"
  have step: "P (c s) \<and> nat \<lfloor>f64_val (fst (c s))\<rfloor> < nat \<lfloor>f64_val (fst s)\<rfloor>" if "P s" and "b s" for s
  proof -
    obtain m ne where s: "s = (m, ne)" by (cases s)
    from that obtain k where k: "ne = 3 + word_of_nat k" "f64_val m * 256 ^ k = f64_val x"
      and m: "f64_finite m" "f64_ok m" "f64_val m < 2 ^ 1024"
      by (auto simp: s P_def)
    from that(2) m(1) have big: "2 ^ 24 \<le> f64_val m"
      using f64_le_of_nat_iff [of 16777216 m] by (simp add: s b_def)
    note d = f64_div_256 [OF m(1,2) big m(3)]
    have "f64_val (f64_div m (f64_of_nat 256)) * 256 ^ Suc k = f64_val x"
      unfolding conjunct2 [OF conjunct2 [OF d]] using k(2) by simp
    then have "\<exists>k'. ne + 1 = 3 + word_of_nat k' \<and> f64_val (f64_div m (f64_of_nat 256)) * 256 ^ k' = f64_val x
        \<and> (k' = 0 \<or> 2 ^ 16 \<le> f64_val (f64_div m (f64_of_nat 256)))"
      using d big k(1) by (intro exI [of _ "Suc k"] conjI) (simp_all only: of_nat_Suc add.assoc add.commute, auto)
    moreover have "f64_val (f64_div m (f64_of_nat 256)) < 2 ^ 1024"
      unfolding conjunct2 [OF conjunct2 [OF d]] by (rule le_less_trans [OF _ m(3)]) simp
    ultimately have "P (c s)" unfolding s c_def P_def case_prod_conv using d by blast
    moreover have "nat \<lfloor>f64_val m / 256\<rfloor> < nat \<lfloor>f64_val m\<rfloor>"
    proof -
      have "f64_val m / 256 \<le> f64_val m - 1" using big by simp
      then have "\<lfloor>f64_val m / 256\<rfloor> \<le> \<lfloor>f64_val m - 1\<rfloor>" by (rule floor_mono)
      moreover have "0 < \<lfloor>f64_val m\<rfloor>" using big by simp
      ultimately show ?thesis by simp
    qed
    ultimately show ?thesis
      unfolding s c_def case_prod_conv fst_conv conjunct2 [OF conjunct2 [OF d]] by blast
  qed
  have init: "P (x, 3)" using assms by (auto simp: P_def intro!: exI [of _ 0])
  from measure_while_option_Some [of P b c "\<lambda>s. nat \<lfloor>f64_val (fst s)\<rfloor>", OF step init]
  obtain t where t: "while_option b c (x, 3) = Some t" by blast
  have "P t" by (rule while_option_rule [where P = P, OF _ t init]) (use step in blast)
  moreover have "\<not> b t" by (rule while_option_stop [OF t])
  moreover obtain y ne where "t = (y, ne)" by (cases t)
  ultimately obtain k where "t = (y, 3 + word_of_nat k)" "f64_finite y" "f64_val y * 256 ^ k = f64_val x"
    "k = 0 \<or> 2 ^ 16 \<le> f64_val y" "f64_val y < 2 ^ 24"
    using f64_le_of_nat_iff [of 16777216 y] by (auto simp: P_def b_def)
  with t that show ?thesis by (simp add: normalize_mantissa_def b_def c_def)
qed

lemma clamp_timespan_range:
  "0 \<le> clamp_timespan a t \<and> clamp_timespan a t \<le> 4 * uint t \<and> uint t div 4 \<le> clamp_timespan a t"
proof -
  have "u div 4 \<le> 4 * u" "0 \<le> u div 4" if "0 \<le> u" for u :: int using that by linarith+
  from this [of "uint t"] show ?thesis by (auto simp: clamp_timespan_def Let_def)
qed

lemma f64_pow2_exact:
  assumes "- 1074 \<le> k" and "k < 1024"
  shows "f64_finite (f64_pow2 k) \<and> f64_val (f64_pow2 k) = 2 powi k"
proof -
  have "(2 :: real) powi k < 2 powi 1024" using assms(2) by (intro power_int_strict_increasing) simp_all
  then show ?thesis
    using f64_round_exact [of 1 1 k 1 k] assms(1)
    by (simp add: f64_pow2_def ratio_val_def f64_finite_def power_int_def)
qed

text \<open>A rounded product with a factor of at most four stays below four times a representable number.\<close>

lemma f64_mul_exact:
  assumes "f64_finite x" "f64_finite y" "f64_val x * f64_val y = real m * 2 powi j"
    "m \<le> 2 ^ 53" "- 1074 \<le> j" "real m * 2 powi j < 2 ^ 1024"
  shows "f64_finite (f64_mul x y) \<and> f64_val (f64_mul x y) = real m * 2 powi j"
proof -
  from f64_mul_rounds [OF assms(1,2)] obtain p e where
    "f64_mul x y = f64_round p 1 e" "ratio_val p 1 e = f64_val x * f64_val y" .
  then show ?thesis
    using f64_round_exact [of 1 m j p e] assms(3-6) by (simp add: f64_finite_def)
qed

lemma f64_mul_upper:
  assumes "f64_finite x" "f64_finite y" "f64_val x * f64_val y \<le> real m * 2 powi j"
    "m \<le> 2 ^ 53" "- 1074 \<le> j" "real m * 2 powi j < 2 ^ 1024"
  shows "f64_finite (f64_mul x y) \<and> f64_ok (f64_mul x y) \<and> f64_val (f64_mul x y) \<le> real m * 2 powi j"
proof -
  from f64_mul_rounds [OF assms(1,2)] obtain p e where
    "f64_mul x y = f64_round p 1 e" "ratio_val p 1 e = f64_val x * f64_val y" .
  then show ?thesis
    using f64_round_le [of 1 m j p e] f64_round_ok [of 1 p e] assms(3-6) by (simp add: f64_finite_def)
qed

lemma f64_div_upper:
  assumes "m1 \<le> 4 * m2" "0 < m2" "m1 \<le> 2 ^ 53" "m2 \<le> 2 ^ 53"
  shows "f64_finite (f64_div (f64_of_nat m1) (f64_of_nat m2)) \<and> f64_val (f64_div (f64_of_nat m1) (f64_of_nat m2)) \<le> 4"
proof -
  have x: "f64_finite (f64_of_nat m1)" "f64_val (f64_of_nat m1) = real m1"
    and y: "f64_finite (f64_of_nat m2)" "f64_val (f64_of_nat m2) = real m2"
    using f64_of_nat_exact [OF assms(3)] f64_of_nat_exact [OF assms(4)] by (auto simp: f64_finite_def)
  have nz: "f64_val (f64_of_nat m2) \<noteq> 0" using y assms(2) by simp
  from f64_div_rounds [OF x(1) y(1) nz] obtain p q e where
    d: "0 < q" "f64_div (f64_of_nat m1) (f64_of_nat m2) = f64_round p q e" "ratio_val p q e = real m1 / real m2"
    unfolding x(2) y(2) .
  have "real m1 \<le> 4 * real m2" using of_nat_mono [OF assms(1), where 'a = real] by simp
  then have "ratio_val p q e \<le> 4" using assms(2) d(3) by (simp add: pos_divide_le_eq)
  then show ?thesis unfolding d(2) using f64_round_le [OF d(1), of 4 0 p e] by (simp add: f64_finite_def)
qed

lemma mask_23: "0x007FFFFF = (mask 23 :: u32)"
  by (simp add: mask_eq_exp_minus_1)

lemma bit_23: "bit (0x00800000 :: u32) i \<longleftrightarrow> i = 23"
proof -
  have "(0x00800000 :: u32) = push_bit 23 1" by simp
  then show ?thesis by (simp only: bit_simps) auto
qed

lemma compact_bits_fields:
  fixes ex t :: u32
  assumes "unat ex < 256"
  defines "b \<equiv> push_bit 24 ex OR (t AND 0x007FFFFF)"
  shows "b AND 0x007FFFFF = t AND 0x007FFFFF" and "b AND 0x00800000 = 0" and "drop_bit 24 b = ex"
proof -
  show "b AND 0x007FFFFF = t AND 0x007FFFFF"
    unfolding b_def mask_23 by (rule bit_word_eqI) (auto simp: bit_simps)
  have "\<not> bit b 23" unfolding b_def mask_23 by (simp add: bit_simps)
  then have "bit (b AND 0x00800000) i = bit 0 i" for i by (simp only: bit_and_iff bit_23 bit_0_eq) auto
  then show "b AND 0x00800000 = 0" by (rule bit_word_eqI)
  have "take_bit 8 ex = ex"
    using assms(1) by (simp add: word_unat_eq_iff unsigned_take_bit_eq take_bit_nat_eq_self_iff)
  then have top: "bit ex i \<Longrightarrow> i < 8" for i by (metis bit_take_bit_iff)
  show "drop_bit 24 b = ex"
    unfolding b_def mask_23 by (rule bit_word_eqI) (auto simp: bit_simps dest: top)
qed

lemma scaled_value_bound:
  assumes "drop_bit 24 bits \<le> (32 :: u32)" and "t \<noteq> 0" and "0 \<le> a" and "a \<le> 4 * uint t"
  shows "f64_finite (scaled_value bits a t) \<and> f64_ok (scaled_value bits a t) \<and>
    f64_val (scaled_value bits a t)
      \<le> real (4 * unat (bits AND 0x007FFFFF)) * 2 powi (8 * (uint (drop_bit 24 bits) - 3))"
proof -
  define m where "m = unat (bits AND 0x007FFFFF)"
  define j where "j = 8 * (uint (drop_bit 24 bits) - 3)"
  have m: "m < 2 ^ 23" using mantissa_less by (simp add: m_def)
  have "uint (drop_bit 24 bits) \<le> 32" using assms(1) by (simp add: word_le_def)
  then have j: "- 24 \<le> j" "j \<le> 232" by (simp_all add: j_def)
  have "real m * 2 powi j \<le> 2 ^ 23 * 2 powi 232" "real (4 * m) * 2 powi j \<le> 2 ^ 25 * 2 powi 232"
    using m j by (intro mult_mono power_int_increasing; simp)+
  moreover have "2 ^ 23 * 2 powi 232 < (2 :: real) ^ 1024" "2 ^ 25 * 2 powi 232 < (2 :: real) ^ 1024"
    by (simp_all add: power_int_def)
  ultimately have fin: "real m * 2 powi j < 2 ^ 1024" "real (4 * m) * 2 powi j < 2 ^ 1024"
    by (blast intro: le_less_trans)+
  have x: "f64_finite (f64_of_nat m)" "f64_val (f64_of_nat m) = real m"
    using f64_of_nat_exact [of m] m by (simp_all add: f64_finite_def)
  have p: "f64_finite (f64_pow2 j)" "f64_val (f64_pow2 j) = 2 powi j"
    using f64_pow2_exact [of j] j by simp_all
  have v: "f64_finite (f64_mul (f64_of_nat m) (f64_pow2 j))"
    "f64_val (f64_mul (f64_of_nat m) (f64_pow2 j)) = real m * 2 powi j"
    using f64_mul_exact [OF x(1) p(1), of m j] x p m j fin by simp_all
  have t: "unat t < 4294967296" by (rule unat_u32_less)
  have t0: "0 < unat t" using assms(2) by (simp add: unat_gt_0)
  have "nat a \<le> 4 * unat t" using assms(4) by (simp add: nat_le_iff)
  moreover have "x \<le> 4 * u \<Longrightarrow> u < 4294967296 \<Longrightarrow> x \<le> 2 ^ 53 \<and> u \<le> 2 ^ 53" for x u :: nat by simp
  from this [OF _ t] calculation have "nat a \<le> 2 ^ 53" "unat t \<le> 2 ^ 53" by blast+
  ultimately have q: "f64_finite (f64_div (f64_of_nat (nat a)) (f64_of_nat (unat t)))"
    "f64_val (f64_div (f64_of_nat (nat a)) (f64_of_nat (unat t))) \<le> 4"
    using f64_div_upper [of "nat a" "unat t"] t0 by simp_all
  have "real m * 2 powi j * f64_val (f64_div (f64_of_nat (nat a)) (f64_of_nat (unat t)))
      \<le> real m * 2 powi j * 4" using q(2) by (intro mult_left_mono) simp_all
  then have "f64_val (f64_mul (f64_of_nat m) (f64_pow2 j))
        * f64_val (f64_div (f64_of_nat (nat a)) (f64_of_nat (unat t))) \<le> real (4 * m) * 2 powi j"
    by (simp add: v(2))
  from f64_mul_upper [OF v(1) q(1) this _ _ fin(2)] m j show ?thesis
    unfolding scaled_value_def Let_def m_def [symmetric] j_def [symmetric] by simp
qed

lemma compact_value_ge3:
  assumes "3 \<le> unat (drop_bit 24 bits)"
  shows "compact_value bits = unat (bits AND 0x007FFFFF) * 256 ^ (unat (drop_bit 24 bits) - 3)"
proof -
  have "(256 :: nat) ^ unat (drop_bit 24 bits) = 256 ^ (unat (drop_bit 24 bits) - 3) * 256 ^ 3"
    using assms by (simp only: power_add [symmetric]) simp
  then show ?thesis unfolding compact_value_def by (simp only: mult.assoc [symmetric]) simp
qed

text \<open>The exponent the scaling loop ends with, for a bounded value.\<close>

lemma normalize_steps_bound:
  fixes v :: real
  assumes "k = 0 \<or> 2 ^ 16 \<le> y" and "y * 256 ^ k = v" and "v < 2 ^ 16 * 256 ^ Suc n"
  shows "k \<le> n"
proof (rule ccontr)
  assume "\<not> k \<le> n"
  then have "(2 :: real) ^ 16 * 256 ^ Suc n \<le> y * 256 ^ k"
    using assms(1) by (intro mult_mono power_increasing) auto
  then show False using assms(2,3) by simp
qed

lemma masked_le: "unat (word_of_nat t AND 0x007FFFFF :: u32) \<le> t"
proof -
  have "unat (word_of_nat t AND 0x007FFFFF :: u32) = take_bit 23 (take_bit 32 t)"
    unfolding mask_23 take_bit_eq_mask [symmetric] by (simp add: unsigned_take_bit_eq unsigned_of_nat)
  then show ?thesis by (simp add: take_bit_eq_mod)
qed

lemma retarget_boundary:
  assumes "headers \<noteq> []" and "retarget_interval \<noteq> 0"
    and "length headers mod unat retarget_interval = 0"
  obtains period_start where
    "vector_at headers (length headers - unat retarget_interval) = Inr period_start"
  using assms by (auto simp: vector_at_def unat_gt_0)

lemma retarget_bound:
  assumes "headers \<noteq> []" and "retarget_interval \<noteq> 0" and "target_timespan \<noteq> 0"
    and "compact_valid (nBits (last headers))" and "3 \<le> unat (drop_bit 24 (nBits (last headers)))"
  shows "\<exists>new_bits. get_next_work_required headers retarget_interval target_timespan = Inr new_bits
    \<and> new_bits AND 0x00800000 = 0 \<and> 3 \<le> unat (drop_bit 24 new_bits) \<and> drop_bit 24 new_bits \<le> 33
    \<and> compact_value new_bits \<le> 4 * compact_value (nBits (last headers))
    \<and> (4 * compact_value (nBits (last headers)) < 2 ^ 256 \<longrightarrow> compact_valid new_bits)"
proof (cases "length headers mod unat retarget_interval = 0")
  case False
  have "drop_bit 24 (nBits (last headers)) \<le> 33"
    using assms(4) by (auto simp: compact_valid_def word_le_nat_alt)
  with False assms show ?thesis by (simp add: get_next_work_required_def Let_def compact_valid_def)
next
  case True
  define cur where "cur = nBits (last headers)"
  from retarget_boundary [OF assms(1,2) True] obtain start where
    st: "vector_at headers (length headers - unat retarget_interval) = Inr start" .
  define a where "a = clamp_timespan (uint (nTime (last headers)) - uint (nTime start)) target_timespan"
  define v where "v = scaled_value cur a target_timespan"
  have cur: "drop_bit 24 cur \<le> 32" "3 \<le> unat (drop_bit 24 cur)"
    using assms(4,5) by (simp_all add: cur_def compact_valid_def)
  have a: "0 \<le> a" "a \<le> 4 * uint target_timespan" using clamp_timespan_range by (auto simp: a_def)
  define ex where "ex = unat (drop_bit 24 cur) - 3"
  have "int ex = uint (drop_bit 24 cur) - 3" using cur(2) by (simp add: ex_def of_nat_diff)
  then have uex: "8 * (uint (drop_bit 24 cur) - 3) = int (8 * ex)" "ex \<le> 29"
    using cur(1) by (simp_all add: word_le_def)
  have "(2 :: real) powi (8 * (uint (drop_bit 24 cur) - 3)) = 256 ^ ex"
    unfolding uex(1) power_int_of_nat power_mult by simp
  then have v: "f64_finite v" "f64_ok v" "f64_val v \<le> real (4 * compact_value cur)"
    using scaled_value_bound [OF cur(1) assms(3) a] compact_value_ge3 [OF cur(2)]
    by (simp_all add: v_def ex_def)
  have "compact_value cur \<le> 2 ^ 23 * 256 ^ 29"
    unfolding compact_value_ge3 [OF cur(2)] ex_def [symmetric]
    using mantissa_less [of cur] uex(2) by (intro mult_mono power_increasing) auto
  then have "real (4 * compact_value cur) \<le> real (4 * (2 ^ 23 * 256 ^ 29))"
    by (intro of_nat_mono mult_left_mono) auto
  with v(3) have vmax: "f64_val v \<le> 2 ^ 257" by (rule order.trans [OF order.trans]) simp
  then have "f64_val v < 2 ^ 1024" by (rule le_less_trans) simp
  from normalize_mantissa_returns [OF v(1,2) this] obtain y k where
    nm: "normalize_mantissa v = Some (y, 3 + word_of_nat k)" and y: "f64_finite y"
    "f64_val y * 256 ^ k = f64_val v" "f64_val y < 2 ^ 24" "k = 0 \<or> 2 ^ 16 \<le> f64_val y" .
  have k: "k \<le> 30" by (rule normalize_steps_bound [OF y(4,2)]) (rule le_less_trans [OF vmax], simp)
  have valid: "k \<le> 29" if "4 * compact_value cur < 2 ^ 256"
  proof (rule normalize_steps_bound [OF y(4,2)])
    have "real (4 * compact_value cur) < real (2 ^ 256)" using that by (simp only: of_nat_less_iff)
    with v(3) show "f64_val v < 2 ^ 16 * 256 ^ Suc 29" by simp
  qed
  define t where "t = nat \<lfloor>f64_val y\<rfloor>"
  define new_bits :: u32 where "new_bits = push_bit 24 (3 + word_of_nat k) OR (word_of_nat t AND 0x007FFFFF)"
  have ret: "get_next_work_required headers retarget_interval target_timespan = Inr new_bits"
    using assms(1-3) True st nm f64_trunc_floor [OF y(1)]
    by (simp add: get_next_work_required_def Let_def new_bits_def t_def v_def cur_def a_def)
  have uk: "unat (3 + word_of_nat k :: u32) = 3 + k"
    using k word_of_nat_inverse32 [of "3 + k"] by simp
  note fields = compact_bits_fields [of "3 + word_of_nat k" "word_of_nat t", folded new_bits_def]
  have "compact_value new_bits = unat (word_of_nat t AND 0x007FFFFF :: u32) * 256 ^ k"
    using fields uk k by (simp add: compact_value_ge3)
  also have "\<dots> \<le> t * 256 ^ k" by (intro mult_right_mono masked_le) simp
  finally have "real (compact_value new_bits) \<le> real (t * 256 ^ k)" by (simp only: of_nat_le_iff)
  also have "\<dots> \<le> f64_val y * 256 ^ k" by (simp add: t_def)
  also have "\<dots> \<le> real (4 * compact_value cur)" using y(2) v(3) by simp
  finally have "compact_value new_bits \<le> 4 * compact_value cur" by (simp only: of_nat_le_iff)
  then show ?thesis
    using ret fields uk k valid
    by (intro exI [of _ new_bits]) (auto simp: cur_def compact_valid_def word_le_nat_alt)
qed

text \<open>C40: From a tip difficulty that is valid (sign bit clear, exponent at most 32) and has an exponent of
  at least 3, and with a non-zero interval and time span, the retarget rule always returns. The new
  compact difficulty has its sign bit clear, an exponent from 3 to 33, and stands for at most four
  times the current target: one retarget makes the work at most four times easier, however late the
  blocks came, in spite of rounding. It is again valid when four times the current target fits into
  256 bits; otherwise the exponent may become 33, see \<open>retarget_leaves_range\<close>.\<close>

theorem retarget_at_most_four:
  assumes "headers \<noteq> []" and "retarget_interval \<noteq> 0" and "target_timespan \<noteq> 0"
    and "compact_valid (nBits (last headers))" and "3 \<le> unat (drop_bit 24 (nBits (last headers)))"
  shows "\<exists>new_bits. get_next_work_required headers retarget_interval target_timespan = Inr new_bits
    \<and> new_bits AND 0x00800000 = 0 \<and> 3 \<le> unat (drop_bit 24 new_bits) \<and> drop_bit 24 new_bits \<le> 33
    \<and> compact_value new_bits \<le> 4 * compact_value (nBits (last headers))
    \<and> (4 * compact_value (nBits (last headers)) < 2 ^ 256 \<longrightarrow> compact_valid new_bits)"
  using assms by (rule retarget_bound)

definition sample_header :: "u32 \<Rightarrow> u32 \<Rightarrow> CBlockHeader" where
  "sample_header time bits =
     \<lparr>nVersion = 1, hashPrevBlock = replicate 32 0, hashMerkleRoot = replicate 32 0,
      nTime = time, nBits = bits, nNonce = 0\<rparr>"

lemma retarget_at_most_four_witness:
  "\<exists>new_bits. get_next_work_required [sample_header 0 0x1F7FFFFF, sample_header 240 0x1F7FFFFF] 2 60 = Inr new_bits
    \<and> compact_value new_bits \<le> 4 * compact_value 0x1F7FFFFF \<and> compact_valid new_bits"
  using retarget_at_most_four [of "[sample_header 0 0x1F7FFFFF, sample_header 240 0x1F7FFFFF]" 2 60]
  by (simp add: sample_header_def compact_valid_def compact_value_def) blast

lemmas f64_eval = f64_of_nat_def f64_pow2_def f64_round_def quantum_def log2_ratio_def round_even_def
  Let_def bit_length.simps

lemma sample_scaled: "scaled_value 0x207FFFFF 61 60 = F64 4578659075341243 203"
  by (simp add: scaled_value_def f64_eval)

lemma easy_scaled: "scaled_value 0x207FFFFF 240 60 = F64 9007198180999168 204"
  by (simp add: scaled_value_def f64_eval)

lemma easy_normalized: "normalize_mantissa (F64 9007198180999168 204) = Some (F64 9007198180999168 (- 36), 33)"
  by (simp add: normalize_mantissa_def while_option_unfold f64_eval)

lemma sample_normalized: "normalize_mantissa (F64 4578659075341243 203) = Some (F64 4578659075341243 (- 29), 32)"
  by (simp add: normalize_mantissa_def while_option_unfold f64_eval)

text \<open>The scaling loop stops below \<open>2 ^ 24\<close>, but the mantissa is then cut to 23 bits, so bit 23 of
  the scaled mantissa is lost. At the easiest difficulty \<open>0x207FFFFF\<close>, two blocks that took 61 seconds
  instead of 60 should make the target slightly easier; the rule makes it more than 59 times harder.\<close>

theorem retarget_loses_high_bit:
  "get_next_work_required [sample_header 0 0x207FFFFF, sample_header 61 0x207FFFFF] 2 60 = Inr 0x20022221
   \<and> 59 * compact_value 0x20022221 < compact_value 0x207FFFFF"
  by (simp add: get_next_work_required_def sample_header_def Let_def clamp_timespan_def sample_scaled
      sample_normalized compact_value_def)

text \<open>A retarget can leave the range \<open>bits_to_target\<close> understands. At the easiest difficulty, the one of the
  first block, and with the interval and time span of the node, five blocks that took 240 seconds
  instead of 60 give the exponent 33, for which
  \<open>bits_to_target\<close> returns the zero target: the next block would have to hash to zero.\<close>

theorem retarget_leaves_range:
  "get_next_work_required (map (\<lambda>t. sample_header t 0x207FFFFF) [0, 60, 120, 180, 240]) 5 60 = Inr 0x2101FFFF
   \<and> bits_to_target 0x2101FFFF = replicate 32 0"
  by (simp add: get_next_work_required_def sample_header_def Let_def clamp_timespan_def easy_scaled
      easy_normalized bits_to_target_def)

end
