(* ===== verification/Script.thy ===== *)
theory Script
  imports Crypto
begin

text \<open>
  \<open>include/wallet/signing.h\<close> and \<open>include/wallet/script.h\<close>: signing and verifying a sighash, the
  P2PKH script builders, the recogniser, and the stack machine that runs \<open>scriptSig\<close> and
  \<open>scriptPubKey\<close> as one program. The C++ stack is a vector with its top at the back; here it
  is a list with its top at the head.
\<close>

section \<open>Signing\<close>

definition ADDRESS_SIZE :: nat where "ADDRESS_SIZE = 20"
definition SIGNATURE_SIZE :: nat where "SIGNATURE_SIZE = 64"
definition PUBKEY_SIZE :: nat where "PUBKEY_SIZE = 33"

definition sighash_to_message_hash :: "bytes \<Rightarrow> bytes" where
  "sighash_to_message_hash sighash = hash_sha256 (string_bytes (bytes_to_hex sighash))"

definition sign_raw :: "secp256k1 \<Rightarrow> bytes \<Rightarrow> bytes \<Rightarrow> bytes result" where
  "sign_raw S seckey sighash =
     (case generate_sign S (bytes_to_hex sighash) seckey of
        None \<Rightarrow> Inl (Runtime_error ''sign_raw: signing failed'')
      | Some sm \<Rightarrow> Inr (sm_serialized sm))"

definition verify_raw_signature :: "secp256k1 \<Rightarrow> bytes \<Rightarrow> bytes \<Rightarrow> bytes \<Rightarrow> bool" where
  "verify_raw_signature S sig_bytes pubkey_bytes sighash =
     (if length sig_bytes \<noteq> SIGNATURE_SIZE \<or> length pubkey_bytes \<noteq> PUBKEY_SIZE then False
      else verify_sign S sig_bytes pubkey_bytes (sighash_to_message_hash sighash))"

section \<open>Scripts\<close>

definition OP_DUP :: byte where "OP_DUP = 0x76"
definition OP_HASH160 :: byte where "OP_HASH160 = 0xa9"
definition OP_EQUALVERIFY :: byte where "OP_EQUALVERIFY = 0x88"
definition OP_CHECKSIG :: byte where "OP_CHECKSIG = 0xac"

definition build_p2pkh_script_pubkey :: "bytes \<Rightarrow> bytes" where
  "build_p2pkh_script_pubkey address =
     (let s = [] @ [OP_DUP];
          s = s @ [OP_HASH160];
          s = s @ [word_of_nat (length address)];
          s = s @ address;
          s = s @ [OP_EQUALVERIFY]
      in s @ [OP_CHECKSIG])"

definition build_script_sig :: "bytes \<Rightarrow> bytes \<Rightarrow> bytes" where
  "build_script_sig signature pubkey =
     (let s = [] @ [word_of_nat (length signature)];
          s = s @ signature;
          s = s @ [word_of_nat (length pubkey)]
      in s @ pubkey)"

text \<open>The returned flag and the out parameter: \<open>None\<close> is \<open>false\<close>.\<close>

definition extract_p2pkh_address :: "bytes \<Rightarrow> bytes option" where
  "extract_p2pkh_address script_pubkey =
     (if length script_pubkey \<noteq> 3 + ADDRESS_SIZE + 2 then None
      else if script_pubkey ! 0 \<noteq> OP_DUP \<or> script_pubkey ! 1 \<noteq> OP_HASH160
              \<or> unat (script_pubkey ! 2) \<noteq> ADDRESS_SIZE then None
      else if script_pubkey ! (3 + ADDRESS_SIZE) \<noteq> OP_EQUALVERIFY
              \<or> script_pubkey ! (4 + ADDRESS_SIZE) \<noteq> OP_CHECKSIG then None
      else Some (slice script_pubkey 3 ADDRESS_SIZE))"

definition hash160 :: "bytes \<Rightarrow> bytes" where
  "hash160 top_item = hash_ripemd160 (hash_sha256 top_item)"

text \<open>One opcode other than a push: the new stack, or \<open>None\<close> for \<open>return false\<close>.\<close>

definition exec_op :: "secp256k1 \<Rightarrow> bytes \<Rightarrow> byte \<Rightarrow> bytes list \<Rightarrow> bytes list option" where
  "exec_op S sighash op stack =
     (if op = OP_DUP then
        (case stack of [] \<Rightarrow> None | top_item # rest \<Rightarrow> Some (top_item # top_item # rest))
      else if op = OP_HASH160 then
        (case stack of [] \<Rightarrow> None | top_item # rest \<Rightarrow> Some (hash160 top_item # rest))
      else if op = OP_EQUALVERIFY then
        (case stack of a # b # rest \<Rightarrow> if a \<noteq> b then None else Some rest | _ \<Rightarrow> None)
      else if op = OP_CHECKSIG then
        (case stack of
           pubkey_bytes # sig_bytes # rest \<Rightarrow>
             Some ((if verify_raw_signature S sig_bytes pubkey_bytes sighash then [1] else []) # rest)
         | _ \<Rightarrow> None)
      else None)"

text \<open>The loop of \<open>evaluate\<close> from position \<open>i\<close>: the final stack, or \<open>None\<close> for \<open>return false\<close>.\<close>

function run_program :: "secp256k1 \<Rightarrow> bytes \<Rightarrow> bytes \<Rightarrow> nat \<Rightarrow> bytes list \<Rightarrow> bytes list option" where
  "run_program S sighash program i stack =
     (if i < length program then
        (let op = program ! i in
         if op \<ge> 1 \<and> op \<le> 75 then
           (if i + 1 + unat op > length program then None
            else run_program S sighash program (i + 1 + unat op)
                   (slice program (i + 1) (unat op) # stack))
         else
           (case exec_op S sighash op stack of
              None \<Rightarrow> None
            | Some stack' \<Rightarrow> run_program S sighash program (i + 1) stack'))
      else Some stack)"
  by pat_completeness auto
termination
  by (relation "measure (\<lambda>(_, _, program, i, _). length program - i)") auto

declare run_program.simps [simp del]

definition evaluate :: "secp256k1 \<Rightarrow> bytes \<Rightarrow> bytes \<Rightarrow> bytes \<Rightarrow> bool" where
  "evaluate S script_sig script_pubkey sighash =
     (case run_program S sighash (script_sig @ script_pubkey) 0 [] of
        None \<Rightarrow> False
      | Some [] \<Rightarrow> False
      | Some (top_item # _) \<Rightarrow> top_item \<noteq> [] \<and> last top_item \<noteq> 0)"

section \<open>Signatures\<close>

lemma sign_raw_verifies:
  assumes "secp_documented S" and "ec_seckey_verify S seckey"
    and "ec_pubkey_create S seckey = Some pk" and "ec_pubkey_serialize S pk = Some (c, len)"
  shows "\<exists>sg. sign_raw S seckey sighash = Inr sg \<and> length sg = 64 \<and> length c = 33
    \<and> verify_raw_signature S sg c sighash"
proof -
  from generate_sign_verify [OF assms, of "bytes_to_hex sighash"] obtain sm where sm:
    "generate_sign S (bytes_to_hex sighash) seckey = Some sm" "length (sm_serialized sm) = 64"
    "verify_sign S (sm_serialized sm) c (sighash_to_message_hash sighash)"
    by (auto simp: sighash_to_message_hash_def)
  moreover have "length c = 33"
    using assms unfolding secp_documented_def by fastforce
  ultimately show ?thesis
    by (simp add: sign_raw_def verify_raw_signature_def SIGNATURE_SIZE_def PUBKEY_SIZE_def)
qed

section \<open>The stack machine\<close>

lemmas op_defs = OP_DUP_def OP_HASH160_def OP_EQUALVERIFY_def OP_CHECKSIG_def

lemma run_program_end [simp]: "length program \<le> i \<Longrightarrow> run_program S h program i st = Some st"
  by (subst run_program.simps) simp

lemma run_program_push:
  assumes "bytes_at program i (op # data)" and "1 \<le> op" and "op \<le> 75" and "unat op = length data"
  shows "run_program S h program i st = run_program S h program (i + 1 + length data) (data # st)"
proof -
  have at: "bytes_at program i [op]" "bytes_at program (i + 1) data"
    using assms(1) bytes_at_append [of program i "[op]" data] by simp_all
  then have "program ! i = op" "i < length program"
    using bytes_at_nth [OF at(1), of 0] bytes_at_bound [OF at(1)] by simp_all
  with at(2) assms(2-4) show ?thesis
    by (subst run_program.simps) (simp add: bytes_at_def Let_def)
qed

lemma run_program_exec:
  assumes "bytes_at program i [op]" and "\<not> (1 \<le> op \<and> op \<le> 75)"
  shows "run_program S h program i st =
    (case exec_op S h op st of None \<Rightarrow> None | Some st' \<Rightarrow> run_program S h program (i + 1) st')"
  using bytes_at_nth [OF assms(1), of 0] bytes_at_bound [OF assms(1)] assms(2)
  by (subst run_program.simps) auto

lemma not_push: "\<not> (1 \<le> OP_DUP \<and> OP_DUP \<le> 75)" "\<not> (1 \<le> OP_HASH160 \<and> OP_HASH160 \<le> 75)"
  "\<not> (1 \<le> OP_EQUALVERIFY \<and> OP_EQUALVERIFY \<le> 75)" "\<not> (1 \<le> OP_CHECKSIG \<and> OP_CHECKSIG \<le> 75)"
  by (simp_all add: op_defs)

lemma exec_op_simps:
  "exec_op S h OP_DUP (x # st) = Some (x # x # st)" "exec_op S h OP_DUP [] = None"
  "exec_op S h OP_HASH160 (x # st) = Some (hash160 x # st)"
  "exec_op S h OP_EQUALVERIFY (x # y # st) = (if x = y then Some st else None)"
  "exec_op S h OP_CHECKSIG (x # y # st) = Some ((if verify_raw_signature S y x h then [1] else []) # st)"
  "exec_op S h OP_CHECKSIG [x] = None" "exec_op S h OP_CHECKSIG [] = None"
  by (simp_all add: exec_op_def op_defs)

lemma build_p2pkh_eq:
  "build_p2pkh_script_pubkey a
     = [OP_DUP] @ [OP_HASH160] @ (word_of_nat (length a) # a) @ [OP_EQUALVERIFY] @ [OP_CHECKSIG]"
  by (simp add: build_p2pkh_script_pubkey_def Let_def)

text \<open>A program prefix that runs to its end leaves the rest of the program to run on its stack.\<close>

lemma run_program_append:
  "run_program S h p i st = Some st' \<Longrightarrow> i \<le> length p \<Longrightarrow>
     run_program S h (p @ q) i st = run_program S h (p @ q) (length p) st'"
proof (induction S h p i st rule: run_program.induct)
  case (1 S h p i st)
  show ?case
  proof (cases "i < length p")
    case False
    with "1.prems" show ?thesis by simp
  next
    case True
    let ?op = "p ! i"
    have at: "(p @ q) ! i = ?op" "i < length (p @ q)" using True by (simp_all add: nth_append)
    show ?thesis
    proof (cases "1 \<le> ?op \<and> ?op \<le> 75")
      case push: True
      with True "1.prems" have fits: "i + 1 + unat ?op \<le> length p"
        and rest: "run_program S h p (i + 1 + unat ?op) (slice p (i + 1) (unat ?op) # st) = Some st'"
        by (simp_all add: run_program.simps [of S h p i st] Let_def split: if_splits)
      have sl: "slice (p @ q) (i + 1) (unat ?op) = slice p (i + 1) (unat ?op)"
        using fits by (simp add: slice_def)
      from "1.IH"(1) [OF True refl push _ rest] fits
      have "run_program S h (p @ q) (i + 1 + unat ?op) (slice p (i + 1) (unat ?op) # st)
          = run_program S h (p @ q) (length p) st'" by simp
      with at push fits sl show ?thesis
        by (simp add: run_program.simps [of S h "p @ q" i st] Let_def)
    next
      case ops: False
      with True "1.prems" obtain st1 where st1: "exec_op S h ?op st = Some st1"
        "run_program S h p (i + 1) st1 = Some st'"
        by (auto simp: run_program.simps [of S h p i st] Let_def split: option.splits)
      from "1.IH"(2) [OF True refl ops st1] True
      have "run_program S h (p @ q) (i + 1) st1 = run_program S h (p @ q) (length p) st'" by simp
      with at ops st1(1) show ?thesis
        by (auto simp: run_program.simps [of S h "p @ q" i st] Let_def)
    qed
  qed
qed

lemma run_p2pkh:
  assumes "length a = ADDRESS_SIZE" and "program = p @ build_p2pkh_script_pubkey a"
  shows "run_program S h program (length p) st =
    (case st of
       pk # sg # rest \<Rightarrow>
         (if hash160 pk = a then Some ((if verify_raw_signature S sg pk h then [1] else []) # rest) else None)
     | _ \<Rightarrow> None)"
proof -
  let ?k = "word_of_nat (length a) :: byte"
  have len: "?k = 20" using assms(1) by (simp add: ADDRESS_SIZE_def)
  have at: "bytes_at program (length p) [OP_DUP]" "bytes_at program (length p + 1) [OP_HASH160]"
    "bytes_at program (length p + 1 + 1) (?k # a)"
    "bytes_at program (length p + 1 + 1 + 1 + length a) [OP_EQUALVERIFY]"
    "bytes_at program (length p + 1 + 1 + 1 + length a + 1) [OP_CHECKSIG]"
    using bytes_at_middle [of p "build_p2pkh_script_pubkey a" "[]"] assms(2)
    unfolding build_p2pkh_eq bytes_at_append by (simp_all add: algebra_simps numeral_eq_Suc)
  have pushed: "unat ?k = length a" "1 \<le> ?k" "?k \<le> 75" using len assms(1) by (simp_all add: ADDRESS_SIZE_def)
  have fin: "length program \<le> length p + 1 + 1 + 1 + length a + 1 + 1"
    using assms(2) by (simp add: build_p2pkh_eq)
  note steps = run_program_exec [OF at(1) not_push(1)] run_program_exec [OF at(2) not_push(2)]
    run_program_push [OF at(3) pushed(2,3,1)] run_program_exec [OF at(4) not_push(3)]
    run_program_exec [OF at(5) not_push(4)] run_program_end [OF fin]
  show ?thesis
    by (cases st rule: remdups_adj.cases)
      (simp_all only: steps exec_op_simps option.case list.case if_split if_distrib [of "case_option _ _"], auto simp: exec_op_simps steps)
qed

section \<open>Pay to public key hash\<close>

lemma nat_less_cases25:
  assumes "(i :: nat) < 25"
  obtains "i = 0" | "i = 1" | "i = 2" | k where "i = 3 + k" "k < 20" | "i = 23" | "i = 24"
proof (cases "3 \<le> i \<and> i < 23")
  case True
  then have "i = 3 + (i - 3)" "i - 3 < 20" by auto
  then show ?thesis by (rule that(4))
next
  case False
  with assms have "i = 0 \<or> i = 1 \<or> i = 2 \<or> i = 23 \<or> i = 24" by auto
  then show ?thesis using that by blast
qed

text \<open>\<open>extract_p2pkh_address\<close> recognises exactly the scripts \<open>build_p2pkh_script_pubkey\<close> makes of
  20-byte addresses, and returns that address.\<close>

theorem extract_p2pkh_iff:
  "extract_p2pkh_address script_pubkey = Some a \<longleftrightarrow>
     length a = ADDRESS_SIZE \<and> script_pubkey = build_p2pkh_script_pubkey a"
proof
  assume ex: "extract_p2pkh_address script_pubkey = Some a"
  let ?s = script_pubkey
  from ex have len: "length ?s = 25" and a: "a = slice ?s 3 20"
    and ops: "?s ! 0 = OP_DUP" "?s ! 1 = OP_HASH160" "unat (?s ! 2) = 20" "?s ! 23 = OP_EQUALVERIFY" "?s ! 24 = OP_CHECKSIG"
    by (auto simp: extract_p2pkh_address_def ADDRESS_SIZE_def split: if_splits)
  have la: "length a = 20" using a len by (simp add: slice_def)
  from ops(3) have two: "?s ! 2 = 20" by (simp add: word_unat_eq_iff)
  have "?s = build_p2pkh_script_pubkey a"
  proof (rule nth_equalityI)
    show "length ?s = length (build_p2pkh_script_pubkey a)" using len la by (simp add: build_p2pkh_eq)
    fix i assume "i < length ?s"
    then have "i < 25" using len by simp
    then show "?s ! i = build_p2pkh_script_pubkey a ! i"
      using ops two la len
      by (cases rule: nat_less_cases25) (auto simp: build_p2pkh_eq nth_append a slice_def)
  qed
  with la show "length a = ADDRESS_SIZE \<and> ?s = build_p2pkh_script_pubkey a" by (simp add: ADDRESS_SIZE_def)
next
  assume "length a = ADDRESS_SIZE \<and> script_pubkey = build_p2pkh_script_pubkey a"
  then have la: "length a = 20" and s: "script_pubkey = [OP_DUP, OP_HASH160, 20] @ a @ [OP_EQUALVERIFY, OP_CHECKSIG]"
    by (simp_all add: build_p2pkh_eq ADDRESS_SIZE_def)
  have "slice script_pubkey 3 20 = a"
    using slice_append_middle [of "[OP_DUP, OP_HASH160, 20]" a] by (simp add: s la numeral_3_eq_3)
  with s la show "extract_p2pkh_address script_pubkey = Some a"
    by (simp add: extract_p2pkh_address_def ADDRESS_SIZE_def nth_append)
qed

lemma evaluate_run_p2pkh:
  assumes "run_program S sighash script_sig 0 [] = Some st" and "length a = ADDRESS_SIZE"
  shows "evaluate S script_sig (build_p2pkh_script_pubkey a) sighash \<longleftrightarrow>
    (\<exists>pk sg rest. st = pk # sg # rest \<and> hash160 pk = a \<and> verify_raw_signature S sg pk sighash)"
proof -
  have "run_program S sighash (script_sig @ build_p2pkh_script_pubkey a) 0 []
      = run_program S sighash (script_sig @ build_p2pkh_script_pubkey a) (length script_sig) st"
    by (rule run_program_append [OF assms(1)]) simp
  then show ?thesis
    unfolding evaluate_def
    by (auto simp: run_p2pkh [OF assms(2) refl] split: list.splits option.splits)
qed

lemma run_script_sig:
  assumes "length sg = 64" and "length pk = 33"
  shows "run_program S h (build_script_sig sg pk) 0 [] = Some [pk, sg]"
proof -
  let ?p = "build_script_sig sg pk"
  have p: "?p = (64 # sg) @ (33 # pk)" using assms by (simp add: build_script_sig_def)
  have at: "bytes_at ?p 0 (64 # sg)" "bytes_at ?p (0 + 1 + length sg) (33 # pk)"
    using bytes_at_append [of ?p 0 "64 # sg" "33 # pk"] bytes_at_whole [of ?p] by (simp_all add: p)
  have "run_program S h ?p 0 [] = run_program S h ?p (0 + 1 + length sg + 1 + length pk) [pk, sg]"
    using run_program_push [OF at(1)] run_program_push [OF at(2)] assms by simp
  then show ?thesis by (simp add: p)
qed

text \<open>A script whose pushes all end within it, so that it cannot swallow what is run after it.\<close>

function whole_pushes :: "bytes \<Rightarrow> nat \<Rightarrow> bool" where
  "whole_pushes program i =
     (if i < length program then
        (let op = program ! i in
         if op \<ge> 1 \<and> op \<le> 75
         then i + 1 + unat op \<le> length program \<and> whole_pushes program (i + 1 + unat op)
         else whole_pushes program (i + 1))
      else True)"
  by pat_completeness auto
termination
  by (relation "measure (\<lambda>(program, i). length program - i)") auto

declare whole_pushes.simps [simp del]

text \<open>Such a script that fails makes every program it begins fail.\<close>

lemma run_program_append_None:
  "run_program S h p i st = None \<Longrightarrow> i \<le> length p \<Longrightarrow> whole_pushes p i \<Longrightarrow> run_program S h (p @ q) i st = None"
proof (induction S h p i st rule: run_program.induct)
  case (1 S h p i st)
  show ?case
  proof (cases "i < length p")
    case True
    let ?op = "p ! i"
    have at: "(p @ q) ! i = ?op" "i < length (p @ q)" using True by (simp_all add: nth_append)
    show ?thesis
    proof (cases "1 \<le> ?op \<and> ?op \<le> 75")
      case push: True
      with True "1.prems" have fits: "i + 1 + unat ?op \<le> length p" "whole_pushes p (i + 1 + unat ?op)"
        and rest: "run_program S h p (i + 1 + unat ?op) (slice p (i + 1) (unat ?op) # st) = None"
        by (simp_all add: whole_pushes.simps [of p i] run_program.simps [of S h p i st] Let_def)
      have sl: "slice (p @ q) (i + 1) (unat ?op) = slice p (i + 1) (unat ?op)"
        using fits by (simp add: slice_def)
      from "1.IH"(1) [OF True refl push _ rest] fits at push sl show ?thesis
        by (simp add: run_program.simps [of S h "p @ q" i st] Let_def)
    next
      case ops: False
      with True "1.prems" at "1.IH"(2) [OF True refl ops] show ?thesis
        by (auto simp: whole_pushes.simps [of p i] run_program.simps [of S h p i st]
            run_program.simps [of S h "p @ q" i st] Let_def split: option.splits)
    qed
  qed (use "1.prems" in simp)
qed

text \<open>C16: Let the pushes of the spender's script all end within it. Then the combined program spends a P2PKH
  output exactly when the spender's script runs to its end and leaves a public key on top that hashes
  to the address, and under it a signature of the sighash by that key; what lies below is ignored. In
  particular a script of that kind that fails spends nothing. (Without the condition this is false, see
  \<open>p2pkh_spent_without_key\<close>.)\<close>

theorem evaluate_p2pkh:
  assumes "whole_pushes script_sig 0" and "length a = ADDRESS_SIZE"
  shows "evaluate S script_sig (build_p2pkh_script_pubkey a) sighash \<longleftrightarrow>
    (\<exists>pk sg rest. run_program S sighash script_sig 0 [] = Some (pk # sg # rest)
       \<and> hash160 pk = a \<and> verify_raw_signature S sg pk sighash)"
proof (cases "run_program S sighash script_sig 0 []")
  case None
  with run_program_append_None [OF None _ assms(1), of "build_p2pkh_script_pubkey a"] show ?thesis
    by (simp add: evaluate_def)
next
  case (Some st)
  then show ?thesis using evaluate_run_p2pkh [OF Some assms(2)] by simp
qed

text \<open>The wallet's script is of that kind.\<close>

lemma whole_script_sig:
  assumes "length sg = 64" and "length pk = 33"
  shows "whole_pushes (build_script_sig sg pk) 0"
  using assms by (simp add: build_script_sig_def whole_pushes.simps Let_def nth_append)

lemma toy_signature:
  "length sg = 64 \<Longrightarrow> length pk = 32 \<Longrightarrow>
     verify_raw_signature toy_secp sg (2 # pk) h \<longleftrightarrow> sg = sighash_to_message_hash h @ pk"
  by (simp add: verify_raw_signature_def verify_sign_def toy_secp_def SIGNATURE_SIZE_def PUBKEY_SIZE_def)

text \<open>The right key and signature spend; a signature of another key does not, nor does another key.\<close>

lemma evaluate_p2pkh_witness:
  "let h = replicate 32 1; pk = 2 # replicate 32 7; sg = sighash_to_message_hash h @ replicate 32 7; other = sighash_to_message_hash h @ replicate 32 8
   in evaluate toy_secp (build_script_sig sg pk) (build_p2pkh_script_pubkey (hash160 pk)) h
    \<and> \<not> evaluate toy_secp (build_script_sig other pk) (build_p2pkh_script_pubkey (hash160 pk)) h
    \<and> \<not> evaluate toy_secp (build_script_sig sg pk) (build_p2pkh_script_pubkey (map (\<lambda>b. b + 1) (hash160 pk))) h"
proof -
  let ?pk = "2 # replicate 32 7 :: bytes" and ?h = "replicate 32 1 :: bytes"
  have sg: "length (sighash_to_message_hash ?h @ replicate 32 x) = 64" for x by (simp add: sighash_to_message_hash_def)
  have pk: "length ?pk = 33" by simp
  have address: "length (hash160 ?pk) = ADDRESS_SIZE" "length (map (\<lambda>b. b + 1) (hash160 ?pk)) = ADDRESS_SIZE"
    by (simp_all add: hash160_def ADDRESS_SIZE_def)
  have "hash160 ?pk \<noteq> []" using address(1) by (auto simp: ADDRESS_SIZE_def)
  then have "map (\<lambda>b. b + 1) (hash160 ?pk) \<noteq> hash160 ?pk" by (cases "hash160 ?pk") auto
  then show ?thesis
    using evaluate_p2pkh [OF whole_script_sig [OF sg pk] address(1)] evaluate_p2pkh [OF whole_script_sig [OF sg pk] address(2)]
    by (simp add: Let_def run_script_sig [OF sg pk] toy_signature [OF sg])
qed

text \<open>Anything below the key and the signature is ignored: with an extra item at the bottom, which leaves two
  items on the stack, a spend is accepted all the same.\<close>

theorem extra_stack_items_accepted:
  assumes "length sg = 64" and "length pk = 33" and "length a = ADDRESS_SIZE"
  shows "evaluate S ([1, x] @ build_script_sig sg pk) (build_p2pkh_script_pubkey a) sighash
    = evaluate S (build_script_sig sg pk) (build_p2pkh_script_pubkey a) sighash"
proof -
  let ?p = "[1, x] @ build_script_sig sg pk"
  have p: "?p = (1 # [x]) @ (64 # sg) @ (33 # pk)" using assms by (simp add: build_script_sig_def)
  have at: "bytes_at ?p 0 (1 # [x])" "bytes_at ?p (0 + 1 + length [x]) (64 # sg)"
    "bytes_at ?p (0 + 1 + length [x] + 1 + length sg) (33 # pk)"
    using bytes_at_whole [of ?p] unfolding p bytes_at_append by (simp_all add: add.assoc)
  have "run_program S sighash ?p 0 [] = run_program S sighash ?p (0 + 1 + length [x] + 1 + length sg + 1 + length pk) [pk, sg, [x]]"
    using run_program_push [OF at(1)] run_program_push [OF at(2)] run_program_push [OF at(3)] assms by simp
  moreover have "length ?p = 0 + 1 + length [x] + 1 + length sg + 1 + length pk" by (simp add: build_script_sig_def)
  ultimately have "run_program S sighash ?p 0 [] = Some [pk, sg, [x]]" by simp
  from evaluate_run_p2pkh [OF this assms(3)] evaluate_run_p2pkh [OF run_script_sig [OF assms(1,2)] assms(3)] show ?thesis by simp
qed

lemma extra_stack_items_accepted_witness:
  "evaluate toy_secp ([1, 9] @ build_script_sig (sighash_to_message_hash [] @ replicate 32 7) (2 # replicate 32 7))
     (build_p2pkh_script_pubkey (hash160 (2 # replicate 32 7))) []"
proof -
  have sg: "length (sighash_to_message_hash [] @ replicate 32 7) = 64" by (simp add: sighash_to_message_hash_def)
  have address: "length (hash160 (2 # replicate 32 7)) = ADDRESS_SIZE" by (simp add: hash160_def ADDRESS_SIZE_def)
  show ?thesis
    using extra_stack_items_accepted [OF sg _ address, of "2 # replicate 32 7" toy_secp 9 "[]"]
      evaluate_run_p2pkh [OF run_script_sig [OF sg, of "2 # replicate 32 7"] address]
    by (simp add: toy_signature [OF sg])
qed

lemma push_swallows_p2pkh:
  assumes "length a = ADDRESS_SIZE"
  shows "evaluate S [0x19] (build_p2pkh_script_pubkey a) sighash"
proof -
  let ?p = "[0x19] @ build_p2pkh_script_pubkey a"
  have len: "length (build_p2pkh_script_pubkey a) = 25"
    using assms by (simp add: build_p2pkh_eq ADDRESS_SIZE_def)
  have "bytes_at ?p 0 (0x19 # build_p2pkh_script_pubkey a)" by simp
  from run_program_push [OF this] have
    "run_program S sighash ?p 0 [] = Some [build_p2pkh_script_pubkey a]" by (simp add: len)
  moreover have "last (build_p2pkh_script_pubkey a) = 0xac"
    by (simp add: build_p2pkh_eq op_defs)
  ultimately show ?thesis using len by (auto simp: evaluate_def)
qed

text \<open>The two scripts are run as one program, so a push in \<open>scriptSig\<close> may swallow the locking script.
  The one-byte script \<open>0x19\<close> pushes the 25 bytes of any P2PKH script as data, and the last byte of that
  data is not zero: it spends every P2PKH output, with no key and no signature, whatever the
  transaction.\<close>

theorem p2pkh_spent_without_key:
  assumes "length a = ADDRESS_SIZE"
  shows "evaluate S [0x19] (build_p2pkh_script_pubkey a) sighash"
  using assms by (rule push_swallows_p2pkh)

lemma p2pkh_spent_without_key_witness:
  "length (replicate 20 7 :: bytes) = ADDRESS_SIZE \<and>
     evaluate toy_secp [0x19] (build_p2pkh_script_pubkey (replicate 20 7)) (replicate 32 0)"
  using p2pkh_spent_without_key [of "replicate 20 7" toy_secp "replicate 32 0"] by (simp add: ADDRESS_SIZE_def)

end
