(* ===== verification/Base58.thy ===== *)
theory Base58
  imports Script
begin

text \<open>
  \<open>include/wallet/base58.h\<close>: base 58 text and Base58Check addresses. Both directions change the
  radix of a number digit by digit in a buffer of fixed size, which the source sizes with the
  fractions 138/100 and 733/1000. The inner loop walks the buffer from its last element; here it
  walks the reversed buffer. A carry left when the buffer is full is dropped, as in the source.
\<close>

definition BASE58_ALPHABET :: string where
  "BASE58_ALPHABET = ''123456789ABCDEFGHJKLMNPQRSTUVWXYZabcdefghijkmnopqrstuvwxyz''"

definition ADDRESS_VERSION_BYTE :: byte where
  "ADDRESS_VERSION_BYTE = 0x1E"

text \<open>The inner loop, with \<open>(mult, radix)\<close> as \<open>(256, 58)\<close> in \<open>base58_encode\<close> and \<open>(58, 256)\<close> in
  \<open>base58_decode\<close>. It returns the buffer and the final \<open>j\<close>.\<close>

fun carry_loop :: "nat \<Rightarrow> nat \<Rightarrow> nat \<Rightarrow> nat \<Rightarrow> nat \<Rightarrow> bytes \<Rightarrow> bytes \<times> nat" where
  "carry_loop mult radix len carry j [] = ([], j)"
| "carry_loop mult radix len carry j (d # ds) =
     (if carry \<noteq> 0 \<or> j < len then
        (let carry = carry + mult * unat d;
             d = word_of_nat (carry mod radix);
             (ds', j') = carry_loop mult radix len (carry div radix) (j + 1) ds
         in (d # ds', j'))
      else (d # ds, j))"

definition push_digit :: "nat \<Rightarrow> nat \<Rightarrow> bytes \<times> nat \<Rightarrow> nat \<Rightarrow> bytes \<times> nat" where
  "push_digit mult radix = (\<lambda>(digits, len) carry.
     (let (rdigits, j) = carry_loop mult radix len carry 0 (rev digits) in (rev rdigits, j)))"

text \<open>The significant digits: from \<open>size - length\<close> on, past leading zeros.\<close>

definition significant :: "bytes \<times> nat \<Rightarrow> bytes" where
  "significant = (\<lambda>(digits, len). dropWhile (\<lambda>d. d = 0) (drop (length digits - len) digits))"

definition base58_encode :: "bytes \<Rightarrow> string" where
  "base58_encode input =
     (let leading_zeros = length (takeWhile (\<lambda>b. b = 0) input);
          digits = replicate ((length input - leading_zeros) * 138 div 100 + 1) 0;
          state = foldl (push_digit 256 58) (digits, 0) (map unat (drop leading_zeros input))
      in replicate leading_zeros (CHR ''1'') @ map (\<lambda>d. BASE58_ALPHABET ! unat d) (significant state))"

text \<open>\<open>strchr(BASE58_ALPHABET, c) - BASE58_ALPHABET\<close>; a null pointer and the terminator are \<open>None\<close>.\<close>

fun index_of :: "char \<Rightarrow> string \<Rightarrow> nat option" where
  "index_of c [] = None"
| "index_of c (x # xs) = (if x = c then Some 0 else map_option Suc (index_of c xs))"

fun decode_loop :: "bytes \<times> nat \<Rightarrow> string \<Rightarrow> (bytes \<times> nat) result" where
  "decode_loop state [] = Inr state"
| "decode_loop state (c # cs) =
     (case index_of c BASE58_ALPHABET of
        None \<Rightarrow> Inl (Invalid_argument ''base58_decode: invalid character in input'')
      | Some carry \<Rightarrow> decode_loop (push_digit 58 256 state carry) cs)"

definition base58_decode :: "string \<Rightarrow> bytes result" where
  "base58_decode str =
     (let leading_ones = length (takeWhile (\<lambda>c. c = CHR ''1'') str);
          digits = replicate ((length str - leading_ones) * 733 div 1000 + 1) 0
      in rbind (decode_loop (digits, 0) (drop leading_ones str)) (\<lambda>state.
         Inr (replicate leading_ones 0 @ significant state)))"

definition encode_address :: "bytes \<Rightarrow> string" where
  "encode_address address =
     (let payload = [] @ [ADDRESS_VERSION_BYTE];
          payload = payload @ address;
          checksum = hash_double_sha256 payload;
          payload = payload @ take 4 checksum
      in base58_encode payload)"

definition decode_address :: "string \<Rightarrow> bytes result" where
  "decode_address txt =
     rbind (base58_decode txt) (\<lambda>decoded.
     if length decoded \<noteq> 1 + ADDRESS_SIZE + 4
     then Inl (Invalid_argument ''decode_address: wrong length for a Siliqua address'')
     else if decoded ! 0 \<noteq> ADDRESS_VERSION_BYTE
     then Inl (Invalid_argument ''decode_address: not a Siliqua address (wrong version byte)'')
     else
       (let payload = take (length decoded - 4) decoded;
            checksum = hash_double_sha256 payload
        in if drop (length decoded - 4) decoded \<noteq> take 4 checksum
           then Inl (Invalid_argument ''decode_address: checksum mismatch (typo?)'')
           else Inr (slice decoded 1 ADDRESS_SIZE)))"

section \<open>Numbers and their digits\<close>

fun le_value :: "nat \<Rightarrow> nat list \<Rightarrow> nat" where
  "le_value b [] = 0"
| "le_value b (d # ds) = d + b * le_value b ds"

definition be_value :: "nat \<Rightarrow> nat list \<Rightarrow> nat" where
  "be_value b ds = le_value b (rev ds)"

lemma le_value_append: "le_value b (xs @ ys) = le_value b xs + b ^ length xs * le_value b ys"
  by (induction xs) (simp_all add: algebra_simps)

lemma be_value_snoc: "be_value b (ds @ [d]) = d + b * be_value b ds"
  by (simp add: be_value_def)

lemma le_value_less: "list_all (\<lambda>d. d < b) ds \<Longrightarrow> le_value b ds < b ^ length ds"
proof (induction ds)
  case (Cons d ds)
  then have "d + b * le_value b ds < b + b * le_value b ds" by simp
  also have "\<dots> = b * (1 + le_value b ds)" by simp
  also have "\<dots> \<le> b * b ^ length ds" using Cons by (intro mult_left_mono) auto
  finally show ?case by simp
qed simp

lemma le_value_zeros [simp]: "list_all (\<lambda>d. d = 0) ds \<Longrightarrow> le_value b ds = 0"
  by (induction ds) simp_all

lemma le_value_eq_0: "0 < b \<Longrightarrow> le_value b ds = 0 \<Longrightarrow> list_all (\<lambda>d. d = 0) ds"
  by (induction ds) simp_all

text \<open>Digit lists without leading zeros are determined by their value.\<close>

definition minimal :: "nat \<Rightarrow> nat list \<Rightarrow> bool" where
  "minimal b ds \<longleftrightarrow> list_all (\<lambda>d. d < b) ds \<and> (ds \<noteq> [] \<longrightarrow> hd ds \<noteq> 0)"

lemma le_value_unique:
  "list_all (\<lambda>d. d < b) xs \<Longrightarrow> list_all (\<lambda>d. d < b) ys \<Longrightarrow> (xs \<noteq> [] \<longrightarrow> last xs \<noteq> 0) \<Longrightarrow>
   (ys \<noteq> [] \<longrightarrow> last ys \<noteq> 0) \<Longrightarrow> le_value b xs = le_value b ys \<Longrightarrow> xs = ys"
proof (induction xs arbitrary: ys)
  case Nil
  have "ys = []"
  proof (rule ccontr)
    assume ne: "ys \<noteq> []"
    with Nil have "0 < b" by (cases ys) auto
    with Nil have "list_all (\<lambda>d. d = 0) ys" by (intro le_value_eq_0) simp_all
    with ne have "last ys = 0" by (simp add: list_all_iff)
    with ne Nil show False by simp
  qed
  then show ?case by simp
next
  case (Cons x xs)
  have b: "0 < b" using Cons.prems(1) by auto
  show ?case
  proof (cases ys)
    case Nil
    with Cons.prems(5) have "le_value b (x # xs) = 0" by simp
    from le_value_eq_0 [OF b this] have "\<forall>d \<in> set (x # xs). d = 0" by (simp add: list_all_iff)
    moreover have "last (x # xs) \<in> set (x # xs)" by (rule last_in_set) simp
    ultimately have "last (x # xs) = 0" by blast
    with Cons.prems(3) show ?thesis by simp
  next
    case ys: (Cons y ys')
    from Cons.prems(1,2,5) have eq: "x + b * le_value b xs = y + b * le_value b ys'" and xy: "x < b" "y < b"
      by (simp_all add: ys)
    from arg_cong [OF eq, of "\<lambda>n. n mod b"] xy have "x = y" by simp
    moreover from this eq b have "le_value b xs = le_value b ys'" by simp
    with Cons.prems(1-4) have "xs = ys'" by (intro Cons.IH) (auto simp: ys split: if_splits)
    ultimately show ?thesis by (simp add: ys)
  qed
qed

lemma minimal_unique: "minimal b xs \<Longrightarrow> minimal b ys \<Longrightarrow> be_value b xs = be_value b ys \<Longrightarrow> xs = ys"
  using le_value_unique [of b "rev xs" "rev ys"]
  by (auto simp: minimal_def be_value_def last_rev list_all_iff)

section \<open>Radix conversion\<close>

text \<open>The inner loop adds a digit: with room for the result no carry is lost, and what lies past the
  returned length stays zero.\<close>

lemma carry_loop_correct:
  assumes "0 < radix" and "radix \<le> 256"
  shows "carry_loop mult radix len carry j ds = (ds', j') \<Longrightarrow>
    (\<forall>i < length ds. len \<le> j + i \<longrightarrow> ds ! i = 0) \<Longrightarrow>
    list_all (\<lambda>d. unat d < radix) ds \<Longrightarrow>
    carry + mult * le_value radix (map unat ds) < radix ^ length ds \<Longrightarrow>
    length ds' = length ds \<and> list_all (\<lambda>d. unat d < radix) ds' \<and>
    le_value radix (map unat ds') = carry + mult * le_value radix (map unat ds) \<and>
    j \<le> j' \<and> (\<forall>i < length ds. j' \<le> j + i \<longrightarrow> ds' ! i = 0)"
proof (induction ds arbitrary: carry j ds')
  case Nil
  then show ?case by simp
next
  case (Cons d ds)
  show ?case
  proof (cases "carry \<noteq> 0 \<or> j < len")
    case False
    with Cons.prems have z: "\<forall>i < length (d # ds). (d # ds) ! i = 0" by auto
    then have "list_all (\<lambda>x. x = 0) (map unat (d # ds))" by (auto simp: list_all_length nth_Cons')
    then have "le_value radix (map unat (d # ds)) = 0" by (rule le_value_zeros)
    with False Cons.prems z show ?thesis by auto
  next
    case True
    define c where "c = carry + mult * unat d"
    obtain es where es: "carry_loop mult radix len (c div radix) (j + 1) ds = (es, j')"
      "ds' = word_of_nat (c mod radix) # es"
      using Cons.prems(1) True by (auto simp: c_def Let_def split: prod.splits)
    let ?L = "le_value radix (map unat ds)"
    have total: "carry + mult * le_value radix (map unat (d # ds)) = c + radix * (mult * ?L)"
      by (simp add: c_def algebra_simps)
    with Cons.prems(4) have "c + radix * (mult * ?L) < radix * radix ^ length ds" by simp
    then have "(c + radix * (mult * ?L)) div radix < radix ^ length ds"
      by (simp add: less_mult_imp_div_less mult.commute)
    then have room: "c div radix + mult * ?L < radix ^ length ds" using assms(1) by simp
    have dig: "unat (word_of_nat (c mod radix) :: byte) = c mod radix" "c mod radix < radix"
      using assms by (simp_all add: unat_of_nat order.strict_trans2 [of "c mod radix" radix 256])
    have zeros: "\<forall>i < length ds. len \<le> j + 1 + i \<longrightarrow> ds ! i = 0"
      using Cons.prems(2) by (metis Suc_less_eq add.assoc add_Suc_right length_Cons nth_Cons_Suc plus_1_eq_Suc)
    from Cons.IH [OF es(1) zeros _ room] Cons.prems(3) have IH: "length es = length ds"
      "list_all (\<lambda>d. unat d < radix) es"
      "le_value radix (map unat es) = c div radix + mult * ?L" "j + 1 \<le> j'"
      "\<forall>i < length ds. j' \<le> j + 1 + i \<longrightarrow> es ! i = 0" by auto
    have "le_value radix (map unat ds') = c mod radix + radix * (c div radix + mult * ?L)"
      by (simp add: es(2) dig IH(3))
    also have "\<dots> = c + radix * (mult * ?L)"
      using mod_mult_div_eq [of c radix] by (simp add: algebra_simps)
    finally have "le_value radix (map unat ds') = carry + mult * le_value radix (map unat (d # ds))"
      by (simp only: total)
    moreover have "\<forall>i < length (d # ds). j' \<le> j + i \<longrightarrow> ds' ! i = 0"
      using IH(4,5) by (auto simp: es(2) nth_Cons' less_Suc_eq_0_disj)
    ultimately show ?thesis using IH dig by (simp add: es(2))
  qed
qed

text \<open>The state of a conversion that has read digits of value \<open>v\<close>.\<close>

definition holds_value :: "nat \<Rightarrow> nat \<Rightarrow> nat \<Rightarrow> bytes \<times> nat \<Rightarrow> bool" where
  "holds_value radix N v = (\<lambda>(buf, len). length buf = N \<and> list_all (\<lambda>d. unat d < radix) buf
     \<and> be_value radix (map unat buf) = v \<and> (\<forall>i < N. len \<le> i \<longrightarrow> rev buf ! i = 0))"

lemma push_digit_holds:
  assumes "0 < radix" "radix \<le> 256" "holds_value radix N v state" "carry + mult * v < radix ^ N"
  shows "holds_value radix N (carry + mult * v) (push_digit mult radix state carry)"
proof -
  obtain buf len where st: "state = (buf, len)" by (cases state)
  obtain ds' j where loop: "carry_loop mult radix len carry 0 (rev buf) = (ds', j)" by fastforce
  note inv = assms(3) [unfolded st holds_value_def case_prod_conv be_value_def rev_map]
  have "length ds' = length (rev buf) \<and> list_all (\<lambda>d. unat d < radix) ds' \<and>
    le_value radix (map unat ds') = carry + mult * le_value radix (map unat (rev buf)) \<and>
    0 \<le> j \<and> (\<forall>i < length (rev buf). j \<le> 0 + i \<longrightarrow> ds' ! i = 0)"
    by (rule carry_loop_correct [OF assms(1,2) loop]) (use inv assms(4) in \<open>auto simp: list_all_iff\<close>)
  then show ?thesis
    using inv by (auto simp: st push_digit_def loop holds_value_def be_value_def rev_map list_all_iff)
qed

lemma foldl_push_digit_holds:
  assumes "0 < radix" "radix \<le> 256" "list_all (\<lambda>d. d < mult) ns" "mult ^ length ns \<le> radix ^ N"
  shows "holds_value radix N (be_value mult ns) (foldl (push_digit mult radix) (replicate N 0, 0) ns)"
  using assms(3,4)
proof (induction ns rule: rev_induct)
  case Nil
  have "le_value radix (replicate N 0) = 0" by (rule le_value_zeros) (simp add: list_all_iff)
  then show ?case using assms(1) by (auto simp: holds_value_def be_value_def list_all_iff rev_map)
next
  case (snoc d ns)
  have "be_value mult (ns @ [d]) < mult ^ length (ns @ [d])"
    using le_value_less [of mult "rev (ns @ [d])"] snoc.prems(1) by (simp add: be_value_def list_all_iff)
  then have room: "d + mult * be_value mult ns < radix ^ N"
    using snoc.prems(2) by (simp add: be_value_snoc)
  have "mult ^ length ns \<le> mult ^ length (ns @ [d])"
    using snoc.prems(1) by (cases "mult = 0") auto
  with snoc have "holds_value radix N (be_value mult ns) (foldl (push_digit mult radix) (replicate N 0, 0) ns)"
    by simp
  from push_digit_holds [OF assms(1,2) this room] show ?case by (simp add: be_value_snoc)
qed

lemma dropWhile_zero_value: "be_value b (map unat (dropWhile (\<lambda>d. d = 0) ds)) = be_value b (map unat (ds :: bytes))"
  by (induction ds) (auto simp: be_value_def le_value_append)

lemma significant_holds:
  assumes "holds_value radix N v state"
  shows "minimal radix (map unat (significant state)) \<and> be_value radix (map unat (significant state)) = v"
proof -
  obtain buf len where st: "state = (buf, len)" by (cases state)
  note inv = assms [unfolded st holds_value_def case_prod_conv]
  have "buf ! i = 0" if "i < N - len" for i
  proof -
    from that inv have "rev buf ! (N - Suc i) = 0" by auto
    with that inv show ?thesis by (simp add: rev_nth)
  qed
  then have "take (N - len) buf = replicate (N - len) 0"
    using inv by (intro nth_equalityI) auto
  then have "buf = replicate (N - len) 0 @ drop (N - len) buf" by (metis append_take_drop_id)
  then have "dropWhile (\<lambda>d. d = 0) buf = dropWhile (\<lambda>d. d = 0) (drop (N - len) buf)"
    by (metis (mono_tags, lifting) dropWhile_append2 in_set_replicate)
  then have sig: "significant state = dropWhile (\<lambda>d. d = 0) buf"
    using inv by (simp add: significant_def st)
  have "list_all (\<lambda>d. d < radix) (map unat (significant state))"
    unfolding sig using inv by (auto simp: list_all_iff dest: set_dropWhileD)
  moreover have "hd (map unat (significant state)) \<noteq> 0" if "significant state \<noteq> []"
    using that hd_dropWhile [of "\<lambda>d. d = 0" buf] by (simp add: sig hd_map unat_eq_0)
  ultimately show ?thesis using inv by (simp add: minimal_def sig dropWhile_zero_value)
qed

lemma radix_conversion:
  assumes "0 < radix" "radix \<le> 256" "list_all (\<lambda>d. d < mult) ns" "mult ^ length ns \<le> radix ^ N"
  shows "minimal radix (map unat (significant (foldl (push_digit mult radix) (replicate N 0, 0) ns)))
    \<and> be_value radix (map unat (significant (foldl (push_digit mult radix) (replicate N 0, 0) ns))) = be_value mult ns"
  by (rule significant_holds [OF foldl_push_digit_holds [OF assms]])

text \<open>The buffers are large enough.\<close>

lemma power_room:
  fixes a b :: nat
  assumes "1 < b" and "a ^ q \<le> b ^ p" and "0 < q" and "k * p \<le> M * q"
  shows "a ^ k \<le> b ^ M"
proof -
  have "(a ^ k) ^ q = (a ^ q) ^ k" by (simp flip: power_mult add: mult.commute)
  also have "\<dots> \<le> (b ^ p) ^ k" using assms(2) by (rule power_mono) simp
  also have "\<dots> = b ^ (k * p)" by (simp flip: power_mult add: mult.commute)
  also have "\<dots> \<le> b ^ (M * q)" using assms(1,4) by (intro power_increasing) simp_all
  also have "\<dots> = (b ^ M) ^ q" by (rule power_mult)
  finally show ?thesis using assms(3) by (simp add: power_mono_iff)
qed

lemma encode_room: "(256 :: nat) ^ k \<le> 58 ^ (k * 138 div 100 + 1)"
  by (rule power_room [of _ _ 100 138]) auto

lemma decode_room: "(58 :: nat) ^ k \<le> 256 ^ (k * 733 div 1000 + 1)"
  by (rule power_room [of _ _ 71 52]) auto

section \<open>The alphabet\<close>

lemma alphabet_length: "length BASE58_ALPHABET = 58"
  by (simp add: BASE58_ALPHABET_def)

lemma index_of_alphabet: "d < 58 \<Longrightarrow> index_of (BASE58_ALPHABET ! d) BASE58_ALPHABET = Some d"
proof -
  have "list_all (\<lambda>d. index_of (BASE58_ALPHABET ! d) BASE58_ALPHABET = Some d) [0..<58]"
    by (simp add: BASE58_ALPHABET_def upt_rec)
  moreover assume "d < 58"
  ultimately show ?thesis by (simp add: list_all_iff)
qed

lemma index_of_Some: "index_of c xs = Some i \<Longrightarrow> i < length xs \<and> xs ! i = c"
  by (induction xs arbitrary: i) (auto split: if_splits)

lemma index_of_one: "index_of c BASE58_ALPHABET = Some d \<Longrightarrow> c = CHR ''1'' \<longleftrightarrow> d = 0"
  by (auto simp: BASE58_ALPHABET_def dest: index_of_Some split: if_splits)

lemma alphabet_one: "d < 58 \<Longrightarrow> BASE58_ALPHABET ! d = CHR ''1'' \<longleftrightarrow> d = 0"
  using index_of_one [OF index_of_alphabet] by blast

lemma decode_loop_alphabet:
  "list_all (\<lambda>d. d < 58) ds \<Longrightarrow>
     decode_loop state (map (\<lambda>d. BASE58_ALPHABET ! d) ds) = Inr (foldl (push_digit 58 256) state ds)"
  by (induction ds arbitrary: state) (simp_all add: index_of_alphabet)

lemma decode_loop_sound:
  "decode_loop state cs = Inr state' \<Longrightarrow>
     \<exists>ds. list_all (\<lambda>d. d < 58) ds \<and> cs = map (\<lambda>d. BASE58_ALPHABET ! d) ds
        \<and> state' = foldl (push_digit 58 256) state ds"
proof (induction cs arbitrary: state)
  case (Cons c cs)
  from Cons.prems obtain d where d: "index_of c BASE58_ALPHABET = Some d"
    "decode_loop (push_digit 58 256 state d) cs = Inr state'"
    by (auto split: option.splits)
  from Cons.IH [OF d(2)] obtain ds where "list_all (\<lambda>d. d < 58) ds" "cs = map (\<lambda>d. BASE58_ALPHABET ! d) ds"
    "state' = foldl (push_digit 58 256) (push_digit 58 256 state d) ds" by blast
  with index_of_Some [OF d(1)] show ?case
    by (intro exI [of _ "d # ds"]) (simp add: alphabet_length)
qed simp

lemma leading_split:
  "xs = replicate (length (takeWhile (\<lambda>x. x = c) xs)) c @ dropWhile (\<lambda>x. x = c) xs"
proof -
  have "takeWhile (\<lambda>x. x = c) xs = replicate (length (takeWhile (\<lambda>x. x = c) xs)) c"
    by (induction xs) auto
  then show ?thesis by (metis takeWhile_dropWhile_id)
qed

lemma takeWhile_leading:
  "(ys \<noteq> [] \<longrightarrow> hd ys \<noteq> c) \<Longrightarrow> takeWhile (\<lambda>x. x = c) (replicate k c @ ys) = replicate k c"
  by (cases ys) (auto simp: takeWhile_append)

lemma map_unat_inject: "map unat xs = map unat ys \<Longrightarrow> xs = (ys :: bytes)"
  by (rule map_injective) (auto intro: injI simp: word_unat_eq_iff)

section \<open>Round trips\<close>

definition encode_digits :: "bytes \<Rightarrow> bytes" where
  "encode_digits rest =
     significant (foldl (push_digit 256 58) (replicate (length rest * 138 div 100 + 1) 0, 0) (map unat rest))"

definition decode_digits :: "nat list \<Rightarrow> bytes" where
  "decode_digits ds =
     significant (foldl (push_digit 58 256) (replicate (length ds * 733 div 1000 + 1) 0, 0) ds)"

lemma encode_digits_correct:
  "minimal 58 (map unat (encode_digits rest)) \<and> be_value 58 (map unat (encode_digits rest)) = be_value 256 (map unat rest)"
  unfolding encode_digits_def
  by (rule radix_conversion) (use encode_room [of "length rest"] in \<open>simp_all add: list_all_iff\<close>)

lemma decode_digits_correct:
  assumes "list_all (\<lambda>d. d < 58) ds"
  shows "minimal 256 (map unat (decode_digits ds)) \<and> be_value 256 (map unat (decode_digits ds)) = be_value 58 ds"
  unfolding decode_digits_def
  by (rule radix_conversion) (use decode_room [of "length ds"] assms in simp_all)

lemma minimal_bytes: "(rest \<noteq> [] \<longrightarrow> hd rest \<noteq> (0 :: byte)) \<Longrightarrow> minimal 256 (map unat rest)"
  by (cases rest) (auto simp: minimal_def list_all_iff unat_eq_0)

lemma base58_encode_split:
  assumes "rest \<noteq> [] \<longrightarrow> hd rest \<noteq> 0"
  shows "base58_encode (replicate k 0 @ rest)
    = replicate k (CHR ''1'') @ map (\<lambda>d. BASE58_ALPHABET ! d) (map unat (encode_digits rest))"
  using takeWhile_leading [OF assms, of k]
  by (simp add: base58_encode_def Let_def encode_digits_def)

lemma base58_decode_split:
  assumes "cs \<noteq> [] \<longrightarrow> hd cs \<noteq> CHR ''1''"
  shows "base58_decode (replicate k (CHR ''1'') @ cs) =
    rbind (decode_loop (replicate (length cs * 733 div 1000 + 1) 0, 0) cs) (\<lambda>state.
      Inr (replicate k 0 @ significant state))"
  using takeWhile_leading [OF assms, of k]
  by (simp add: base58_decode_def Let_def)

lemma hd_alphabet:
  assumes "minimal 58 ds"
  shows "map (\<lambda>d. BASE58_ALPHABET ! d) ds \<noteq> [] \<longrightarrow> hd (map (\<lambda>d. BASE58_ALPHABET ! d) ds) \<noteq> CHR ''1''"
  using assms by (cases ds) (auto simp: minimal_def alphabet_one)

lemma base58_inverse: "base58_decode (base58_encode input) = Inr input"
proof -
  define k where "k = length (takeWhile (\<lambda>b. b = 0) input)"
  define rest where "rest = dropWhile (\<lambda>b. b = 0) input"
  have input: "input = replicate k 0 @ rest" unfolding k_def rest_def by (rule leading_split)
  have rest: "rest \<noteq> [] \<longrightarrow> hd rest \<noteq> 0" using hd_dropWhile [of "\<lambda>b. b = 0" input] by (simp add: rest_def)
  define ds where "ds = map unat (encode_digits rest)"
  have ds: "minimal 58 ds" "be_value 58 ds = be_value 256 (map unat rest)"
    using encode_digits_correct by (simp_all add: ds_def)
  then have lt: "list_all (\<lambda>d. d < 58) ds" by (simp add: minimal_def)
  have "map unat (decode_digits ds) = map unat rest"
    using decode_digits_correct [OF lt] minimal_bytes [OF rest] ds(2) by (intro minimal_unique) auto
  then have "decode_digits ds = rest" by (rule map_unat_inject)
  with base58_decode_split [OF hd_alphabet [OF ds(1)], of k] decode_loop_alphabet [OF lt] show ?thesis
    unfolding input base58_encode_split [OF rest] ds_def [symmetric]
    by (simp add: decode_digits_def)
qed

text \<open>Decoding the base 58 text of any byte string, leading zeros and all, gives that string back;
  the fixed-size digit buffers never drop a carry.\<close>

theorem base58_decode_encode: "base58_decode (base58_encode input) = Inr input"
  by (rule base58_inverse)

text \<open>Base 58 text is canonical: what decodes is exactly the text the bytes encode to.\<close>

theorem base58_encode_decode:
  assumes "base58_decode str = Inr bs"
  shows "base58_encode bs = str"
proof -
  define k where "k = length (takeWhile (\<lambda>c. c = CHR ''1'') str)"
  define cs where "cs = dropWhile (\<lambda>c. c = CHR ''1'') str"
  have str: "str = replicate k (CHR ''1'') @ cs" unfolding k_def cs_def by (rule leading_split)
  have hd: "cs \<noteq> [] \<longrightarrow> hd cs \<noteq> CHR ''1''" using hd_dropWhile [of "\<lambda>c. c = CHR ''1''" str] by (simp add: cs_def)
  from assms [unfolded str base58_decode_split [OF hd]] obtain state where
    st: "decode_loop (replicate (length cs * 733 div 1000 + 1) 0, 0) cs = Inr state"
    and bs: "bs = replicate k 0 @ significant state" by (auto elim: rbindE)
  from decode_loop_sound [OF st] obtain ds where ds: "list_all (\<lambda>d. d < 58) ds"
    "cs = map (\<lambda>d. BASE58_ALPHABET ! d) ds"
    "state = foldl (push_digit 58 256) (replicate (length cs * 733 div 1000 + 1) 0, 0) ds" by blast
  have dec: "significant state = decode_digits ds" by (simp add: ds decode_digits_def)
  have "hd ds \<noteq> 0" if "ds \<noteq> []" using hd that ds(1,2) by (cases ds) (auto simp: alphabet_one)
  with ds(1) have min: "minimal 58 ds" by (simp add: minimal_def)
  have bytes: "decode_digits ds \<noteq> [] \<longrightarrow> hd (decode_digits ds) \<noteq> 0"
    using decode_digits_correct [OF ds(1)] by (auto simp: minimal_def hd_map)
  have "map unat (encode_digits (decode_digits ds)) = ds"
    using encode_digits_correct [of "decode_digits ds"] decode_digits_correct [OF ds(1)] min
    by (intro minimal_unique) auto
  then show ?thesis
    unfolding bs dec base58_encode_split [OF bytes] str by (simp add: ds(2) flip: map_map)
qed

lemma base58_encode_decode_witness:
  "base58_decode ''121'' = Inr [0, 58] \<and> base58_encode [0, 58] = ''121''"
proof -
  have "base58_decode ''121'' = Inr [0, 58]"
    by (simp add: base58_decode_def BASE58_ALPHABET_def push_digit_def significant_def Let_def)
  with base58_encode_decode [of "''121''" "[0, 58]"] show ?thesis by simp
qed

text \<open>C37: An address printed by \<open>encode_address\<close> decodes to itself.\<close>

theorem decode_encode_address:
  assumes "length address = ADDRESS_SIZE"
  shows "decode_address (encode_address address) = Inr address"
  using assms
  by (simp add: decode_address_def encode_address_def Let_def base58_inverse ADDRESS_SIZE_def slice_def)

lemma decode_encode_address_witness:
  "length (replicate 20 0 :: bytes) = ADDRESS_SIZE \<and>
     decode_address (encode_address (replicate 20 0)) = Inr (replicate 20 0)"
  using decode_encode_address [of "replicate 20 0"] by (simp add: ADDRESS_SIZE_def)

end
