(* ===== verification/Wallet.thy ===== *)
theory Wallet
  imports Base58 Transaction
begin

text \<open>
  \<open>include/wallet/wallet.h\<close>: a wallet's keys and address, \<open>CreateTransaction\<close> with its greedy coin
  selection, and the check of one input's signature. What \<open>fill_random\<close> delivered is the
  argument \<open>random\<close>; the iteration order of the UTXO map is the order of the list.
\<close>

definition DUST_THRESHOLD :: i64 where
  "DUST_THRESHOLD = 1000"

record Wallet =
  seckey_of :: bytes
  pubkey_of :: bytes
  compressed_pubkey_of :: bytes
  address_of :: bytes

text \<open>The default constructor, and \<open>FromSeckey\<close> with the private constructor it calls.
  \<open>secp256k1_ec_pubkey_serialize\<close> is called without a look at its return value: were it to fail,
  the constructor would go on to read an array nobody wrote.\<close>

definition Wallet_new :: "secp256k1 \<Rightarrow> bytes option \<Rightarrow> Wallet result" where
  "Wallet_new S random =
     (case generate_keypair S random [] of
        None \<Rightarrow> Inl (Runtime_error ''Wallet: failed to generate keypair'')
      | Some km \<Rightarrow>
          (case create_address_from_pubkey (km_compressed km) of
             None \<Rightarrow> Inl (Runtime_error ''Wallet: failed to derive address'')
           | Some (address, _) \<Rightarrow>
               Inr \<lparr>seckey_of = km_seckey km, pubkey_of = km_pubkey km,
                    compressed_pubkey_of = km_compressed km, address_of = address\<rparr>))"

definition FromSeckey :: "secp256k1 \<Rightarrow> bytes \<Rightarrow> Wallet result" where
  "FromSeckey S seckey =
     (if \<not> ec_seckey_verify S seckey then Inl (Runtime_error ''Wallet: invalid seckey'')
      else
        (case ec_pubkey_create S seckey of
           None \<Rightarrow> Inl (Runtime_error ''Wallet: failed to derive pubkey'')
         | Some pubkey \<Rightarrow>
             (case ec_pubkey_serialize S pubkey of
                None \<Rightarrow> Inl (Undefined_behaviour ''compressed_pubkey_ read before it is written'')
              | Some (compressed, _) \<Rightarrow>
                  (case create_address_from_pubkey compressed of
                     None \<Rightarrow> Inl (Runtime_error ''Wallet: failed to derive address'')
                   | Some (address, _) \<Rightarrow>
                       Inr \<lparr>seckey_of = seckey, pubkey_of = pubkey,
                            compressed_pubkey_of = compressed, address_of = address\<rparr>))))"

definition Sign :: "secp256k1 \<Rightarrow> Wallet \<Rightarrow> Transaction \<Rightarrow> bytes result" where
  "Sign S w tx =
     (let sighash = Transaction_GetHash tx in
      rbind (sign_raw S (seckey_of w) sighash) (\<lambda>signature.
      Inr (build_script_sig signature (compressed_pubkey_of w))))"

text \<open>The selection loop: outpoints taken so far and their total.\<close>

fun select_utxos :: "i64 \<Rightarrow> UtxoSet \<Rightarrow> COutPoint list \<Rightarrow> i64 \<Rightarrow> COutPoint list \<times> i64" where
  "select_utxos need [] selected selected_total = (selected, selected_total)"
| "select_utxos need ((outpoint, txout) # rest) selected selected_total =
     (let selected = selected @ [outpoint];
          selected_total = selected_total + nValue txout
      in if sint selected_total \<ge> sint need then (selected, selected_total)
         else select_utxos need rest selected selected_total)"

definition CreateTransaction ::
    "secp256k1 \<Rightarrow> Wallet \<Rightarrow> UtxoSet \<Rightarrow> bytes \<Rightarrow> i64 \<Rightarrow> i64 \<Rightarrow> Transaction result" where
  "CreateTransaction S w available_utxos recipient_address amount fee =
     (let (selected, selected_total) = select_utxos (amount + fee) available_utxos [] 0 in
      if sint selected_total < sint (amount + fee)
      then Inl (Invalid_argument ''Wallet::CreateTransaction: insufficient funds'')
      else
        (let inputs = map (\<lambda>outpoint. mk_CTxIn outpoint []) selected;
             outputs = [\<lparr>nValue = amount, scriptPubKey = build_p2pkh_script_pubkey recipient_address\<rparr>];
             change = selected_total - amount - fee;
             outputs = (if sint change \<ge> sint DUST_THRESHOLD
                        then outputs @ [\<lparr>nValue = change,
                                          scriptPubKey = build_p2pkh_script_pubkey (address_of w)\<rparr>]
                        else outputs);
             tx = mk_Transaction 1 inputs outputs 0
         in rbind (Sign S w tx) (\<lambda>script_sig.
            let tx = tx\<lparr>vin := map (\<lambda>i. i\<lparr>scriptSig := script_sig\<rparr>) (vin tx)\<rparr>
            in Inr (set_hash tx))))"

definition clear_script_sigs :: "Transaction \<Rightarrow> Transaction" where
  "clear_script_sigs tx = tx\<lparr>vin := map (\<lambda>i. i\<lparr>scriptSig := []\<rparr>) (vin tx)\<rparr>"

definition verify_transaction_signature :: "secp256k1 \<Rightarrow> Transaction \<Rightarrow> nat \<Rightarrow> bytes \<Rightarrow> bool" where
  "verify_transaction_signature S tx input_index expected_script_pub_key =
     (if input_index \<ge> length (vin tx) then False
      else
        (let sighash = Transaction_GetHash (clear_script_sigs tx)
         in evaluate S (scriptSig (vin tx ! input_index)) expected_script_pub_key sighash))"

section \<open>Wallets\<close>

text \<open>What both constructors establish.\<close>

definition wallet_ok :: "secp256k1 \<Rightarrow> Wallet \<Rightarrow> bool" where
  "wallet_ok S w \<longleftrightarrow> ec_seckey_verify S (seckey_of w)
     \<and> ec_pubkey_create S (seckey_of w) = Some (pubkey_of w)
     \<and> (\<exists>len. ec_pubkey_serialize S (pubkey_of w) = Some (compressed_pubkey_of w, len))
     \<and> address_of w = hash160 (compressed_pubkey_of w)"

lemma FromSeckey_ok: "FromSeckey S sk = Inr w \<Longrightarrow> wallet_ok S w \<and> seckey_of w = sk"
  by (auto simp: FromSeckey_def wallet_ok_def create_address_total hash160_def
      split: if_splits option.splits)

lemma Wallet_new_ok: "Wallet_new S random = Inr w \<Longrightarrow> wallet_ok S w"
  by (auto simp: Wallet_new_def generate_keypair_def wallet_ok_def create_address_total hash160_def
      split: if_splits option.splits)

lemma wallet_address_length: "wallet_ok S w \<Longrightarrow> length (address_of w) = ADDRESS_SIZE"
  by (simp add: wallet_ok_def hash160_def ADDRESS_SIZE_def)

text \<open>A wallet rebuilt from the saved secret key of a generated wallet is that wallet: same keys,
  same address.\<close>

theorem wallet_restored:
  assumes "Wallet_new S random = Inr w"
  shows "FromSeckey S (seckey_of w) = Inr w"
  using assms
  by (auto simp: Wallet_new_def generate_keypair_def FromSeckey_def split: if_splits option.splits)

lemma wallet_restored_witness:
  "\<exists>w. Wallet_new toy_secp (Some (replicate 32 7)) = Inr w \<and> FromSeckey toy_secp (seckey_of w) = Inr w"
proof -
  have "\<exists>w. Wallet_new toy_secp (Some (replicate 32 7)) = Inr w"
    by (simp add: Wallet_new_def generate_keypair_def toy_secp_def create_address_total)
  then obtain w where "Wallet_new toy_secp (Some (replicate 32 7)) = Inr w" ..
  with wallet_restored [of toy_secp "Some (replicate 32 7)" w] show ?thesis by blast
qed

section \<open>Coin selection\<close>

definition total_value :: "UtxoSet \<Rightarrow> int" where
  "total_value utxos = sum_list (map (\<lambda>(p, t). sint (nValue t)) utxos)"

definition total_out :: "Transaction \<Rightarrow> int" where
  "total_out tx = sum_list (map (\<lambda>t. sint (nValue t)) (vout tx))"

text \<open>Amounts as the network means them: none negative, and their sum fits an \<open>int64_t\<close>.\<close>

definition sane_utxos :: "UtxoSet \<Rightarrow> bool" where
  "sane_utxos utxos \<longleftrightarrow> list_all (\<lambda>(p, t). 0 \<le> sint (nValue t)) utxos \<and> total_value utxos < 2 ^ 63"

lemma total_value_simps [simp]:
  "total_value [] = 0" "total_value ((p, t) # utxos) = sint (nValue t) + total_value utxos"
  by (simp_all add: total_value_def)

lemma total_value_nonneg: "list_all (\<lambda>(p, t). 0 \<le> sint (nValue t)) utxos \<Longrightarrow> 0 \<le> total_value utxos"
  by (induction utxos) auto

lemma select_utxos_correct:
  assumes "select_utxos need utxos selected acc = (selected', tot')"
    and "list_all (\<lambda>(p, t). 0 \<le> sint (nValue t)) utxos"
    and "0 \<le> sint acc" and "sint acc + total_value utxos < 2 ^ 63"
  shows "\<exists>k \<le> length utxos. selected' = selected @ map fst (take k utxos)
    \<and> sint tot' = sint acc + total_value (take k utxos)
    \<and> (sint need \<le> sint tot' \<or> k = length utxos)"
  using assms
proof (induction utxos arbitrary: selected acc)
  case Nil
  then show ?case by simp
next
  case (Cons pt utxos)
  obtain p t where pt: "pt = (p, t)" by (cases pt)
  have nn: "0 \<le> sint (nValue t)" "list_all (\<lambda>(p, t). 0 \<le> sint (nValue t)) utxos"
    using Cons.prems(2) by (simp_all add: pt)
  note rest = total_value_nonneg [OF nn(2)]
  have add: "sint (acc + nValue t) = sint acc + sint (nValue t)"
    using Cons.prems(3,4) nn rest by (intro sint_add_i64) (simp add: in_i64_def pt)
  show ?case
  proof (cases "sint need \<le> sint (acc + nValue t)")
    case True
    with Cons.prems(1) add show ?thesis by (intro exI [of _ 1]) (auto simp: pt)
  next
    case False
    with Cons.prems(1) have "select_utxos need utxos (selected @ [p]) (acc + nValue t) = (selected', tot')"
      by (simp add: pt)
    from Cons.IH [OF this nn(2)] Cons.prems(3,4) nn add obtain k where "k \<le> length utxos"
      "selected' = (selected @ [p]) @ map fst (take k utxos)"
      "sint tot' = sint (acc + nValue t) + total_value (take k utxos)"
      "sint need \<le> sint tot' \<or> k = length utxos"
      by (auto simp: pt)
    with add show ?thesis by (intro exI [of _ "Suc k"]) (simp add: pt)
  qed
qed

lemma total_value_take:
  "list_all (\<lambda>(p, t). 0 \<le> sint (nValue t)) utxos \<Longrightarrow> 0 \<le> total_value (take k utxos) \<and> total_value (take k utxos) \<le> total_value utxos"
proof (induction utxos arbitrary: k)
  case (Cons pt utxos)
  then show ?case by (cases k; cases pt) (auto simp: total_value_nonneg)
qed simp

lemma Sign_verifies:
  assumes "secp_documented S" and "wallet_ok S w"
  shows "\<exists>ss sg. Sign S w tx = Inr ss
    \<and> evaluate S ss (build_p2pkh_script_pubkey (address_of w)) (Transaction_GetHash tx)"
proof -
  from assms(2) obtain len where w: "ec_seckey_verify S (seckey_of w)"
    "ec_pubkey_create S (seckey_of w) = Some (pubkey_of w)"
    "ec_pubkey_serialize S (pubkey_of w) = Some (compressed_pubkey_of w, len)"
    "address_of w = hash160 (compressed_pubkey_of w)" by (auto simp: wallet_ok_def)
  from sign_raw_verifies [OF assms(1) w(1-3), of "Transaction_GetHash tx"] obtain sg where sg:
    "sign_raw S (seckey_of w) (Transaction_GetHash tx) = Inr sg" "length sg = 64"
    "length (compressed_pubkey_of w) = 33"
    "verify_raw_signature S sg (compressed_pubkey_of w) (Transaction_GetHash tx)" by blast
  have "evaluate S (build_script_sig sg (compressed_pubkey_of w))
      (build_p2pkh_script_pubkey (address_of w)) (Transaction_GetHash tx)"
    unfolding evaluate_run_p2pkh [OF run_script_sig [OF sg(2,3)] wallet_address_length [OF assms(2)]]
    using sg(4) w(4) by simp
  with sg(1) show ?thesis by (simp add: Sign_def Let_def)
qed

text \<open>What \<open>CreateTransaction\<close> makes when the selection covers the amount.\<close>

lemma CreateTransaction_Inr:
  assumes "CreateTransaction S w utxos r amount fee = Inr tx"
  obtains selected acc ss outs where
    "select_utxos (amount + fee) utxos [] 0 = (selected, acc)" "sint (amount + fee) \<le> sint acc"
    "Sign S w (mk_Transaction 1 (map (\<lambda>p. mk_CTxIn p []) selected) outs 0) = Inr ss"
    "outs = \<lparr>nValue = amount, scriptPubKey = build_p2pkh_script_pubkey r\<rparr>
       # (if sint DUST_THRESHOLD \<le> sint (acc - amount - fee)
          then [\<lparr>nValue = acc - amount - fee, scriptPubKey = build_p2pkh_script_pubkey (address_of w)\<rparr>] else [])"
    "tx = set_hash (mk_Transaction 1 (map (\<lambda>p. mk_CTxIn p ss) selected) outs 0)"
proof -
  obtain selected acc where sel: "select_utxos (amount + fee) utxos [] 0 = (selected, acc)" by fastforce
  show ?thesis
    using assms sel that
    by (auto simp: CreateTransaction_def Let_def mk_Transaction_def mk_CTxIn_def comp_def
        split: if_splits elim!: rbindE)
qed

lemma CreateTransaction_returns:
  assumes "secp_documented S" and "wallet_ok S w"
    and "select_utxos (amount + fee) utxos [] 0 = (selected, acc)" and "sint (amount + fee) \<le> sint acc"
  shows "\<exists>tx. CreateTransaction S w utxos r amount fee = Inr tx"
  using assms(3,4) Sign_verifies [OF assms(1,2)]
  unfolding CreateTransaction_def Let_def assms(3) case_prod_conv
  by (metis linorder_not_less rbind_Inr)

definition sample_wallet :: Wallet where
  "sample_wallet = \<lparr>seckey_of = replicate 32 7, pubkey_of = replicate 32 7,
     compressed_pubkey_of = 2 # replicate 32 7, address_of = hash160 (2 # replicate 32 7)\<rparr>"

definition sample_utxos :: UtxoSet where
  "sample_utxos = [(COutPoint (replicate 32 1) 0,
     \<lparr>nValue = 5000, scriptPubKey = build_p2pkh_script_pubkey (address_of sample_wallet)\<rparr>)]"

lemma sample_wallet_ok: "wallet_ok toy_secp sample_wallet"
  by (simp add: wallet_ok_def sample_wallet_def toy_secp_def)

lemma sample_utxos_sane: "sane_utxos sample_utxos" "total_value sample_utxos = 5000"
  by (simp_all add: sane_utxos_def sample_utxos_def)

lemma sample_select: "select_utxos (3000 + 500) sample_utxos [] 0 = ([COutPoint (replicate 32 1) 0], 5000)"
  by (simp add: sample_utxos_def)

lemma create_transaction_balance:
  assumes "secp_documented S" and "wallet_ok S w" and "sane_utxos utxos"
    and "0 \<le> sint amount" and "0 \<le> sint fee" and "sint amount + sint fee < 2 ^ 63"
  shows "if total_value utxos < sint amount + sint fee
    then CreateTransaction S w utxos r amount fee
      = Inl (Invalid_argument ''Wallet::CreateTransaction: insufficient funds'')
    else \<exists>tx k. CreateTransaction S w utxos r amount fee = Inr tx
      \<and> map prevout (vin tx) = map fst (take k utxos)
      \<and> hd (vout tx) = \<lparr>nValue = amount, scriptPubKey = build_p2pkh_script_pubkey r\<rparr>
      \<and> list_all (\<lambda>t. scriptPubKey t = build_p2pkh_script_pubkey (address_of w)) (tl (vout tx))
      \<and> sint fee \<le> total_value (take k utxos) - total_out tx
      \<and> total_value (take k utxos) - total_out tx < sint fee + sint DUST_THRESHOLD"
proof -
  obtain selected acc where sel: "select_utxos (amount + fee) utxos [] 0 = (selected, acc)" by fastforce
  have need: "sint (amount + fee) = sint amount + sint fee"
    using assms(4-6) by (intro sint_add_i64) (simp add: in_i64_def)
  note sane = assms(3) [unfolded sane_utxos_def]
  from select_utxos_correct [OF sel conjunct1 [OF sane]] sane obtain k where k: "k \<le> length utxos"
    "selected = map fst (take k utxos)" "sint acc = total_value (take k utxos)"
    "sint (amount + fee) \<le> sint acc \<or> k = length utxos" by auto
  note tv = total_value_take [OF conjunct1 [OF sane], of k]
  show ?thesis
  proof (cases "total_value utxos < sint amount + sint fee")
    case True
    then have "sint acc < sint (amount + fee)" using k tv by (simp add: need)
    with True sel show ?thesis by (simp add: CreateTransaction_def)
  next
    case False
    then have cov: "sint (amount + fee) \<le> sint acc" using k need by auto
    from CreateTransaction_returns [OF assms(1,2) sel this] obtain tx where
      tx: "CreateTransaction S w utxos r amount fee = Inr tx" by blast
    obtain selected' acc' ss outs where h: "select_utxos (amount + fee) utxos [] 0 = (selected', acc')"
      "sint (amount + fee) \<le> sint acc'"
      "Sign S w (mk_Transaction 1 (map (\<lambda>p. mk_CTxIn p []) selected') outs 0) = Inr ss"
      "outs = \<lparr>nValue = amount, scriptPubKey = build_p2pkh_script_pubkey r\<rparr>
        # (if sint DUST_THRESHOLD \<le> sint (acc' - amount - fee)
          then [\<lparr>nValue = acc' - amount - fee, scriptPubKey = build_p2pkh_script_pubkey (address_of w)\<rparr>] else [])"
      "tx = set_hash (mk_Transaction 1 (map (\<lambda>p. mk_CTxIn p ss) selected') outs 0)"
      by (rule CreateTransaction_Inr [OF tx])
    from h(1) sel have same: "selected' = selected" "acc' = acc" by simp_all
    note outs = h(4) [unfolded same] and txeq = h(5) [unfolded same]
    have "sint (acc - amount) = sint acc - sint amount"
      using cov need assms(4-6) k(3) tv sane by (intro sint_sub_i64) (simp add: in_i64_def)
    moreover have "sint (acc - amount - fee) = sint (acc - amount) - sint fee"
      using calculation cov need assms(4-6) k(3) tv sane by (intro sint_sub_i64) (simp add: in_i64_def)
    ultimately have change: "sint (acc - amount - fee) = sint acc - sint amount - sint fee" by simp
    have "vout tx = outs" "vin tx = map (\<lambda>p. mk_CTxIn p ss) selected" by (simp_all add: txeq)
    then show ?thesis
      using False tx cov need change k
      by (auto simp: outs total_out_def mk_CTxIn_def comp_def DUST_THRESHOLD_def)
  qed
qed

text \<open>C17: Money is accounted for. With a wallet of its own keys, amounts that are not negative and sums
  that fit an \<open>int64_t\<close>, \<open>CreateTransaction\<close> throws \<open>insufficient funds\<close> exactly when the wallet's
  UTXOs are worth less than amount plus fee. Otherwise it spends a prefix of the UTXO list, pays the
  amount to the recipient first and anything else only to the wallet itself, and what the outputs
  leave to the miner is at least the fee and less than the fee plus the dust threshold.\<close>

theorem create_transaction_accounts:
  assumes "secp_documented S" and "wallet_ok S w" and "sane_utxos utxos"
    and "0 \<le> sint amount" and "0 \<le> sint fee" and "sint amount + sint fee < 2 ^ 63"
  shows "if total_value utxos < sint amount + sint fee
    then CreateTransaction S w utxos r amount fee
      = Inl (Invalid_argument ''Wallet::CreateTransaction: insufficient funds'')
    else \<exists>tx k. CreateTransaction S w utxos r amount fee = Inr tx
      \<and> map prevout (vin tx) = map fst (take k utxos)
      \<and> hd (vout tx) = \<lparr>nValue = amount, scriptPubKey = build_p2pkh_script_pubkey r\<rparr>
      \<and> list_all (\<lambda>t. scriptPubKey t = build_p2pkh_script_pubkey (address_of w)) (tl (vout tx))
      \<and> sint fee \<le> total_value (take k utxos) - total_out tx
      \<and> total_value (take k utxos) - total_out tx < sint fee + sint DUST_THRESHOLD"
  using assms by (rule create_transaction_balance)

lemma create_transaction_accounts_witness:
  "\<exists>tx k. CreateTransaction toy_secp sample_wallet sample_utxos (replicate 20 9) 3000 500 = Inr tx
      \<and> map prevout (vin tx) = map fst (take k sample_utxos)
      \<and> 500 \<le> total_value (take k sample_utxos) - total_out tx
      \<and> total_value (take k sample_utxos) - total_out tx < 1500"
  using create_transaction_accounts [OF toy_secp_documented sample_wallet_ok sample_utxos_sane(1),
      of 3000 500 "replicate 20 9"]
  by (auto simp: sample_utxos_sane(2) DUST_THRESHOLD_def)

text \<open>Every input of a transaction \<open>CreateTransaction\<close> returns passes the network's signature check
  against an output paid to the wallet, and its cached hash is its hash.\<close>

theorem create_transaction_signed:
  assumes "secp_documented S" and "wallet_ok S w"
    and "CreateTransaction S w utxos r amount fee = Inr tx"
  shows "list_all (\<lambda>i. verify_transaction_signature S tx i (build_p2pkh_script_pubkey (address_of w)))
      [0..<length (vin tx)] \<and> tx_hash tx = Transaction_GetHash tx"
proof -
  from CreateTransaction_Inr [OF assms(3)] obtain selected ss outs where
    ss: "Sign S w (mk_Transaction 1 (map (\<lambda>p. mk_CTxIn p []) selected) outs 0) = Inr ss"
    and tx: "tx = set_hash (mk_Transaction 1 (map (\<lambda>p. mk_CTxIn p ss) selected) outs 0)" by metis
  have "clear_script_sigs tx = (mk_Transaction 1 (map (\<lambda>p. mk_CTxIn p []) selected) outs 0)\<lparr>tx_hash := tx_hash tx\<rparr>"
    by (simp add: tx clear_script_sigs_def set_hash_def mk_Transaction_def mk_CTxIn_def comp_def)
  then have "Transaction_GetHash (clear_script_sigs tx)
      = Transaction_GetHash (mk_Transaction 1 (map (\<lambda>p. mk_CTxIn p []) selected) outs 0)" by simp
  with Sign_verifies [OF assms(1,2)] ss have
    "evaluate S ss (build_p2pkh_script_pubkey (address_of w)) (Transaction_GetHash (clear_script_sigs tx))"
    by (metis Inr_inject)
  then show ?thesis
    by (simp add: list_all_iff verify_transaction_signature_def tx mk_CTxIn_def)
qed

lemma create_transaction_signed_witness:
  "\<exists>tx. CreateTransaction toy_secp sample_wallet sample_utxos (replicate 20 9) 3000 500 = Inr tx
     \<and> list_all (\<lambda>i. verify_transaction_signature toy_secp tx i
           (build_p2pkh_script_pubkey (address_of sample_wallet))) [0..<length (vin tx)]"
proof -
  from CreateTransaction_returns [OF toy_secp_documented sample_wallet_ok sample_select] obtain tx where
    tx: "CreateTransaction toy_secp sample_wallet sample_utxos (replicate 20 9) 3000 500 = Inr tx" by auto
  from create_transaction_signed [OF toy_secp_documented sample_wallet_ok tx] tx show ?thesis by blast
qed

end
