(* ===== verification/Chain.thy ===== *)
theory Chain
  imports Pow Wallet
begin

text \<open>
  The consensus part of \<open>include/network/node.h\<close>: block rewards, the UTXO set of a chain,
  transaction and chain validation, extending and reorganising a chain, building a block. The
  wall clock is an argument. A chain is a list of blocks, oldest first.
\<close>

definition RETARGET_INTERVAL :: u32 where "RETARGET_INTERVAL = 5"
definition TARGET_TIMESPAN_SECONDS :: u32 where "TARGET_TIMESPAN_SECONDS = 60"
definition INITIAL_BITS :: u32 where "INITIAL_BITS = 0x207fffff"
definition MAX_MEMPOOL_SIZE :: nat where "MAX_MEMPOOL_SIZE = 1000"
definition INITIAL_REWARD :: i64 where "INITIAL_REWARD = 5000000000"
definition HALVING_INTERVAL :: u32 where "HALVING_INTERVAL = 10"
definition DEFAULT_FEE :: i64 where "DEFAULT_FEE = 1000"

text \<open>The shifted reward is positive, so the arithmetic right shift is \<open>drop_bit\<close>.\<close>

definition calculate_block_reward :: "u32 \<Rightarrow> i64" where
  "calculate_block_reward height =
     (let halvings = height div HALVING_INTERVAL
      in if halvings \<ge> 63 then 0 else drop_bit (unat halvings) INITIAL_REWARD)"

definition build_coinbase_tx :: "bytes \<Rightarrow> u32 \<Rightarrow> i64 \<Rightarrow> Transaction" where
  "build_coinbase_tx reward_address height total_fees =
     (let coinbase_in = CTxIn_default\<lparr>scriptSig :=
            [ucast (height AND 0xFF), ucast (drop_bit 8 height AND 0xFF),
             ucast (drop_bit 16 height AND 0xFF), ucast (drop_bit 24 height AND 0xFF)]\<rparr>;
          reward = calculate_block_reward height + total_fees;
          tx = mk_Transaction 1 [coinbase_in]
                 [\<lparr>nValue = reward, scriptPubKey = build_p2pkh_script_pubkey reward_address\<rparr>] 0
      in set_hash tx)"

definition extract_headers :: "CBlock list \<Rightarrow> CBlockHeader list" where
  "extract_headers chain = map header_of chain"

section \<open>UTXO sets\<close>

text \<open>The loop \<open>for (uint32_t i = 0; i < tx.vout.size(); ++i) utxos.emplace(COutPoint(tx.tx_hash, i), tx.vout.at(i))\<close>
  and the loop \<open>for (in : tx.vin) utxos.erase(in.prevout)\<close>, which four functions share.\<close>

definition tx_outputs :: "Transaction \<Rightarrow> (COutPoint \<times> CTxOut) list" where
  "tx_outputs tx = map (\<lambda>i. (COutPoint (tx_hash tx) (word_of_nat i), vout tx ! i)) [0..<length (vout tx)]"

definition add_outputs :: "Transaction \<Rightarrow> UtxoSet \<Rightarrow> UtxoSet" where
  "add_outputs tx utxos = fold (\<lambda>(p, t). utxo_emplace p t) (tx_outputs tx) utxos"

definition erase_inputs :: "Transaction \<Rightarrow> UtxoSet \<Rightarrow> UtxoSet" where
  "erase_inputs tx utxos = fold utxo_erase (map prevout (vin tx)) utxos"

definition build_utxo_set :: "CBlock list \<Rightarrow> UtxoSet" where
  "build_utxo_set chain =
     (let utxos = fold (\<lambda>blk. fold add_outputs (vtx blk)) chain []
      in fold (\<lambda>blk. fold erase_inputs (vtx blk)) chain utxos)"

fun filter_loop :: "bytes \<Rightarrow> UtxoSet \<Rightarrow> UtxoSet \<Rightarrow> UtxoSet" where
  "filter_loop address [] owned = owned"
| "filter_loop address ((outpoint, txout) # rest) owned =
     filter_loop address rest
       (if extract_p2pkh_address (scriptPubKey txout) = Some address
        then utxo_emplace outpoint txout owned else owned)"

definition filter_utxos_by_address :: "UtxoSet \<Rightarrow> bytes \<Rightarrow> UtxoSet" where
  "filter_utxos_by_address utxos address = filter_loop address utxos []"

section \<open>Validating transactions\<close>

text \<open>The loop over the inputs from position \<open>i\<close> on: the total, or \<open>None\<close> for \<open>return -1\<close>.\<close>

fun input_loop :: "secp256k1 \<Rightarrow> Transaction \<Rightarrow> UtxoSet \<Rightarrow> nat \<Rightarrow> CTxIn list \<Rightarrow> i64 \<Rightarrow> i64 option" where
  "input_loop S tx utxo_set i [] input_total = Some input_total"
| "input_loop S tx utxo_set i (inp # ins) input_total =
     (case utxo_find utxo_set (prevout inp) of
        None \<Rightarrow> None
      | Some t \<Rightarrow>
          if \<not> verify_transaction_signature S tx i (scriptPubKey t) then None
          else input_loop S tx utxo_set (i + 1) ins (input_total + nValue t))"

definition sum_outputs :: "CTxOut list \<Rightarrow> i64" where
  "sum_outputs outs = foldl (\<lambda>total t. total + nValue t) 0 outs"

definition validate_and_get_fee :: "secp256k1 \<Rightarrow> Transaction \<Rightarrow> UtxoSet \<Rightarrow> i64" where
  "validate_and_get_fee S tx utxo_set =
     (if vin tx = [] then - 1
      else
        (case input_loop S tx utxo_set 0 (vin tx) 0 of
           None \<Rightarrow> - 1
         | Some input_total \<Rightarrow>
             (let output_total = sum_outputs (vout tx)
              in if sint output_total > sint input_total then - 1
                 else input_total - output_total)))"

section \<open>Validating chains\<close>

text \<open>The transaction loop of \<open>validate_full_chain\<close>: the UTXO set after the block and its fees.\<close>

fun full_chain_txs :: "secp256k1 \<Rightarrow> Transaction list \<Rightarrow> UtxoSet \<Rightarrow> i64 \<Rightarrow> (UtxoSet \<times> i64) option" where
  "full_chain_txs S [] utxo_set block_fees = Some (utxo_set, block_fees)"
| "full_chain_txs S (tx # txs) utxo_set block_fees =
     (if \<not> IsCoinbase tx then
        (let fee = validate_and_get_fee S tx utxo_set in
         if sint fee < 0 then None
         else full_chain_txs S txs (add_outputs tx (erase_inputs tx utxo_set)) (block_fees + fee))
      else full_chain_txs S txs (add_outputs tx utxo_set) block_fees)"

definition next_bits :: "CBlockHeader list \<Rightarrow> u32 result" where
  "next_bits headers =
     (if headers = [] then Inr INITIAL_BITS
      else get_next_work_required headers RETARGET_INTERVAL TARGET_TIMESPAN_SECONDS)"

text \<open>One turn of the block loop: the UTXO set after the block, or \<open>None\<close> for \<open>return false\<close>.\<close>

definition full_chain_block ::
    "secp256k1 \<Rightarrow> CBlockHeader list \<Rightarrow> bytes \<Rightarrow> UtxoSet \<Rightarrow> CBlock \<Rightarrow> UtxoSet option result" where
  "full_chain_block S headers_so_far expected_prev utxo_set blk =
     (if \<not> IsMerkleRootValid blk \<or> \<not> check_proof_of_work blk then Inr None
      else if hashPrevBlock blk \<noteq> expected_prev then Inr None
      else
        rbind (next_bits headers_so_far) (\<lambda>expected_bits.
        if nBits blk \<noteq> expected_bits then Inr None
        else if vtx blk = [] \<or> \<not> IsCoinbase (hd (vtx blk)) then Inr None
        else
          (case full_chain_txs S (vtx blk) utxo_set 0 of
             None \<Rightarrow> Inr None
           | Some (utxo_set, block_fees) \<Rightarrow>
               (let coinbase_paid = sum_outputs (vout (hd (vtx blk)));
                    height = word_of_nat (length headers_so_far)
                in if coinbase_paid \<noteq> calculate_block_reward height + block_fees then Inr None
                   else Inr (Some utxo_set)))))"

fun full_chain_loop ::
    "secp256k1 \<Rightarrow> CBlock list \<Rightarrow> CBlockHeader list \<Rightarrow> bytes \<Rightarrow> UtxoSet \<Rightarrow> bool result" where
  "full_chain_loop S [] headers_so_far expected_prev utxo_set = Inr True"
| "full_chain_loop S (blk # blks) headers_so_far expected_prev utxo_set =
     rbind (full_chain_block S headers_so_far expected_prev utxo_set blk) (\<lambda>r.
     case r of
       None \<Rightarrow> Inr False
     | Some utxo_set \<Rightarrow>
         full_chain_loop S blks (headers_so_far @ [header_of blk]) (GetHash blk) utxo_set)"

definition validate_full_chain :: "secp256k1 \<Rightarrow> CBlock list \<Rightarrow> bool result" where
  "validate_full_chain S chain =
     (if chain = [] then Inr False else full_chain_loop S chain [] (replicate 32 0) [])"

section \<open>Extending and switching chains\<close>

text \<open>The transaction loop of \<open>try_extend_chain\<close> and \<open>run_connector\<close>: the total fees, or \<open>None\<close>. Unlike the
  one above it never updates the UTXO set.\<close>

fun new_block_fees :: "secp256k1 \<Rightarrow> UtxoSet \<Rightarrow> Transaction list \<Rightarrow> i64 \<Rightarrow> i64 option" where
  "new_block_fees S utxo_set [] total_fees = Some total_fees"
| "new_block_fees S utxo_set (tx # txs) total_fees =
     (if IsCoinbase tx then new_block_fees S utxo_set txs total_fees
      else
        (let fee = validate_and_get_fee S tx utxo_set in
         if sint fee < 0 then None else new_block_fees S utxo_set txs (total_fees + fee)))"

definition chain_back :: "CBlock list \<Rightarrow> CBlock result" where
  "chain_back chain = (if chain = [] then Inl (Undefined_behaviour ''back() of an empty vector'') else Inr (last chain))"

text \<open>The returned flag and the chain after the call.\<close>

definition try_extend_chain :: "secp256k1 \<Rightarrow> CBlock list \<Rightarrow> CBlock \<Rightarrow> (bool \<times> CBlock list) result" where
  "try_extend_chain S chain received_block =
     rbind (chain_back chain) (\<lambda>tip.
     (let my_tip_hash = GetHash tip in
     rbind (get_next_work_required (extract_headers chain) RETARGET_INTERVAL TARGET_TIMESPAN_SECONDS) (\<lambda>expected_bits.
     (let expected_height = word_of_nat (length chain);
          utxo_set = build_utxo_set chain in
      if \<not> IsMerkleRootValid received_block \<or> \<not> check_proof_of_work received_block then Inr (False, chain)
      else if hashPrevBlock received_block \<noteq> my_tip_hash \<or> nBits received_block \<noteq> expected_bits then Inr (False, chain)
      else
        (case new_block_fees S utxo_set (vtx received_block) 0 of
           None \<Rightarrow> Inr (False, chain)
         | Some total_fees \<Rightarrow>
             if vtx received_block = [] \<or> \<not> IsCoinbase (hd (vtx received_block)) then Inr (False, chain)
             else
               (let coinbase_paid = sum_outputs (vout (hd (vtx received_block)))
                in if coinbase_paid \<noteq> calculate_block_reward expected_height + total_fees then Inr (False, chain)
                   else Inr (True, chain @ [received_block])))))))"

definition try_reorg :: "secp256k1 \<Rightarrow> CBlock list \<Rightarrow> CBlock list \<Rightarrow> (bool \<times> CBlock list) result" where
  "try_reorg S chain peer_chain =
     (let same_genesis = (peer_chain \<noteq> [] \<and> chain \<noteq> [] \<and> GetHash (hd peer_chain) = GetHash (hd chain)) in
      if \<not> same_genesis then Inr (False, chain)
      else
        rbind (validate_full_chain S peer_chain) (\<lambda>valid.
        if \<not> valid then Inr (False, chain)
        else
          (let my_work = calculate_chain_work (extract_headers chain);
               peer_work = calculate_chain_work (extract_headers peer_chain)
           in if f64_less my_work peer_work then Inr (True, peer_chain) else Inr (False, chain))))"

section \<open>Building blocks\<close>

definition build_next_block ::
    "u32 \<Rightarrow> CBlockHeader list \<Rightarrow> bytes \<Rightarrow> bytes \<Rightarrow> i64 \<Rightarrow> Transaction list \<Rightarrow> CBlock result" where
  "build_next_block now headers prev_hash reward_address total_fees extra_txs =
     (let height = word_of_nat (length headers) in
      rbind (next_bits headers) (\<lambda>bits.
      (let blk = \<lparr>nVersion = 1, hashPrevBlock = prev_hash, hashMerkleRoot = replicate 32 0,
                  nTime = now, nBits = 0, nNonce = 0,
                  vtx = build_coinbase_tx reward_address height total_fees # extra_txs\<rparr>;
           blk = blk\<lparr>hashMerkleRoot := BuildMerkleRoot blk\<rparr>
       in mine_block blk bits)))"

definition build_genesis_chain :: "u32 \<Rightarrow> bytes \<Rightarrow> CBlock list result" where
  "build_genesis_chain now reward_address =
     rbind (build_next_block now [] (replicate 32 0) reward_address 0 []) (\<lambda>blk. Inr [blk])"

text \<open>The mempool loop of \<open>run_listener\<close> and of the daemon's miner: the transactions to include and
  their fees.\<close>

fun select_mempool ::
    "secp256k1 \<Rightarrow> Transaction list \<Rightarrow> UtxoSet \<Rightarrow> Transaction list \<Rightarrow> i64 \<Rightarrow> Transaction list \<times> i64" where
  "select_mempool S [] utxo_set extra_txs total_fees = (extra_txs, total_fees)"
| "select_mempool S (tx # txs) utxo_set extra_txs total_fees =
     (let fee = validate_and_get_fee S tx utxo_set in
      if sint fee \<ge> 0 then
        select_mempool S txs (add_outputs tx (erase_inputs tx utxo_set)) (extra_txs @ [tx]) (total_fees + fee)
      else select_mempool S txs utxo_set extra_txs total_fees)"

section \<open>Rewards\<close>

lemma reward_value: "sint (calculate_block_reward height) = 5000000000 div 2 ^ (unat height div 10)"
proof -
  define k where "k = unat height div 10"
  have k: "unat (height div HALVING_INTERVAL) = k" by (simp add: HALVING_INTERVAL_def unat_div k_def)
  show ?thesis
  proof (cases "63 \<le> k")
    case True
    then have "(5000000000 :: int) < 2 ^ k"
      by (intro order.strict_trans2 [OF _ power_increasing [of 63 k]]) simp_all
    with True k show ?thesis
      by (simp add: calculate_block_reward_def Let_def word_le_nat_alt k_def)
  next
    case False
    have u: "uint (drop_bit k (5000000000 :: i64)) = 5000000000 div 2 ^ k"
      by (subst unsigned_drop_bit_eq) (simp add: drop_bit_eq_div)
    also have "\<dots> \<le> 5000000000" using zdiv_mono2 [of 5000000000 1 "2 ^ k"] by simp
    finally have "sint (drop_bit k (5000000000 :: i64)) = uint (drop_bit k (5000000000 :: i64))"
      by (intro sint_small_i64) simp
    with u have "sint (drop_bit k (5000000000 :: i64)) = 5000000000 div 2 ^ k" by simp
    with False k show ?thesis
      by (simp add: calculate_block_reward_def Let_def word_le_nat_alt INITIAL_REWARD_def flip: k_def)
  qed
qed

lemma halving_sum: "(\<Sum>k < n. a div (2 :: int) ^ k) + 2 * (a div 2 ^ n) \<le> 2 * a"
proof (induction n)
  case (Suc n)
  have "a div (2 :: int) ^ Suc n = a div 2 ^ n div 2"
    unfolding power_Suc2 by (rule zdiv_zmult2_eq) simp
  then have "2 * (a div (2 :: int) ^ Suc n) \<le> a div 2 ^ n" by simp
  with Suc show ?case by simp
qed simp

lemma sum_by_ten:
  fixes m :: nat
  shows "(\<Sum>h < 10 * m. f (h div 10)) = (\<Sum>k < m. 10 * (f k :: int))"
proof (induction m)
  case (Suc m)
  have split: "{..<10 * Suc m} = {..<10 * m} \<union> {10 * m..<10 * m + 10}" by auto
  have "(\<Sum>h < 10 * Suc m. f (h div 10)) = (\<Sum>h < 10 * m. f (h div 10)) + (\<Sum>h \<in> {10 * m..<10 * m + 10}. f (h div 10))"
    unfolding split by (rule sum.union_disjoint) auto
  also have "(\<Sum>h \<in> {10 * m..<10 * m + 10}. f (h div 10)) = (\<Sum>h \<in> {10 * m..<10 * m + 10}. f m)"
  proof (rule sum.cong)
    fix x assume "x \<in> {10 * m..<10 * m + 10}"
    then have "x div 10 = m" by auto
    then show "f (x div 10) = f m" by simp
  qed simp
  finally show ?case using Suc by simp
qed simp

lemma issuance_prefix:
  assumes "n \<le> 2 ^ 32"
  shows "(\<Sum>h < n. sint (calculate_block_reward (word_of_nat h))) \<le> 100000000000"
proof -
  let ?f = "\<lambda>k. (5000000000 :: int) div 2 ^ k"
  have "(\<Sum>h < n. sint (calculate_block_reward (word_of_nat h))) = (\<Sum>h < n. ?f (h div 10))"
    using assms by (intro sum.cong refl) (simp add: reward_value word_of_nat_inverse32)
  also have "\<dots> \<le> (\<Sum>h < 10 * n. ?f (h div 10))"
    by (rule sum_mono2) (auto simp: pos_imp_zdiv_nonneg_iff)
  also have "\<dots> = 10 * (\<Sum>k < n. ?f k)" using sum_by_ten [of ?f n] by (simp only: sum_distrib_left)
  also have "\<dots> \<le> 10 * 10000000000"
  proof -
    have "0 \<le> ?f n" by (simp add: pos_imp_zdiv_nonneg_iff)
    then show ?thesis using halving_sum [of 5000000000 n] by simp
  qed
  finally show ?thesis by simp
qed

text \<open>C38: The block subsidy is 50 coins halved (and rounded down) every ten blocks, never negative; all
  the heights a 32-bit counter can hold together issue at most 1000 coins.\<close>

theorem issuance_bound:
  "sint (calculate_block_reward height) = 5000000000 div 2 ^ (unat height div 10)
   \<and> (\<Sum>h < 2 ^ 32. sint (calculate_block_reward (word_of_nat h))) \<le> 100000000000"
  using reward_value issuance_prefix [OF order_refl] by blast

section \<open>UTXO sets\<close>

lemma utxo_find_Nil [simp]: "utxo_find [] p = None"
  by (simp add: utxo_find_def)

definition created :: "Transaction list \<Rightarrow> (COutPoint \<times> CTxOut) list" where
  "created txs = concat (map tx_outputs txs)"

definition spent :: "Transaction list \<Rightarrow> COutPoint list" where
  "spent txs = concat (map (\<lambda>tx. map prevout (vin tx)) txs)"

definition all_txs :: "CBlock list \<Rightarrow> Transaction list" where
  "all_txs chain = concat (map vtx chain)"

lemma fold_concat_map: "fold (\<lambda>x. fold f (g x)) xs s = fold f (concat (map g xs)) s"
  by (induction xs arbitrary: s) simp_all

lemma build_utxo_set_eq:
  "build_utxo_set chain = fold utxo_erase (spent (all_txs chain))
     (fold (\<lambda>(p, t). utxo_emplace p t) (created (all_txs chain)) [])"
proof -
  have add: "add_outputs = (\<lambda>tx. fold (\<lambda>(p, t). utxo_emplace p t) (tx_outputs tx))"
    by (simp add: fun_eq_iff add_outputs_def)
  have era: "erase_inputs = (\<lambda>tx. fold utxo_erase (map prevout (vin tx)))"
    by (simp add: fun_eq_iff erase_inputs_def)
  show ?thesis
    unfolding build_utxo_set_def fold_concat_map all_txs_def [symmetric] created_def spent_def Let_def
    by (simp add: add era fold_concat_map)
qed

lemma build_utxo_set_find_lemma:
  "utxo_find (build_utxo_set chain) p =
     (if p \<in> set (spent (all_txs chain)) then None else map_of (created (all_txs chain)) p)"
  by (simp add: build_utxo_set_eq utxos.find_fold_erase utxos.find_fold_emplace)

text \<open>The UTXO set the node computes of a chain holds exactly the outputs that some transaction of it
  created and none of its transactions, coinbases included, names as an input; of two outputs with the
  same outpoint the first counts.\<close>

theorem build_utxo_set_find:
  "utxo_find (build_utxo_set chain) p =
     (if p \<in> set (spent (all_txs chain)) then None else map_of (created (all_txs chain)) p)"
  by (rule build_utxo_set_find_lemma)

lemma build_utxo_set_distinct: "utxo_distinct (build_utxo_set chain)"
  unfolding build_utxo_set_eq
  by (intro utxos.invar_fold_erase utxos.invar_fold_emplace) (simp add: utxo_distinct_def)

lemma filter_loop_find:
  "utxo_find (filter_loop a utxos owned) p =
     (case utxo_find owned p of Some t \<Rightarrow> Some t
      | None \<Rightarrow> map_of (filter (\<lambda>(q, t). extract_p2pkh_address (scriptPubKey t) = Some a) utxos) p)"
  by (induction a utxos owned rule: filter_loop.induct)
    (auto simp: utxos.find_emplace split: option.splits)

lemma filter_loop_distinct: "utxo_distinct owned \<Longrightarrow> utxo_distinct (filter_loop a utxos owned)"
  by (induction a utxos owned rule: filter_loop.induct) (auto simp: utxos.invar_emplace)

lemma map_of_filter_distinct:
  "distinct (map fst xs) \<Longrightarrow>
     map_of (filter (\<lambda>(q, t). P t) xs) p = (case map_of xs p of Some t \<Rightarrow> if P t then Some t else None | None \<Rightarrow> None)"
  by (induction xs) (auto split: option.splits simp: map_of_eq_None_iff weak_map_of_SomeI dest: map_of_SomeD)

text \<open>A wallet owns exactly the unspent outputs of its chain whose script is the P2PKH script of its
  address.\<close>

theorem owned_utxos:
  "utxo_find (filter_utxos_by_address (build_utxo_set chain) a) p = Some t \<longleftrightarrow>
     utxo_find (build_utxo_set chain) p = Some t \<and> extract_p2pkh_address (scriptPubKey t) = Some a"
  using map_of_filter_distinct [OF build_utxo_set_distinct [unfolded utxo_distinct_def],
      of "\<lambda>t. extract_p2pkh_address (scriptPubKey t) = Some a" chain p]
  by (auto simp: filter_utxos_by_address_def filter_loop_find utxo_find_def [of "build_utxo_set chain"] split: option.splits)

section \<open>Fees\<close>

text \<open>The input at position \<open>i\<close> of \<open>tx\<close> spends an entry of the UTXO set that its script unlocks.\<close>

definition input_ok :: "secp256k1 \<Rightarrow> Transaction \<Rightarrow> UtxoSet \<Rightarrow> nat \<Rightarrow> CTxIn \<Rightarrow> bool" where
  "input_ok S tx utxos i inp \<longleftrightarrow>
     (case utxo_find utxos (prevout inp) of
        None \<Rightarrow> False
      | Some t \<Rightarrow> verify_transaction_signature S tx i (scriptPubKey t))"

definition in_values :: "UtxoSet \<Rightarrow> CTxIn list \<Rightarrow> i64 list" where
  "in_values utxos ins = map (\<lambda>i. nValue (the (utxo_find utxos (prevout i)))) ins"

definition inputs_ok :: "secp256k1 \<Rightarrow> Transaction \<Rightarrow> UtxoSet \<Rightarrow> bool" where
  "inputs_ok S tx utxos \<longleftrightarrow> vin tx \<noteq> [] \<and>
     list_all (\<lambda>(i, inp). input_ok S tx utxos i inp) (List.enumerate 0 (vin tx))"

lemma input_loop_eq:
  "input_loop S tx utxos i ins acc =
     (if list_all (\<lambda>(i, inp). input_ok S tx utxos i inp) (List.enumerate i ins)
      then Some (acc + sum_list (in_values utxos ins)) else None)"
  by (induction S tx utxos i ins acc rule: input_loop.induct)
    (auto simp: input_ok_def in_values_def algebra_simps split: option.splits)

lemma sum_outputs_eq: "sum_outputs outs = sum_list (map nValue outs)"
proof -
  have "foldl (\<lambda>total t. total + nValue t) a outs = a + sum_list (map nValue outs)" for a
    by (induction outs arbitrary: a) (simp_all add: algebra_simps)
  then show ?thesis by (simp add: sum_outputs_def)
qed

lemma validate_and_get_fee_eq:
  "validate_and_get_fee S tx utxos =
     (if inputs_ok S tx utxos \<and> sint (sum_list (map nValue (vout tx))) \<le> sint (sum_list (in_values utxos (vin tx)))
      then sum_list (in_values utxos (vin tx)) - sum_list (map nValue (vout tx)) else - 1)"
  by (auto simp: validate_and_get_fee_def input_loop_eq sum_outputs_eq inputs_ok_def Let_def)

lemma sint_sum_list:
  "(\<forall>v \<in> set vs. 0 \<le> sint (v :: i64)) \<Longrightarrow> sum_list (map sint vs) < 2 ^ 63 \<Longrightarrow>
     sint (sum_list vs) = sum_list (map sint vs) \<and> 0 \<le> sum_list (map sint vs)"
proof (induction vs)
  case (Cons v vs)
  then have "0 \<le> sint v" "sum_list (map sint vs) < 2 ^ 63" by auto
  with Cons have IH: "sint (sum_list vs) = sum_list (map sint vs)" "0 \<le> sum_list (map sint vs)" by auto
  have "sint (v + sum_list vs) = sint v + sint (sum_list vs)"
    using Cons.prems IH \<open>0 \<le> sint v\<close> by (intro sint_add_i64) (simp add: in_i64_def)
  with IH \<open>0 \<le> sint v\<close> show ?case by simp
qed simp

text \<open>Values as the network means them: no negative amount, sums that fit.\<close>

definition sane_values :: "i64 list \<Rightarrow> bool" where
  "sane_values vs \<longleftrightarrow> list_all (\<lambda>v. 0 \<le> sint v) vs \<and> sum_list (map sint vs) < 2 ^ 63"

lemma sane_values_sum: "sane_values vs \<Longrightarrow> sint (sum_list vs) = sum_list (map sint vs) \<and> 0 \<le> sum_list (map sint vs)"
  using sint_sum_list by (simp add: sane_values_def list_all_iff)

lemma fee_spec_lemma:
  assumes "sane_values (in_values utxos (vin tx))" and "sane_values (map nValue (vout tx))"
  shows "sint (validate_and_get_fee S tx utxos) =
    (let spent = sum_list (map sint (in_values utxos (vin tx)));
         paid = sum_list (map (\<lambda>t. sint (nValue t)) (vout tx))
     in if inputs_ok S tx utxos \<and> paid \<le> spent then spent - paid else - 1)"
proof -
  let ?i = "sum_list (in_values utxos (vin tx))" and ?o = "sum_list (map nValue (vout tx))"
  note v = sane_values_sum [OF assms(1)] sane_values_sum [OF assms(2)]
  have lt: "sum_list (map sint (in_values utxos (vin tx))) < 2 ^ 63"
    "sum_list (map sint (map nValue (vout tx))) < 2 ^ 63"
    using assms by (simp_all add: sane_values_def)
  have "sint (?i - ?o) = sint ?i - sint ?o"
    using v lt by (intro sint_sub_i64) (simp add: in_i64_def)
  with v show ?thesis
    by (auto simp: validate_and_get_fee_eq Let_def comp_def)
qed

text \<open>C19: For sane amounts \<open>validate_and_get_fee\<close> answers with a fee exactly when the transaction has
  inputs, each of them names an entry of the UTXO set and unlocks it, and the outputs are not worth
  more than the inputs; the fee is then the difference, and otherwise the answer is -1.\<close>

theorem fee_spec:
  assumes "sane_values (in_values utxos (vin tx))" and "sane_values (map nValue (vout tx))"
  shows "sint (validate_and_get_fee S tx utxos) =
    (let spent = sum_list (map sint (in_values utxos (vin tx)));
         paid = sum_list (map (\<lambda>t. sint (nValue t)) (vout tx))
     in if inputs_ok S tx utxos \<and> paid \<le> spent then spent - paid else - 1)"
  using assms by (rule fee_spec_lemma)

text \<open>The fee depends on the UTXO set only through the entries the inputs name.\<close>

lemma input_loop_cong:
  "\<forall>i \<in> set ins. utxo_find u (prevout i) = utxo_find u' (prevout i) \<Longrightarrow>
     input_loop S tx u k ins acc = input_loop S tx u' k ins acc"
  by (induction ins arbitrary: k acc) (auto split: option.splits)

lemma fee_cong:
  assumes "\<forall>i \<in> set (vin tx). utxo_find u (prevout i) = utxo_find u' (prevout i)"
  shows "validate_and_get_fee S tx u = validate_and_get_fee S tx u'"
  using input_loop_cong [OF assms] by (simp add: validate_and_get_fee_def)

lemma validate_fee_nonneg:
  assumes "0 \<le> sint (validate_and_get_fee S tx utxos)"
  shows "inputs_ok S tx utxos"
    and "validate_and_get_fee S tx utxos = sum_list (in_values utxos (vin tx)) - sum_list (map nValue (vout tx))"
  using assms by (auto simp: validate_and_get_fee_eq split: if_splits)

end
