(* ===== verification/Chain_Value.thy ===== *)
theory Chain_Value
  imports Chain
begin

text \<open>
  Conservation of value: what the transactions of a block add to the value of the UTXO set, and the ways
  to cheat the checks that modelling showed.
\<close>

section \<open>Conservation of value\<close>

definition entry_value :: "UtxoSet \<Rightarrow> COutPoint \<Rightarrow> int" where
  "entry_value utxos p = (case utxo_find utxos p of None \<Rightarrow> 0 | Some t \<Rightarrow> sint (nValue t))"

lemma total_value_erase:
  "utxo_distinct utxos \<Longrightarrow> total_value (utxo_erase p utxos) = total_value utxos - entry_value utxos p"
proof (induction utxos)
  case (Cons qt utxos)
  obtain q t where qt: "qt = (q, t)" by (cases qt)
  have d: "utxo_distinct utxos" "q \<notin> fst ` set utxos" using Cons.prems by (simp_all add: utxo_distinct_def qt)
  show ?case
  proof (cases "q = p")
    case True
    with d(2) have "utxo_erase p utxos = utxos"
      unfolding utxo_erase_def by (intro filter_True) (auto simp: image_iff)
    with True show ?thesis by (simp add: qt utxo_erase_def entry_value_def utxo_find_def)
  next
    case False
    with Cons.IH [OF d(1)] show ?thesis by (simp add: qt utxo_erase_def entry_value_def utxo_find_def)
  qed
qed (simp add: utxo_erase_def entry_value_def)

lemma total_value_fold_erase:
  "utxo_distinct utxos \<Longrightarrow> distinct ps \<Longrightarrow>
     total_value (fold utxo_erase ps utxos) = total_value utxos - sum_list (map (entry_value utxos) ps)"
proof (induction ps arbitrary: utxos)
  case (Cons p ps)
  have "entry_value (utxo_erase p utxos) q = entry_value utxos q" if "q \<in> set ps" for q
    using that Cons.prems(2) by (auto simp: entry_value_def utxos.find_erase)
  then have eq: "sum_list (map (entry_value (utxo_erase p utxos)) ps) = sum_list (map (entry_value utxos) ps)"
    by (intro arg_cong [of _ _ sum_list]) simp
  from Cons.IH [of "utxo_erase p utxos"] Cons.prems show ?case
    by (simp add: utxos.invar_erase total_value_erase eq)
qed simp

lemma total_value_fold_emplace:
  "distinct (map fst kvs) \<Longrightarrow> list_all (\<lambda>p. utxo_find utxos p = None) (map fst kvs) \<Longrightarrow>
     total_value (fold (\<lambda>(p, t). utxo_emplace p t) kvs utxos) = total_value utxos + total_value kvs"
proof (induction kvs arbitrary: utxos)
  case (Cons pt kvs)
  obtain p t where pt: "pt = (p, t)" by (cases pt)
  have "list_all (\<lambda>q. utxo_find (utxo_emplace p t utxos) q = None) (map fst kvs)"
    using Cons.prems by (fastforce simp: pt list_all_iff utxos.find_emplace)
  with Cons show ?case by (simp add: pt utxo_emplace_def)
qed simp

lemma tx_outputs_keys:
  assumes "length (vout tx) \<le> 2 ^ 32"
  shows "distinct (map fst (tx_outputs tx))"
proof -
  have "inj_on (\<lambda>i. word_of_nat i :: u32) {0..<length (vout tx)}"
    by (rule inj_onI) (use assms in \<open>auto simp: word_of_nat_eq_iff take_bit_eq_mod\<close>)
  then show ?thesis
    by (auto simp: tx_outputs_def distinct_map comp_def inj_on_def)
qed

lemma total_value_tx_outputs: "total_value (tx_outputs tx) = sum_list (map (\<lambda>t. sint (nValue t)) (vout tx))"
proof -
  have "map (\<lambda>(p, t). sint (nValue t)) (tx_outputs tx) = map (\<lambda>t. sint (nValue t)) (map ((!) (vout tx)) [0..<length (vout tx)])"
    by (simp add: tx_outputs_def)
  then show ?thesis by (simp add: total_value_def map_nth)
qed

text \<open>A transaction that plays fair in the state \<open>utxos\<close>: every input named once, outpoints that are new,
  sane amounts.\<close>

definition tx_fair :: "UtxoSet \<Rightarrow> Transaction \<Rightarrow> bool" where
  "tx_fair utxos tx \<longleftrightarrow> distinct (map prevout (vin tx)) \<and> length (vout tx) \<le> 2 ^ 32
     \<and> list_all (\<lambda>p. utxo_find utxos p = None) (map fst (tx_outputs tx))
     \<and> sane_values (map nValue (vout tx))"

lemma in_values_entry:
  assumes "inputs_ok S tx utxos"
  shows "map sint (in_values utxos (vin tx)) = map (entry_value utxos) (map prevout (vin tx))"
proof -
  have "\<exists>t. utxo_find utxos (prevout i) = Some t" if "i \<in> set (vin tx)" for i
  proof -
    from that obtain k where "k < length (vin tx)" "vin tx ! k = i" by (auto simp: in_set_conv_nth)
    then have "(k, i) \<in> set (List.enumerate 0 (vin tx))" by (simp add: in_set_enumerate_eq)
    with assms show ?thesis
      by (fastforce simp: inputs_ok_def list_all_iff input_ok_def split: option.splits)
  qed
  then show ?thesis by (fastforce simp: in_values_def entry_value_def)
qed

definition add_tx :: "UtxoSet \<Rightarrow> Transaction \<Rightarrow> UtxoSet" where
  "add_tx utxos tx = add_outputs tx (erase_inputs tx utxos)"

lemma add_outputs_value:
  assumes "length (vout tx) \<le> 2 ^ 32" and "list_all (\<lambda>p. utxo_find utxos p = None) (map fst (tx_outputs tx))"
  shows "total_value (add_outputs tx utxos) = total_value utxos + sum_list (map (\<lambda>t. sint (nValue t)) (vout tx))"
  unfolding add_outputs_def total_value_tx_outputs [symmetric]
  by (rule total_value_fold_emplace [OF tx_outputs_keys [OF assms(1)] assms(2)])

lemma nonneg_fold_erase:
  "list_all (\<lambda>(p, t). 0 \<le> sint (nValue t)) utxos \<Longrightarrow>
     list_all (\<lambda>(p, t). 0 \<le> sint (nValue t)) (fold utxo_erase ps utxos)"
proof (induction ps arbitrary: utxos)
  case (Cons p ps)
  have "list_all (\<lambda>(p, t). 0 \<le> sint (nValue t)) (utxo_erase p utxos)"
    using Cons.prems by (simp add: utxo_erase_def list_all_iff)
  from Cons.IH [OF this] show ?case by simp
qed simp

lemma nonneg_fold_emplace:
  "list_all (\<lambda>(p, t). 0 \<le> sint (nValue t)) utxos \<Longrightarrow> list_all (\<lambda>(p, t). 0 \<le> sint (nValue t)) kvs \<Longrightarrow>
     list_all (\<lambda>(p, t). 0 \<le> sint (nValue t)) (fold (\<lambda>(p, t). utxo_emplace p t) kvs utxos)"
  by (induction kvs arbitrary: utxos) (auto simp: utxo_emplace_def split: option.splits)

lemma entry_sum_le:
  assumes "utxo_distinct utxos" and "list_all (\<lambda>(p, t). 0 \<le> sint (nValue t)) utxos" and "distinct ps"
  shows "sum_list (map (entry_value utxos) ps) \<le> total_value utxos"
proof -
  have "0 \<le> total_value (fold utxo_erase ps utxos)"
    by (rule total_value_nonneg [OF nonneg_fold_erase [OF assms(2)]])
  with total_value_fold_erase [OF assms(1,3)] show ?thesis by simp
qed

lemma nonneg_entries:
  "list_all (\<lambda>(p, t). 0 \<le> sint (nValue t)) utxos \<Longrightarrow> utxo_find utxos p = Some t \<Longrightarrow> 0 \<le> sint (nValue t)"
  by (auto simp: utxo_find_def list_all_iff dest: map_of_SomeD)

lemma fair_tx_conserves:
  assumes "utxo_distinct utxos" and "sane_utxos utxos" and "tx_fair utxos tx"
    and "0 \<le> sint (validate_and_get_fee S tx utxos)"
  shows "total_value (add_tx utxos tx) = total_value utxos - sint (validate_and_get_fee S tx utxos)
    \<and> utxo_distinct (add_tx utxos tx) \<and> list_all (\<lambda>(p, t). 0 \<le> sint (nValue t)) (add_tx utxos tx)"
proof -
  note ok = validate_fee_nonneg(1) [OF assms(4)]
  have fair: "distinct (map prevout (vin tx))" "length (vout tx) \<le> 2 ^ 32"
    "list_all (\<lambda>p. utxo_find utxos p = None) (map fst (tx_outputs tx))" "sane_values (map nValue (vout tx))"
    using assms(3) by (simp_all add: tx_fair_def)
  have nn: "list_all (\<lambda>(p, t). 0 \<le> sint (nValue t)) utxos" "total_value utxos < 2 ^ 63"
    using assms(2) by (simp_all add: sane_utxos_def)
  have ins: "map sint (in_values utxos (vin tx)) = map (entry_value utxos) (map prevout (vin tx))"
    by (rule in_values_entry [OF ok])
  have "list_all (\<lambda>v. 0 \<le> v) (map sint (in_values utxos (vin tx)))"
    unfolding ins using nonneg_entries [OF nn(1)] by (auto simp: list_all_iff entry_value_def split: option.splits)
  then have "list_all (\<lambda>v. 0 \<le> sint v) (in_values utxos (vin tx))" by (simp only: list.pred_map comp_def)
  then have "sane_values (in_values utxos (vin tx))"
    unfolding sane_values_def ins using entry_sum_le [OF assms(1) nn(1) fair(1)] nn(2) by simp
  from fee_spec_lemma [OF this fair(4), of S] ok assms(4) have fee: "sint (validate_and_get_fee S tx utxos)
      = sum_list (map (entry_value utxos) (map prevout (vin tx))) - sum_list (map (\<lambda>t. sint (nValue t)) (vout tx))"
    by (simp add: Let_def ins split: if_splits)
  let ?e = "erase_inputs tx utxos"
  have e: "total_value ?e = total_value utxos - sum_list (map (entry_value utxos) (map prevout (vin tx)))"
    unfolding erase_inputs_def by (rule total_value_fold_erase [OF assms(1) fair(1)])
  have fresh: "list_all (\<lambda>p. utxo_find ?e p = None) (map fst (tx_outputs tx))"
    using fair(3) by (auto simp: erase_inputs_def utxos.find_fold_erase list_all_iff)
  have nne: "list_all (\<lambda>(p, t). 0 \<le> sint (nValue t)) ?e"
    unfolding erase_inputs_def by (rule nonneg_fold_erase [OF nn(1)])
  have "list_all (\<lambda>(p, t). 0 \<le> sint (nValue t)) (tx_outputs tx)"
    using fair(4) by (auto simp: sane_values_def tx_outputs_def list_all_iff)
  then have "list_all (\<lambda>(p, t). 0 \<le> sint (nValue t)) (add_outputs tx ?e)"
    unfolding add_outputs_def by (rule nonneg_fold_emplace [OF nne])
  moreover have "utxo_distinct (add_outputs tx ?e)"
    unfolding add_outputs_def erase_inputs_def
    by (intro utxos.invar_fold_emplace utxos.invar_fold_erase assms(1))
  ultimately show ?thesis
    unfolding add_tx_def by (simp only: add_outputs_value [OF fair(2) fresh] e fee) simp
qed

text \<open>A fair block in the state \<open>utxos\<close>: a coinbase that only creates, then fair transactions.\<close>

fun fair_txs :: "UtxoSet \<Rightarrow> Transaction list \<Rightarrow> bool" where
  "fair_txs utxos [] = True"
| "fair_txs utxos (tx # txs) \<longleftrightarrow> \<not> IsCoinbase tx \<and> tx_fair utxos tx \<and> fair_txs (add_tx utxos tx) txs"

lemma fair_txs_conserve:
  assumes "full_chain_txs S txs utxos fees = Some (utxos', fees')" and "fair_txs utxos txs"
    and "utxo_distinct utxos" and "list_all (\<lambda>(p, t). 0 \<le> sint (nValue t)) utxos"
    and "0 \<le> sint fees" and "sint fees + total_value utxos < 2 ^ 63"
  shows "sint fees' + total_value utxos' = sint fees + total_value utxos \<and> 0 \<le> total_value utxos' \<and> 0 \<le> sint fees'"
  using assms
proof (induction S txs utxos fees rule: full_chain_txs.induct)
  case (1 S utxos fees)
  then show ?case by (simp add: total_value_nonneg)
next
  case (2 S tx txs utxos fees)
  let ?fee = "validate_and_get_fee S tx utxos"
  from "2.prems" have ncb: "\<not> IsCoinbase tx" and fair: "tx_fair utxos tx" "fair_txs (add_tx utxos tx) txs"
    and fee: "0 \<le> sint ?fee" and rest: "full_chain_txs S txs (add_tx utxos tx) (fees + ?fee) = Some (utxos', fees')"
    by (auto simp: Let_def add_tx_def split: if_splits)
  have "sane_utxos utxos" using "2.prems"(4-6) by (simp add: sane_utxos_def)
  from fair_tx_conserves [OF "2.prems"(3) this fair(1) fee] have
    c: "total_value (add_tx utxos tx) = total_value utxos - sint ?fee" "utxo_distinct (add_tx utxos tx)"
    "list_all (\<lambda>(p, t). 0 \<le> sint (nValue t)) (add_tx utxos tx)" by simp_all
  have "0 \<le> total_value (add_tx utxos tx)" by (rule total_value_nonneg [OF c(3)])
  then have add: "sint (fees + ?fee) = sint fees + sint ?fee"
    using "2.prems"(5,6) fee c(1) by (intro sint_add_i64) (simp add: in_i64_def)
  from "2.IH"(1) [OF ncb refl _ rest [unfolded add_tx_def] fair(2) [unfolded add_tx_def]] show ?case
    using c add fee "2.prems"(5,6) by (simp add: add_tx_def)
qed

lemma coinbase_block_txs:
  "IsCoinbase cb \<Longrightarrow> full_chain_txs S (cb # txs) utxos 0 = full_chain_txs S txs (add_outputs cb utxos) 0"
  by simp

text \<open>C15: Blocks issue exactly the subsidy, as long as they are fair. When the transactions of a block pass the
  checks of \<open>validate_full_chain\<close>, the first one being the only coinbase and all others fair (no input
  named twice, new outpoints, no negative amounts), the coinbase creates new outpoints with no negative
  amount and pays the reward plus fees, and values stay below \<open>2 ^ 62\<close>, then the value of all unspent
  outputs grows by exactly the reward of that height. (A second coinbase or a negative output breaks
  this, see \<open>extra_coinbase_unchecked\<close> and \<open>value_check_cheated\<close>.)\<close>

theorem block_issues_reward:
  assumes "full_chain_txs S (cb # txs) utxos 0 = Some (utxos', fees)"
    and "sum_outputs (vout cb) = calculate_block_reward height + fees"
    and "IsCoinbase cb" and "tx_fair utxos (cb\<lparr>vin := []\<rparr>)" and "fair_txs (add_outputs cb utxos) txs"
    and "utxo_distinct utxos" and "sane_utxos utxos"
    and "total_value utxos + total_out cb < 2 ^ 62"
  shows "total_value utxos' = total_value utxos + sint (calculate_block_reward height)"
proof -
  let ?u = "add_outputs cb utxos"
  have keys: "tx_outputs (cb\<lparr>vin := []\<rparr>) = tx_outputs cb" by (simp add: tx_outputs_def)
  have fair: "length (vout cb) \<le> 2 ^ 32" "list_all (\<lambda>p. utxo_find utxos p = None) (map fst (tx_outputs cb))"
    "sane_values (map nValue (vout cb))"
    using assms(4) by (simp_all add: tx_fair_def keys)
  have u: "total_value ?u = total_value utxos + total_out cb"
    unfolding total_out_def by (rule add_outputs_value [OF fair(1,2)])
  have "list_all (\<lambda>(p, t). 0 \<le> sint (nValue t)) (tx_outputs cb)"
    using fair(3) by (auto simp: sane_values_def tx_outputs_def list_all_iff)
  then have nn: "list_all (\<lambda>(p, t). 0 \<le> sint (nValue t)) ?u"
    using assms(7) unfolding add_outputs_def sane_utxos_def by (blast intro: nonneg_fold_emplace)
  have "utxo_distinct ?u" unfolding add_outputs_def by (rule utxos.invar_fold_emplace [OF assms(6)])
  from fair_txs_conserve [OF _ assms(5) this nn, of S 0 utxos' fees] assms(1,3,8) u have
    c: "sint fees + total_value utxos' = total_value ?u" "0 \<le> total_value utxos'" "0 \<le> sint fees"
    by simp_all
  have "sint (calculate_block_reward height) \<le> 5000000000" "0 \<le> sint (calculate_block_reward height)"
    using zdiv_mono2 [of 5000000000 1 "2 ^ (unat height div 10)"] by (simp_all add: reward_value pos_imp_zdiv_nonneg_iff)
  then have "sint (calculate_block_reward height + fees) = sint (calculate_block_reward height) + sint fees"
    using c assms(8) u by (intro sint_add_i64) (simp add: in_i64_def)
  moreover have "sint (sum_outputs (vout cb)) = total_out cb"
    using sane_values_sum [OF fair(3)] by (simp add: sum_outputs_eq total_out_def comp_def)
  ultimately show ?thesis using c u assms(2) by simp
qed

text \<open>A transaction that spends the one sample output, with a script that unlocks any P2PKH output.\<close>

definition sample_spend :: "CTxIn list \<Rightarrow> i64 list \<Rightarrow> Transaction" where
  "sample_spend ins amounts =
     (mk_Transaction 1 ins (map (\<lambda>v. \<lparr>nValue = v, scriptPubKey = [0xac]\<rparr>) amounts) 0)\<lparr>tx_hash := replicate 32 2\<rparr>"

definition sample_in :: CTxIn where
  "sample_in = mk_CTxIn (COutPoint (replicate 32 1) 0) [0x19]"

definition sample_coinbase :: "i64 \<Rightarrow> Transaction" where
  "sample_coinbase amount =
     (mk_Transaction 1 [CTxIn_default] [\<lparr>nValue = amount, scriptPubKey = [0xac]\<rparr>] 0)\<lparr>tx_hash := replicate 32 3\<rparr>"

lemma sample_in_unlocks:
  "vin tx = ins \<Longrightarrow> i < length ins \<Longrightarrow> ins ! i = sample_in \<Longrightarrow> input_ok S tx sample_utxos i sample_in"
  using push_swallows_p2pkh [OF wallet_address_length [OF sample_wallet_ok]]
  by (simp add: input_ok_def sample_in_def mk_CTxIn_def utxo_find_def sample_utxos_def verify_transaction_signature_def)

lemma sample_in_value: "nValue (the (utxo_find sample_utxos (prevout sample_in))) = 5000"
  by (simp add: sample_in_def mk_CTxIn_def utxo_find_def sample_utxos_def)

lemma sample_fee:
  "validate_and_get_fee S (sample_spend [sample_in] [4000]) sample_utxos = 1000"
  "validate_and_get_fee S (sample_spend [sample_in, sample_in] [9000]) sample_utxos = 1000"
  "validate_and_get_fee S (sample_spend [sample_in] [10000, - 6000]) sample_utxos = 1000"
  using sample_in_unlocks [of _ _ 0 S] sample_in_unlocks [of _ _ 1 S]
  by (simp_all add: validate_and_get_fee_eq inputs_ok_def in_values_def sample_in_value sample_spend_def)

lemma fee_spec_witness:
  "sint (validate_and_get_fee toy_secp (sample_spend [sample_in] [4000]) sample_utxos) = 1000"
proof -
  let ?tx = "sample_spend [sample_in] [4000]"
  have v: "in_values sample_utxos (vin ?tx) = [5000]" and o: "map nValue (vout ?tx) = [4000]"
    by (simp_all add: sample_spend_def in_values_def sample_in_value)
  have "inputs_ok toy_secp ?tx sample_utxos"
    by (rule validate_fee_nonneg(1)) (simp add: sample_fee)
  moreover have "map (\<lambda>t. sint (nValue t)) (vout ?tx) = [4000]" by (simp add: sample_spend_def)
  ultimately show ?thesis
    using fee_spec [of sample_utxos ?tx toy_secp] by (simp add: v o sane_values_def)
qed

text \<open>The value check can be cheated, so the ledger is only as sound as the fairness the theorem above
  assumes. A transaction that names its one input twice has it counted twice, and one with a negative
  output pays it back from another: both spend an output of 5000, create spendable outputs of 9000 and
  of 10000, and pass with a fee of 1000.\<close>

theorem value_check_cheated:
  "validate_and_get_fee S (sample_spend [sample_in, sample_in] [9000]) sample_utxos = 1000
   \<and> validate_and_get_fee S (sample_spend [sample_in] [10000, - 6000]) sample_utxos = 1000
   \<and> total_value sample_utxos = 5000"
  using sample_fee sample_utxos_sane by simp

lemma find_add_outputs:
  "utxo_find (add_outputs tx utxos) p =
     (case utxo_find utxos p of Some t \<Rightarrow> Some t | None \<Rightarrow> map_of (tx_outputs tx) p)"
  by (simp add: add_outputs_def utxos.find_fold_emplace)

lemma find_erase_inputs:
  "utxo_find (erase_inputs tx utxos) p = (if p \<in> set (map prevout (vin tx)) then None else utxo_find utxos p)"
  unfolding erase_inputs_def by (rule utxos.find_fold_erase)

lemma sample_find:
  "utxo_find sample_utxos p = (if p = COutPoint (replicate 32 1) 0
     then Some \<lparr>nValue = 5000, scriptPubKey = build_p2pkh_script_pubkey (address_of sample_wallet)\<rparr> else None)"
  by (simp add: utxo_find_def sample_utxos_def)

lemma sample_prevouts:
  "\<not> IsCoinbase (sample_spend [sample_in] [4000])" "IsCoinbase (sample_coinbase v)"
  by (simp_all add: IsCoinbase_def sample_spend_def sample_in_def sample_coinbase_def mk_CTxIn_def IsNull_def
      CTxIn_default_def COutPoint_null_def list_all_iff)

lemma block_issues_reward_witness:
  "\<exists>utxos'. full_chain_txs toy_secp [sample_coinbase (calculate_block_reward 3 + 1000), sample_spend [sample_in] [4000]]
        sample_utxos 0 = Some (utxos', 1000)
     \<and> total_value utxos' = total_value sample_utxos + sint (calculate_block_reward 3)"
proof -
  let ?cb = "sample_coinbase (calculate_block_reward 3 + 1000)" and ?tx = "sample_spend [sample_in] [4000]"
  have r: "calculate_block_reward 3 = 5000000000"
    by (simp add: calculate_block_reward_def HALVING_INTERVAL_def INITIAL_REWARD_def)
  have u: "utxo_find (add_outputs ?cb sample_utxos) (prevout sample_in) = utxo_find sample_utxos (prevout sample_in)"
    by (simp add: find_add_outputs sample_in_def mk_CTxIn_def sample_find)
  have fee: "validate_and_get_fee toy_secp ?tx (add_outputs ?cb sample_utxos) = 1000"
    using fee_cong [of ?tx "add_outputs ?cb sample_utxos" sample_utxos toy_secp] u sample_fee(1) [of toy_secp]
    by (simp add: sample_spend_def)
  then obtain utxos' where run: "full_chain_txs toy_secp [?cb, ?tx] sample_utxos 0 = Some (utxos', 1000)"
    by (simp add: sample_prevouts)
  have "total_value utxos' = total_value sample_utxos + sint (calculate_block_reward 3)"
  proof (rule block_issues_reward [OF run])
    show "sum_outputs (vout ?cb) = calculate_block_reward 3 + 1000"
      by (simp add: sum_outputs_def sample_coinbase_def)
    show "tx_fair sample_utxos (?cb\<lparr>vin := []\<rparr>)"
      by (simp add: tx_fair_def sample_coinbase_def tx_outputs_def sample_find sane_values_def r)
    show "fair_txs (add_outputs ?cb sample_utxos) [?tx]"
      using sample_prevouts(1)
      by (simp add: tx_fair_def)
        (simp add: sample_spend_def tx_outputs_def find_add_outputs sample_find sane_values_def sample_coinbase_def)
    show "utxo_distinct sample_utxos" by (simp add: utxo_distinct_def sample_utxos_def)
    show "total_value sample_utxos + total_out ?cb < 2 ^ 62"
      by (simp add: sample_utxos_sane total_out_def sample_coinbase_def r)
  qed (simp_all add: sample_prevouts sample_utxos_sane)
  with run show ?thesis by blast
qed

end
