(* ===== verification/Chain_Rules.thy ===== *)
theory Chain_Rules
  imports Chain_Value
begin

text \<open>
  What a node checks of a block and of a chain: exact specifications of \<open>try_extend_chain\<close> and \<open>try_reorg\<close>,
  \<open>validate_full_chain\<close> against the declarative \<open>ledger\<close>, what the miner builds, and that validation ends.
\<close>

section \<open>What a node checks of a block\<close>

text \<open>A second coinbase escapes every check: both validations skip it when they look at inputs, and the
  amount check looks at the first coinbase only, so its outputs are created unchecked.\<close>

theorem extra_coinbase_unchecked:
  assumes "IsCoinbase cb" and "IsCoinbase mint"
  shows "full_chain_txs S (cb # mint # txs) utxos fees
      = full_chain_txs S txs (add_outputs mint (add_outputs cb utxos)) fees
    \<and> new_block_fees S utxos (cb # mint # txs) fees = new_block_fees S utxos (cb # txs) fees"
  using assms by simp

lemma extra_coinbase_unchecked_witness:
  "full_chain_txs S [sample_coinbase 1, sample_coinbase 1000000] [] 0
      = full_chain_txs S [] (add_outputs (sample_coinbase 1000000) (add_outputs (sample_coinbase 1) [])) 0
    \<and> new_block_fees S [] [sample_coinbase 1, sample_coinbase 1000000] 0 = new_block_fees S [] [sample_coinbase 1] 0"
  using extra_coinbase_unchecked [OF sample_prevouts(2) sample_prevouts(2)] by blast

text \<open>\<open>try_extend_chain\<close> never takes spent outputs out of its UTXO set while it goes through a block, so
  it accepts the same transaction twice in one block and counts its fee twice, where
  \<open>validate_full_chain\<close> rejects that list. A node can extend its chain with a block that makes its
  whole chain invalid for every other node.\<close>

theorem extend_accepts_double_spend:
  assumes "\<not> IsCoinbase tx" and "0 \<le> sint (validate_and_get_fee S tx utxos)"
    and "list_all (\<lambda>i. out_txid (prevout i) \<noteq> tx_hash tx) (vin tx)"
  shows "new_block_fees S utxos [tx, tx] 0 = Some (validate_and_get_fee S tx utxos + validate_and_get_fee S tx utxos)
    \<and> full_chain_txs S [tx, tx] utxos 0 = None"
proof -
  obtain i ins where vin: "vin tx = i # ins"
    using assms(1) by (cases "vin tx") (simp_all add: IsCoinbase_def)
  have "map_of (tx_outputs tx) (prevout i) = None"
    using assms(3) by (auto simp: vin map_of_eq_None_iff tx_outputs_def)
  then have "utxo_find (add_tx utxos tx) (prevout i) = None"
    by (simp add: add_tx_def find_add_outputs find_erase_inputs vin)
  then have "validate_and_get_fee S tx (add_tx utxos tx) = - 1"
    by (simp add: validate_and_get_fee_def vin)
  with assms(1,2) show ?thesis by (simp add: Let_def flip: add_tx_def)
qed

lemma extend_accepts_double_spend_witness:
  "new_block_fees S sample_utxos [sample_spend [sample_in] [4000], sample_spend [sample_in] [4000]] 0 = Some 2000
    \<and> full_chain_txs S [sample_spend [sample_in] [4000], sample_spend [sample_in] [4000]] sample_utxos 0 = None"
proof -
  have "list_all (\<lambda>i. out_txid (prevout i) \<noteq> tx_hash (sample_spend [sample_in] [4000])) (vin (sample_spend [sample_in] [4000]))"
    by (simp add: sample_spend_def sample_in_def mk_CTxIn_def)
  with extend_accepts_double_spend [OF sample_prevouts(1) _ this, of S sample_utxos] sample_fee(1) [of S]
  show ?thesis by simp
qed

text \<open>What \<open>try_extend_chain\<close> asks of a block on top of \<open>chain\<close>.\<close>

definition extends :: "secp256k1 \<Rightarrow> CBlock list \<Rightarrow> CBlock \<Rightarrow> bool" where
  "extends S chain blk \<longleftrightarrow> chain \<noteq> [] \<and> IsMerkleRootValid blk \<and> check_proof_of_work blk
     \<and> hashPrevBlock blk = GetHash (last chain)
     \<and> get_next_work_required (extract_headers chain) RETARGET_INTERVAL TARGET_TIMESPAN_SECONDS = Inr (nBits blk)
     \<and> vtx blk \<noteq> [] \<and> IsCoinbase (hd (vtx blk))
     \<and> new_block_fees S (build_utxo_set chain) (vtx blk) 0
         = Some (sum_outputs (vout (hd (vtx blk))) - calculate_block_reward (word_of_nat (length chain)))"

lemma try_extend_chain_true:
  "try_extend_chain S chain blk = Inr (True, chain') \<longleftrightarrow> extends S chain blk \<and> chain' = chain @ [blk]"
  by (auto simp: try_extend_chain_def extends_def chain_back_def Let_def rbind_eq_Inr_iff algebra_simps
      split: option.splits if_splits)

lemma try_extend_chain_cases:
  assumes "try_extend_chain S chain blk = Inr (b, chain')"
  shows "chain' = (if b then chain @ [blk] else chain)"
  using assms
  by (auto simp: try_extend_chain_def chain_back_def Let_def elim!: rbindE split: option.splits if_splits)

text \<open>C2: \<open>try_extend_chain\<close> accepts a block exactly when it has a valid Merkle root and proof of work,
  links to the tip's hash, carries the required difficulty, starts with a coinbase that pays exactly the
  reward of the height plus the fees of transactions that are all valid; it then appends the block, and
  in every other case that returns it leaves the chain as it is.\<close>

theorem try_extend_chain_spec:
  "(try_extend_chain S chain blk = Inr (True, chain') \<longleftrightarrow> extends S chain blk \<and> chain' = chain @ [blk])
   \<and> (case try_extend_chain S chain blk of Inr (False, c) \<Rightarrow> c = chain | _ \<Rightarrow> True)"
  using try_extend_chain_true try_extend_chain_cases [of S chain blk False]
  by (auto split: sum.splits bool.splits)

lemma try_reorg_true:
  "try_reorg S chain peer = Inr (True, chain') \<longleftrightarrow>
     chain' = peer \<and> chain \<noteq> [] \<and> peer \<noteq> [] \<and> GetHash (hd peer) = GetHash (hd chain)
     \<and> validate_full_chain S peer = Inr True
     \<and> f64_less (calculate_chain_work (extract_headers chain)) (calculate_chain_work (extract_headers peer))"
  by (auto simp: try_reorg_def Let_def rbind_eq_Inr_iff split: if_splits)

lemma try_reorg_cases:
  assumes "try_reorg S chain peer = Inr (b, chain')"
  shows "chain' = (if b then peer else chain)"
  using assms by (auto simp: try_reorg_def Let_def elim!: rbindE split: if_splits)

text \<open>C3: \<open>try_reorg\<close> switches to the peer's chain exactly when both chains have a first block and it has
  the same hash, the peer's chain is valid from its genesis on, and its cumulative work is strictly
  greater; in every other case that returns the chain stays.\<close>

theorem try_reorg_spec:
  "(try_reorg S chain peer = Inr (True, chain') \<longleftrightarrow>
      chain' = peer \<and> chain \<noteq> [] \<and> peer \<noteq> [] \<and> GetHash (hd peer) = GetHash (hd chain)
      \<and> validate_full_chain S peer = Inr True
      \<and> f64_less (calculate_chain_work (extract_headers chain)) (calculate_chain_work (extract_headers peer)))
   \<and> (case try_reorg S chain peer of Inr (False, c) \<Rightarrow> c = chain | _ \<Rightarrow> True)"
  using try_reorg_true try_reorg_cases [of S chain peer False]
  by (auto split: sum.splits bool.splits)

section \<open>Valid chains\<close>

text \<open>Validity, declaratively: the empty chain has the empty ledger, and a block extends a valid chain when
  it passes the rules in the ledger of that chain.\<close>

definition tip_hash :: "CBlock list \<Rightarrow> bytes" where
  "tip_hash chain = (if chain = [] then replicate 32 0 else GetHash (last chain))"

definition block_valid :: "secp256k1 \<Rightarrow> CBlock list \<Rightarrow> UtxoSet \<Rightarrow> CBlock \<Rightarrow> UtxoSet \<Rightarrow> bool" where
  "block_valid S chain utxos blk utxos' \<longleftrightarrow> IsMerkleRootValid blk \<and> check_proof_of_work blk
     \<and> hashPrevBlock blk = tip_hash chain \<and> next_bits (extract_headers chain) = Inr (nBits blk)
     \<and> vtx blk \<noteq> [] \<and> IsCoinbase (hd (vtx blk))
     \<and> full_chain_txs S (vtx blk) utxos 0
         = Some (utxos', sum_outputs (vout (hd (vtx blk))) - calculate_block_reward (word_of_nat (length chain)))"

inductive ledger :: "secp256k1 \<Rightarrow> CBlock list \<Rightarrow> UtxoSet \<Rightarrow> bool" for S where
  ledger_Nil: "ledger S [] []"
| ledger_snoc: "ledger S chain utxos \<Longrightarrow> block_valid S chain utxos blk utxos' \<Longrightarrow> ledger S (chain @ [blk]) utxos'"

inductive_cases ledger_snocE: "ledger S (chain @ [blk]) utxos"

lemma full_chain_block_some:
  "full_chain_block S (extract_headers chain) (tip_hash chain) utxos blk = Inr (Some utxos')
     \<longleftrightarrow> block_valid S chain utxos blk utxos'"
  by (auto simp: full_chain_block_def block_valid_def rbind_eq_Inr_iff Let_def extract_headers_def algebra_simps
      split: option.splits if_splits)

lemma extract_headers_snoc: "extract_headers (chain @ [blk]) = extract_headers chain @ [header_of blk]"
  by (simp add: extract_headers_def)

lemma tip_hash_snoc: "tip_hash (chain @ [blk]) = GetHash blk"
  by (simp add: tip_hash_def)

lemma full_chain_loop_sound:
  "full_chain_loop S blks (extract_headers chain) (tip_hash chain) utxos = Inr True \<Longrightarrow> ledger S chain utxos \<Longrightarrow>
     \<exists>utxos'. ledger S (chain @ blks) utxos'"
proof (induction blks arbitrary: chain utxos)
  case (Cons blk blks)
  from Cons.prems(1) obtain u where
    "full_chain_block S (extract_headers chain) (tip_hash chain) utxos blk = Inr (Some u)"
    and rest: "full_chain_loop S blks (extract_headers chain @ [header_of blk]) (GetHash blk) u = Inr True"
    by (auto elim!: rbindE split: option.splits)
  then have "ledger S (chain @ [blk]) u"
    using Cons.prems(2) by (auto simp: full_chain_block_some intro: ledger_snoc)
  from Cons.IH [OF _ this] rest show ?case by (simp add: extract_headers_snoc tip_hash_snoc)
qed auto

lemma ledger_loop:
  "ledger S chain utxos \<Longrightarrow>
     full_chain_loop S (chain @ blks) [] (replicate 32 0) []
       = full_chain_loop S blks (extract_headers chain) (tip_hash chain) utxos"
proof (induction arbitrary: blks rule: ledger.induct)
  case ledger_Nil
  show ?case by (simp add: extract_headers_def tip_hash_def)
next
  case (ledger_snoc chain utxos blk utxos')
  from ledger_snoc.IH [of "blk # blks"] ledger_snoc.hyps(2) [folded full_chain_block_some] show ?case
    by (simp add: extract_headers_snoc tip_hash_snoc)
qed

lemma validate_full_chain_ledger:
  "validate_full_chain S chain = Inr True \<longleftrightarrow> chain \<noteq> [] \<and> (\<exists>utxos. ledger S chain utxos)"
  using full_chain_loop_sound [of S chain "[]" "[]"] ledger_loop [of S chain _ "[]"] ledger_Nil
  by (auto simp: validate_full_chain_def extract_headers_def tip_hash_def)

text \<open>C1: \<open>validate_full_chain\<close> accepts exactly the non-empty chains that can be built block by block from
  nothing, each block having a valid Merkle root and proof of work, the hash of its predecessor, the
  required difficulty, transactions valid in the ledger of the blocks before it, and a coinbase of
  exactly reward plus fees.\<close>

theorem validate_full_chain_iff:
  "validate_full_chain S chain = Inr True \<longleftrightarrow> chain \<noteq> [] \<and> (\<exists>utxos. ledger S chain utxos)"
  by (rule validate_full_chain_ledger)

section \<open>Blocks a node mines\<close>

lemma candidate_vtx [simp]: "vtx (candidate blk bits k) = vtx blk"
  by (simp add: candidate_def)

lemma BuildMerkleRoot_vtx: "vtx a = vtx b \<Longrightarrow> BuildMerkleRoot a = BuildMerkleRoot b"
  by (simp add: BuildMerkleRoot_def)

lemma mine_block_Inr:
  assumes "mine_block (h :: CBlock) bits = Inr h'"
  shows "check_proof_of_work h' \<and> nBits h' = bits \<and> vtx h' = vtx h \<and> hashPrevBlock h' = hashPrevBlock h
    \<and> hashMerkleRoot h' = hashMerkleRoot h"
proof -
  from assms obtain k where "check_proof_of_work (candidate h bits k)"
    "h' = candidate h bits (LEAST k. check_proof_of_work (candidate h bits k))"
    by (auto simp: mine_block_eq split: if_splits)
  then show ?thesis by (simp add: LeastI [of "\<lambda>k. check_proof_of_work (candidate h bits k)" k])
qed

lemma build_coinbase_sel:
  "IsCoinbase (build_coinbase_tx a h f)"
  "sum_outputs (vout (build_coinbase_tx a h f)) = calculate_block_reward h + f"
  by (simp_all add: build_coinbase_tx_def Let_def IsCoinbase_def IsNull_def CTxIn_default_def
      COutPoint_null_def list_all_iff sum_outputs_def)

lemma build_next_block_Inr:
  assumes "build_next_block now headers prev a fees txs = Inr blk"
  shows "IsMerkleRootValid blk \<and> check_proof_of_work blk \<and> next_bits headers = Inr (nBits blk)
    \<and> hashPrevBlock blk = prev \<and> vtx blk = build_coinbase_tx a (word_of_nat (length headers)) fees # txs"
proof -
  define b where "b = \<lparr>nVersion = 1, hashPrevBlock = prev, hashMerkleRoot = replicate 32 0,
      nTime = now, nBits = 0, nNonce = 0, vtx = build_coinbase_tx a (word_of_nat (length headers)) fees # txs\<rparr>"
  from assms obtain bits where "next_bits headers = Inr bits"
    and m: "mine_block (b\<lparr>hashMerkleRoot := BuildMerkleRoot b\<rparr>) bits = Inr blk"
    by (auto simp: build_next_block_def Let_def b_def elim!: rbindE)
  with mine_block_Inr [OF m] BuildMerkleRoot_vtx [of blk b] show ?thesis
    by (simp add: IsMerkleRootValid_def) (simp add: b_def)
qed

lemma build_next_block_Inl:
  assumes "build_next_block now headers prev a fees txs = Inl e"
  shows "e = No_return \<or> next_bits headers = Inl e"
  using assms by (cases "next_bits headers") (auto simp: build_next_block_def Let_def mine_block_eq split: if_splits)

text \<open>A mined genesis chain is valid, for every reward address and clock; mining it either never
  returns or returns such a chain.\<close>

theorem genesis_chain_valid:
  "case build_genesis_chain now a of
     Inr chain \<Rightarrow> validate_full_chain S chain = Inr True \<and> length chain = 1
   | Inl e \<Rightarrow> e = No_return"
proof (cases "build_next_block now [] (replicate 32 0) a 0 []")
  case (Inl e)
  with build_next_block_Inl [OF this] show ?thesis by (simp add: build_genesis_chain_def next_bits_def)
next
  case (Inr blk)
  note b = build_next_block_Inr [OF this]
  then have "block_valid S [] [] blk (add_outputs (hd (vtx blk)) [])"
    by (simp add: block_valid_def tip_hash_def extract_headers_def build_coinbase_sel)
  from ledger_snoc [OF ledger_Nil this] have "ledger S [blk] (add_outputs (hd (vtx blk)) [])" by simp
  with Inr show ?thesis by (auto simp: build_genesis_chain_def validate_full_chain_ledger)
qed

text \<open>A block the node mines on its own tip, from transactions that are valid in its UTXO set and with
  their fees, is accepted by its own \<open>try_extend_chain\<close>, and so by every node with the same chain.\<close>

theorem mined_block_extends:
  assumes "chain \<noteq> []" and "new_block_fees S (build_utxo_set chain) txs 0 = Some fees"
  shows "case build_next_block now (extract_headers chain) (GetHash (last chain)) a fees txs of
      Inr blk \<Rightarrow> try_extend_chain S chain blk = Inr (True, chain @ [blk])
    | Inl e \<Rightarrow> e = No_return \<or> next_bits (extract_headers chain) = Inl e"
proof (cases "build_next_block now (extract_headers chain) (GetHash (last chain)) a fees txs")
  case (Inl e)
  with build_next_block_Inl [OF this] show ?thesis by simp
next
  case (Inr blk)
  with build_next_block_Inr [OF this] assms have "extends S chain blk"
    by (simp add: extends_def build_coinbase_sel next_bits_def extract_headers_def)
  with Inr show ?thesis by (simp add: try_extend_chain_true)
qed

lemma mined_block_extends_witness:
  "case build_next_block 7 (extract_headers [sample_block]) (GetHash (last [sample_block])) (replicate 20 1) 0 [] of
      Inr blk \<Rightarrow> try_extend_chain toy_secp [sample_block] blk = Inr (True, [sample_block] @ [blk])
    | Inl e \<Rightarrow> e = No_return \<or> next_bits (extract_headers [sample_block]) = Inl e"
  by (rule mined_block_extends) simp_all

section \<open>Validation ends\<close>

definition good_bits :: "u32 \<Rightarrow> bool" where
  "good_bits bits \<longleftrightarrow> compact_valid bits \<and> 3 \<le> unat (drop_bit 24 bits)"

lemma be_nat_0: "be_nat bs = 0 \<Longrightarrow> bs = replicate (length bs) 0"
  using be_nat_less_iff [of "replicate (length bs) 0" bs] be_nat_less_iff [of bs "replicate (length bs) 0"]
  by (metis be_nat_replicate_0 length_replicate less_irrefl linorder_neqE)

lemma next_bits_good:
  assumes "headers = [] \<or> good_bits (nBits (last headers))"
  shows "\<exists>bits. next_bits headers = Inr bits \<and> bits AND 0x00800000 = 0 \<and> 3 \<le> unat (drop_bit 24 bits)
    \<and> drop_bit 24 bits \<le> 33"
proof (cases "headers = []")
  case True
  then show ?thesis by (simp add: next_bits_def INITIAL_BITS_def)
next
  case False
  with assms have "compact_valid (nBits (last headers))" "3 \<le> unat (drop_bit 24 (nBits (last headers)))"
    by (simp_all add: good_bits_def)
  from retarget_bound [OF False _ _ this, of RETARGET_INTERVAL TARGET_TIMESPAN_SECONDS] False show ?thesis
    by (auto simp: next_bits_def RETARGET_INTERVAL_def TARGET_TIMESPAN_SECONDS_def)
qed

lemma pow_good_bits:
  assumes "check_proof_of_work blk" and "nBits blk AND 0x00800000 = 0" and "3 \<le> unat (drop_bit 24 (nBits blk))"
    and "GetHash blk \<noteq> replicate 32 0"
  shows "good_bits (nBits blk)"
proof (rule ccontr)
  assume "\<not> good_bits (nBits blk)"
  with assms(1-3) have "be_nat (GetHash blk) = 0" by (simp add: check_pow_value good_bits_def)
  from be_nat_0 [OF this] assms(4) show False by simp
qed

lemma full_chain_loop_returns:
  "headers = [] \<or> good_bits (nBits (last headers)) \<Longrightarrow> \<forall>blk \<in> set blks. GetHash blk \<noteq> replicate 32 0 \<Longrightarrow>
     \<exists>b. full_chain_loop S blks headers prev utxos = Inr b"
proof (induction blks arbitrary: headers prev utxos)
  case (Cons blk blks)
  from next_bits_good [OF Cons.prems(1)] obtain bits where bits: "next_bits headers = Inr bits"
    "bits AND 0x00800000 = 0" "3 \<le> unat (drop_bit 24 bits)" by blast
  from bits(1) have "\<exists>r. full_chain_block S headers prev utxos blk = Inr r"
    by (simp add: full_chain_block_def Let_def split: option.split prod.split)
  then obtain r where r: "full_chain_block S headers prev utxos blk = Inr r" ..
  show ?case
  proof (cases r)
    case None
    with r show ?thesis by (simp add: exI [of _ False])
  next
    case (Some u)
    with r bits(1) have "check_proof_of_work blk" "nBits blk = bits"
      by (auto simp: full_chain_block_def split: if_splits)
    with pow_good_bits [of blk] bits(2,3) Cons.prems(2) have "good_bits (nBits blk)" by simp
    with Cons.IH [of "headers @ [header_of blk]"] Cons.prems(2) r Some show ?thesis by simp
  qed
qed auto

text \<open>C39: Checking a chain from scratch always ends and never throws, for every list of blocks a peer may
  send, unless a block in it hashes to zero: each difficulty the retarget rule is fed was itself
  produced by it.\<close>

theorem validate_full_chain_returns:
  "(\<exists>b. validate_full_chain S chain = Inr b) \<or> (\<exists>blk \<in> set chain. GetHash blk = replicate 32 0)"
  using full_chain_loop_returns [of "[]" chain] by (fastforce simp: validate_full_chain_def)

end
