(* ===== verification/Chain_Ledger.thy ===== *)
theory Chain_Ledger
  imports Chain_Rules
begin

text \<open>
  The two ways the node computes its UTXO set agree, and so do its two validations.
\<close>

section \<open>The ledger and the UTXO set\<close>

lemma created_append: "created (xs @ ys) = created xs @ created ys"
  by (simp add: created_def)

lemma spent_append: "spent (xs @ ys) = spent xs @ spent ys"
  by (simp add: spent_def)

text \<open>The incremental ledger of \<open>validate_full_chain\<close>, of transactions \<open>txs\<close> already replayed.\<close>

definition replayed :: "Transaction list \<Rightarrow> UtxoSet \<Rightarrow> bool" where
  "replayed txs utxos \<longleftrightarrow>
     (\<forall>p. utxo_find utxos p = (if p \<in> set (spent txs) then None else map_of (created txs) p))"

definition outpoints_unique :: "Transaction list \<Rightarrow> bool" where
  "outpoints_unique txs \<longleftrightarrow> distinct (map fst (created txs))
     \<and> list_all (\<lambda>tx. IsCoinbase tx \<longrightarrow> list_all (\<lambda>i. prevout i \<notin> fst ` set (created txs)) (vin tx)) txs"

lemma spent_were_created:
  assumes "inputs_ok S tx utxos" and "replayed txs utxos" and "i \<in> set (vin tx)"
  shows "prevout i \<in> fst ` set (created txs)"
proof -
  from assms(3) obtain k where "k < length (vin tx)" "vin tx ! k = i" by (auto simp: in_set_conv_nth)
  then have "(k, i) \<in> set (List.enumerate 0 (vin tx))" by (simp add: in_set_enumerate_eq)
  with assms(1) obtain t where "utxo_find utxos (prevout i) = Some t"
    by (fastforce simp: inputs_ok_def list_all_iff input_ok_def split: option.splits)
  with assms(2) have "map_of (created txs) (prevout i) = Some t" by (auto simp: replayed_def split: if_splits)
  then show ?thesis by (metis fst_conv image_eqI map_of_SomeD)
qed

text \<open>The transactions replayed so far, their ledger, and that what they spent was theirs to spend.\<close>

definition replay_inv :: "Transaction list \<Rightarrow> UtxoSet \<Rightarrow> bool" where
  "replay_inv txs utxos \<longleftrightarrow> replayed txs utxos \<and>
     (\<forall>tx \<in> set txs. \<not> IsCoinbase tx \<longrightarrow> (\<forall>i \<in> set (vin tx). prevout i \<in> fst ` set (created txs)))"

lemma outpoints_unique_append:
  "outpoints_unique (xs @ ys) \<Longrightarrow> outpoints_unique xs"
  unfolding outpoints_unique_def created_append list_all_iff by simp blast

lemma spent_never_created_later:
  assumes "replay_inv txs utxos" and "outpoints_unique (txs @ [tx])" and "p \<in> set (spent txs)"
  shows "map_of (tx_outputs tx) p = None"
proof -
  from assms(3) obtain t i where t: "t \<in> set txs" "i \<in> set (vin t)" "p = prevout i"
    by (auto simp: spent_def)
  have cr: "created (txs @ [tx]) = created txs @ tx_outputs tx" by (simp add: created_def)
  have d: "fst ` set (created txs) \<inter> fst ` set (tx_outputs tx) = {}"
    using assms(2) by (simp add: outpoints_unique_def cr)
  have "p \<notin> fst ` set (tx_outputs tx)"
  proof (cases "IsCoinbase t")
    case True
    with t assms(2) have "p \<notin> fst ` (set (created txs) \<union> set (tx_outputs tx))"
      by (simp add: outpoints_unique_def cr list_all_iff)
    then show ?thesis by blast
  next
    case False
    with t assms(1) have "p \<in> fst ` set (created txs)" by (simp add: replay_inv_def)
    with d show ?thesis by blast
  qed
  then show ?thesis by (simp add: map_of_eq_None_iff)
qed

lemma replay_step:
  assumes inv: "replay_inv txs utxos" and uniq: "outpoints_unique (txs @ [tx])"
    and ins: "IsCoinbase tx \<or> inputs_ok S tx utxos"
  shows "replay_inv (txs @ [tx]) (add_outputs tx (if IsCoinbase tx then utxos else erase_inputs tx utxos))"
proof -
  let ?ps = "map prevout (vin tx)"
  have cr: "created (txs @ [tx]) = created txs @ tx_outputs tx" and sp: "spent (txs @ [tx]) = spent txs @ ?ps"
    by (simp_all add: created_def spent_def)
  have rep: "replayed txs utxos" using inv by (simp add: replay_inv_def)
  have d: "fst ` set (created txs) \<inter> fst ` set (tx_outputs tx) = {}"
    using uniq by (simp add: outpoints_unique_def cr)
  have own: "p \<in> fst ` set (created txs)" if "\<not> IsCoinbase tx" "p \<in> set ?ps" for p
    using spent_were_created [OF _ rep] ins that by auto
  have cb: "p \<notin> fst ` set (created txs)" "map_of (tx_outputs tx) p = None" if "IsCoinbase tx" "p \<in> set ?ps" for p
    using uniq that by (auto simp: outpoints_unique_def cr list_all_iff map_of_eq_None_iff)
  have "utxo_find (add_outputs tx (if IsCoinbase tx then utxos else erase_inputs tx utxos)) p
      = (if p \<in> set (spent (txs @ [tx])) then None else map_of (created (txs @ [tx])) p)" (is "?l = ?r") for p
  proof -
    consider (old) "p \<in> set (spent txs)" | (now) "p \<notin> set (spent txs)" "p \<in> set ?ps"
      | (other) "p \<notin> set (spent txs)" "p \<notin> set ?ps" by blast
    then show ?thesis
    proof cases
      case old
      with rep have "utxo_find utxos p = None" by (simp add: replayed_def)
      with old spent_never_created_later [OF inv uniq old] show ?thesis
        by (simp add: add_outputs_def erase_inputs_def utxos.find_fold_emplace utxos.find_fold_erase sp)
    next
      case now
      have "map_of (tx_outputs tx) p = None"
        using own [of p] cb [of p] now d by (cases "IsCoinbase tx") (auto simp: map_of_eq_None_iff)
      moreover have "utxo_find utxos p = None" if "IsCoinbase tx"
        using rep cb(1) [OF that now(2)] by (simp add: replayed_def map_of_eq_None_iff)
      ultimately show ?thesis using now
        by (simp add: add_outputs_def erase_inputs_def utxos.find_fold_emplace utxos.find_fold_erase sp)
    next
      case other
      with rep show ?thesis
        by (simp add: add_outputs_def erase_inputs_def utxos.find_fold_emplace utxos.find_fold_erase sp cr
            replayed_def map_add_def split: option.split)
    qed
  qed
  moreover have "prevout i \<in> fst ` set (created (txs @ [tx]))"
    if "t \<in> set (txs @ [tx])" "\<not> IsCoinbase t" "i \<in> set (vin t)" for t i
  proof (cases "t = tx")
    case True
    with own [of "prevout i"] that(2,3) show ?thesis by (auto simp: cr image_Un)
  next
    case False
    with that inv have "prevout i \<in> fst ` set (created txs)" by (auto simp: replay_inv_def)
    then show ?thesis by (simp add: cr image_Un)
  qed
  ultimately show ?thesis by (simp add: replay_inv_def replayed_def)
qed

lemma replay_txs:
  "full_chain_txs S rest utxos fees = Some (utxos', fees') \<Longrightarrow> replay_inv txs utxos \<Longrightarrow>
     outpoints_unique (txs @ rest) \<Longrightarrow> replay_inv (txs @ rest) utxos'"
proof (induction S rest utxos fees arbitrary: txs rule: full_chain_txs.induct)
  case (2 S tx rest utxos fees)
  let ?u = "add_outputs tx (if IsCoinbase tx then utxos else erase_inputs tx utxos)"
  let ?f = "fees + (if IsCoinbase tx then 0 else validate_and_get_fee S tx utxos)"
  have rest: "full_chain_txs S rest ?u ?f = Some (utxos', fees')" and
    ok: "IsCoinbase tx \<or> 0 \<le> sint (validate_and_get_fee S tx utxos)"
    using "2.prems"(1) by (auto simp: Let_def split: if_splits)
  have uniq: "outpoints_unique ((txs @ [tx]) @ rest)" using "2.prems"(3) by simp
  from ok have "IsCoinbase tx \<or> inputs_ok S tx utxos" using validate_fee_nonneg(1) by blast
  from replay_step [OF "2.prems"(2) outpoints_unique_append [OF uniq] this]
  have inv: "replay_inv (txs @ [tx]) ?u" .
  have "replay_inv ((txs @ [tx]) @ rest) utxos'"
  proof (cases "IsCoinbase tx")
    case True
    from "2.IH"(2) [of "txs @ [tx]"] True rest inv uniq show ?thesis by simp
  next
    case False
    from "2.IH"(1) [of _ "txs @ [tx]", OF _ refl] False ok rest inv uniq show ?thesis by simp
  qed
  then show ?case by simp
qed simp

lemma all_txs_snoc: "all_txs (chain @ [blk]) = all_txs chain @ vtx blk"
  by (simp add: all_txs_def)

lemma ledger_replayed:
  "ledger S chain utxos \<Longrightarrow> outpoints_unique (all_txs chain) \<Longrightarrow> replay_inv (all_txs chain) utxos"
proof (induction rule: ledger.induct)
  case ledger_Nil
  show ?case by (simp add: replay_inv_def replayed_def all_txs_def created_def spent_def)
next
  case (ledger_snoc chain utxos blk utxos')
  from ledger_snoc.prems have u: "outpoints_unique (all_txs chain @ vtx blk)" by (simp add: all_txs_snoc)
  from ledger_snoc.IH [OF outpoints_unique_append [OF u]] ledger_snoc.hyps(2) replay_txs [OF _ _ u]
  show ?case by (auto simp: block_valid_def all_txs_snoc)
qed

lemma replay_build_utxo_set:
  assumes "full_chain_txs S (all_txs chain) [] fees = Some (utxos, fees')" and "outpoints_unique (all_txs chain)"
  shows "utxo_find utxos p = utxo_find (build_utxo_set chain) p"
proof -
  have "replay_inv [] []" by (simp add: replay_inv_def replayed_def created_def spent_def)
  from replay_txs [OF assms(1) this] assms(2) show ?thesis
    by (simp add: replay_inv_def replayed_def build_utxo_set_find_lemma)
qed

lemma ledger_build_utxo_set:
  assumes "ledger S chain utxos" and "outpoints_unique (all_txs chain)"
  shows "utxo_find utxos p = utxo_find (build_utxo_set chain) p"
  using ledger_replayed [OF assms] by (simp add: replay_inv_def replayed_def build_utxo_set_find_lemma)

text \<open>C14: The two ways the node computes the unspent outputs agree: when the transactions of a chain pass
  the checks of \<open>validate_full_chain\<close> one after the other, no outpoint is created twice and no coinbase
  names an output of the chain, the set kept transaction by transaction holds the same entries as the
  one \<open>build_utxo_set\<close> builds in two passes.\<close>

theorem replay_is_utxo_set:
  assumes "full_chain_txs S (all_txs chain) [] fees = Some (utxos, fees')" and "outpoints_unique (all_txs chain)"
  shows "utxo_find utxos p = utxo_find (build_utxo_set chain) p"
  using assms by (rule replay_build_utxo_set)

definition sample_paid :: Transaction where
  "sample_paid = (sample_coinbase 5000)\<lparr>tx_hash := replicate 32 1,
     vout := [\<lparr>nValue = 5000, scriptPubKey = build_p2pkh_script_pubkey (address_of sample_wallet)\<rparr>]\<rparr>"

definition sample_chain :: "CBlock list" where
  "sample_chain = [sample_block\<lparr>vtx := [sample_paid, sample_spend [sample_in] [4000]]\<rparr>]"

lemma sample_chain_txs: "all_txs sample_chain = [sample_paid, sample_spend [sample_in] [4000]]"
  by (simp add: all_txs_def sample_chain_def)

lemma sample_paid_coinbase: "IsCoinbase sample_paid" "add_outputs sample_paid [] = sample_utxos"
  using sample_prevouts(2) [of 5000]
  by (simp_all add: IsCoinbase_def sample_paid_def add_outputs_def tx_outputs_def utxo_emplace_def sample_utxos_def)

lemma sample_chain_runs: "\<exists>utxos. full_chain_txs toy_secp (all_txs sample_chain) [] 0 = Some (utxos, 1000)"
  by (simp add: sample_chain_txs sample_paid_coinbase sample_prevouts sample_fee)

lemma sample_chain_unique: "outpoints_unique (all_txs sample_chain)"
  unfolding sample_chain_txs outpoints_unique_def using sample_prevouts(1)
  by (simp add: created_def tx_outputs_def sample_paid_def)
    (simp add: sample_spend_def sample_coinbase_def CTxIn_default_def COutPoint_null_def)

lemma replay_is_utxo_set_witness:
  "\<exists>utxos. full_chain_txs toy_secp (all_txs sample_chain) [] 0 = Some (utxos, 1000)
     \<and> utxo_find utxos (COutPoint (replicate 32 2) 0) = utxo_find (build_utxo_set sample_chain) (COutPoint (replicate 32 2) 0)"
  using sample_chain_runs replay_is_utxo_set [OF _ sample_chain_unique] by blast

lemma full_chain_txs_append:
  "full_chain_txs S (xs @ ys) u f = (case full_chain_txs S xs u f of None \<Rightarrow> None | Some (v, g) \<Rightarrow> full_chain_txs S ys v g)"
  by (induction S xs u f rule: full_chain_txs.induct) (auto simp: Let_def)

text \<open>The condition on coinbases is needed. \<open>IsCoinbase\<close> looks at the first input only, and neither validation
  looks at the inputs of a coinbase: a block whose coinbase names, as a further input, any unspent
  output of the chain passes the checks, the ledger of full validation keeps that output, and
  \<open>build_utxo_set\<close>, which the node validates and spends with, has lost it.\<close>

theorem coinbase_burns_output:
  assumes "full_chain_txs S (all_txs chain) [] fees = Some (utxos, fees')" and "outpoints_unique (all_txs chain)"
    and "utxo_find (build_utxo_set chain) p = Some t"
    and "vtx blk = [cb]" and "IsCoinbase cb" and "p \<in> set (map prevout (vin cb))"
  shows "\<exists>utxos'. full_chain_txs S (all_txs (chain @ [blk])) [] fees = Some (utxos', fees')
    \<and> utxo_find utxos' p = Some t \<and> utxo_find (build_utxo_set (chain @ [blk])) p = None"
proof -
  have "full_chain_txs S (all_txs (chain @ [blk])) [] fees = Some (add_outputs cb utxos, fees')"
    using assms(1,4,5) by (simp add: all_txs_snoc full_chain_txs_append)
  moreover have "utxo_find (add_outputs cb utxos) p = Some t"
    using replay_build_utxo_set [OF assms(1,2), of p] assms(3) by (simp add: find_add_outputs)
  moreover have "p \<in> set (spent (all_txs (chain @ [blk])))"
    using assms(4,6) by (auto simp: spent_def all_txs_snoc)
  ultimately show ?thesis by (simp add: build_utxo_set_find_lemma)
qed

lemma coinbase_burns_output_witness:
  "\<exists>blk p t utxos'. full_chain_txs toy_secp (all_txs (sample_chain @ [blk])) [] 0 = Some (utxos', 1000)
     \<and> utxo_find utxos' p = Some t \<and> utxo_find (build_utxo_set (sample_chain @ [blk])) p = None"
proof -
  let ?p = "COutPoint (replicate 32 2) 0"
  obtain utxos where run: "full_chain_txs toy_secp (all_txs sample_chain) [] 0 = Some (utxos, 1000)"
    using sample_chain_runs by blast
  obtain t where t: "utxo_find (build_utxo_set sample_chain) ?p = Some t"
    unfolding build_utxo_set_find_lemma sample_chain_txs
    by (simp add: spent_def created_def tx_outputs_def sample_paid_def sample_spend_def sample_coinbase_def sample_in_def
        CTxIn_default_def COutPoint_null_def mk_CTxIn_def)
  let ?cb = "(sample_coinbase 1)\<lparr>vin := vin (sample_coinbase 1) @ [mk_CTxIn ?p []]\<rparr>"
  have "IsCoinbase ?cb" using sample_prevouts(2) [of 1] by (simp add: IsCoinbase_def sample_coinbase_def)
  then show ?thesis
    using coinbase_burns_output [OF run sample_chain_unique t, of "sample_block\<lparr>vtx := [?cb]\<rparr>" ?cb] by (simp add: mk_CTxIn_def) blast
qed

section \<open>The two validations agree\<close>

text \<open>No transaction of a block names an output another one of it names (coinbases do not spend).\<close>

fun independent :: "Transaction list \<Rightarrow> bool" where
  "independent [] = True"
| "independent (tx # txs) \<longleftrightarrow>
     (IsCoinbase tx \<or> list_all (\<lambda>i. prevout i \<notin> set (spent (filter (\<lambda>t. \<not> IsCoinbase t) txs))) (vin tx))
     \<and> independent txs"

lemma inputs_ok_found:
  "inputs_ok S tx utxos \<Longrightarrow> i \<in> set (vin tx) \<Longrightarrow> \<exists>t. utxo_find utxos (prevout i) = Some t"
proof -
  assume ok: "inputs_ok S tx utxos" and "i \<in> set (vin tx)"
  then obtain k where "k < length (vin tx)" "vin tx ! k = i" by (auto simp: in_set_conv_nth)
  then have "(k, i) \<in> set (List.enumerate 0 (vin tx))" by (simp add: in_set_enumerate_eq)
  with ok show ?thesis by (fastforce simp: inputs_ok_def list_all_iff input_ok_def split: option.splits)
qed

lemma new_block_fees_inputs:
  "new_block_fees S U txs f = Some F \<Longrightarrow> tx \<in> set txs \<Longrightarrow> \<not> IsCoinbase tx \<Longrightarrow> inputs_ok S tx U"
  by (induction S U txs f rule: new_block_fees.induct)
    (auto simp: Let_def validate_fee_nonneg(1) split: if_splits)

lemma independent_full_chain_txs:
  "new_block_fees S U txs f = Some F \<Longrightarrow> independent txs \<Longrightarrow>
     \<forall>p \<in> set (spent (filter (\<lambda>t. \<not> IsCoinbase t) txs)). utxo_find u p = utxo_find U p \<Longrightarrow>
     \<exists>u'. full_chain_txs S txs u f = Some (u', F)"
proof (induction txs arbitrary: u f)
  case (Cons tx txs)
  have found: "\<exists>t. utxo_find U p = Some t" if "p \<in> set (spent (filter (\<lambda>t. \<not> IsCoinbase t) (tx # txs)))" for p
  proof -
    from that obtain t i where t: "t \<in> set (tx # txs)" "\<not> IsCoinbase t" "i \<in> set (vin t)" "p = prevout i"
      by (auto simp: spent_def split: if_splits)
    from inputs_ok_found [OF new_block_fees_inputs [OF Cons.prems(1) t(1,2)] t(3)] t(4) show ?thesis by simp
  qed
  have later: "set (spent (filter (\<lambda>t. \<not> IsCoinbase t) txs)) \<subseteq> set (spent (filter (\<lambda>t. \<not> IsCoinbase t) (tx # txs)))"
    by (auto simp: spent_def)
  show ?case
  proof (cases "IsCoinbase tx")
    case True
    have "\<forall>p \<in> set (spent (filter (\<lambda>t. \<not> IsCoinbase t) txs)). utxo_find (add_outputs tx u) p = utxo_find U p"
    proof
      fix p assume p: "p \<in> set (spent (filter (\<lambda>t. \<not> IsCoinbase t) txs))"
      with later found obtain t where "utxo_find U p = Some t" by blast
      with p later Cons.prems(3) show "utxo_find (add_outputs tx u) p = utxo_find U p"
        by (auto simp: find_add_outputs)
    qed
    with Cons.IH [OF _ _ this, of f] Cons.prems(1,2) True show ?thesis by simp
  next
    case False
    let ?fee = "validate_and_get_fee S tx U"
    have "\<forall>i \<in> set (vin tx). utxo_find u (prevout i) = utxo_find U (prevout i)"
      using Cons.prems(3) False by (auto simp: spent_def)
    from fee_cong [OF this, of S] have fee: "validate_and_get_fee S tx u = ?fee" .
    from Cons.prems(1) False have nn: "0 \<le> sint ?fee" and rest: "new_block_fees S U txs (f + ?fee) = Some F"
      by (auto simp: Let_def split: if_splits)
    have "\<forall>p \<in> set (spent (filter (\<lambda>t. \<not> IsCoinbase t) txs)).
        utxo_find (add_outputs tx (erase_inputs tx u)) p = utxo_find U p"
    proof
      fix p assume p: "p \<in> set (spent (filter (\<lambda>t. \<not> IsCoinbase t) txs))"
      with later found obtain t where "utxo_find U p = Some t" by blast
      moreover have "p \<notin> set (map prevout (vin tx))"
        using Cons.prems(2) False p by (auto simp: list_all_iff)
      ultimately show "utxo_find (add_outputs tx (erase_inputs tx u)) p = utxo_find U p"
        using p later Cons.prems(3) by (auto simp: find_add_outputs find_erase_inputs)
    qed
    from Cons.IH [OF rest _ this] Cons.prems(2) False nn fee show ?thesis by (simp add: Let_def)
  qed
qed simp

text \<open>C13: Two validations, one verdict, under two conditions. On a chain whose transactions pass the checks one
  after the other, and where no outpoint is created twice and no coinbase names an output of the chain,
  transactions that \<open>try_extend_chain\<close> accepts on top of it, no two of them naming the same output, pass
  the checks of \<open>validate_full_chain\<close> with the same fees. (Without the second condition they need not, see
  \<open>extend_accepts_double_spend\<close>.)\<close>

theorem extension_validates:
  assumes "full_chain_txs S (all_txs chain) [] fees = Some (utxos, fees')" and "outpoints_unique (all_txs chain)"
    and "new_block_fees S (build_utxo_set chain) txs 0 = Some fee_sum" and "independent txs"
  shows "\<exists>utxos'. full_chain_txs S txs utxos 0 = Some (utxos', fee_sum)"
  using independent_full_chain_txs [OF assms(3,4)] replay_build_utxo_set [OF assms(1,2)] by blast

lemma extension_validates_witness:
  "\<exists>utxos'. full_chain_txs toy_secp [sample_coinbase 1, sample_spend [sample_in] [4000]] sample_utxos 0 = Some (utxos', 1000)"
proof -
  let ?chain = "[sample_block\<lparr>vtx := [sample_paid]\<rparr>]"
  have txs: "all_txs ?chain = [sample_paid]" by (simp add: all_txs_def)
  have run: "full_chain_txs toy_secp (all_txs ?chain) [] 0 = Some (sample_utxos, 0)"
    by (simp add: txs sample_paid_coinbase)
  have uniq: "outpoints_unique (all_txs ?chain)"
    unfolding txs outpoints_unique_def
    by (simp add: created_def tx_outputs_def sample_paid_def sample_coinbase_def CTxIn_default_def COutPoint_null_def)
  have "utxo_find (build_utxo_set ?chain) p = utxo_find sample_utxos p" for p
    using replay_build_utxo_set [OF run uniq, of p] by simp
  then have "validate_and_get_fee toy_secp (sample_spend [sample_in] [4000]) (build_utxo_set ?chain) = 1000"
    using fee_cong [of _ "build_utxo_set ?chain" sample_utxos toy_secp] sample_fee(1) [of toy_secp] by metis
  then have "new_block_fees toy_secp (build_utxo_set ?chain) [sample_coinbase 1, sample_spend [sample_in] [4000]] 0 = Some 1000"
    by (simp add: sample_prevouts)
  moreover have "independent [sample_coinbase 1, sample_spend [sample_in] [4000]]"
    by (simp add: spent_def sample_prevouts list_all_iff)
  ultimately show ?thesis by (rule extension_validates [OF run uniq])
qed

text \<open>With the header rules, which the two functions share, an accepted block makes a chain that is valid.\<close>

lemma extends_ledger:
  assumes "ledger S chain utxos" and "outpoints_unique (all_txs chain)"
    and "extends S chain blk" and "independent (vtx blk)"
  shows "\<exists>utxos'. ledger S (chain @ [blk]) utxos'"
proof -
  from assms(3) have ex: "IsMerkleRootValid blk" "check_proof_of_work blk" "hashPrevBlock blk = tip_hash chain"
    "next_bits (extract_headers chain) = Inr (nBits blk)" "vtx blk \<noteq> []" "IsCoinbase (hd (vtx blk))"
    and fees: "new_block_fees S (build_utxo_set chain) (vtx blk) 0
      = Some (sum_outputs (vout (hd (vtx blk))) - calculate_block_reward (word_of_nat (length chain)))"
    by (auto simp: extends_def tip_hash_def next_bits_def extract_headers_def)
  from independent_full_chain_txs [OF fees assms(4), of utxos] ledger_build_utxo_set [OF assms(1,2)]
  obtain utxos' where "full_chain_txs S (vtx blk) utxos 0
      = Some (utxos', sum_outputs (vout (hd (vtx blk))) - calculate_block_reward (word_of_nat (length chain)))"
    by auto
  with ex have "block_valid S chain utxos blk utxos'" by (simp add: block_valid_def)
  with assms(1) show ?thesis by (blast intro: ledger_snoc)
qed

end
