(* ===== verification/Mined.thy ===== *)
theory Mined
  imports Compressions Chain_Ledger
begin

text \<open>
  A run of the program on concrete input, evaluated in the kernel: the chain \<open>--seed\<close> mines at one
  moment, and the next block mined on it. The double SHA-256 of each coinbase and each header is
  put together from the compressions of theory \<open>Compressions\<close>. The witnesses of the theorems on
  valid chains rest on these two blocks.
\<close>

section \<open>The hashes\<close>

text \<open>The bit lengths of the messages, cut to a byte.\<close>

lemma byte_literals: "(256 :: byte) = 0" "(640 :: byte) = 128" "(808 :: byte) = 40"
  by simp_all

lemma replicate_num: "replicate (numeral k) x = x # replicate (pred_numeral k) x"
  by (simp add: numeral_eq_Suc)

lemmas sha_run = hash256_def process_def finish_def Let_def get_hash_bytes_def init_def
  add_to_data_length_def write_data_bit_length_def mask_8bit_def
  replicate_num byte_literals

definition coinbase0_bytes :: bytes where
  "coinbase0_bytes =
    [1, 0, 0, 0, 1, 0, 0, 0, 0, 0, 0, 0, 0, 0, 0, 0, 0, 0, 0, 0, 0, 0, 0, 0, 0, 0, 0, 0, 0, 0, 0, 0,
     0, 0, 0, 0, 0, 0, 0, 0, 0xff, 0xff, 0xff, 0xff, 4, 0, 0, 0, 0, 0, 0, 0, 0xff, 0xff, 0xff, 0xff,
     1, 0, 0, 0, 0, 0xf2, 5, 0x2a, 1, 0, 0, 0, 0x19, 0, 0, 0, 0x76, 0xa9, 0x14, 0, 0, 0, 0, 0, 0, 0,
     0, 0, 0, 0, 0, 0, 0, 0, 0, 0, 0, 0, 0, 0x88, 0xac, 0, 0, 0, 0]"

definition coinbase0_hash :: bytes where
  "coinbase0_hash =
    [0x73, 0x95, 0xf3, 0x2b, 0x50, 0x2a, 0x67, 0xf0, 0x70, 0x98, 0x65, 0xe7, 0xa, 0xc2, 0xbf, 0x48,
     0xfc, 0x27, 0xea, 0xde, 0x72, 0x26, 0x62, 0xce, 0x45, 0x21, 0x25, 0xe7, 0xce, 0x71, 0xfa, 0x47]"

lemma coinbase0_first: "hash256 coinbase0_bytes =
    [0x8b, 0x8b, 0x5a, 0xbf, 0x6e, 0xdd, 0xdd, 0x17, 0xbf, 0x99, 0x59, 0xa3, 0xf9, 0xe0, 0xc, 0x2f,
     0x22, 5, 0x1c, 0xbb, 0x36, 0x77, 0x2a, 0xab, 0xeb, 0xbf, 0xe2, 0x2b, 0xaf, 0xa, 0x64, 0xaf]"
  unfolding coinbase0_bytes_def
  by (simp add: sha_run process_blocks.simps initial_message_digest_def compression_0 compression_1)

lemma coinbase0_double: "hash_double_sha256 coinbase0_bytes = coinbase0_hash"
  unfolding hash_double_sha256_def hash_sha256_def Let_def coinbase0_first coinbase0_hash_def
  by (simp add: sha_run process_blocks.simps initial_message_digest_def compression_2)

definition header0_bytes :: bytes where
  "header0_bytes =
    [1, 0, 0, 0, 0, 0, 0, 0, 0, 0, 0, 0, 0, 0, 0, 0, 0, 0, 0, 0, 0, 0, 0, 0, 0, 0, 0, 0, 0, 0, 0, 0,
     0, 0, 0, 0, 0x73, 0x95, 0xf3, 0x2b, 0x50, 0x2a, 0x67, 0xf0, 0x70, 0x98, 0x65, 0xe7, 0xa, 0xc2,
     0xbf, 0x48, 0xfc, 0x27, 0xea, 0xde, 0x72, 0x26, 0x62, 0xce, 0x45, 0x21, 0x25, 0xe7, 0xce, 0x71,
     0xfa, 0x47, 2, 0xf1, 0x53, 0x65, 0xff, 0xff, 0x7f, 0x20, 0, 0, 0, 0]"

definition header0_hash :: bytes where
  "header0_hash =
    [0x5d, 0x67, 0x42, 5, 0xf3, 0x70, 0x2f, 0x5e, 0x60, 0x1c, 0xdd, 0x35, 0x22, 0xe, 0x91, 0xc,
     0x9c, 0xbf, 0x5d, 0xff, 0x74, 0x92, 0x72, 0xc4, 0xf4, 0x80, 0x8e, 0x40, 0x90, 0xf1, 0xb1, 0x64]"

lemma header0_first: "hash256 header0_bytes =
    [0x64, 0x1d, 0x43, 0xe0, 0xd0, 0x5f, 0xe2, 0x20, 0xdc, 0x96, 0xd2, 0xed, 0xa4, 0xda, 0x9f, 0xe,
     0xd, 0xa, 0xf2, 0xad, 0x41, 0x3d, 0x9f, 0x39, 0x99, 0x80, 0x74, 0x66, 0x54, 0x28, 0xd, 0x23]"
  unfolding header0_bytes_def
  by (simp add: sha_run process_blocks.simps initial_message_digest_def compression_3 compression_4)

lemma header0_double: "hash_double_sha256 header0_bytes = header0_hash"
  unfolding hash_double_sha256_def hash_sha256_def Let_def header0_first header0_hash_def
  by (simp add: sha_run process_blocks.simps initial_message_digest_def compression_5)

definition coinbase1_bytes :: bytes where
  "coinbase1_bytes =
    [1, 0, 0, 0, 1, 0, 0, 0, 0, 0, 0, 0, 0, 0, 0, 0, 0, 0, 0, 0, 0, 0, 0, 0, 0, 0, 0, 0, 0, 0, 0, 0,
     0, 0, 0, 0, 0, 0, 0, 0, 0xff, 0xff, 0xff, 0xff, 4, 0, 0, 0, 1, 0, 0, 0, 0xff, 0xff, 0xff, 0xff,
     1, 0, 0, 0, 0, 0xf2, 5, 0x2a, 1, 0, 0, 0, 0x19, 0, 0, 0, 0x76, 0xa9, 0x14, 0, 0, 0, 0, 0, 0, 0,
     0, 0, 0, 0, 0, 0, 0, 0, 0, 0, 0, 0, 0, 0x88, 0xac, 0, 0, 0, 0]"

definition coinbase1_hash :: bytes where
  "coinbase1_hash =
    [0x37, 0x5b, 0xe9, 0x44, 0x61, 0x36, 0x3f, 0x92, 0xaa, 0xab, 0x16, 0xb8, 0x3c, 4, 0xc3, 0xc1,
     0x3c, 0x6b, 0xcc, 0xb0, 0x11, 0x8c, 0xc9, 0x15, 0x6f, 0xd1, 0xb4, 0x86, 0x14, 0xd6, 0xf3, 0xdb]"

lemma coinbase1_first: "hash256 coinbase1_bytes =
    [0x23, 0xcf, 0x97, 8, 0xd8, 0xf, 0xf8, 0x2f, 0xf, 0xf8, 0xc9, 0xa9, 0xcf, 0xf4, 0xbb, 0xae,
     0x1c, 0x59, 0x23, 0x3e, 0x15, 0xc9, 0xce, 0x9c, 8, 0x59, 0xdd, 0x20, 0x7f, 0x19, 0x89, 0x2b]"
  unfolding coinbase1_bytes_def
  by (simp add: sha_run process_blocks.simps initial_message_digest_def compression_6 compression_7)

lemma coinbase1_double: "hash_double_sha256 coinbase1_bytes = coinbase1_hash"
  unfolding hash_double_sha256_def hash_sha256_def Let_def coinbase1_first coinbase1_hash_def
  by (simp add: sha_run process_blocks.simps initial_message_digest_def compression_8)

definition header1_bytes :: bytes where
  "header1_bytes =
    [1, 0, 0, 0, 0x5d, 0x67, 0x42, 5, 0xf3, 0x70, 0x2f, 0x5e, 0x60, 0x1c, 0xdd, 0x35, 0x22, 0xe,
     0x91, 0xc, 0x9c, 0xbf, 0x5d, 0xff, 0x74, 0x92, 0x72, 0xc4, 0xf4, 0x80, 0x8e, 0x40, 0x90, 0xf1,
     0xb1, 0x64, 0x37, 0x5b, 0xe9, 0x44, 0x61, 0x36, 0x3f, 0x92, 0xaa, 0xab, 0x16, 0xb8, 0x3c, 4,
     0xc3, 0xc1, 0x3c, 0x6b, 0xcc, 0xb0, 0x11, 0x8c, 0xc9, 0x15, 0x6f, 0xd1, 0xb4, 0x86, 0x14, 0xd6,
     0xf3, 0xdb, 6, 0xf1, 0x53, 0x65, 0xff, 0xff, 0x7f, 0x20, 0, 0, 0, 0]"

definition header1_hash :: bytes where
  "header1_hash =
    [0x46, 0x2a, 0xcf, 0x72, 0xd4, 4, 0x52, 0xf9, 0x5d, 0xc6, 0x9b, 0xe, 0x66, 0x19, 0xfd, 0x25,
     0xf3, 0xb8, 0xd1, 0xdf, 0x28, 0x80, 0x1c, 0xb5, 0x3e, 9, 0xbf, 0xb8, 0xfc, 0x2f, 0x10, 0x69]"

lemma header1_first: "hash256 header1_bytes =
    [0xbc, 0x4c, 0x48, 0x6c, 0x16, 0x4a, 0xbd, 0x12, 0x6c, 0x46, 0xc, 0x54, 0xcd, 0x44, 0x58, 0x36,
     0xb3, 0x69, 0x12, 0xa2, 1, 0x1d, 0x80, 0x94, 0xcc, 0x2f, 0xfc, 0xcd, 0x95, 0x70, 0xa8, 0xb7]"
  unfolding header1_bytes_def
  by (simp add: sha_run process_blocks.simps initial_message_digest_def compression_9 compression_10)

lemma header1_double: "hash_double_sha256 header1_bytes = header1_hash"
  unfolding hash_double_sha256_def hash_sha256_def Let_def header1_first header1_hash_def
  by (simp add: sha_run process_blocks.simps initial_message_digest_def compression_11)
section \<open>The two blocks\<close>

text \<open>What \<open>--seed\<close> mines when the clock reads 1700000002, and the next block, mined at 1700000006 for the
  same placeholder address.\<close>

definition demo_genesis :: CBlock where
  "demo_genesis =
     \<lparr>nVersion = 1, hashPrevBlock = replicate 32 0, hashMerkleRoot = coinbase0_hash,
      nTime = 1700000002, nBits = INITIAL_BITS, nNonce = 0,
      vtx = [build_coinbase_tx (replicate 20 0) 0 0]\<rparr>"

definition demo_block :: CBlock where
  "demo_block =
     \<lparr>nVersion = 1, hashPrevBlock = header0_hash, hashMerkleRoot = coinbase1_hash,
      nTime = 1700000006, nBits = INITIAL_BITS, nNonce = 0,
      vtx = [build_coinbase_tx (replicate 20 0) 1 0]\<rparr>"

definition demo_coinbase :: "u32 \<Rightarrow> Transaction" where
  "demo_coinbase height =
     mk_Transaction 1 [CTxIn_default\<lparr>scriptSig := [ucast height, 0, 0, 0]\<rparr>]
       [\<lparr>nValue = 5000000000, scriptPubKey = build_p2pkh_script_pubkey (replicate 20 0)\<rparr>] 0"

lemma demo_coinbase_built:
  "build_coinbase_tx (replicate 20 0) 0 0 = set_hash (demo_coinbase 0)"
  "build_coinbase_tx (replicate 20 0) 1 0 = set_hash (demo_coinbase 1)"
  by (simp_all add: build_coinbase_tx_def demo_coinbase_def Let_def calculate_block_reward_def HALVING_INTERVAL_def
      INITIAL_REWARD_def)

lemmas serialize_ops = Transaction_Serialize_def CTxIn_Serialize_def CTxOut_Serialize_def COutPoint_Serialize_def
  write_var_int32_def write_uint_32LE_def write_uint_64LE_def write_bytes_def Let_def slice_def

lemma demo_coinbase_bytes:
  "Transaction_Serialize (demo_coinbase 0) = coinbase0_bytes"
  "Transaction_Serialize (demo_coinbase 1) = coinbase1_bytes"
  by (simp_all add: serialize_ops demo_coinbase_def mk_Transaction_def CTxIn_default_def COutPoint_null_def
      build_p2pkh_script_pubkey_def coinbase0_bytes_def coinbase1_bytes_def replicate_num
      OP_DUP_def OP_HASH160_def OP_EQUALVERIFY_def OP_CHECKSIG_def)

lemma demo_coinbase_hash:
  "tx_hash (build_coinbase_tx (replicate 20 0) 0 0) = coinbase0_hash"
  "tx_hash (build_coinbase_tx (replicate 20 0) 1 0) = coinbase1_hash"
  unfolding demo_coinbase_built
  by (simp_all add: set_hash_def Transaction_GetHash_def demo_coinbase_bytes coinbase0_double coinbase1_double)

lemma demo_header_bytes:
  "CBlockHeader_Serialize demo_genesis = header0_bytes"
  "CBlockHeader_Serialize demo_block = header1_bytes"
  by (simp_all add: CBlockHeader_Serialize_def serialize_ops demo_genesis_def demo_block_def INITIAL_BITS_def
      header0_bytes_def header1_bytes_def header0_hash_def coinbase0_hash_def coinbase1_hash_def replicate_num)

lemma demo_hash: "GetHash demo_genesis = header0_hash" "GetHash demo_block = header1_hash"
  by (simp_all add: GetHash_def demo_header_bytes header0_double header1_double)

lemma demo_pow: "check_proof_of_work demo_genesis" "check_proof_of_work demo_block"
  unfolding check_proof_of_work_def demo_hash
  by (simp_all add: demo_genesis_def demo_block_def INITIAL_BITS_def bits_to_target_def Let_def
      header0_hash_def header1_hash_def replicate_num)

section \<open>The program finds them\<close>

lemma mine_block_at_once:
  "check_proof_of_work (candidate h bits 0) \<Longrightarrow> mine_block h bits = Inr (candidate h bits 0)"
  unfolding mine_block_eq by (auto simp: Least_eq_0)

lemma root_of_one: "vtx blk = [tx] \<Longrightarrow> BuildMerkleRoot blk = tx_hash tx"
  by (simp add: BuildMerkleRoot_def merkle_loop.simps)

lemma build_next_block_at_once:
  assumes "next_bits headers = Inr bits"
    and "blk = \<lparr>nVersion = 1, hashPrevBlock = prev, hashMerkleRoot = tx_hash cb, nTime = now, nBits = bits,
      nNonce = 0, vtx = [cb]\<rparr>"
    and "cb = build_coinbase_tx a (word_of_nat (length headers)) 0" and "check_proof_of_work blk"
  shows "build_next_block now headers prev a 0 [] = Inr blk"
proof -
  let ?b = "\<lparr>nVersion = 1, hashPrevBlock = prev, hashMerkleRoot = tx_hash cb, nTime = now, nBits = 0,
      nNonce = 0, vtx = [cb]\<rparr>"
  have "candidate ?b bits 0 = blk" by (simp add: candidate_def assms(2))
  with mine_block_at_once [of ?b bits] assms(4) have "mine_block ?b bits = Inr blk" by simp
  then show ?thesis by (simp add: build_next_block_def assms(1) Let_def root_of_one flip: assms(3))
qed

lemma demo_seed: "build_genesis_chain 1700000002 (replicate 20 0) = Inr [demo_genesis]"
proof -
  have "build_next_block 1700000002 [] (replicate 32 0) (replicate 20 0) 0 [] = Inr demo_genesis"
    by (rule build_next_block_at_once [OF _ _ refl demo_pow(1)])
      (simp_all add: next_bits_def demo_genesis_def demo_coinbase_hash)
  then show ?thesis by (simp add: build_genesis_chain_def)
qed

lemma demo_next_bits: "next_bits (extract_headers [demo_genesis]) = Inr INITIAL_BITS"
  by (simp add: next_bits_def extract_headers_def get_next_work_required_def RETARGET_INTERVAL_def)
    (simp add: demo_genesis_def)

lemma demo_next:
  "build_next_block 1700000006 (extract_headers [demo_genesis]) (GetHash demo_genesis) (replicate 20 0) 0 [] = Inr demo_block"
  by (rule build_next_block_at_once [OF demo_next_bits _ refl demo_pow(2)])
    (simp add: demo_block_def demo_coinbase_hash extract_headers_def demo_hash)

lemma demo_genesis_ledger: "ledger S [demo_genesis] (add_outputs (build_coinbase_tx (replicate 20 0) 0 0) [])"
proof -
  have "block_valid S [] [] demo_genesis (add_outputs (build_coinbase_tx (replicate 20 0) 0 0) [])"
    using demo_pow(1)
    by (simp add: block_valid_def tip_hash_def extract_headers_def next_bits_def IsMerkleRootValid_def root_of_one
        build_coinbase_sel demo_coinbase_hash demo_genesis_def)
  from ledger_snoc [OF ledger_Nil this] show ?thesis by simp
qed

lemma demo_extends: "extends S [demo_genesis] demo_block"
proof -
  have bits: "get_next_work_required (extract_headers [demo_genesis]) RETARGET_INTERVAL TARGET_TIMESPAN_SECONDS
      = Inr INITIAL_BITS"
    using demo_next_bits by (simp add: next_bits_def extract_headers_def)
  have vtx: "vtx demo_block = [build_coinbase_tx (replicate 20 0) 1 0]" by (simp add: demo_block_def)
  have "new_block_fees S (build_utxo_set [demo_genesis]) (vtx demo_block) 0
      = Some (sum_outputs (vout (hd (vtx demo_block))) - calculate_block_reward (word_of_nat (length [demo_genesis])))"
    by (simp add: vtx build_coinbase_sel)
  moreover have "hashPrevBlock demo_block = header0_hash" "nBits demo_block = INITIAL_BITS" "IsMerkleRootValid demo_block"
    by (simp_all add: IsMerkleRootValid_def root_of_one vtx demo_coinbase_hash) (simp_all add: demo_block_def)
  ultimately show ?thesis using demo_pow(2) bits
    by (simp add: extends_def demo_hash vtx build_coinbase_sel)
qed

lemma demo_ledger: "\<exists>utxos. ledger S [demo_genesis, demo_block] utxos"
proof -
  let ?cb = "build_coinbase_tx (replicate 20 0) 1 0"
  let ?u = "add_outputs (build_coinbase_tx (replicate 20 0) 0 0) []"
  have "block_valid S [demo_genesis] ?u demo_block (add_outputs ?cb ?u)"
    using demo_extends [of S] demo_next_bits
    by (simp add: block_valid_def extends_def tip_hash_def demo_block_def build_coinbase_sel)
  from ledger_snoc [OF demo_genesis_ledger this] show ?thesis by auto
qed

lemma demo_valid: "validate_full_chain S [demo_genesis, demo_block] = Inr True"
  using demo_ledger by (simp add: validate_full_chain_ledger)

lemma demo_coinbase_wf: "wf_tx (set_hash (demo_coinbase h))"
  unfolding wf_tx_def
  by (simp add: demo_coinbase_def wf_defs mk_Transaction_def CTxIn_default_def COutPoint_null_def
      build_p2pkh_script_pubkey_def)

lemma demo_wf: "wf_block demo_genesis" "wf_block demo_block"
  using demo_coinbase_wf
  by (simp_all add: wf_block_def wf_header_def demo_genesis_def demo_block_def demo_coinbase_built
      coinbase0_hash_def coinbase1_hash_def header0_hash_def)

lemma bit_length_num:
  "bit_length 0 = 0" "bit_length (Suc 0) = 1" "bit_length (numeral (num.Bit0 k)) = Suc (bit_length (numeral k))"
  "bit_length (numeral (num.Bit1 k)) = Suc (bit_length (numeral k))" "bit_length (numeral num.One) = 1"
  by (subst bit_length.simps, simp add: bit_length.simps)+

lemmas f64_run = f64_round_def quantum_def log2_ratio_def round_even_def bit_length_num Let_def

lemma demo_mantissa: "f64_pow2 24 = F64 4503599627370496 (- 28)" "f64_of_nat 8388607 = F64 9007198180999168 (- 30)"
  by (simp_all add: f64_pow2_def f64_of_nat_def f64_run)

lemma demo_block_work: "calculate_block_work 0x207fffff = F64 4503600164241472 (- 51)"
  by (simp add: calculate_block_work_def demo_mantissa f64_run)

lemma demo_work:
  "f64_less (calculate_chain_work (extract_headers [demo_genesis]))
     (calculate_chain_work (extract_headers [demo_genesis, demo_block]))"
proof -
  have bits: "nBits demo_genesis = 0x207fffff" "nBits demo_block = 0x207fffff"
    by (simp_all add: demo_genesis_def demo_block_def INITIAL_BITS_def)
  show ?thesis by (simp add: calculate_chain_work_def extract_headers_def bits demo_block_work f64_run)
qed

end
