(* ===== verification/Commands.thy ===== *)
theory Commands
  imports Dialogue Mined
begin

text \<open>
  The one-shot commands of \<open>include/network/node.h\<close>: \<open>run_listener\<close>, \<open>run_connector\<close>,
  \<open>run_send_tx\<close>, \<open>run_receive_tx\<close>, with the loaders they share. The clock at mining and what
  \<open>fill_random\<close> delivered for a fresh wallet are arguments.
\<close>

section \<open>Loading\<close>

definition load_or_create_chain :: "u32 \<Rightarrow> string \<Rightarrow> bytes \<Rightarrow> CBlock list io" where
  "load_or_create_chain now chain_path reward_address =
     io_catch (io_read (\<lambda>d. load_chain d chain_path))
       (io_lift (build_genesis_chain now reward_address))"

definition load_or_create_wallet :: "secp256k1 \<Rightarrow> bytes option \<Rightarrow> string \<Rightarrow> Wallet io" where
  "load_or_create_wallet S random wallet_path =
     io_catch
       (io_bind (io_read (\<lambda>d. read_file d wallet_path)) (\<lambda>buffer.
        if length buffer \<noteq> 32
        then io_lift (Inl (Runtime_error ''load_or_create_wallet: unexpected wallet file size''))
        else io_lift (FromSeckey S buffer)))
       (io_bind (io_lift (Wallet_new S random)) (\<lambda>w.
        io_bind (io_write (\<lambda>d. write_file d wallet_path (seckey_of w))) (\<lambda>_.
        io_return w)))"

definition load_mempool_or_empty :: "string \<Rightarrow> Transaction list io" where
  "load_mempool_or_empty mempool_path =
     io_catch (io_read (\<lambda>d. load_mempool d mempool_path)) (io_return [])"

section \<open>run\_listener\<close>

text \<open>From the mempool to the saved chain: the new block and the chain it ends.\<close>

definition mine_on_tip ::
    "secp256k1 \<Rightarrow> u32 \<Rightarrow> string \<Rightarrow> bytes \<Rightarrow> CBlock list \<Rightarrow> (CBlock \<times> CBlock list) io" where
  "mine_on_tip S now chain_path reward_address chain =
     (let utxo_set = build_utxo_set chain in
      io_bind (load_mempool_or_empty (chain_path @ ''.mempool'')) (\<lambda>mempool.
      (let (extra_txs, total_fees) = select_mempool S mempool utxo_set [] 0 in
      io_bind (io_lift (chain_back chain)) (\<lambda>tip.
      io_bind (io_lift (build_next_block now (extract_headers chain) (GetHash tip) reward_address total_fees extra_txs)) (\<lambda>new_block.
      (let chain = chain @ [new_block] in
      io_bind (io_write (save_chain chain chain_path)) (\<lambda>_.
      io_bind (io_write (save_mempool [] (chain_path @ ''.mempool''))) (\<lambda>_.
      io_return (new_block, chain)))))))))"

text \<open>The handshake of the accepting side.\<close>

definition server_handshake :: "'a io \<Rightarrow> 'a io \<Rightarrow> 'a io" where
  "server_handshake f refuse =
     expect cmd_VERSION (\<lambda>_.
       io_bind (peer_send cmd_VERSION build_version_payload) (\<lambda>_.
       expect cmd_VERACK (\<lambda>_.
         io_bind (peer_send cmd_VERACK []) (\<lambda>_. f))
         refuse))
       refuse"

lemma Peer_Receive_shorter:
  "Peer_Receive c = Inr (Some msg, c') \<Longrightarrow> length (inbox c') < length (inbox c)"
  using receive_message_total [of c]
  by (auto simp: Peer_Receive_def frame_header_def)

lemma Peer_Send_inbox [simp]: "inbox (snd (Peer_Send c cmd payload)) = inbox c"
proof -
  obtain ok c' where "send_loop c (message_bytes cmd payload) 0 = (ok, c')" by fastforce
  with send_loop_result [OF _ this] show ?thesis
    by (auto simp: Peer_Send_def send_message_def send_all_def)
qed

text \<open>The serving loop; every turn takes a message off the stream.\<close>

function serve_loop :: "CBlock \<Rightarrow> CBlock list \<Rightarrow> unit io" where
  "serve_loop new_block chain w =
     (case Peer_Receive (w_peer w) of
        Inl e \<Rightarrow> (Inl e, w)
      | Inr (None, c) \<Rightarrow> (Inr (), w\<lparr>w_peer := c\<rparr>)
      | Inr (Some msg, c) \<Rightarrow>
          if m_command msg = cmd_GETDATA
          then serve_loop new_block chain (w\<lparr>w_peer := snd (Peer_Send c cmd_BLOCK (CBlock_Serialize new_block))\<rparr>)
          else if m_command msg = cmd_GETBLOCKS
          then serve_loop new_block chain (w\<lparr>w_peer := snd (Peer_Send c cmd_CHAIN (serialize_chain chain))\<rparr>)
          else (Inr (), w\<lparr>w_peer := c\<rparr>))"
  by pat_completeness auto
termination
  by (relation "measure (\<lambda>(_, _, w). length (inbox (w_peer w)))") (auto dest!: Peer_Receive_shorter)

declare serve_loop.simps [simp del]

text \<open>What follows \<open>accept_connection\<close>, in the scope of the \<open>Peer\<close>.\<close>

definition listener_talk :: "CBlock \<Rightarrow> CBlock list \<Rightarrow> unit io" where
  "listener_talk new_block chain =
     server_handshake
       (io_bind (peer_send cmd_INV (GetHash new_block)) (\<lambda>_.
        io_bind (serve_loop new_block chain) (\<lambda>_.
        close_socket)))
       close_socket"

definition run_listener :: "secp256k1 \<Rightarrow> os \<Rightarrow> u32 \<Rightarrow> bytes option \<Rightarrow> u16 \<Rightarrow> string \<Rightarrow> unit io" where
  "run_listener S E now random port chain_path =
     io_bind (load_or_create_wallet S random (chain_path @ ''.wallet'')) (\<lambda>my_wallet.
     io_bind (load_or_create_chain now chain_path (address_of my_wallet)) (\<lambda>chain.
     io_bind (mine_on_tip S now chain_path (address_of my_wallet) chain) (\<lambda>(new_block, chain).
     io_bind (create_listener E port) (\<lambda>_.
     io_bind (accept_connection E) (\<lambda>_.
     with_peer (listener_talk new_block chain))))))"

section \<open>run\_connector\<close>

text \<open>The handshake of the connecting side.\<close>

definition client_handshake :: "unit io \<Rightarrow> unit io" where
  "client_handshake f =
     io_bind (peer_send cmd_VERSION build_version_payload) (\<lambda>_.
     expect cmd_VERSION (\<lambda>_.
       io_bind (peer_send cmd_VERACK []) (\<lambda>_.
       expect cmd_VERACK (\<lambda>_. f) (io_return ())))
       (io_return ()))"

text \<open>The loop over the transactions of the received block: the fees summed before the first invalid one,
  and whether there was none.\<close>

fun fee_loop :: "secp256k1 \<Rightarrow> UtxoSet \<Rightarrow> Transaction list \<Rightarrow> i64 \<Rightarrow> i64 \<times> bool" where
  "fee_loop S utxo_set [] total_fees = (total_fees, True)"
| "fee_loop S utxo_set (tx # txs) total_fees =
     (if IsCoinbase tx then fee_loop S utxo_set txs total_fees
      else
        (let fee = validate_and_get_fee S tx utxo_set in
         if sint fee < 0 then (total_fees, False)
         else fee_loop S utxo_set txs (total_fees + fee)))"

record block_checks =
  merkle_ok :: bool
  pow_ok :: bool
  links_to_tip :: bool
  bits_ok :: bool
  txs_ok :: bool
  coinbase_ok :: bool

definition check_block :: "secp256k1 \<Rightarrow> CBlock list \<Rightarrow> CBlock \<Rightarrow> block_checks result" where
  "check_block S chain received_block =
     rbind (chain_back chain) (\<lambda>tip.
     (let my_tip_hash = GetHash tip in
     rbind (get_next_work_required (extract_headers chain) RETARGET_INTERVAL TARGET_TIMESPAN_SECONDS) (\<lambda>expected_bits.
     (let expected_height = word_of_nat (length chain);
          utxo_set = build_utxo_set chain;
          (total_fees, txs_fine) = fee_loop S utxo_set (vtx received_block) 0;
          coinbase_fine =
            (if vtx received_block \<noteq> [] \<and> IsCoinbase (hd (vtx received_block))
             then sum_outputs (vout (hd (vtx received_block))) = calculate_block_reward expected_height + total_fees
             else False)
      in Inr \<lparr>merkle_ok = IsMerkleRootValid received_block,
              pow_ok = check_proof_of_work received_block,
              links_to_tip = (hashPrevBlock received_block = my_tip_hash),
              bits_ok = (nBits received_block = expected_bits),
              txs_ok = txs_fine,
              coinbase_ok = coinbase_fine\<rparr>))))"

text \<open>What \<open>run_connector\<close> decides about a peer's chain: \<open>Some\<close> chain to save, or none.\<close>

definition compare_chains :: "secp256k1 \<Rightarrow> CBlock list \<Rightarrow> CBlock list \<Rightarrow> bool result" where
  "compare_chains S chain peer_chain =
     (let same_genesis = (peer_chain \<noteq> [] \<and> GetHash (hd peer_chain) = GetHash (hd chain)) in
      rbind (if same_genesis then validate_full_chain S peer_chain else Inr False) (\<lambda>peer_chain_valid.
      (let my_work = calculate_chain_work (extract_headers chain);
           peer_work = (if peer_chain_valid then calculate_chain_work (extract_headers peer_chain) else F64 0 0)
       in Inr (peer_chain_valid \<and> f64_less my_work peer_work))))"

definition connector_reorg :: "secp256k1 \<Rightarrow> string \<Rightarrow> CBlock list \<Rightarrow> unit io" where
  "connector_reorg S chain_path chain =
     io_bind (peer_send cmd_GETBLOCKS []) (\<lambda>_.
     expect cmd_CHAIN (\<lambda>payload.
       io_bind (io_lift (deserialize_chain payload)) (\<lambda>peer_chain.
       io_bind (io_lift (compare_chains S chain peer_chain)) (\<lambda>switch.
       if switch then io_write (save_chain peer_chain chain_path) else io_return ())))
       (io_return ()))"

definition connector_block :: "secp256k1 \<Rightarrow> string \<Rightarrow> CBlock list \<Rightarrow> bytes \<Rightarrow> unit io" where
  "connector_block S chain_path chain payload =
     io_bind (io_lift (CBlock_Deserialize payload 0)) (\<lambda>(received_block, _).
     io_bind (io_lift (check_block S chain received_block)) (\<lambda>c.
     if merkle_ok c \<and> pow_ok c \<and> links_to_tip c \<and> bits_ok c \<and> txs_ok c \<and> coinbase_ok c
     then io_write (save_chain (chain @ [received_block]) chain_path)
     else if merkle_ok c \<and> pow_ok c \<and> \<not> links_to_tip c
     then connector_reorg S chain_path chain
     else io_return ()))"

text \<open>The loading that three commands share: on a \<open>std::exception\<close> they log an error and return.\<close>

definition with_chain :: "string \<Rightarrow> (CBlock list \<Rightarrow> unit io) \<Rightarrow> unit io" where
  "with_chain chain_path f =
     io_bind (io_catch (io_bind (io_read (\<lambda>d. load_chain d chain_path)) (\<lambda>chain. io_return (Some chain)))
       (io_return None)) (\<lambda>loaded.
     case loaded of None \<Rightarrow> io_return () | Some chain \<Rightarrow> f chain)"

text \<open>What follows \<open>connect_to\<close>, in the scope of the \<open>Peer\<close>.\<close>

definition connector_talk :: "secp256k1 \<Rightarrow> string \<Rightarrow> CBlock list \<Rightarrow> unit io" where
  "connector_talk S chain_path chain =
     client_handshake
       (expect cmd_INV (\<lambda>announced.
          io_bind (peer_send cmd_GETDATA announced) (\<lambda>_.
          expect cmd_BLOCK (connector_block S chain_path chain) (io_return ())))
          (io_return ()))"

definition run_connector :: "secp256k1 \<Rightarrow> os \<Rightarrow> string \<Rightarrow> u16 \<Rightarrow> string \<Rightarrow> unit io" where
  "run_connector S E host port chain_path =
     with_chain chain_path (\<lambda>chain.
     io_bind (connect_to E host port) (\<lambda>_.
     with_peer (connector_talk S chain_path chain)))"

section \<open>run\_send\_tx and run\_receive\_tx\<close>

definition run_send_tx ::
    "secp256k1 \<Rightarrow> os \<Rightarrow> bytes option \<Rightarrow> string \<Rightarrow> u16 \<Rightarrow> string \<Rightarrow> bytes \<Rightarrow> i64 \<Rightarrow> unit io" where
  "run_send_tx S E random host port chain_path recipient_address amount =
     io_bind (load_or_create_wallet S random (chain_path @ ''.wallet'')) (\<lambda>my_wallet.
     with_chain chain_path (\<lambda>chain.
     (let my_utxos = filter_utxos_by_address (build_utxo_set chain) (address_of my_wallet) in
      io_bind (io_catch
        (io_bind (io_lift (CreateTransaction S my_wallet my_utxos recipient_address amount DEFAULT_FEE)) (\<lambda>tx.
         io_return (Some tx)))
        (io_return None)) (\<lambda>built.
      case built of
        None \<Rightarrow> io_return ()
      | Some tx \<Rightarrow>
          io_bind (connect_to E host port) (\<lambda>_.
          with_peer (client_handshake
            (io_bind (peer_send cmd_TX (Transaction_Serialize tx)) (\<lambda>_. io_return ()))))))))"

definition receive_tx_payload :: "secp256k1 \<Rightarrow> string \<Rightarrow> UtxoSet \<Rightarrow> bytes \<Rightarrow> unit io" where
  "receive_tx_payload S chain_path utxo_set payload =
     io_bind (io_lift (Transaction_Deserialize payload 0)) (\<lambda>(tx, _).
     (let fee = (if IsCoinbase tx then - 1 else validate_and_get_fee S tx utxo_set);
          valid = (sint fee \<ge> 0) in
     io_bind (load_mempool_or_empty (chain_path @ ''.mempool'')) (\<lambda>mempool.
     io_bind
       (if valid \<and> length mempool \<ge> MAX_MEMPOOL_SIZE then io_return ()
        else if valid then io_write (save_mempool (mempool @ [tx]) (chain_path @ ''.mempool''))
        else io_return ()) (\<lambda>_.
     close_socket))))"

definition run_receive_tx :: "secp256k1 \<Rightarrow> os \<Rightarrow> u16 \<Rightarrow> string \<Rightarrow> unit io" where
  "run_receive_tx S E port chain_path =
     with_chain chain_path (\<lambda>chain.
     (let utxo_set = build_utxo_set chain in
      io_bind (create_listener E port) (\<lambda>_.
      io_bind (accept_connection E) (\<lambda>_.
      with_peer (server_handshake
        (expect cmd_TX (receive_tx_payload S chain_path utxo_set) close_socket)
        close_socket)))))"

section \<open>The connector decides as the daemon does\<close>

definition all_ok :: "block_checks \<Rightarrow> bool" where
  "all_ok c \<longleftrightarrow> merkle_ok c \<and> pow_ok c \<and> links_to_tip c \<and> bits_ok c \<and> txs_ok c \<and> coinbase_ok c"

lemma fee_loop_eq: "new_block_fees S u txs f = (case fee_loop S u txs f of (F, ok) \<Rightarrow> if ok then Some F else None)"
  by (induction S u txs f rule: fee_loop.induct) (auto simp: Let_def split: prod.splits)

lemma check_block_all_ok:
  "(\<exists>c. check_block S chain blk = Inr c \<and> all_ok c) \<longleftrightarrow> extends S chain blk"
proof (cases "chain \<noteq> [] \<and> (\<exists>bits. get_next_work_required (extract_headers chain) RETARGET_INTERVAL TARGET_TIMESPAN_SECONDS = Inr bits)")
  case False
  then show ?thesis
    by (cases "get_next_work_required (extract_headers chain) RETARGET_INTERVAL TARGET_TIMESPAN_SECONDS")
      (auto simp: check_block_def extends_def chain_back_def)
next
  case True
  then obtain bits where bits: "chain \<noteq> []"
    "get_next_work_required (extract_headers chain) RETARGET_INTERVAL TARGET_TIMESPAN_SECONDS = Inr bits" by blast
  obtain F ok where fees: "fee_loop S (build_utxo_set chain) (vtx blk) 0 = (F, ok)" by fastforce
  let ?paid = "sum_outputs (vout (hd (vtx blk)))" and ?r = "calculate_block_reward (word_of_nat (length chain))"
  have "?paid = ?r + F \<longleftrightarrow> F = ?paid - ?r" by (auto simp: algebra_simps)
  with bits fees show ?thesis
    by (auto simp: check_block_def extends_def chain_back_def all_ok_def fee_loop_eq)
qed

lemma compare_chains_eq:
  assumes "chain \<noteq> []"
  shows "compare_chains S chain peer = rbind (try_reorg S chain peer) (\<lambda>(switched, _). Inr switched)"
  using assms
  by (cases "validate_full_chain S peer") (auto simp: compare_chains_def try_reorg_def Let_def)

text \<open>C23: \<open>run_connector\<close> writes out its own copy of the rules of \<open>try_extend_chain\<close> and \<open>try_reorg\<close>, with
  all six checks made up front, and the two copies agree: it accepts exactly the blocks
  \<open>try_extend_chain\<close> accepts and switches exactly when \<open>try_reorg\<close> does.\<close>

theorem connector_agrees_with_daemon:
  "((\<exists>c. check_block S chain blk = Inr c \<and> all_ok c)
      \<longleftrightarrow> try_extend_chain S chain blk = Inr (True, chain @ [blk]))
   \<and> compare_chains S (genesis # rest) peer
      = rbind (try_reorg S (genesis # rest) peer) (\<lambda>(switched, _). Inr switched)"
  using check_block_all_ok try_extend_chain_true [of S chain blk "chain @ [blk]"] compare_chains_eq by simp

section \<open>What a peer can make a command do\<close>

text \<open>The chains a node may move to from \<open>chain\<close>: one more block, or a valid heavier chain of the same
  genesis.\<close>

definition may_follow :: "secp256k1 \<Rightarrow> CBlock list \<Rightarrow> CBlock list \<Rightarrow> bool" where
  "may_follow S chain chain' \<longleftrightarrow>
     (\<exists>blk. extends S chain blk \<and> chain' = chain @ [blk])
     \<or> try_reorg S chain chain' = Inr (True, chain')"

text \<open>The disks \<open>run_connector\<close> may leave when it started with \<open>d\<close>.\<close>

definition connector_result :: "secp256k1 \<Rightarrow> string \<Rightarrow> disk \<Rightarrow> disk \<Rightarrow> bool" where
  "connector_result S chain_path d d' \<longleftrightarrow> d' = d \<or>
     (\<exists>chain chain'. load_chain d chain_path = Inr chain \<and> may_follow S chain chain'
        \<and> save_chain chain' chain_path d = Inr d')"

abbreviation disk_is :: "disk \<Rightarrow> world \<Rightarrow> bool" where
  "disk_is d w \<equiv> w_disk w = d"

lemma disk_only_is [simp]: "disk_only (disk_is d)"
  by (simp add: disk_only_def)

lemma connector_result_refl: "disk_is d w \<Longrightarrow> connector_result S p d (w_disk w)"
  by (simp add: connector_result_def)

lemma save_chain_leads:
  assumes "load_chain d p = Inr chain" and "may_follow S chain chain'"
  shows "leads (disk_is d) (io_write (save_chain chain' p)) (\<lambda>w. connector_result S p d (w_disk w))"
  by (rule leads_write) (use assms in \<open>auto simp: connector_result_def\<close>)

lemma compare_chains_follow:
  "chain \<noteq> [] \<Longrightarrow> compare_chains S chain peer = Inr True \<Longrightarrow> may_follow S chain peer"
  using try_reorg_cases [of S chain peer True]
  by (auto simp: compare_chains_eq rbind_eq_Inr_iff may_follow_def)

lemma connector_reorg_leads:
  assumes "load_chain d p = Inr chain" and "chain \<noteq> []"
  shows "leads (disk_is d) (connector_reorg S p chain) (\<lambda>w. connector_result S p d (w_disk w))"
proof -
  have "leads (disk_is d) (if switch then io_write (save_chain peer p) else io_return ())
      (\<lambda>w. connector_result S p d (w_disk w))" if "compare_chains S chain peer = Inr switch" for peer switch
    using save_chain_leads [OF assms(1)] compare_chains_follow [OF assms(2)] that
    by (cases switch) (simp_all add: leads_same(1) connector_result_refl)
  then have body: "leads (disk_is d) (io_bind (io_lift (deserialize_chain payload)) (\<lambda>peer.
      io_bind (io_lift (compare_chains S chain peer)) (\<lambda>switch.
      if switch then io_write (save_chain peer p) else io_return ())))
      (\<lambda>w. connector_result S p d (w_disk w))" for payload
    by (intro leads_bind_lift) (assumption | erule connector_result_refl)+
  show ?thesis
    unfolding connector_reorg_def
    by (rule body leads_send leads_expect leads_same connector_result_refl disk_only_disk | assumption)+
qed

lemma check_block_nonempty: "check_block S chain blk = Inr c \<Longrightarrow> chain \<noteq> []"
  by (auto simp: check_block_def chain_back_def)

lemma connector_block_leads:
  assumes "load_chain d p = Inr chain"
  shows "leads (disk_is d) (connector_block S p chain payload) (\<lambda>w. connector_result S p d (w_disk w))"
proof -
  have "leads (disk_is d)
      (if merkle_ok c \<and> pow_ok c \<and> links_to_tip c \<and> bits_ok c \<and> txs_ok c \<and> coinbase_ok c
       then io_write (save_chain (chain @ [blk]) p)
       else if merkle_ok c \<and> pow_ok c \<and> \<not> links_to_tip c then connector_reorg S p chain else io_return ())
      (\<lambda>w. connector_result S p d (w_disk w))" if c: "check_block S chain blk = Inr c" for c blk
  proof (intro leads_if)
    assume "merkle_ok c \<and> pow_ok c \<and> links_to_tip c \<and> bits_ok c \<and> txs_ok c \<and> coinbase_ok c"
    with c have "extends S chain blk" unfolding check_block_all_ok [symmetric] all_ok_def by blast
    then show "leads (disk_is d) (io_write (save_chain (chain @ [blk]) p)) (\<lambda>w. connector_result S p d (w_disk w))"
      by (intro save_chain_leads [OF assms]) (simp add: may_follow_def)
  qed (auto intro: connector_reorg_leads [OF assms check_block_nonempty [OF c]] leads_same(1) connector_result_refl)
  then show ?thesis
    unfolding connector_block_def
    by (intro leads_bind_lift) (auto intro!: leads_bind_lift connector_result_refl split: prod.split)
qed

lemma with_chain_leads:
  assumes "\<And>chain. load_chain d p = Inr chain \<Longrightarrow> leads (disk_is d) (f chain) Q" and "\<And>w. disk_is d w \<Longrightarrow> Q w"
  shows "leads (disk_is d) (with_chain p f) Q"
  using assms by (auto simp: leads_def with_chain_def io_bind_def io_catch_def split: sum.split prod.split)

lemma run_connector_leads:
  "leads (disk_is d) (run_connector S E host port p) (\<lambda>w. connector_result S p d (w_disk w))"
  unfolding run_connector_def connector_talk_def client_handshake_def
  by (rule connector_block_leads with_chain_leads leads_connect leads_with_peer leads_send leads_expect leads_same
      connector_result_refl disk_only_disk | assumption)+

lemma balanced_client_handshake: "balanced f 0 \<Longrightarrow> balanced (client_handshake f) 0"
  unfolding client_handshake_def by (intro balanced_bind balanced_expect balanced_basic)

lemma run_connector_balanced: "balanced (run_connector S E host port p) 0"
proof -
  have "balanced (connector_block S p chain payload) 0" for chain payload
    unfolding connector_block_def connector_reorg_def
    by (intro balanced_bind balanced_basic) (auto intro!: balanced_bind balanced_expect balanced_basic split: prod.split)
  then have c: "balanced (io_bind (connect_to E host port) (\<lambda>_. with_peer (connector_talk S p chain))) 0" for chain
    unfolding connector_talk_def
    by (intro balanced_connected balanced_client_handshake balanced_expect balanced_bind balanced_basic)
  show ?thesis
    unfolding run_connector_def with_chain_def
    by (intro balanced_bind balanced_catch balanced_basic) (auto intro: c balanced_basic split: option.split)
qed

text \<open>C21: Whatever the peer sends to \<open>run_connector\<close>, and whether it returns or throws, the disk afterwards
  is the disk before, or the chain file holds a chain the rules allow: the loaded chain with one block
  that extends it, or a fully valid chain with the same genesis and strictly more work. No socket
  stays open.\<close>

theorem run_connector_safe:
  "connector_result S chain_path (w_disk w) (w_disk (snd (run_connector S E host port chain_path w)))
   \<and> w_sockets (snd (run_connector S E host port chain_path w)) = w_sockets w"
  using leadsD [OF run_connector_leads, of w "w_disk w"] balancedD [OF run_connector_balanced, of S E host port chain_path w]
  by simp

section \<open>Listener and connector talk\<close>

definition connector_requests :: "CBlock \<Rightarrow> bytes" where
  "connector_requests blk =
     message_bytes cmd_VERSION build_version_payload @ message_bytes cmd_VERACK []
     @ message_bytes cmd_GETDATA (GetHash blk)"

definition listener_replies :: "CBlock \<Rightarrow> bytes" where
  "listener_replies blk =
     message_bytes cmd_VERSION build_version_payload @ message_bytes cmd_VERACK []
     @ message_bytes cmd_INV (GetHash blk) @ message_bytes cmd_BLOCK (CBlock_Serialize blk)"

lemma small_payloads [simp]:
  "length build_version_payload \<le> unat MAX_PAYLOAD_SIZE" "length (GetHash blk) \<le> unat MAX_PAYLOAD_SIZE"
  by (simp_all add: build_version_payload_def write_uint_32LE_eq MAX_PAYLOAD_SIZE_def GetHash_def)

lemma causal_server_handshake [causal_intros]: "causal f \<Longrightarrow> causal refuse \<Longrightarrow> causal (server_handshake f refuse)"
  unfolding server_handshake_def by (intro causal_intros)

lemma causal_client_handshake [causal_intros]: "causal f \<Longrightarrow> causal (client_handshake f)"
  unfolding client_handshake_def by (intro causal_intros)

lemma causal_with_chain [causal_intros]: "(\<And>chain. causal (f chain)) \<Longrightarrow> causal (with_chain p f)"
  unfolding with_chain_def by (intro causal_intros)

text \<open>One turn of the serving loop; \<open>False\<close> ends it.\<close>

definition serve_turn :: "CBlock \<Rightarrow> CBlock list \<Rightarrow> bool io" where
  "serve_turn new_block chain =
     io_bind peer_receive (\<lambda>m.
     case m of
       None \<Rightarrow> io_return False
     | Some msg \<Rightarrow>
         if m_command msg = cmd_GETDATA
         then io_bind (peer_send cmd_BLOCK (CBlock_Serialize new_block)) (\<lambda>_. io_return True)
         else if m_command msg = cmd_GETBLOCKS
         then io_bind (peer_send cmd_CHAIN (serialize_chain chain)) (\<lambda>_. io_return True)
         else io_return False)"

lemma serve_loop_turns:
  "serve_loop blk chain = io_bind (serve_turn blk chain) (\<lambda>go. if \<not> go then io_return () else serve_loop blk chain)"
proof
  fix w :: world
  obtain m c where "Peer_Receive (w_peer w) = Inr (m, c)" using Peer_Receive_Inr by blast
  then show "serve_loop blk chain w
      = io_bind (serve_turn blk chain) (\<lambda>go. if \<not> go then io_return () else serve_loop blk chain) w"
    by (subst serve_loop.simps)
      (simp add: serve_turn_def io_bind_def peer_receive_def peer_send_def case_prod_beta split: option.split)
qed

lemma serve_turn_shorter:
  "serve_turn blk chain w = (Inr True, w') \<Longrightarrow> length (inbox (w_peer w')) < length (inbox (w_peer w))"
  by (auto simp: serve_turn_def io_bind_def peer_receive_def peer_send_def case_prod_beta
      dest!: Peer_Receive_shorter split: sum.splits option.splits if_splits)

lemma causal_serve_loop [causal_intros]: "causal (serve_loop blk chain)"
proof (rule causal_loop [where loop = "\<lambda>_. serve_loop blk chain" and m = "\<lambda>_. serve_turn blk chain" and stop = Not])
  show "causal (serve_turn blk chain)" unfolding serve_turn_def by (intro causal_intros)
qed (rule serve_loop_turns, use serve_turn_shorter in fastforce)

lemma causal_listener [causal_intros]: "causal (listener_talk blk chain)"
  unfolding listener_talk_def by (intro causal_intros)

lemma causal_connector_block [causal_intros]: "causal (connector_block S p chain payload)"
  unfolding connector_block_def connector_reorg_def by (intro causal_intros)

lemma causal_connector [causal_intros]: "causal (connector_talk S p chain)"
  unfolding connector_talk_def by (intro causal_intros)

text \<open>What the two sides of a handshake have sent when they wait: the client greets first.\<close>

lemma client_waits:
  assumes "causal f"
  shows "waits (client_handshake f) d [] outs (outs @ message_bytes cmd_VERSION build_version_payload)"
    and "waits (client_handshake f) d (message_bytes cmd_VERSION build_version_payload) outs
      (outs @ message_bytes cmd_VERSION build_version_payload @ message_bytes cmd_VERACK [])"
proof -
  show "waits (client_handshake f) d [] outs (outs @ message_bytes cmd_VERSION build_version_payload)"
    unfolding client_handshake_def by (intro waits_send waits_here causal_intros assms)
  have "waits (client_handshake f) d (message_bytes cmd_VERSION build_version_payload @ []) outs
      ((outs @ message_bytes cmd_VERSION build_version_payload) @ message_bytes cmd_VERACK [])"
    unfolding client_handshake_def
    by (intro waits_send waits_expect waits_here causal_intros assms commands_ok small_payloads)
  then show "waits (client_handshake f) d (message_bytes cmd_VERSION build_version_payload) outs
      (outs @ message_bytes cmd_VERSION build_version_payload @ message_bytes cmd_VERACK [])" by simp
qed

lemma server_waits:
  assumes "causal f" and "causal refuse"
  shows "waits (server_handshake f refuse) d (message_bytes cmd_VERSION build_version_payload) outs
      (outs @ message_bytes cmd_VERSION build_version_payload)"
proof -
  have "waits (server_handshake f refuse) d (message_bytes cmd_VERSION build_version_payload @ []) outs
      (outs @ message_bytes cmd_VERSION build_version_payload)"
    unfolding server_handshake_def
    by (intro waits_send waits_expect waits_here causal_intros assms commands_ok small_payloads)
  then show ?thesis by simp
qed

text \<open>The order of the messages in a greeting, and in the fetch of a block.\<close>

lemma greeting_turns:
  assumes "waits A da [] [] (message_bytes cmd_VERSION build_version_payload)"
    and "waits B db (message_bytes cmd_VERSION build_version_payload) [] (message_bytes cmd_VERSION build_version_payload)"
    and "waits A da (message_bytes cmd_VERSION build_version_payload) []
      (message_bytes cmd_VERSION build_version_payload @ message_bytes cmd_VERACK [])"
    and "waits B db (message_bytes cmd_VERSION build_version_payload @ message_bytes cmd_VERACK []) [] b"
  shows "turns A da B db (message_bytes cmd_VERSION build_version_payload @ message_bytes cmd_VERACK []) b"
  using assms [THEN waits_says] turns_start turns_ask turns_answer by metis

lemma fetch_turns:
  assumes "turns A da B db a (message_bytes cmd_VERSION build_version_payload @ message_bytes cmd_VERACK []
      @ message_bytes cmd_INV (GetHash blk))"
    and "waits A da (message_bytes cmd_VERSION build_version_payload @ message_bytes cmd_VERACK []
      @ message_bytes cmd_INV (GetHash blk)) [] (connector_requests blk)"
    and "waits B db (connector_requests blk) [] b"
  shows "turns A da B db (connector_requests blk) b"
  by (rule turns_answer [OF turns_ask [OF assms(1) waits_says [OF assms(2)]] waits_says [OF assms(3)]])

lemma serve_loop_ends: "ends (serve_loop blk chain) d [] outs (Inr ()) d outs"
  unfolding ends_def
proof (intro allI impI)
  fix w assume "w_disk w = d \<and> peer_is [] outs w"
  then have w: "w_disk w = d" "clean (w_peer w)" "inbox (w_peer w) = []" "sent_first (w_peer w) = outs" "outbox (w_peer w) = outs"
    by (auto simp: peer_is_def)
  obtain c where "Peer_Receive (w_peer w) = Inr (None, c)" "inbox c = []" "outbox c = outs" "waited c = Some outs"
    using receive_end [OF w(2,3)] w(4,5) by auto
  with w(1) show "\<exists>w'. serve_loop blk chain w = (Inr (), w') \<and> w_disk w' = d \<and> inbox (w_peer w') = []
      \<and> outbox (w_peer w') = outs \<and> waited (w_peer w') = Some outs"
    by (simp add: serve_loop.simps [of _ _ w])
qed

lemma serve_one_block:
  "ends (serve_loop blk chain) d (message_bytes cmd_GETDATA (GetHash h)) outs (Inr ()) d
     (outs @ message_bytes cmd_BLOCK (CBlock_Serialize blk))"
proof -
  have "talks (serve_turn blk chain) d (message_bytes cmd_GETDATA (GetHash h) @ []) outs (Inr True) d []
      (outs @ message_bytes cmd_BLOCK (CBlock_Serialize blk))"
    unfolding serve_turn_def
    by (rule talks_bind [OF talks_received [OF commands_ok(4) small_payloads(2)]]) (auto intro: talks_send talks_return)
  then show ?thesis
    by (subst serve_loop_turns) (rule ends_bind, simp, simp add: serve_loop_ends)
qed

lemma listener_waits:
  "waits (listener_talk blk chain) d (message_bytes cmd_VERSION build_version_payload) []
     (message_bytes cmd_VERSION build_version_payload)"
  "waits (listener_talk blk chain) d (message_bytes cmd_VERSION build_version_payload @ message_bytes cmd_VERACK []) []
     (message_bytes cmd_VERSION build_version_payload @ message_bytes cmd_VERACK [] @ message_bytes cmd_INV (GetHash blk))"
proof -
  show "waits (listener_talk blk chain) d (message_bytes cmd_VERSION build_version_payload) []
     (message_bytes cmd_VERSION build_version_payload)"
    unfolding listener_talk_def using server_waits [of _ close_socket d "[]"] by (simp add: causal_intros)
  have "waits (io_bind (serve_loop blk chain) (\<lambda>_. close_socket)) d [] outs outs" for outs
    by (rule ends_waits [OF ends_close [OF serve_loop_ends]])
  then have "waits (listener_talk blk chain) d (message_bytes cmd_VERSION build_version_payload @ message_bytes cmd_VERACK [] @ []) []
     ((([] @ message_bytes cmd_VERSION build_version_payload) @ message_bytes cmd_VERACK []) @ message_bytes cmd_INV (GetHash blk))"
    unfolding listener_talk_def server_handshake_def
    by (intro waits_expect waits_send commands_ok small_payloads) simp_all
  then show "waits (listener_talk blk chain) d (message_bytes cmd_VERSION build_version_payload @ message_bytes cmd_VERACK []) []
     (message_bytes cmd_VERSION build_version_payload @ message_bytes cmd_VERACK [] @ message_bytes cmd_INV (GetHash blk))"
    by simp
qed

lemma listener_ends:
  "ends (listener_talk blk chain) d (connector_requests blk) [] (Inr ()) d (listener_replies blk)"
proof -
  let ?outs = "(([] @ message_bytes cmd_VERSION build_version_payload) @ message_bytes cmd_VERACK [])
      @ message_bytes cmd_INV (GetHash blk)"
  have "ends (io_bind (serve_loop blk chain) (\<lambda>_. close_socket)) d (message_bytes cmd_GETDATA (GetHash blk))
      ?outs (Inr ()) d (?outs @ message_bytes cmd_BLOCK (CBlock_Serialize blk))"
    by (rule ends_close [OF serve_one_block])
  then have "ends (listener_talk blk chain) d (message_bytes cmd_VERSION build_version_payload @ message_bytes cmd_VERACK []
      @ message_bytes cmd_GETDATA (GetHash blk)) [] (Inr ()) d (?outs @ message_bytes cmd_BLOCK (CBlock_Serialize blk))"
    unfolding listener_talk_def server_handshake_def
    by (intro ends_expect ends_send commands_ok small_payloads) simp_all
  then show ?thesis by (simp add: connector_requests_def listener_replies_def)
qed

lemma deserialize_whole_block: "wf_block blk \<Longrightarrow> \<exists>n. CBlock_Deserialize (CBlock_Serialize blk) 0 = Inr (blk, n)"
  using block_codec.des_ser [of blk "CBlock_Serialize blk" 0] by auto

lemma connector_talks:
  assumes "extends S chain blk" and "wf_block blk" and "length (CBlock_Serialize blk) \<le> unat MAX_PAYLOAD_SIZE"
    and "save_chain (chain @ [blk]) p d = Inr d'"
  shows "talks (connector_talk S p chain) d (listener_replies blk) [] (Inr ()) d' [] (connector_requests blk)"
proof -
  obtain n where des: "CBlock_Deserialize (CBlock_Serialize blk) 0 = Inr (blk, n)"
    using deserialize_whole_block [OF assms(2)] by blast
  obtain c where c: "check_block S chain blk = Inr c" "all_ok c"
    using assms(1) unfolding check_block_all_ok [symmetric] by blast
  then have ok: "merkle_ok c \<and> pow_ok c \<and> links_to_tip c \<and> bits_ok c \<and> txs_ok c \<and> coinbase_ok c"
    by (simp add: all_ok_def)
  have block: "talks (connector_block S p chain (CBlock_Serialize blk)) d [] outs (Inr ()) d' [] outs" for outs
    unfolding connector_block_def using ok
    by (simp add: des c(1)) (rule talks_write, rule assms(4))
  have "listener_replies blk = message_bytes cmd_VERSION build_version_payload @ message_bytes cmd_VERACK []
      @ message_bytes cmd_INV (GetHash blk) @ message_bytes cmd_BLOCK (CBlock_Serialize blk) @ []"
    by (simp add: listener_replies_def)
  moreover have "connector_requests blk = (([] @ message_bytes cmd_VERSION build_version_payload)
      @ message_bytes cmd_VERACK []) @ message_bytes cmd_GETDATA (GetHash blk)"
    by (simp add: connector_requests_def)
  ultimately show ?thesis
    unfolding connector_talk_def client_handshake_def
    by (simp only:) (intro talks_expect talks_send block assms(3) commands_ok small_payloads, simp add: MAX_PAYLOAD_SIZE_def)
qed

lemma connector_waits:
  "waits (connector_talk S p chain) d [] [] (message_bytes cmd_VERSION build_version_payload)"
  "waits (connector_talk S p chain) d (message_bytes cmd_VERSION build_version_payload) []
     (message_bytes cmd_VERSION build_version_payload @ message_bytes cmd_VERACK [])"
  "waits (connector_talk S p chain) d (message_bytes cmd_VERSION build_version_payload @ message_bytes cmd_VERACK []
     @ message_bytes cmd_INV (GetHash blk)) [] (connector_requests blk)"
proof -
  show "waits (connector_talk S p chain) d [] [] (message_bytes cmd_VERSION build_version_payload)"
    unfolding connector_talk_def using client_waits(1) [of _ d "[]"] by (simp add: causal_intros)
  show "waits (connector_talk S p chain) d (message_bytes cmd_VERSION build_version_payload) []
     (message_bytes cmd_VERSION build_version_payload @ message_bytes cmd_VERACK [])"
    unfolding connector_talk_def using client_waits(2) [of _ d "[]"] by (simp add: causal_intros)
  have "waits (connector_talk S p chain) d (message_bytes cmd_VERSION build_version_payload @ message_bytes cmd_VERACK []
     @ message_bytes cmd_INV (GetHash blk) @ []) []
     ((([] @ message_bytes cmd_VERSION build_version_payload) @ message_bytes cmd_VERACK []) @ message_bytes cmd_GETDATA (GetHash blk))"
    unfolding connector_talk_def client_handshake_def
    by (intro waits_send waits_expect waits_here causal_intros commands_ok small_payloads) simp
  then show "waits (connector_talk S p chain) d (message_bytes cmd_VERSION build_version_payload @ message_bytes cmd_VERACK []
     @ message_bytes cmd_INV (GetHash blk)) [] (connector_requests blk)" by (simp add: connector_requests_def)
qed

text \<open>C24: The two sides of a sync come to an end together. Let the connector's chain be extended by the
  listener's new block, which is well-formed and of at most 4 MiB, and let the chain file be writable.
  On connections without errors, in whatever order and in whatever pieces the bytes arrive, there is
  always more to arrive until the listener has the connector's requests and the connector the
  listener's replies: no order leaves both waiting for each other. The connector then returns without
  waiting for more, and its file holds its chain with the listener's block; the listener has sent all
  it sends and returns when the connector closes.\<close>

theorem listener_and_connector_sync:
  assumes "extends S chain blk" and "wf_block blk" and "length (CBlock_Serialize blk) \<le> unat MAX_PAYLOAD_SIZE"
    and "writable d chain_path"
  shows "\<exists>requests replies d'.
      converse (connector_talk S chain_path chain) d (listener_talk blk listener_chain) dl requests replies
      \<and> talks (connector_talk S chain_path chain) d replies [] (Inr ()) d' [] requests
      \<and> ends (listener_talk blk listener_chain) dl requests [] (Inr ()) dl replies
      \<and> files d' chain_path = Some (serialize_chain (chain @ [blk]))"
proof -
  let ?A = "connector_talk S chain_path chain" and ?B = "listener_talk blk listener_chain"
  obtain d' where d': "save_chain (chain @ [blk]) chain_path d = Inr d'"
    "files d' chain_path = Some (serialize_chain (chain @ [blk]))"
    using assms(4) by (simp add: save_chain_def write_file_eq)
  note talk = connector_talks [OF assms(1-3) d'(1)] and served = listener_ends [of blk listener_chain dl]
  have "turns ?A d ?B dl (connector_requests blk) (listener_replies blk)"
    by (rule fetch_turns [OF greeting_turns [OF connector_waits(1) listener_waits(1) connector_waits(2) listener_waits(2)]
          connector_waits(3) ends_waits [OF served]])
  then have "converse ?A d ?B dl (connector_requests blk) (listener_replies blk)"
    by (rule turns_converse) (use talk served in \<open>auto intro: talks_says waits_says ends_waits causal_intros\<close>)
  with talk served d'(2) show ?thesis by blast
qed

lemma demo_block_length: "length (CBlock_Serialize demo_block) = 185"
proof -
  have "vtx demo_block = [set_hash (demo_coinbase 1)]" by (simp add: demo_block_def demo_coinbase_built)
  then show ?thesis
    by (simp add: CBlock_Serialize_eq demo_header_bytes demo_coinbase_bytes header1_bytes_def coinbase1_bytes_def)
qed

lemma listener_and_connector_sync_witness:
  "\<exists>requests replies d'.
      converse (connector_talk toy_secp ''chain.dat'' [demo_genesis]) empty_disk
        (listener_talk demo_block [demo_genesis, demo_block]) empty_disk requests replies
      \<and> talks (connector_talk toy_secp ''chain.dat'' [demo_genesis]) empty_disk replies [] (Inr ()) d' [] requests
      \<and> ends (listener_talk demo_block [demo_genesis, demo_block]) empty_disk requests [] (Inr ()) empty_disk replies
      \<and> files d' ''chain.dat'' = Some (serialize_chain ([demo_genesis] @ [demo_block]))"
proof (rule listener_and_connector_sync [OF demo_extends demo_wf(2)])
  show "length (CBlock_Serialize demo_block) \<le> unat MAX_PAYLOAD_SIZE"
    by (simp add: demo_block_length MAX_PAYLOAD_SIZE_def)
qed (simp add: empty_disk_def)

section \<open>Receiving a transaction\<close>

definition mempool_of :: "disk \<Rightarrow> string \<Rightarrow> Transaction list" where
  "mempool_of d mempool_path = (case load_mempool d mempool_path of Inl _ \<Rightarrow> [] | Inr mempool \<Rightarrow> mempool)"

lemma leads_bind_mempool:
  assumes "leads (disk_is d) (f (mempool_of d path)) Q" and "\<And>w. disk_is d w \<Longrightarrow> Q w"
  shows "leads (disk_is d) (io_bind (load_mempool_or_empty path) f) Q"
  using assms
  by (auto simp: leads_def load_mempool_or_empty_def io_bind_def io_catch_def mempool_of_def
      split: sum.splits if_splits)

text \<open>The disks \<open>run_receive_tx\<close> may leave.\<close>

definition receiver_result :: "secp256k1 \<Rightarrow> string \<Rightarrow> disk \<Rightarrow> disk \<Rightarrow> bool" where
  "receiver_result S chain_path d d' \<longleftrightarrow> d' = d \<or>
     (\<exists>chain tx. load_chain d chain_path = Inr chain \<and> \<not> IsCoinbase tx
        \<and> 0 \<le> sint (validate_and_get_fee S tx (build_utxo_set chain))
        \<and> length (mempool_of d (chain_path @ ''.mempool'')) < MAX_MEMPOOL_SIZE
        \<and> save_mempool (mempool_of d (chain_path @ ''.mempool'') @ [tx]) (chain_path @ ''.mempool'') d = Inr d')"

lemma receiver_result_refl: "disk_is d w \<Longrightarrow> receiver_result S p d (w_disk w)"
  by (simp add: receiver_result_def)

lemma leads_then_close: "disk_only Q \<Longrightarrow> leads P m Q \<Longrightarrow> leads P (io_bind m (\<lambda>_. close_socket)) Q"
  using disk_onlyD [OF _ net_disk(4)]
  by (auto simp: leads_def io_bind_def split: prod.split sum.split) (metis snd_conv)+

lemma receive_tx_payload_leads:
  assumes "load_chain d p = Inr chain"
  shows "leads (disk_is d) (receive_tx_payload S p (build_utxo_set chain) payload) (\<lambda>w. receiver_result S p d (w_disk w))"
proof -
  let ?Q = "\<lambda>w. receiver_result S p d (w_disk w)" and ?m = "mempool_of d (p @ ''.mempool'')"
  have put: "leads (disk_is d) (io_write (save_mempool (?m @ [tx]) (p @ ''.mempool''))) ?Q"
    if "\<not> IsCoinbase tx" "0 \<le> sint (validate_and_get_fee S tx (build_utxo_set chain))" "length ?m < MAX_MEMPOOL_SIZE" for tx
    by (rule leads_write) (use that assms in \<open>auto simp: receiver_result_def\<close>)
  have same: "leads (disk_is d) (io_return ()) ?Q"
    by (rule leads_same(1)) (rule receiver_result_refl)
  have "leads (disk_is d) (let fee = (if IsCoinbase tx then - 1 else validate_and_get_fee S tx (build_utxo_set chain));
          valid = (sint fee \<ge> 0) in
     io_bind (load_mempool_or_empty (p @ ''.mempool'')) (\<lambda>mempool.
     io_bind (if valid \<and> length mempool \<ge> MAX_MEMPOOL_SIZE then io_return ()
        else if valid then io_write (save_mempool (mempool @ [tx]) (p @ ''.mempool''))
        else io_return ()) (\<lambda>_. close_socket))) ?Q" for tx
    unfolding Let_def
    by (intro leads_bind_mempool leads_then_close receiver_result_refl disk_only_disk)
      (auto simp: not_le intro!: put same split: if_splits)
  then show ?thesis
    unfolding receive_tx_payload_def
    by (intro leads_bind_lift) (auto intro: receiver_result_refl split: prod.split)
qed

lemma run_receive_tx_leads:
  "leads (disk_is d) (run_receive_tx S E port p) (\<lambda>w. receiver_result S p d (w_disk w))"
proof -
  have close: "leads (disk_is d) close_socket (\<lambda>w. receiver_result S p d (w_disk w))"
    by (rule leads_weaken [OF leads_net(4)]) (simp_all add: receiver_result_def)
  show ?thesis
    unfolding run_receive_tx_def server_handshake_def Let_def
    by (rule receive_tx_payload_leads close with_chain_leads leads_listen leads_accept leads_with_peer leads_send
        leads_expect receiver_result_refl disk_only_disk | assumption)+
qed

text \<open>C25: Whatever a peer sends to \<open>run_receive_tx\<close>, the disk afterwards is the disk before, or the mempool
  file, which held fewer than 1000 transactions, holds one more at its end: no coinbase, and valid
  against the UTXO set of the node's own chain. The chain file is never written.\<close>

theorem run_receive_tx_safe:
  "receiver_result S chain_path (w_disk w) (w_disk (snd (run_receive_tx S E port chain_path w)))"
  using leadsD [OF run_receive_tx_leads, of w "w_disk w"] by simp

section \<open>Mining\<close>

text \<open>What the miner includes is valid one transaction after the other, chains of dependent transactions
  included.\<close>

lemma select_mempool_valid:
  "select_mempool S mempool u acc f = (txs, F) \<Longrightarrow>
     \<exists>sel. txs = acc @ sel \<and> (list_all (\<lambda>tx. \<not> IsCoinbase tx) sel \<longrightarrow> (\<exists>u'. full_chain_txs S sel u f = Some (u', F)))"
proof (induction S mempool u acc f rule: select_mempool.induct)
  case (2 S tx mempool u acc f)
  let ?fee = "validate_and_get_fee S tx u"
  show ?case
  proof (cases "0 \<le> sint ?fee")
    case True
    from "2.IH"(1) [OF refl True] "2.prems" True obtain sel where
      "txs = (acc @ [tx]) @ sel" "list_all (\<lambda>tx. \<not> IsCoinbase tx) sel \<longrightarrow>
        (\<exists>u'. full_chain_txs S sel (add_outputs tx (erase_inputs tx u)) (f + ?fee) = Some (u', F))"
      by (auto simp: Let_def)
    with True show ?thesis by (intro exI [of _ "tx # sel"]) (auto simp: Let_def)
  next
    case False
    with "2.IH"(2) [OF refl False] "2.prems" show ?thesis by (simp add: Let_def)
  qed
qed simp

text \<open>More outputs to spend do not hurt.\<close>

lemma full_chain_txs_more:
  "full_chain_txs S txs u f = Some (u', F) \<Longrightarrow> list_all (\<lambda>tx. \<not> IsCoinbase tx) txs \<Longrightarrow>
     (\<And>p t. utxo_find u p = Some t \<Longrightarrow> utxo_find v p = Some t) \<Longrightarrow>
     distinct (map fst (created txs)) \<Longrightarrow> \<forall>p \<in> fst ` set (created txs). utxo_find v p = None \<Longrightarrow>
     \<exists>v'. full_chain_txs S txs v f = Some (v', F)"
proof (induction S txs u f arbitrary: v rule: full_chain_txs.induct)
  case (2 S tx txs u f)
  have cr: "created (tx # txs) = tx_outputs tx @ created txs" by (simp add: created_def)
  let ?fee = "validate_and_get_fee S tx u"
  from "2.prems"(1,2) have ncb: "\<not> IsCoinbase tx" "list_all (\<lambda>tx. \<not> IsCoinbase tx) txs" and fee: "0 \<le> sint ?fee"
    and rest: "full_chain_txs S txs (add_outputs tx (erase_inputs tx u)) (f + ?fee) = Some (u', F)"
    by (auto simp: Let_def split: if_splits)
  have "\<forall>i \<in> set (vin tx). utxo_find v (prevout i) = utxo_find u (prevout i)"
    using inputs_ok_found [OF validate_fee_nonneg(1) [OF fee]] "2.prems"(3) by fastforce
  then have same: "validate_and_get_fee S tx v = ?fee" by (rule fee_cong)
  have "utxo_find (add_outputs tx (erase_inputs tx v)) p = Some t"
    if "utxo_find (add_outputs tx (erase_inputs tx u)) p = Some t" for p t
  proof (cases "utxo_find (erase_inputs tx u) p")
    case (Some t')
    with that have "t' = t" "p \<notin> set (map prevout (vin tx))" "utxo_find u p = Some t"
      by (auto simp: find_add_outputs find_erase_inputs split: if_splits)
    with "2.prems"(3) show ?thesis by (simp add: find_add_outputs find_erase_inputs)
  next
    case None
    with that have "map_of (tx_outputs tx) p = Some t" by (simp add: find_add_outputs)
    moreover from this have "p \<in> fst ` set (created (tx # txs))" unfolding cr by (force dest: map_of_SomeD)
    with "2.prems"(5) have "utxo_find v p = None" by (rule bspec)
    ultimately show ?thesis by (simp add: find_add_outputs find_erase_inputs)
  qed
  moreover have "\<forall>p \<in> fst ` set (created txs). utxo_find (add_outputs tx (erase_inputs tx v)) p = None"
  proof
    fix p assume p: "p \<in> fst ` set (created txs)"
    with "2.prems"(4) have "p \<notin> fst ` set (tx_outputs tx)" unfolding cr by auto
    then have "map_of (tx_outputs tx) p = None" by (simp add: map_of_eq_None_iff)
    moreover have "utxo_find v p = None" using "2.prems"(5) p unfolding cr by auto
    ultimately show "utxo_find (add_outputs tx (erase_inputs tx v)) p = None"
      by (simp add: find_add_outputs find_erase_inputs)
  qed
  moreover have "distinct (map fst (created txs))" using "2.prems"(4) unfolding cr by simp
  ultimately obtain v' where "full_chain_txs S txs (add_outputs tx (erase_inputs tx v)) (f + ?fee) = Some (v', F)"
    using "2.IH"(1) [OF ncb(1) refl _ rest ncb(2), of "add_outputs tx (erase_inputs tx v)"] fee by auto
  with ncb(1) fee same show ?case by (simp add: Let_def)
qed auto

lemma io_bindE:
  assumes "io_bind m f w = (Inr y, w')"
  obtains x w1 where "m w = (Inr x, w1)" and "f x w1 = (Inr y, w')"
  using assms by (auto simp: io_bind_def split: prod.splits sum.splits)

lemma io_writeE:
  assumes "io_write f w = (Inr y, w')"
  obtains d where "f (w_disk w) = Inr d" and "w' = w\<lparr>w_disk := d\<rparr>"
  using assms by (auto simp: io_write_def split: sum.splits)

lemma load_mempool_or_empty_run:
  "load_mempool_or_empty path w = (Inr m, w') \<Longrightarrow> m = mempool_of (w_disk w) path \<and> w' = w"
  by (auto simp: load_mempool_or_empty_def io_catch_def mempool_of_def split: sum.splits if_splits)

lemma mine_on_tip_cases:
  assumes "mine_on_tip S now p a chain w = (Inr (blk, chain'), w')"
  obtains txs fees d1 where "select_mempool S (mempool_of (w_disk w) (p @ ''.mempool'')) (build_utxo_set chain) [] 0 = (txs, fees)"
    and "build_next_block now (extract_headers chain) (GetHash (last chain)) a fees txs = Inr blk"
    and "chain \<noteq> []" and "chain' = chain @ [blk]" and "save_chain chain' p (w_disk w) = Inr d1"
    and "save_mempool [] (p @ ''.mempool'') d1 = Inr (w_disk w')" and "w_peer w' = w_peer w"
proof -
  obtain txs fees where sel: "select_mempool S (mempool_of (w_disk w) (p @ ''.mempool'')) (build_utxo_set chain) [] 0 = (txs, fees)"
    by fastforce
  with assms that show ?thesis
    by (auto simp: mine_on_tip_def Let_def io_lift_def io_return_def elim!: io_bindE io_writeE
        dest!: load_mempool_or_empty_run split: prod.splits simp: chain_back_def split: if_splits)
qed

lemma write_file_files: "write_file d path buffer = Inr d' \<Longrightarrow> files d' = (files d)(path \<mapsto> buffer)"
  by (auto simp: write_file_eq split: if_splits)

lemma mined_on_valid_chain:
  assumes "ledger S chain utxos" and "chain \<noteq> []"
    and sel: "select_mempool S mempool (build_utxo_set chain) [] 0 = (txs, fees)"
    and blk: "build_next_block now (extract_headers chain) (GetHash (last chain)) a fees txs = Inr blk"
    and "list_all (\<lambda>tx. \<not> IsCoinbase tx) txs" and uniq: "outpoints_unique (all_txs (chain @ [blk]))"
  shows "\<exists>utxos'. ledger S (chain @ [blk]) utxos'"
proof -
  let ?cb = "build_coinbase_tx a (word_of_nat (length (extract_headers chain))) fees"
  note b = build_next_block_Inr [OF blk]
  have all: "all_txs (chain @ [blk]) = (all_txs chain @ [?cb]) @ txs" using b by (simp add: all_txs_snoc)
  note u1 = outpoints_unique_append [OF uniq [unfolded all]] and u0 = outpoints_unique_append [OF outpoints_unique_append [OF uniq [unfolded all]]]
  from replay_step [OF ledger_replayed [OF assms(1) u0] u1] build_coinbase_sel(1)
  have inv: "replay_inv (all_txs chain @ [?cb]) (add_outputs ?cb utxos)" by auto
  from select_mempool_valid [OF sel] assms(5) obtain u' where run: "full_chain_txs S txs (build_utxo_set chain) 0 = Some (u', fees)"
    by auto
  have more: "utxo_find (add_outputs ?cb utxos) p = Some t" if "utxo_find (build_utxo_set chain) p = Some t" for p t
    using that ledger_build_utxo_set [OF assms(1) u0] by (simp add: find_add_outputs)
  have d: "distinct (map fst (created (all_txs chain @ [?cb]) @ created txs))"
    using conjunct1 [OF uniq [unfolded all outpoints_unique_def]] by (simp only: created_append [of "all_txs chain @ [_]"])
  have fresh: "\<forall>p \<in> fst ` set (created txs). utxo_find (add_outputs ?cb utxos) p = None"
  proof
    fix p assume "p \<in> fst ` set (created txs)"
    with d have "p \<notin> fst ` set (created (all_txs chain @ [?cb]))" by auto
    then have "map_of (created (all_txs chain @ [?cb])) p = None" by (simp add: map_of_eq_None_iff)
    with inv show "utxo_find (add_outputs ?cb utxos) p = None" by (simp add: replay_inv_def replayed_def)
  qed
  from full_chain_txs_more [OF run assms(5) more _ fresh] d
  obtain v' where "full_chain_txs S txs (add_outputs ?cb utxos) 0 = Some (v', fees)" by auto
  then have "block_valid S chain utxos blk v'"
    using b assms(2) by (simp add: block_valid_def tip_hash_def build_coinbase_sel extract_headers_def)
  with assms(1) show ?thesis by (blast intro: ledger_snoc)
qed

text \<open>C22: Mining keeps a chain valid: when \<open>mine_on_tip\<close> returns on a valid chain, with whatever mempool
  file, the new chain is the old one with one more block and passes \<open>validate_full_chain\<close>, the file
  holds it and the mempool file is empty; given that no outpoint is created twice, no coinbase of the
  chain names one as an input and no coinbase was in the mempool.\<close>

theorem mining_keeps_valid:
  assumes "validate_full_chain S chain = Inr True"
    and "mine_on_tip S now chain_path a chain w = (Inr (blk, chain'), w')"
    and "list_all (\<lambda>tx. \<not> IsCoinbase tx) (tl (vtx blk))" and "outpoints_unique (all_txs chain')"
  shows "validate_full_chain S chain' = Inr True \<and> chain' = chain @ [blk]
    \<and> files (w_disk w') chain_path = Some (serialize_chain chain')
    \<and> mempool_of (w_disk w') (chain_path @ ''.mempool'') = []"
proof -
  from assms(1) obtain utxos where l: "ledger S chain utxos" unfolding validate_full_chain_ledger by blast
  from assms(2) obtain txs fees d1 where m:
    "select_mempool S (mempool_of (w_disk w) (chain_path @ ''.mempool'')) (build_utxo_set chain) [] 0 = (txs, fees)"
    "build_next_block now (extract_headers chain) (GetHash (last chain)) a fees txs = Inr blk"
    "chain \<noteq> []" "chain' = chain @ [blk]" "save_chain chain' chain_path (w_disk w) = Inr d1"
    "save_mempool [] (chain_path @ ''.mempool'') d1 = Inr (w_disk w')"
    by (rule mine_on_tip_cases)
  have "tl (vtx blk) = txs" using build_next_block_Inr [OF m(2)] by simp
  with mined_on_valid_chain [OF l m(3,1,2)] assms(3,4) m(4) have "\<exists>u. ledger S chain' u" by simp
  moreover have "files (w_disk w') chain_path = Some (serialize_chain chain')"
    using write_file_files [OF m(5) [unfolded save_chain_def]] write_file_files [OF m(6) [unfolded save_mempool_eq]]
    by simp
  moreover have "load_mempool (w_disk w') (chain_path @ ''.mempool'') = Inr []"
    using m(6) tx_codec.read_counted [of "[]"] read_write_file by (fastforce simp: save_mempool_eq load_mempool_def)
  ultimately show ?thesis using m(4) by (simp add: validate_full_chain_ledger mempool_of_def)
qed


definition idle_world :: "disk \<Rightarrow> world" where
  "idle_world d = \<lparr>w_disk = d, w_peer = \<lparr>inbox = [], recv_sizes = [], outbox = [], send_sizes = [], waited = None\<rparr>, w_sockets = 0\<rparr>"

lemma idle_world_disk [simp]: "w_disk (idle_world d) = d"
  by (simp add: idle_world_def)

lemma demo_mine:
  assumes "files (w_disk w) (p @ ''.mempool'') = None" and "writable (w_disk w) p" and "writable (w_disk w) (p @ ''.mempool'')"
  shows "\<exists>w'. mine_on_tip S 1700000006 p (replicate 20 0) [demo_genesis] w = (Inr (demo_block, [demo_genesis, demo_block]), w')"
  using assms demo_next
  by (simp add: mine_on_tip_def load_mempool_or_empty_def io_catch_def io_bind_def load_mempool_def read_file_def
      chain_back_def io_write_def save_chain_def save_mempool_eq write_file_eq Let_def)

lemma demo_unique: "outpoints_unique (all_txs [demo_genesis, demo_block])"
proof -
  let ?c = "\<lambda>h. build_coinbase_tx (replicate 20 0) h 0"
  have txs: "all_txs [demo_genesis, demo_block] = [?c 0, ?c 1]"
    by (simp add: all_txs_def demo_genesis_def demo_block_def)
  have outs: "map fst (tx_outputs (?c h)) = [COutPoint (tx_hash (?c h)) 0]" for h
    by (simp add: tx_outputs_def build_coinbase_tx_def Let_def)
  have prevouts: "prevout i = COutPoint (replicate 32 0) 0xFFFFFFFF" if "i \<in> set (vin (?c h))" for i h
    using that by (simp add: build_coinbase_tx_def Let_def CTxIn_default_def COutPoint_null_def)
  have keys: "map fst (created [?c 0, ?c 1]) = [COutPoint coinbase0_hash 0, COutPoint coinbase1_hash 0]"
    by (simp add: created_def outs demo_coinbase_hash)
  from arg_cong [OF this, of set] have ks: "fst ` set (created [?c 0, ?c 1]) = {COutPoint coinbase0_hash 0, COutPoint coinbase1_hash 0}"
    by simp
  have "coinbase0_hash \<noteq> coinbase1_hash" "coinbase0_hash \<noteq> replicate 32 0" "coinbase1_hash \<noteq> replicate 32 0"
    by (simp_all add: coinbase0_hash_def coinbase1_hash_def replicate_num)
  then show ?thesis
    unfolding txs outpoints_unique_def keys ks list_all_iff using prevouts by fastforce
qed

lemma mining_keeps_valid_witness:
  "\<exists>w'. mine_on_tip toy_secp 1700000006 ''chain.dat'' (replicate 20 0) [demo_genesis] (idle_world empty_disk)
       = (Inr (demo_block, [demo_genesis, demo_block]), w')
     \<and> validate_full_chain toy_secp [demo_genesis, demo_block] = Inr True
     \<and> files (w_disk w') ''chain.dat'' = Some (serialize_chain [demo_genesis, demo_block])"
proof -
  obtain w' where run: "mine_on_tip toy_secp 1700000006 ''chain.dat'' (replicate 20 0) [demo_genesis]
      (idle_world empty_disk) = (Inr (demo_block, [demo_genesis, demo_block]), w')"
    using demo_mine [of "idle_world empty_disk" "''chain.dat''"]
    by (auto simp: empty_disk_def)
  have "list_all (\<lambda>tx. \<not> IsCoinbase tx) (tl (vtx demo_block))" by (simp add: demo_block_def)
  moreover have "validate_full_chain toy_secp [demo_genesis] = Inr True"
    using demo_genesis_ledger by (auto simp: validate_full_chain_ledger)
  ultimately show ?thesis using mining_keeps_valid [OF _ run _ demo_unique] run by blast
qed

section \<open>A damaged file is taken for a missing one\<close>

text \<open>A wallet file that exists but does not hold 32 bytes is overwritten with a fresh key: whatever
  was in it is gone. The comment promises a fresh wallet "if missing".\<close>

theorem damaged_wallet_overwritten:
  assumes "files (w_disk w) path = Some buffer" and "length buffer \<noteq> 32"
    and "Wallet_new S random = Inr wlt" and "writable (w_disk w) path"
  shows "\<exists>w'. load_or_create_wallet S random path w = (Inr wlt, w') \<and> files (w_disk w') path = Some (seckey_of wlt)"
  using assms
  by (simp add: load_or_create_wallet_def io_catch_def io_bind_def read_file_def io_write_def write_file_eq)

lemma damaged_wallet_overwritten_witness:
  "\<exists>wlt w'. load_or_create_wallet toy_secp (Some (replicate 32 7)) ''w''
       (idle_world (empty_disk\<lparr>files := [''w'' \<mapsto> replicate 31 5]\<rparr>)) = (Inr wlt, w')
     \<and> files (w_disk w') ''w'' = Some (seckey_of wlt)"
proof -
  obtain wlt where "Wallet_new toy_secp (Some (replicate 32 7)) = Inr wlt"
    by (simp add: Wallet_new_def generate_keypair_def create_address_from_pubkey_def toy_secp_def Let_def)
  from damaged_wallet_overwritten [OF _ _ this, of "idle_world (empty_disk\<lparr>files := [''w'' \<mapsto> replicate 31 5]\<rparr>)" "''w''"
      "replicate 31 5"] show ?thesis by (auto simp: empty_disk_def)
qed

end
