(* ===== verification/Daemon.thy ===== *)
theory Daemon
  imports Commands
begin

text \<open>
  \<open>include/network/daemon.h\<close>: the persistent node. Its threads (accept loop, one handler per
  connection, mining loop, poll loop) share \<open>chain_\<close>, under \<open>mutex_\<close>, and the files. A step of the
  system is what one thread does up to and including its next critical section; everything else a
  thread does touches only its own connection, so the steps of the threads interleave as the
  critical sections do. An exception that leaves a thread's function terminates the process.
\<close>

section \<open>The node\<close>

record PeerAddress =
  peer_host :: string
  peer_port :: u16

record Node =
  node_port :: u16
  node_path :: string
  node_peers :: "PeerAddress list"
  node_mines :: bool
  node_wallet :: Wallet
  node_chain :: "CBlock list"

definition Node_new ::
    "secp256k1 \<Rightarrow> u32 \<Rightarrow> bytes option \<Rightarrow> u16 \<Rightarrow> string \<Rightarrow> PeerAddress list \<Rightarrow> bool \<Rightarrow> Node io" where
  "Node_new S now random listen_port path known_peers mine =
     io_bind (load_or_create_wallet S random (path @ ''.wallet'')) (\<lambda>w.
     io_bind (load_or_create_chain now path (address_of w)) (\<lambda>chain.
     io_bind (io_write (save_chain chain path)) (\<lambda>_.
     io_return \<lparr>node_port = listen_port, node_path = path, node_peers = known_peers, node_mines = mine,
                node_wallet = w, node_chain = chain\<rparr>)))"

definition AcceptTransaction :: "secp256k1 \<Rightarrow> Node \<Rightarrow> Transaction \<Rightarrow> unit io" where
  "AcceptTransaction S nd tx =
     (let utxo_set = build_utxo_set (node_chain nd);
          fee = (if IsCoinbase tx then - 1 else validate_and_get_fee S tx utxo_set)
      in if sint fee < 0 then io_return ()
         else
           io_bind (load_mempool_or_empty (node_path nd @ ''.mempool'')) (\<lambda>mempool.
           if length mempool \<ge> MAX_MEMPOOL_SIZE then io_return ()
           else io_write (save_mempool (mempool @ [tx]) (node_path nd @ ''.mempool''))))"

text \<open>One turn of \<open>MiningLoop\<close>, after its sleep; the code is that of \<open>run_listener\<close>.\<close>

definition MiningLoop_turn :: "secp256k1 \<Rightarrow> u32 \<Rightarrow> Node \<Rightarrow> Node io" where
  "MiningLoop_turn S now nd =
     io_bind (mine_on_tip S now (node_path nd) (address_of (node_wallet nd)) (node_chain nd)) (\<lambda>(_, chain).
     io_return (nd\<lparr>node_chain := chain\<rparr>))"

section \<open>A connection's handler\<close>

datatype handler = Await_VERSION | Await_VERACK | Serving | Closed

definition hang_up :: "handler io" where
  "hang_up = io_bind close_socket (\<lambda>_. io_return Closed)"

definition handle_version :: "handler io" where
  "handle_version =
     expect cmd_VERSION (\<lambda>_.
       io_bind (peer_send cmd_VERSION build_version_payload) (\<lambda>_. io_return Await_VERACK))
       hang_up"

definition handle_verack :: "Node \<Rightarrow> handler io" where
  "handle_verack nd =
     expect cmd_VERACK (\<lambda>_.
       io_bind (peer_send cmd_VERACK []) (\<lambda>_.
       io_bind (io_lift (chain_back (node_chain nd))) (\<lambda>tip.
       io_bind (peer_send cmd_INV (GetHash tip)) (\<lambda>_. io_return Serving))))
       hang_up"

definition handle_request :: "secp256k1 \<Rightarrow> Node \<Rightarrow> handler io" where
  "handle_request S nd =
     io_bind peer_receive (\<lambda>m.
     case m of
       None \<Rightarrow> hang_up
     | Some msg \<Rightarrow>
         if m_command msg = cmd_GETDATA then
           io_bind (io_lift (chain_back (node_chain nd))) (\<lambda>tip.
           io_bind (peer_send cmd_BLOCK (CBlock_Serialize tip)) (\<lambda>_. io_return Serving))
         else if m_command msg = cmd_GETBLOCKS then
           io_bind (peer_send cmd_CHAIN (serialize_chain (node_chain nd))) (\<lambda>_. io_return Serving)
         else if m_command msg = cmd_TX then
           io_bind (io_lift (Transaction_Deserialize (m_payload msg) 0)) (\<lambda>(tx, _).
           io_bind (AcceptTransaction S nd tx) (\<lambda>_. io_return Serving))
         else hang_up)"

definition handle_step :: "secp256k1 \<Rightarrow> Node \<Rightarrow> handler \<Rightarrow> handler io" where
  "handle_step S nd h =
     (case h of
        Await_VERSION \<Rightarrow> handle_version
      | Await_VERACK \<Rightarrow> handle_verack nd
      | Serving \<Rightarrow> handle_request S nd
      | Closed \<Rightarrow> io_return Closed)"

section \<open>Polling a peer\<close>

datatype poll = Poll_Next | Have_Block CBlock | Have_Chain "CBlock list"

text \<open>Every \<open>return\<close> of \<open>PollPeer\<close> leaves the scope of its \<open>Peer\<close>.\<close>

definition poll_done :: "poll io" where
  "poll_done = io_bind close_socket (\<lambda>_. io_return Poll_Next)"

definition poll_connect :: "os \<Rightarrow> PeerAddress \<Rightarrow> poll io" where
  "poll_connect E addr =
     io_bind (io_catch
       (io_bind (connect_to E (peer_host addr) (peer_port addr)) (\<lambda>_. io_return True))
       (io_return False)) (\<lambda>connected.
     if \<not> connected then io_return Poll_Next
     else
       io_bind (peer_send cmd_VERSION build_version_payload) (\<lambda>_.
       expect cmd_VERSION (\<lambda>_.
         io_bind (peer_send cmd_VERACK []) (\<lambda>_.
         expect cmd_VERACK (\<lambda>_.
         expect cmd_INV (\<lambda>announced.
           io_bind (peer_send cmd_GETDATA announced) (\<lambda>_.
           expect cmd_BLOCK (\<lambda>payload.
             io_bind (io_lift (CBlock_Deserialize payload 0)) (\<lambda>(received_block, _).
             io_return (Have_Block received_block)))
             poll_done))
           poll_done)
           poll_done))
         poll_done))"

definition poll_request :: "CBlock \<Rightarrow> poll io" where
  "poll_request received_block =
     (if \<not> IsMerkleRootValid received_block \<or> \<not> check_proof_of_work received_block then poll_done
      else
        io_bind (peer_send cmd_GETBLOCKS []) (\<lambda>_.
        expect cmd_CHAIN (\<lambda>payload.
          io_bind (io_lift (deserialize_chain payload)) (\<lambda>peer_chain.
          io_return (Have_Chain peer_chain)))
          poll_done))"

definition poll_block :: "secp256k1 \<Rightarrow> Node \<Rightarrow> CBlock \<Rightarrow> (poll \<times> Node) io" where
  "poll_block S nd received_block =
     io_bind (io_lift (try_extend_chain S (node_chain nd) received_block)) (\<lambda>(extended, chain).
     if extended then
       io_bind (io_write (save_chain chain (node_path nd))) (\<lambda>_.
       io_bind poll_done (\<lambda>p. io_return (p, nd\<lparr>node_chain := chain\<rparr>)))
     else io_bind (poll_request received_block) (\<lambda>p. io_return (p, nd)))"

definition poll_chain :: "secp256k1 \<Rightarrow> Node \<Rightarrow> CBlock list \<Rightarrow> (poll \<times> Node) io" where
  "poll_chain S nd peer_chain =
     io_bind (io_lift (try_reorg S (node_chain nd) peer_chain)) (\<lambda>(switched, chain).
     io_bind (if switched then io_write (save_chain chain (node_path nd)) else io_return ()) (\<lambda>_.
     io_bind poll_done (\<lambda>p. io_return (p, nd\<lparr>node_chain := chain\<rparr>))))"

text \<open>\<open>PollPeer\<close> when no other thread takes the lock between its two critical sections.\<close>

definition PollPeer :: "secp256k1 \<Rightarrow> os \<Rightarrow> PeerAddress \<Rightarrow> Node \<Rightarrow> Node io" where
  "PollPeer S E addr nd =
     io_bind (poll_connect E addr) (\<lambda>p.
     case p of
       Have_Block received_block \<Rightarrow>
         io_bind (poll_block S nd received_block) (\<lambda>(p, nd).
         case p of
           Have_Chain peer_chain \<Rightarrow> io_bind (poll_chain S nd peer_chain) (\<lambda>(_, nd). io_return nd)
         | _ \<Rightarrow> io_return nd)
     | _ \<Rightarrow> io_return nd)"

text \<open>\<open>HandleConnection\<close> when no other thread changes the node; every turn but the last takes a message off
  the stream.\<close>

lemma receive_shorter:
  "peer_receive w = (Inr (Some msg), w') \<Longrightarrow> length (inbox (w_peer w')) < length (inbox (w_peer w))"
  by (auto simp: peer_receive_def dest: Peer_Receive_shorter split: sum.splits)

lemma send_inbox: "peer_send cmd payload w = (r, w') \<Longrightarrow> inbox (w_peer w') = inbox (w_peer w)"
  using Peer_Send_inbox [of "w_peer w" cmd payload] by (auto simp: peer_send_def simp del: Peer_Send_inbox split: prod.splits)

lemma accept_peer: "AcceptTransaction S nd tx w = (Inr x, w') \<Longrightarrow> w_peer w' = w_peer w"
  by (auto simp: AcceptTransaction_def Let_def split: if_splits elim!: io_bindE io_writeE dest!: load_mempool_or_empty_run)

lemma handle_shorter:
  assumes "handle_step S nd h w = (Inr h', w')" and "h' \<noteq> Closed"
  shows "length (inbox (w_peer w')) < length (inbox (w_peer w))"
  using assms
  by (cases h)
    (auto simp: handle_step_def handle_version_def handle_verack_def handle_request_def expect_def hang_up_def
      elim!: io_bindE split: option.splits if_splits dest!: receive_shorter send_inbox accept_peer)

function HandleConnection :: "secp256k1 \<Rightarrow> Node \<Rightarrow> handler \<Rightarrow> unit io" where
  "HandleConnection S nd h w =
     (case handle_step S nd h w of
        (Inl e, w) \<Rightarrow> (Inl e, w)
      | (Inr h, w) \<Rightarrow> if h = Closed then (Inr (), w) else HandleConnection S nd h w)"
  by pat_completeness auto
termination
  by (relation "measure (\<lambda>(_, _, _, w). length (inbox (w_peer w)))") (auto intro: handle_shorter [OF sym])

declare HandleConnection.simps [simp del]

section \<open>The system\<close>

record system =
  s_node :: Node
  s_disk :: disk
  s_sockets :: int
  s_listening :: bool
  s_handlers :: "(handler \<times> conn) list"
  s_poll :: poll
  s_poll_conn :: conn
  s_queue :: "PeerAddress list"
  s_running :: bool

text \<open>A thread on connection \<open>c\<close> runs \<open>m\<close>; \<open>f\<close> stores its result. When \<open>m\<close> throws the process is gone, and
  what is left is the disk. (\<open>No_return\<close>, a search without a nonce, also ends here: the miner keeps the
  mutex for ever.)\<close>

definition turn :: "'a io \<Rightarrow> conn \<Rightarrow> ('a \<Rightarrow> conn \<Rightarrow> system \<Rightarrow> system) \<Rightarrow> system \<Rightarrow> system" where
  "turn m c f s =
     (case m \<lparr>w_disk = s_disk s, w_peer = c, w_sockets = s_sockets s\<rparr> of
        (Inl e, w) \<Rightarrow> s\<lparr>s_disk := w_disk w, s_running := False\<rparr>
      | (Inr x, w) \<Rightarrow> f x (w_peer w) (s\<lparr>s_disk := w_disk w, s_sockets := w_sockets w\<rparr>))"

text \<open>\<open>AcceptLoop\<close>: the first turn opens the listener, every later one a connection, \<open>c\<close>, with its handler.\<close>

definition accept_turn :: "os \<Rightarrow> conn \<Rightarrow> system \<Rightarrow> system" where
  "accept_turn E c s =
     (if \<not> s_listening s
      then turn (create_listener E (node_port (s_node s))) c (\<lambda>_ _ s. s\<lparr>s_listening := True\<rparr>) s
      else turn (accept_connection E) c (\<lambda>_ _ s. s\<lparr>s_handlers := s_handlers s @ [(Await_VERSION, c)]\<rparr>) s)"

definition handle_turn :: "secp256k1 \<Rightarrow> nat \<Rightarrow> system \<Rightarrow> system" where
  "handle_turn S i s =
     (let (h, c) = s_handlers s ! i
      in turn (handle_step S (s_node s) h) c (\<lambda>h c s. s\<lparr>s_handlers := (s_handlers s)[i := (h, c)]\<rparr>) s)"

definition mine_turn :: "secp256k1 \<Rightarrow> u32 \<Rightarrow> system \<Rightarrow> system" where
  "mine_turn S now s = turn (MiningLoop_turn S now (s_node s)) (s_poll_conn s) (\<lambda>nd _ s. s\<lparr>s_node := nd\<rparr>) s"

text \<open>\<open>PeerPollLoop\<close>: \<open>c\<close> is the connection the next \<open>connect_to\<close> opens; an empty queue is the end of a
  round, and after the sleep the next one starts.\<close>

definition poll_turn :: "secp256k1 \<Rightarrow> os \<Rightarrow> conn \<Rightarrow> system \<Rightarrow> system" where
  "poll_turn S E c s =
     (case s_poll s of
        Poll_Next \<Rightarrow>
          (case s_queue s of
             [] \<Rightarrow> s\<lparr>s_queue := node_peers (s_node s)\<rparr>
           | addr # queue \<Rightarrow>
               turn (poll_connect E addr) c (\<lambda>p c s. s\<lparr>s_poll := p, s_poll_conn := c, s_queue := queue\<rparr>) s)
      | Have_Block received_block \<Rightarrow>
          turn (poll_block S (s_node s) received_block) (s_poll_conn s)
            (\<lambda>(p, nd) c s. s\<lparr>s_poll := p, s_poll_conn := c, s_node := nd\<rparr>) s
      | Have_Chain peer_chain \<Rightarrow>
          turn (poll_chain S (s_node s) peer_chain) (s_poll_conn s)
            (\<lambda>(p, nd) c s. s\<lparr>s_poll := p, s_poll_conn := c, s_node := nd\<rparr>) s)"

text \<open>\<open>Run\<close>: the threads start.\<close>

definition Run_start :: "Node \<Rightarrow> world \<Rightarrow> system" where
  "Run_start nd w =
     \<lparr>s_node = nd, s_disk = w_disk w, s_sockets = w_sockets w, s_listening = False, s_handlers = [],
      s_poll = Poll_Next, s_poll_conn = w_peer w, s_queue = node_peers nd, s_running = True\<rparr>"

text \<open>Any thread may go next, on whatever the system calls answer and the peers send.\<close>

inductive daemon_step :: "secp256k1 \<Rightarrow> system \<Rightarrow> system \<Rightarrow> bool" for S where
  accepts: "s_running s \<Longrightarrow> daemon_step S s (accept_turn E c s)"
| handles: "s_running s \<Longrightarrow> i < length (s_handlers s) \<Longrightarrow> daemon_step S s (handle_turn S i s)"
| mines: "s_running s \<Longrightarrow> node_mines (s_node s) \<Longrightarrow> daemon_step S s (mine_turn S now s)"
| polls: "s_running s \<Longrightarrow> daemon_step S s (poll_turn S E c s)"

inductive_cases daemon_stepE: "daemon_step S s s'"

inductive daemon_reach :: "secp256k1 \<Rightarrow> system \<Rightarrow> system \<Rightarrow> bool" for S s where
  reach_start: "daemon_reach S s s"
| reach_step: "daemon_reach S s s1 \<Longrightarrow> daemon_step S s1 s2 \<Longrightarrow> daemon_reach S s s2"

interpretation threads: live_system "daemon_step S" "daemon_reach S" s_running for S
proof
  show "daemon_step S s s' \<Longrightarrow> s_running s" for s s' by (erule daemon_stepE)
  have "daemon_reach S s s' \<Longrightarrow> (daemon_step S)\<^sup>*\<^sup>* s s'" for s s'
    by (induction rule: daemon_reach.induct) (auto intro: rtranclp.rtrancl_into_rtrancl)
  moreover have "(daemon_step S)\<^sup>*\<^sup>* s s' \<Longrightarrow> daemon_reach S s s'" for s s'
    by (induction rule: rtranclp_induct) (auto intro: daemon_reach.intros)
  ultimately show "daemon_reach S s s' \<longleftrightarrow> (daemon_step S)\<^sup>*\<^sup>* s s'" for s s' by blast
qed


section \<open>What an action that returns has done\<close>

text \<open>\<open>yields P m Q\<close>: started in a world with \<open>P\<close>, when \<open>m\<close> returns \<open>x\<close> in \<open>w'\<close>, \<open>Q x w'\<close> holds.\<close>

definition yields :: "(world \<Rightarrow> bool) \<Rightarrow> 'a io \<Rightarrow> ('a \<Rightarrow> world \<Rightarrow> bool) \<Rightarrow> bool" where
  "yields P m Q \<longleftrightarrow> (\<forall>w x w'. P w \<longrightarrow> m w = (Inr x, w') \<longrightarrow> Q x w')"

lemma yieldsD: "yields P m Q \<Longrightarrow> P w \<Longrightarrow> m w = (Inr x, w') \<Longrightarrow> Q x w'"
  by (simp add: yields_def)

lemma yields_return: "(\<And>w. P w \<Longrightarrow> Q x w) \<Longrightarrow> yields P (io_return x) Q"
  by (simp add: yields_def)

lemma yields_bind: "yields P m R \<Longrightarrow> (\<And>x. yields (R x) (f x) Q) \<Longrightarrow> yields P (io_bind m f) Q"
  by (auto simp: yields_def io_bind_def split: prod.splits sum.splits)

lemma yields_lift: "(\<And>x. r = Inr x \<Longrightarrow> yields P (f x) Q) \<Longrightarrow> yields P (io_bind (io_lift r) f) Q"
  by (cases r) (simp_all add: yields_def)

lemma yields_net:
  assumes "disk_only P" and "\<And>w. w_disk (snd (m w)) = w_disk w" and "\<And>x. yields P (f x) Q"
  shows "yields P (io_bind m f) Q"
proof (rule yields_bind [OF _ assms(3)])
  show "yields P m (\<lambda>_. P)"
    unfolding yields_def
  proof (intro allI impI)
    fix w x w' assume "P w" and "m w = (Inr x, w')"
    with assms(2) [of w] disk_onlyD [OF assms(1), of w w'] show "P w'" by simp
  qed
qed

lemma yields_idle:
  assumes "\<And>w. w_disk (snd (m w)) = w_disk w" shows "yields (disk_is d) m (\<lambda>_. disk_is d)"
  unfolding yields_def
proof (intro allI impI)
  fix w x w' assume "disk_is d w" and "m w = (Inr x, w')"
  with assms [of w] show "disk_is d w'" by simp
qed

lemma yields_expect:
  "disk_only P \<Longrightarrow> (\<And>p. yields P (f p) Q) \<Longrightarrow> yields P other Q \<Longrightarrow> yields P (expect cmd f other) Q"
  unfolding expect_def by (rule yields_net [OF _ net_disk(6)]) (auto split: option.split)

lemma yields_write:
  assumes "\<And>d'. g d = Inr d' \<Longrightarrow> yields (disk_is d') (f ()) Q"
  shows "yields (disk_is d) (io_bind (io_write g) f) Q"
  unfolding yields_def
proof (intro allI impI)
  fix w x w' assume "disk_is d w" and "io_bind (io_write g) f w = (Inr x, w')"
  then obtain d' where d': "g d = Inr d'" "f () (w\<lparr>w_disk := d'\<rparr>) = (Inr x, w')"
    by (auto elim!: io_bindE io_writeE)
  show "Q x w'" by (rule yieldsD [OF assms [OF d'(1)] _ d'(2)]) simp
qed

lemma yields_mempool:
  "yields (disk_is d) (f (mempool_of d path)) Q \<Longrightarrow> yields (disk_is d) (io_bind (load_mempool_or_empty path) f) Q"
  by (auto simp: yields_def elim!: io_bindE dest!: load_mempool_or_empty_run)

lemma yields_done:
  assumes "disk_only P" and "\<And>w. P w \<Longrightarrow> Q Poll_Next w" shows "yields P poll_done Q"
  unfolding poll_done_def using assms by (intro yields_net [OF _ net_disk(4)] yields_return)

lemma yields_hang_up:
  assumes "disk_only P" and "\<And>w. P w \<Longrightarrow> Q Closed w" shows "yields P hang_up Q"
  unfolding hang_up_def using assms by (intro yields_net [OF _ net_disk(4)] yields_return)

section \<open>The abstract node\<close>

text \<open>What can happen to the chain in memory and the files, and nothing else: no change; the chain follows
  the rules to a new chain, which is saved; a transaction joins the mempool file; and, on a node that
  mines, a block is mined on the tip.\<close>

inductive node_event :: "secp256k1 \<Rightarrow> Node \<times> disk \<Rightarrow> Node \<times> disk \<Rightarrow> bool" for S where
  idle: "node_event S (nd, d) (nd, d)"
| follow: "may_follow S (node_chain nd) chain \<Longrightarrow> save_chain chain (node_path nd) d = Inr d' \<Longrightarrow>
    node_event S (nd, d) (nd\<lparr>node_chain := chain\<rparr>, d')"
| pend: "wf_tx tx \<Longrightarrow> \<not> IsCoinbase tx \<Longrightarrow> 0 \<le> sint (validate_and_get_fee S tx (build_utxo_set (node_chain nd))) \<Longrightarrow>
    length (mempool_of d (node_path nd @ ''.mempool'')) < MAX_MEMPOOL_SIZE \<Longrightarrow>
    save_mempool (mempool_of d (node_path nd @ ''.mempool'') @ [tx]) (node_path nd @ ''.mempool'') d = Inr d' \<Longrightarrow>
    node_event S (nd, d) (nd, d')"
| mine: "node_mines nd \<Longrightarrow>
    select_mempool S (mempool_of d (node_path nd @ ''.mempool'')) (build_utxo_set (node_chain nd)) [] 0 = (txs, fees) \<Longrightarrow>
    node_chain nd \<noteq> [] \<Longrightarrow>
    build_next_block now (extract_headers (node_chain nd)) (GetHash (last (node_chain nd)))
      (address_of (node_wallet nd)) fees txs = Inr blk \<Longrightarrow>
    save_chain (node_chain nd @ [blk]) (node_path nd) d = Inr d1 \<Longrightarrow>
    save_mempool [] (node_path nd @ ''.mempool'') d1 = Inr d' \<Longrightarrow>
    node_event S (nd, d) (nd\<lparr>node_chain := node_chain nd @ [blk]\<rparr>, d')"

inductive_cases node_eventE: "node_event S (nd, d) (nd', d')"

lemma accept_event:
  assumes "wf_tx tx"
  shows "yields (disk_is d) (AcceptTransaction S nd tx) (\<lambda>_ w. node_event S (nd, d) (nd, w_disk w))"
proof -
  let ?m = "mempool_of d (node_path nd @ ''.mempool'')"
  have "yields (disk_is d) (io_write (save_mempool (?m @ [tx]) (node_path nd @ ''.mempool'')))
      (\<lambda>_ w. node_event S (nd, d) (nd, w_disk w))"
    if "\<not> IsCoinbase tx" "0 \<le> sint (validate_and_get_fee S tx (build_utxo_set (node_chain nd)))" "length ?m < MAX_MEMPOOL_SIZE"
    using that assms by (auto simp: yields_def elim!: io_writeE intro: pend)
  then show ?thesis
    unfolding AcceptTransaction_def Let_def
    by (auto simp: not_le intro!: yields_return yields_mempool idle split: if_splits)
qed

lemma handle_event: "yields (disk_is d) (handle_step S nd h) (\<lambda>_ w. node_event S (nd, d) (nd, w_disk w))"
proof -
  let ?Q = "\<lambda>_ w. node_event S (nd, d) (nd, w_disk w)"
  have done_: "yields (disk_is d) (io_return h') ?Q" for h' by (rule yields_return) (auto intro: idle)
  have hang: "yields (disk_is d) hang_up ?Q" by (rule yields_hang_up) (auto intro: idle)
  have tx: "yields (disk_is d) (io_bind (io_lift (Transaction_Deserialize payload 0))
      (\<lambda>(tx, _). io_bind (AcceptTransaction S nd tx) (\<lambda>_. io_return Serving))) ?Q" for payload
  proof (intro yields_lift, clarify)
    fix tx n assume "Transaction_Deserialize payload 0 = Inr (tx, n)"
    then have "wf_tx tx" by (simp add: tx_codec.des_sound)
    from accept_event [OF this] show "yields (disk_is d) (io_bind (AcceptTransaction S nd tx) (\<lambda>_. io_return Serving)) ?Q"
      by (rule yields_bind) (rule yields_return, assumption)
  qed
  show ?thesis
    unfolding handle_step_def handle_version_def handle_verack_def handle_request_def
    by (cases h) (auto intro!: yields_expect yields_net [OF _ net_disk(5)] yields_net [OF _ net_disk(6)] yields_lift
      done_ hang tx split: option.split)
qed


lemma mine_event:
  assumes "node_mines nd"
  shows "yields (disk_is d) (MiningLoop_turn S now nd) (\<lambda>nd' w. node_event S (nd, d) (nd', w_disk w))"
  unfolding yields_def MiningLoop_turn_def
proof (intro allI impI)
  fix w nd' w' assume w: "disk_is d w" and "io_bind (mine_on_tip S now (node_path nd) (address_of (node_wallet nd)) (node_chain nd))
      (\<lambda>(_, chain). io_return (nd\<lparr>node_chain := chain\<rparr>)) w = (Inr nd', w')"
  then obtain blk chain where run: "mine_on_tip S now (node_path nd) (address_of (node_wallet nd)) (node_chain nd) w = (Inr (blk, chain), w')"
    and nd': "nd' = nd\<lparr>node_chain := chain\<rparr>" by (auto elim!: io_bindE)
  from run obtain txs fees d1 where "select_mempool S (mempool_of (w_disk w) (node_path nd @ ''.mempool'')) (build_utxo_set (node_chain nd)) [] 0 = (txs, fees)"
    "build_next_block now (extract_headers (node_chain nd)) (GetHash (last (node_chain nd))) (address_of (node_wallet nd)) fees txs = Inr blk"
    "node_chain nd \<noteq> []" "chain = node_chain nd @ [blk]" "save_chain chain (node_path nd) (w_disk w) = Inr d1"
    "save_mempool [] (node_path nd @ ''.mempool'') d1 = Inr (w_disk w')" by (rule mine_on_tip_cases)
  with w show "node_event S (nd, d) (nd', w_disk w')" unfolding nd' by (auto intro: node_event.mine [OF assms])
qed

lemma connect_idle: "yields (disk_is d) (poll_connect E addr) (\<lambda>_ w. w_disk w = d)"
proof -
  have connect: "w_disk (snd (io_catch (io_bind (connect_to E h p) (\<lambda>_. io_return True)) (io_return False) w)) = w_disk w" for h p w
    using net_disk(3) [of E h p w] by (auto simp: io_catch_def io_bind_def split: prod.split sum.split)
  show ?thesis
    unfolding poll_connect_def
    by (rule yields_net [OF _ connect])
      (auto intro!: yields_return yields_net [OF _ net_disk(5)] yields_expect yields_lift yields_done)
qed

lemma request_idle: "yields (disk_is d) (poll_request blk) (\<lambda>_ w. w_disk w = d)"
  unfolding poll_request_def
  by (auto intro!: yields_return yields_net [OF _ net_disk(5)] yields_expect yields_lift yields_done)

lemma block_event:
  "yields (disk_is d) (poll_block S nd blk) (\<lambda>(_, nd') w. node_event S (nd, d) (nd', w_disk w))"
proof -
  have "yields (disk_is d) (if extended
      then io_bind (io_write (save_chain chain (node_path nd))) (\<lambda>_. io_bind poll_done (\<lambda>p. io_return (p, nd\<lparr>node_chain := chain\<rparr>)))
      else io_bind (poll_request blk) (\<lambda>p. io_return (p, nd))) (\<lambda>(_, nd') w. node_event S (nd, d) (nd', w_disk w))"
    if t: "try_extend_chain S (node_chain nd) blk = Inr (extended, chain)" for extended chain
  proof (cases extended)
    case True
    with t have "may_follow S (node_chain nd) chain" by (auto simp: try_extend_chain_true may_follow_def)
    then show ?thesis using True
      by (auto intro!: yields_write yields_bind [OF yields_done [of _ "\<lambda>_. disk_is _"]] yields_return intro: follow)
  next
    case False
    then show ?thesis
      by (auto intro!: yields_bind [OF request_idle] yields_return idle)
  qed
  then show ?thesis
    unfolding poll_block_def by (intro yields_lift) (auto split: prod.split)
qed

lemma chain_event:
  "yields (disk_is d) (poll_chain S nd peer_chain) (\<lambda>(_, nd') w. node_event S (nd, d) (nd', w_disk w))"
proof -
  have "yields (disk_is d) (io_bind (if switched then io_write (save_chain chain (node_path nd)) else io_return ())
      (\<lambda>_. io_bind poll_done (\<lambda>p. io_return (p, nd\<lparr>node_chain := chain\<rparr>)))) (\<lambda>(_, nd') w. node_event S (nd, d) (nd', w_disk w))"
    if t: "try_reorg S (node_chain nd) peer_chain = Inr (switched, chain)" for switched chain
  proof (cases switched)
    case True
    with t try_reorg_cases [OF t] have "may_follow S (node_chain nd) chain" by (auto simp: may_follow_def)
    then show ?thesis using True
      by (auto intro!: yields_write yields_bind [OF yields_done [of _ "\<lambda>_. disk_is _"]] yields_return intro: follow)
  next
    case False
    with try_reorg_cases [OF t] have "nd\<lparr>node_chain := chain\<rparr> = nd" by simp
    with False show ?thesis
      by (auto intro!: yields_bind [OF yields_done [of _ "\<lambda>_. disk_is d"]] yields_return idle)
  qed
  then show ?thesis
    unfolding poll_chain_def by (intro yields_lift) (auto split: prod.split)
qed

lemma turn_returns:
  assumes "yields P m Q" and "P \<lparr>w_disk = s_disk s, w_peer = c, w_sockets = s_sockets s\<rparr>" and "s_running (turn m c f s)"
    and "\<And>x w s'. Q x w \<Longrightarrow> s' = f x (w_peer w) (s\<lparr>s_disk := w_disk w, s_sockets := w_sockets w\<rparr>) \<Longrightarrow> R s'"
  shows "R (turn m c f s)"
proof -
  obtain r w where run: "m \<lparr>w_disk = s_disk s, w_peer = c, w_sockets = s_sockets s\<rparr> = (r, w)" by fastforce
  with assms(3) obtain x where x: "r = Inr x" by (cases r) (auto simp: turn_def)
  have "Q x w" by (rule yieldsD [OF assms(1,2) run [unfolded x]])
  from assms(4) [OF this refl] show ?thesis by (simp add: turn_def run x)
qed

lemma turn_event:
  assumes "yields (disk_is (s_disk s)) m Q" and "s_running (turn m c f s)"
    and "\<And>x w s'. Q x w \<Longrightarrow> s' = f x (w_peer w) (s\<lparr>s_disk := w_disk w, s_sockets := w_sockets w\<rparr>) \<Longrightarrow>
      node_event S (s_node s, s_disk s) (s_node s', s_disk s')"
  shows "node_event S (s_node s, s_disk s) (s_node (turn m c f s), s_disk (turn m c f s))"
  by (rule turn_returns [OF assms(1) _ assms(2)]) (use assms(3) in auto)

lemma daemon_step_event:
  assumes "daemon_step S s s'" and "s_running s'"
  shows "node_event S (s_node s, s_disk s) (s_node s', s_disk s')"
  using assms(1)
proof (cases rule: daemon_step.cases)
  case (accepts E c)
  have "yields (disk_is (s_disk s)) (create_listener E (node_port (s_node s))) (\<lambda>_ w. w_disk w = s_disk s)"
    "yields (disk_is (s_disk s)) (accept_connection E) (\<lambda>_ w. w_disk w = s_disk s)"
    by (rule yields_idle, rule net_disk)+
  with accepts assms(2) show ?thesis
    by (auto simp: accept_turn_def intro: idle intro!: turn_event)
next
  case (handles i)
  obtain h c where hc: "s_handlers s ! i = (h, c)" by fastforce
  then have run: "handle_turn S i s = turn (handle_step S (s_node s) h) c (\<lambda>h c s. s\<lparr>s_handlers := (s_handlers s)[i := (h, c)]\<rparr>) s"
    by (simp add: handle_turn_def)
  have "node_event S (s_node s, s_disk s) (s_node (handle_turn S i s), s_disk (handle_turn S i s))"
    unfolding run by (rule turn_event [OF handle_event]) (use handles assms(2) run in auto)
  with handles show ?thesis by simp
next
  case (mines now)
  have "node_event S (s_node s, s_disk s) (s_node (mine_turn S now s), s_disk (mine_turn S now s))"
    unfolding mine_turn_def
    by (rule turn_event [OF mine_event]) (use mines assms(2) in \<open>auto simp: mine_turn_def\<close>)
  with mines show ?thesis by simp
next
  case (polls E c)
  have "node_event S (s_node s, s_disk s) (s_node (poll_turn S E c s), s_disk (poll_turn S E c s))"
  proof (cases "s_poll s")
    case Poll_Next
    show ?thesis
    proof (cases "s_queue s")
      case (Cons addr queue)
      then show ?thesis using polls assms(2) Poll_Next
        by (auto simp: poll_turn_def intro: idle intro!: turn_event [OF connect_idle])
    qed (simp add: poll_turn_def Poll_Next idle)
  next
    case (Have_Block blk)
    then show ?thesis using polls assms(2)
      by (auto simp: poll_turn_def intro!: turn_event [OF block_event])
  next
    case (Have_Chain chain)
    then show ?thesis using polls assms(2)
      by (auto simp: poll_turn_def intro!: turn_event [OF chain_event])
  qed
  with polls show ?thesis by simp
qed

lemma daemon_reach_events:
  assumes "daemon_reach S s s'" and "s_running s'"
  shows "(node_event S)\<^sup>*\<^sup>* (s_node s, s_disk s) (s_node s', s_disk s')"
  using assms
proof (induction rule: threads.reach_invariant)
  case (step s1 s2)
  with daemon_step_event show ?case by (auto intro: rtranclp.rtrancl_into_rtrancl)
qed simp

text \<open>C4: The daemon refines the abstract node: however its threads interleave and whatever the peers and
  the operating system answer, as long as the process runs, its chain and files change by the events of
  the abstract node only.\<close>

theorem daemon_refines_node:
  assumes "daemon_reach S s s'" and "s_running s'"
  shows "(node_event S)\<^sup>*\<^sup>* (s_node s, s_disk s) (s_node s', s_disk s')"
  using assms by (rule daemon_reach_events)

end
