(* ===== verification/Daemon_Safety.thy ===== *)
theory Daemon_Safety
  imports Daemon
begin

text \<open>
  What holds of every state a running daemon reaches: the chain file, the genesis and the work; a
  follower's chain; the mempool file; the validity of the chain; the socket handles.
\<close>

section \<open>What holds of every reachable state\<close>

definition work :: "Node \<Rightarrow> f64" where
  "work nd = calculate_chain_work (extract_headers (node_chain nd))"

definition in_sync :: "Node \<Rightarrow> disk \<Rightarrow> bool" where
  "in_sync nd d \<longleftrightarrow> files d (node_path nd) = Some (serialize_chain (node_chain nd))"

text \<open>What a node keeps: its configuration and keys, its genesis, the chain file, and its work.\<close>

definition node_keeps :: "Node \<Rightarrow> Node \<Rightarrow> disk \<Rightarrow> bool" where
  "node_keeps nd nd' d' \<longleftrightarrow> nd' = nd\<lparr>node_chain := node_chain nd'\<rparr> \<and> in_sync nd' d'
     \<and> (node_chain nd \<noteq> [] \<longrightarrow> node_chain nd' \<noteq> [] \<and> GetHash (hd (node_chain nd')) = GetHash (hd (node_chain nd)))
     \<and> f64_le (work nd) (work nd')"

lemma f64_less_le: "f64_less x y \<Longrightarrow> f64_le x y"
  by (cases "(x, y)" rule: f64_less.cases) (auto simp: Let_def)

lemma may_follow_keeps:
  assumes "may_follow S chain chain'"
  shows "chain \<noteq> [] \<and> chain' \<noteq> [] \<and> GetHash (hd chain') = GetHash (hd chain)
    \<and> f64_le (calculate_chain_work (extract_headers chain)) (calculate_chain_work (extract_headers chain'))"
  using assms
  by (auto simp: may_follow_def extends_def try_reorg_true extract_headers_snoc chain_work_mono f64_less_le)

lemma other_file: "save_mempool m (p @ ''.mempool'') d = Inr d' \<Longrightarrow> files d' p = files d p"
  by (auto simp: save_mempool_eq dest!: write_file_files)

lemma saved_file: "save_chain chain p d = Inr d' \<Longrightarrow> files d' p = Some (serialize_chain chain)"
  by (auto simp: save_chain_def dest!: write_file_files)

lemma work_refl: "f64_le (work nd) (work nd)"
  by (simp add: work_def f64_le_refl chain_work_double)

lemma event_keeps: "node_event S (nd, d) (nd', d') \<Longrightarrow> in_sync nd d \<Longrightarrow> node_keeps nd nd' d'"
proof (erule node_eventE, goal_cases)
  case (2 chain)
  with may_follow_keeps [of S "node_chain nd" chain] show ?case
    by (simp add: node_keeps_def in_sync_def saved_file work_def)
next
  case (4 txs fees now blk d1)
  then show ?case
    by (simp add: node_keeps_def in_sync_def other_file saved_file work_def extract_headers_snoc chain_work_mono)
qed (simp_all add: node_keeps_def in_sync_def work_refl other_file)

lemma keeps_trans: "node_keeps nd nd1 d1 \<Longrightarrow> node_keeps nd1 nd2 d2 \<Longrightarrow> node_keeps nd nd2 d2"
  unfolding node_keeps_def by (auto elim: f64_le_trans) (metis Node.surjective Node.update_convs(6))+

lemma events_keep:
  "(node_event S)\<^sup>*\<^sup>* (nd, d) (nd', d') \<Longrightarrow> in_sync nd d \<Longrightarrow> node_keeps nd nd' d'"
proof (induction rule: rtranclp_induct2)
  case refl
  then show ?case by (simp add: node_keeps_def work_refl)
next
  case (step nd1 d1 nd2 d2)
  then have "node_keeps nd nd1 d1" by simp
  moreover from this have "node_keeps nd1 nd2 d2"
    by (intro event_keeps [OF step.hyps(2)]) (simp add: node_keeps_def)
  ultimately show ?case by (rule keeps_trans)
qed

lemma load_or_create_keeps: "load_or_create_chain now p a w = (Inr chain, w') \<Longrightarrow> w' = w"
  by (auto simp: load_or_create_chain_def io_catch_def split: sum.splits if_splits)

lemma Node_new_in_sync:
  assumes "Node_new S now random port path peers mine w = (Inr nd, w')"
  shows "in_sync nd (w_disk w') \<and> node_path nd = path \<and> node_mines nd = mine"
  using assms saved_file
  by (auto simp: Node_new_def in_sync_def elim!: io_bindE io_writeE)

text \<open>C5: As long as a daemon runs, its chain file holds exactly the chain in memory, the first block
  never changes its hash, the configuration and the keys stay, and the cumulative work never drops.\<close>

theorem daemon_invariant:
  assumes "Node_new S now random port path peers mine w = (Inr nd, w')"
    and "daemon_reach S (Run_start nd w') s" and "s_running s"
  shows "node_keeps nd (s_node s) (s_disk s)"
  using events_keep [of S nd "w_disk w'"] daemon_reach_events [OF assms(2,3)] Node_new_in_sync [OF assms(1)]
  by (simp add: Run_start_def)

text \<open>A follower's chain moves only by the rules.\<close>

lemma follower_events:
  "(node_event S)\<^sup>*\<^sup>* (nd, d) (nd', d') \<Longrightarrow> \<not> node_mines nd \<Longrightarrow>
     \<not> node_mines nd' \<and> (may_follow S)\<^sup>*\<^sup>* (node_chain nd) (node_chain nd')"
proof (induction rule: rtranclp_induct2)
  case (step nd1 d1 nd2 d2)
  then have "\<not> node_mines nd1" "(may_follow S)\<^sup>*\<^sup>* (node_chain nd) (node_chain nd1)" by simp_all
  with step.hyps(2) show ?case
    by (auto elim!: node_eventE intro: rtranclp.rtrancl_into_rtrancl)
qed simp

text \<open>A node started with \<open>--no-mine\<close> never mines: its chain only moves by blocks that extend it by the
  rules of \<open>try_extend_chain\<close> and by valid heavier chains of the same genesis.\<close>

theorem follower_never_mines:
  assumes "daemon_reach S s s'" and "s_running s'" and "\<not> node_mines (s_node s)"
  shows "(may_follow S)\<^sup>*\<^sup>* (node_chain (s_node s)) (node_chain (s_node s'))"
  using follower_events [OF daemon_reach_events [OF assms(1,2)] assms(3)] by simp

section \<open>The mempool\<close>

definition mempool_ok :: "Node \<Rightarrow> disk \<Rightarrow> bool" where
  "mempool_ok nd d \<longleftrightarrow> length (mempool_of d (node_path nd @ ''.mempool'')) \<le> MAX_MEMPOOL_SIZE
     \<and> list_all (\<lambda>tx. wf_tx tx \<and> \<not> IsCoinbase tx) (mempool_of d (node_path nd @ ''.mempool''))"

lemma mempool_of_files: "files d' p = files d p \<Longrightarrow> mempool_of d' p = mempool_of d p"
  by (simp add: mempool_of_def load_mempool_def read_file_def)

lemma mempool_of_saved:
  assumes "list_all wf_tx m" and "length m \<le> MAX_MEMPOOL_SIZE" and "save_mempool m p d = Inr d'"
  shows "mempool_of d' p = m"
  using load_save_mempool [OF assms(1) _ assms(3)] assms(2) by (simp add: mempool_of_def MAX_MEMPOOL_SIZE_def)

lemma chain_saved_mempool: "save_chain chain p d = Inr d' \<Longrightarrow> mempool_of d' (p @ ''.mempool'') = mempool_of d (p @ ''.mempool'')"
  by (rule mempool_of_files) (auto simp: save_chain_def dest!: write_file_files)

lemma event_mempool: "node_event S (nd, d) (nd', d') \<Longrightarrow> mempool_ok nd d \<Longrightarrow> mempool_ok nd' d'"
proof (erule node_eventE, goal_cases)
  case (3 tx)
  then have "mempool_of d' (node_path nd @ ''.mempool'') = mempool_of d (node_path nd @ ''.mempool'') @ [tx]"
    by (intro mempool_of_saved) (auto simp: mempool_ok_def list_all_iff)
  with 3 show ?case by (auto simp: mempool_ok_def list_all_iff)
next
  case (4 txs fees now blk d1)
  then have "mempool_of d' (node_path nd @ ''.mempool'') = []"
    by (intro mempool_of_saved) auto
  with 4 show ?case by (simp add: mempool_ok_def)
qed (auto simp: mempool_ok_def chain_saved_mempool)

lemma events_mempool: "(node_event S)\<^sup>*\<^sup>* (nd, d) (nd', d') \<Longrightarrow> mempool_ok nd d \<Longrightarrow> mempool_ok nd' d'"
  by (induction rule: rtranclp_induct2) (auto intro: event_mempool)

text \<open>C33: The mempool file of a running daemon never grows beyond 1000 transactions, and no coinbase and no
  ill-formed transaction enters it.\<close>

theorem daemon_mempool_bounded:
  assumes "daemon_reach S s s'" and "s_running s'" and "mempool_ok (s_node s) (s_disk s)"
  shows "mempool_ok (s_node s') (s_disk s')"
  using events_mempool [OF daemon_reach_events [OF assms(1,2)] assms(3)] .

section \<open>The chain stays valid\<close>

lemma select_mempool_subset: "select_mempool S mempool u acc f = (txs, F) \<Longrightarrow> set txs \<subseteq> set acc \<union> set mempool"
proof (induction S mempool u acc f rule: select_mempool.induct)
  case (2 S tx mempool u acc f)
  let ?fee = "validate_and_get_fee S tx u"
  show ?case
  proof (cases "0 \<le> sint ?fee")
    case True
    from "2.IH"(1) [OF refl True] "2.prems" True show ?thesis by (auto simp: Let_def)
  next
    case False
    with "2.IH"(2) [OF refl False] "2.prems" show ?thesis by (auto simp: Let_def)
  qed
qed simp

lemma event_valid:
  assumes "node_event S (nd, d) (nd', d')" and "validate_full_chain S (node_chain nd) = Inr True" and "mempool_ok nd d"
    and "outpoints_unique (all_txs (node_chain nd'))" and "independent (vtx (last (node_chain nd')))"
  shows "validate_full_chain S (node_chain nd') = Inr True"
proof -
  from assms(2) obtain u where u: "ledger S (node_chain nd) u" by (auto simp: validate_full_chain_ledger)
  have extend: "validate_full_chain S (node_chain nd @ [blk]) = Inr True"
    if "extends S (node_chain nd) blk" "nd' = nd\<lparr>node_chain := node_chain nd @ [blk]\<rparr>" for blk
  proof -
    from that(2) assms(4) have "outpoints_unique (all_txs (node_chain nd))"
      by (auto simp: all_txs_snoc dest: outpoints_unique_append)
    from extends_ledger [OF u this that(1)] that(2) assms(5) show ?thesis by (simp add: validate_full_chain_ledger)
  qed
  have mined: "validate_full_chain S (node_chain nd @ [blk]) = Inr True"
    if "nd' = nd\<lparr>node_chain := node_chain nd @ [blk]\<rparr>" "node_chain nd \<noteq> []"
      and sel: "select_mempool S (mempool_of d (node_path nd @ ''.mempool'')) (build_utxo_set (node_chain nd)) [] 0 = (txs, fees)"
      and blk: "build_next_block now (extract_headers (node_chain nd)) (GetHash (last (node_chain nd)))
        (address_of (node_wallet nd)) fees txs = Inr blk" for blk txs fees now
  proof -
    have "list_all (\<lambda>tx. \<not> IsCoinbase tx) txs"
      using select_mempool_subset [OF sel] assms(3) by (fastforce simp: mempool_ok_def list_all_iff)
    from mined_on_valid_chain [OF u that(2) sel blk this] that(1) assms(4) show ?thesis
      by (simp add: validate_full_chain_ledger)
  qed
  from assms(1) show ?thesis
    by (cases rule: node_eventE) (use assms(2) in \<open>auto simp: may_follow_def try_reorg_true intro: extend mined\<close>)
qed

text \<open>C6: Every step of a running daemon, whichever thread makes it, leaves a valid chain valid, when the
  mempool holds no coinbase, no outpoint of the new chain was created twice and no coinbase of it names
  one as an input, and no two transactions of its tip spend the same output.\<close>

theorem daemon_step_valid:
  assumes "daemon_step S s s'" and "s_running s'" and "validate_full_chain S (node_chain (s_node s)) = Inr True"
    and "mempool_ok (s_node s) (s_disk s)" and "outpoints_unique (all_txs (node_chain (s_node s')))"
    and "independent (vtx (last (node_chain (s_node s'))))"
  shows "validate_full_chain S (node_chain (s_node s')) = Inr True"
  using event_valid [OF daemon_step_event [OF assms(1,2)] assms(3-6)] .

section \<open>Sockets\<close>

definition open_handlers :: "system \<Rightarrow> int" where
  "open_handlers s = int (length (filter (\<lambda>(h, _). h \<noteq> Closed) (s_handlers s)))"

text \<open>The listener, one handle per open connection, and the poller's.\<close>

definition sockets_of :: "system \<Rightarrow> int" where
  "sockets_of s = (if s_listening s then 1 else 0) + open_handlers s + (if s_poll s = Poll_Next then 0 else 1)"

abbreviation holds :: "int \<Rightarrow> world \<Rightarrow> bool" where
  "holds k w \<equiv> w_sockets w = k"

lemma yields_balanced:
  assumes "balanced m j" and "\<And>x. yields (holds (k + j)) (f x) Q" shows "yields (holds k) (io_bind m f) Q"
proof (rule yields_bind [OF _ assms(2)])
  show "yields (holds k) m (\<lambda>_. holds (k + j))"
    unfolding yields_def
  proof (intro allI impI)
    fix w x w' assume "holds k w" and "m w = (Inr x, w')"
    with balancedD [OF assms(1), of w] show "holds (k + j) w'" by simp
  qed
qed

lemma yields_expect_balanced:
  "(\<And>p. yields (holds k) (f p) Q) \<Longrightarrow> yields (holds k) other Q \<Longrightarrow> yields (holds k) (expect cmd f other) Q"
  unfolding expect_def by (rule yields_balanced [OF balanced_basic(6)]) (auto split: option.split)

lemma balanced_accept: "balanced (AcceptTransaction S nd tx) 0"
  unfolding AcceptTransaction_def load_mempool_or_empty_def Let_def
  by (auto intro!: balanced_bind balanced_catch balanced_basic)

lemma balanced_poll_done: "balanced poll_done (- 1)"
  by (simp add: balanced_def poll_done_def io_bind_def close_socket_def)

lemma balanced_hang_up: "balanced hang_up (- 1)"
  by (simp add: balanced_def hang_up_def io_bind_def close_socket_def)

lemma yields_final: "balanced m j \<Longrightarrow> (\<And>x. Q x = holds (k + j)) \<Longrightarrow> yields (holds k) m Q"
  by (auto simp: yields_def dest: balancedD) (metis balancedD snd_conv)

lemma handle_sockets:
  "h \<noteq> Closed \<Longrightarrow> yields (holds k) (handle_step S nd h) (\<lambda>h'. holds (if h' = Closed then k - 1 else k))"
proof -
  assume h: "h \<noteq> Closed"
  let ?Q = "\<lambda>h'. holds (if h' = Closed then k - 1 else k)"
  have hang: "yields (holds k) hang_up ?Q" unfolding hang_up_def
    by (rule yields_balanced [OF balanced_basic(7)]) (rule yields_return, simp)
  have next_step: "yields (holds k) (io_return h') ?Q" if "h' \<noteq> Closed" for h' using that by (auto intro: yields_return)
  note pass = yields_balanced [OF balanced_basic(5)] yields_balanced [OF balanced_basic(6)] yields_balanced [OF balanced_accept]
  show ?thesis
    unfolding handle_step_def handle_version_def handle_verack_def handle_request_def
    using h by (cases h) (auto intro!: yields_expect_balanced pass hang next_step yields_lift split: option.split)
qed

lemma done_sockets: "(\<And>w. holds (k - 1) w \<Longrightarrow> Q Poll_Next w) \<Longrightarrow> yields (holds k) poll_done Q"
  unfolding poll_done_def by (rule yields_balanced [OF balanced_basic(7)]) (rule yields_return, simp)

text \<open>Sending, and saving, keep the count.\<close>

lemma yields_pass: "balanced m 0 \<Longrightarrow> (\<And>x. yields (holds k) (f x) Q) \<Longrightarrow> yields (holds k) (io_bind m f) Q"
  using yields_balanced [of m 0 k f Q] by simp

lemma connect_sockets: "yields (holds k) (poll_connect E addr) (\<lambda>p. holds (if p = Poll_Next then k else k + 1))"
proof -
  have connect: "yields (holds k) (io_catch (io_bind (connect_to E h p) (\<lambda>_. io_return True)) (io_return False))
      (\<lambda>connected. holds (if connected then k + 1 else k))" for h p
    by (auto simp: yields_def io_catch_def io_bind_def connect_to_def open_socket_def close_socket_def Let_def split: if_splits)
  show ?thesis
    unfolding poll_connect_def
  proof (rule yields_bind [OF connect])
    show "yields (holds (if connected then k + 1 else k)) (if \<not> connected then io_return Poll_Next else
        io_bind (peer_send cmd_VERSION build_version_payload) (\<lambda>_.
       expect cmd_VERSION (\<lambda>_.
         io_bind (peer_send cmd_VERACK []) (\<lambda>_.
         expect cmd_VERACK (\<lambda>_.
         expect cmd_INV (\<lambda>announced.
           io_bind (peer_send cmd_GETDATA announced) (\<lambda>_.
           expect cmd_BLOCK (\<lambda>payload.
             io_bind (io_lift (CBlock_Deserialize payload 0)) (\<lambda>(received_block, _). io_return (Have_Block received_block)))
             poll_done)) poll_done) poll_done)) poll_done))
        (\<lambda>p. holds (if p = Poll_Next then k else k + 1))" for connected
    proof (cases connected)
      case True
      let ?Q = "\<lambda>p. holds (if p = Poll_Next then k else k + 1)"
      have got: "yields (holds (k + 1)) (case x of (received_block, _) \<Rightarrow> io_return (Have_Block received_block)) ?Q"
        for x :: "CBlock \<times> nat" by (cases x) (simp add: yields_return)
      have fin: "yields (holds (k + 1)) poll_done ?Q" by (rule done_sockets) simp
      show ?thesis
        using True
        by simp (rule yields_pass [OF balanced_basic(5)] yields_expect_balanced yields_lift got fin)+
    qed (simp add: yields_def)
  qed
qed

lemma request_sockets: "yields (holds k) (poll_request blk) (\<lambda>p. holds (if p = Poll_Next then k - 1 else k))"
  unfolding poll_request_def
  by (cases "\<not> IsMerkleRootValid blk \<or> \<not> check_proof_of_work blk", simp_all only: if_True if_False)
    ((rule yields_pass [OF balanced_basic(5)] yields_expect_balanced yields_lift yields_return done_sockets, simp?)+)

lemma block_sockets: "yields (holds k) (poll_block S nd blk) (\<lambda>(p, _). holds (if p = Poll_Next then k - 1 else k))"
  unfolding poll_block_def
proof (rule yields_lift, clarify)
  fix extended chain
  have "yields (holds k) (io_bind (io_write (save_chain chain (node_path nd))) (\<lambda>_. io_bind poll_done (\<lambda>p. io_return (p, nd\<lparr>node_chain := chain\<rparr>))))
      (\<lambda>(p, _). holds (if p = Poll_Next then k - 1 else k))"
    by (rule yields_pass [OF balanced_basic(4)], rule yields_bind [OF done_sockets [of k "\<lambda>p w. p = Poll_Next \<and> holds (k - 1) w"]])
      (auto intro: yields_return)
  moreover have "yields (holds k) (io_bind (poll_request blk) (\<lambda>p. io_return (p, nd))) (\<lambda>(p, _). holds (if p = Poll_Next then k - 1 else k))"
    by (rule yields_bind [OF request_sockets]) (auto intro: yields_return)
  ultimately show "yields (holds k) (if extended
      then io_bind (io_write (save_chain chain (node_path nd))) (\<lambda>_. io_bind poll_done (\<lambda>p. io_return (p, nd\<lparr>node_chain := chain\<rparr>)))
      else io_bind (poll_request blk) (\<lambda>p. io_return (p, nd))) (\<lambda>(p, _). holds (if p = Poll_Next then k - 1 else k))"
    by simp
qed

lemma chain_sockets: "yields (holds k) (poll_chain S nd peer_chain) (\<lambda>(p, _) w. p = Poll_Next \<and> holds (k - 1) w)"
  unfolding poll_chain_def
proof (rule yields_lift, clarify)
  fix switched chain
  show "yields (holds k) (io_bind (if switched then io_write (save_chain chain (node_path nd)) else io_return ())
      (\<lambda>_. io_bind poll_done (\<lambda>p. io_return (p, nd\<lparr>node_chain := chain\<rparr>)))) (\<lambda>(p, _) w. p = Poll_Next \<and> holds (k - 1) w)"
    by (rule yields_pass [OF balanced_if [OF balanced_basic(4,1)]],
        rule yields_bind [OF done_sockets [of k "\<lambda>p w. p = Poll_Next \<and> holds (k - 1) w"]])
      (auto intro: yields_return)
qed

lemma mine_sockets: "yields (holds k) (MiningLoop_turn S now nd) (\<lambda>_. holds k)"
proof -
  have "balanced (MiningLoop_turn S now nd) 0"
    unfolding MiningLoop_turn_def mine_on_tip_def load_mempool_or_empty_def Let_def
    by (intro balanced_bind balanced_catch balanced_basic) (auto intro!: balanced_bind balanced_basic balanced_catch split: prod.split)
  then show ?thesis by (rule yields_final) simp
qed

lemma open_sockets:
  "yields (holds k) (create_listener E port) (\<lambda>_. holds (k + 1))" "yields (holds k) (accept_connection E) (\<lambda>_. holds (k + 1))"
  by (auto simp: yields_def create_listener_def accept_connection_def open_socket_def io_bind_def close_socket_def Let_def
      split: if_splits)

lemma filter_update:
  assumes "i < length xs"
  shows "int (length (filter P (xs[i := y])))
     = int (length (filter P xs)) - (if P (xs ! i) then 1 else 0) + (if P y then 1 else 0)"
  by (subst (2) id_take_nth_drop [OF assms], subst upd_conv_take_nth_drop [OF assms]) simp

text \<open>The handles that are open and not accounted for.\<close>

definition stray :: "system \<Rightarrow> int" where
  "stray s = s_sockets s - sockets_of s"

lemma step_stray:
  assumes "daemon_step S s s'" and "s_running s'"
  shows "stray s' = stray s"
  using assms(1)
proof (cases rule: daemon_step.cases)
  case (accepts E c)
  note turns = turn_returns [OF open_sockets(1), where R = "\<lambda>s'. stray s' = stray s"]
    turn_returns [OF open_sockets(2), where R = "\<lambda>s'. stray s' = stray s"]
  have "stray (accept_turn E c s) = stray s"
  proof (cases "s_listening s")
    case True
    with accepts assms(2) show ?thesis
      by (simp add: accept_turn_def)
        (rule turns(2), auto simp: stray_def sockets_of_def open_handlers_def)
  next
    case False
    with accepts assms(2) show ?thesis
      by (simp add: accept_turn_def)
        (rule turns(1), auto simp: stray_def sockets_of_def open_handlers_def)
  qed
  with accepts show ?thesis by simp
next
  case (handles i)
  obtain h c where hc: "s_handlers s ! i = (h, c)" by fastforce
  then have run: "handle_turn S i s = turn (handle_step S (s_node s) h) c (\<lambda>h c s. s\<lparr>s_handlers := (s_handlers s)[i := (h, c)]\<rparr>) s"
    by (simp add: handle_turn_def)
  show ?thesis
  proof (cases "h = Closed")
    case True
    then show ?thesis using handles hc
      by (simp add: run turn_def handle_step_def stray_def sockets_of_def open_handlers_def filter_update)
  next
    case False
    have "stray (handle_turn S i s) = stray s"
      unfolding run
      by (rule turn_returns [OF handle_sockets [OF False]])
        (use handles assms(2) run hc False in \<open>auto simp: stray_def sockets_of_def open_handlers_def filter_update\<close>)
    with handles show ?thesis by simp
  qed
next
  case (mines now)
  have "stray (mine_turn S now s) = stray s"
    unfolding mine_turn_def
    by (rule turn_returns [OF mine_sockets])
      (use mines assms(2) in \<open>auto simp: mine_turn_def stray_def sockets_of_def open_handlers_def\<close>)
  with mines show ?thesis by simp
next
  case (polls E c)
  have running: "s_running (poll_turn S E c s)" using polls assms(2) by simp
  note turns = turn_returns [OF connect_sockets, where R = "\<lambda>s'. stray s' = stray s"]
    turn_returns [OF block_sockets, where R = "\<lambda>s'. stray s' = stray s"]
    turn_returns [OF chain_sockets, where R = "\<lambda>s'. stray s' = stray s"]
  have "stray (poll_turn S E c s) = stray s"
  proof (cases "s_poll s")
    case Poll_Next
    show ?thesis
    proof (cases "s_queue s")
      case (Cons addr queue)
      with running Poll_Next show ?thesis
        by (simp add: poll_turn_def) (rule turns(1), auto simp: stray_def sockets_of_def open_handlers_def split: if_splits)
    qed (simp add: poll_turn_def Poll_Next stray_def sockets_of_def open_handlers_def)
  next
    case (Have_Block blk)
    with running show ?thesis
      by (simp add: poll_turn_def) (rule turns(2), auto simp: stray_def sockets_of_def open_handlers_def split: if_splits)
  next
    case (Have_Chain chain)
    with running show ?thesis
      by (simp add: poll_turn_def) (rule turns(3), auto simp: stray_def sockets_of_def open_handlers_def)
  qed
  with polls show ?thesis by simp
qed

lemma reach_stray: "daemon_reach S s s' \<Longrightarrow> s_running s' \<Longrightarrow> stray s' = stray s"
  by (induction rule: threads.reach_invariant) (simp_all add: step_stray)

text \<open>C34: A running daemon leaks no socket: the handles open are its listener's, one for each connection
  whose handler has not ended, and the poller's while it talks to a peer, and those that were open
  before it started.\<close>

theorem daemon_leaks_no_socket:
  assumes "daemon_reach S (Run_start nd w) s" and "s_running s"
  shows "s_sockets s = w_sockets w + sockets_of s"
  using reach_stray [OF assms] by (simp add: stray_def Run_start_def sockets_of_def open_handlers_def)

end
