(* ===== verification/Daemon_Sync.thy ===== *)
theory Daemon_Sync
  imports Daemon_Safety
begin

text \<open>
  Two daemons that talk: a poll brings the peer's tip. A sample run, which the theorems about reachable
  states are applied to, and the message that stops a node.
\<close>

section \<open>A poll brings the peer's tip\<close>

lemma talks_connect:
  assumes "os_socket E" and "os_inet_pton E host" and "os_connect E host port"
  shows "talks (connect_to E host port) d ins outs (Inr ()) d ins outs"
  using assms by (simp add: talks_def connect_to_def open_socket_def peer_is_def)

lemma talks_catch: "talks m d ins outs (Inr x) d' ins' outs' \<Longrightarrow> talks (io_catch m h) d ins outs (Inr x) d' ins' outs'"
  by (fastforce simp: talks_def io_catch_def)

lemma talks_Pair: "talks (Pair (Inr x)) d ins outs (Inr x) d ins outs"
  by (simp add: talks_def)

text \<open>The handler is a loop of turns on the connection.\<close>

lemma handler_turns:
  "HandleConnection S nd h = io_bind (handle_step S nd h) (\<lambda>h'. if h' = Closed then io_return () else HandleConnection S nd h')"
  by (rule ext) (simp add: HandleConnection.simps [of S nd h] io_bind_def io_return_def split: prod.split sum.split)

lemma causal_accept [causal_intros]: "causal (AcceptTransaction S nd tx)"
  unfolding AcceptTransaction_def load_mempool_or_empty_def Let_def by (intro causal_intros)

lemma causal_hang_up [causal_intros]: "causal hang_up"
  unfolding hang_up_def by (intro causal_intros)

lemma causal_handle_step [causal_intros]: "causal (handle_step S nd h)"
  unfolding handle_step_def handle_version_def handle_verack_def handle_request_def
  by (cases h; simp only: handler.case; intro causal_intros)

lemma causal_handler [causal_intros]: "causal (HandleConnection S nd h)"
  by (rule causal_loop [where stop = "\<lambda>h'. h' = Closed", OF handler_turns causal_handle_step]) (rule handle_shorter)

lemma ends_handler:
  "talks (handle_step S nd h) d ins outs (Inr h') d1 ins1 outs1 \<Longrightarrow> h' \<noteq> Closed \<Longrightarrow>
     ends (HandleConnection S nd h') d1 ins1 outs1 r d' sent \<Longrightarrow> ends (HandleConnection S nd h) d ins outs r d' sent"
  by (subst handler_turns) (rule ends_bind, assumption, simp)

lemma waits_handler:
  "talks (handle_step S nd h) d ins outs (Inr h') d1 ins1 outs1 \<Longrightarrow> h' \<noteq> Closed \<Longrightarrow>
     waits (HandleConnection S nd h') d1 ins1 outs1 sent \<Longrightarrow> waits (HandleConnection S nd h) d ins outs sent"
  by (subst handler_turns) (rule waits_bind, assumption, simp)

lemma handler_ends: "ends (HandleConnection S nd Serving) d [] outs (Inr ()) d outs"
  unfolding ends_def
proof (intro allI impI)
  fix w assume "w_disk w = d \<and> peer_is [] outs w"
  then have w: "w_disk w = d" "clean (w_peer w)" "inbox (w_peer w) = []" "sent_first (w_peer w) = outs" "outbox (w_peer w) = outs"
    by (auto simp: peer_is_def)
  obtain c where "Peer_Receive (w_peer w) = Inr (None, c)" "inbox c = []" "outbox c = outs" "waited c = Some outs"
    using receive_end [OF w(2,3)] w(4,5) by auto
  with w(1) show "\<exists>w'. HandleConnection S nd Serving w = (Inr (), w') \<and> w_disk w' = d \<and> inbox (w_peer w') = []
      \<and> outbox (w_peer w') = outs \<and> waited (w_peer w') = Some outs"
    by (simp add: HandleConnection.simps [of S nd Serving] handle_step_def handle_request_def hang_up_def
        io_bind_def peer_receive_def close_socket_def)
qed

lemma talks_getdata:
  assumes "node_chain nd \<noteq> []" and "length payload \<le> unat MAX_PAYLOAD_SIZE"
  shows "talks (handle_step S nd Serving) d (message_bytes cmd_GETDATA payload @ ins) outs (Inr Serving) d ins
    (outs @ message_bytes cmd_BLOCK (CBlock_Serialize (last (node_chain nd))))"
  unfolding handle_step_def handle_request_def handler.case
  by (rule talks_bind [OF talks_received [OF commands_ok(4) assms(2)]])
    (auto simp: chain_back_def assms(1) intro: talks_send talks_return)

lemma talks_getblocks:
  "talks (handle_step S nd Serving) d (message_bytes cmd_GETBLOCKS [] @ ins) outs (Inr Serving) d ins
    (outs @ message_bytes cmd_CHAIN (serialize_chain (node_chain nd)))"
  unfolding handle_step_def handle_request_def handler.case
  by (rule talks_bind [OF talks_received [OF commands_ok(7)]])
    (auto simp: cmd_GETDATA_def cmd_GETBLOCKS_def intro: talks_send talks_return)

lemma talks_version:
  "talks (handle_step S nd Await_VERSION) d (message_bytes cmd_VERSION build_version_payload @ ins) outs (Inr Await_VERACK) d ins
     (outs @ message_bytes cmd_VERSION build_version_payload)"
  unfolding handle_step_def handle_version_def handler.case
  by (intro talks_expect talks_send talks_return commands_ok small_payloads)

lemma handler_waits:
  "waits (HandleConnection S nd Await_VERSION) d (message_bytes cmd_VERSION build_version_payload) []
     (message_bytes cmd_VERSION build_version_payload)"
proof -
  have "waits (HandleConnection S nd Await_VERACK) d [] outs outs" for outs
    by (subst handler_turns, rule waits_first)
      (unfold handle_step_def handle_verack_def handler.case, intro waits_here causal_intros,
        intro causal_steady causal_intros)
  from waits_handler [OF talks_version _ this, of "[]"] show ?thesis by simp
qed

lemma ends_greeting:
  assumes "node_chain nd \<noteq> []"
    and "ends (HandleConnection S nd Serving) d ins (message_bytes cmd_VERSION build_version_payload
      @ message_bytes cmd_VERACK [] @ message_bytes cmd_INV (GetHash (last (node_chain nd)))) r d' sent"
  shows "ends (HandleConnection S nd Await_VERSION) d (message_bytes cmd_VERSION build_version_payload
      @ message_bytes cmd_VERACK [] @ ins) [] r d' sent"
proof (rule ends_handler [OF talks_version])
  show "ends (HandleConnection S nd Await_VERACK) d (message_bytes cmd_VERACK [] @ ins)
      ([] @ message_bytes cmd_VERSION build_version_payload) r d' sent"
  proof (rule ends_handler [of _ _ _ _ _ _ Serving])
    show "talks (handle_step S nd Await_VERACK) d (message_bytes cmd_VERACK [] @ ins)
        ([] @ message_bytes cmd_VERSION build_version_payload) (Inr Serving) d ins
        ((([] @ message_bytes cmd_VERSION build_version_payload) @ message_bytes cmd_VERACK [])
          @ message_bytes cmd_INV (GetHash (last (node_chain nd))))"
      unfolding handle_step_def handle_verack_def handler.case
      by (intro talks_expect talks_send commands_ok) (simp_all add: chain_back_def assms(1) talks_send talks_return)
  qed (use assms(2) in simp_all)
qed simp

lemma handler_greets:
  assumes "node_chain nd \<noteq> []"
  shows "waits (HandleConnection S nd Await_VERSION) d (message_bytes cmd_VERSION build_version_payload @ message_bytes cmd_VERACK []) []
    (message_bytes cmd_VERSION build_version_payload @ message_bytes cmd_VERACK []
      @ message_bytes cmd_INV (GetHash (last (node_chain nd))))"
  using ends_waits [OF ends_greeting [OF assms handler_ends]] by simp


text \<open>The poller's side, from the open connection to the block.\<close>

definition reachable :: "os \<Rightarrow> PeerAddress \<Rightarrow> bool" where
  "reachable E addr \<longleftrightarrow> os_socket E \<and> os_inet_pton E (peer_host addr) \<and> os_connect E (peer_host addr) (peer_port addr)"

lemma talks_poll_connect:
  assumes "reachable E addr" and "wf_block tip" and "length (CBlock_Serialize tip) \<le> unat MAX_PAYLOAD_SIZE"
  shows "talks (poll_connect E addr) d (listener_replies tip @ ins) [] (Inr (Have_Block tip)) d ins (connector_requests tip)"
proof -
  obtain n where des: "CBlock_Deserialize (CBlock_Serialize tip) 0 = Inr (tip, n)"
    using deserialize_whole_block [OF assms(2)] by blast
  have connect: "talks (io_catch (io_bind (connect_to E (peer_host addr) (peer_port addr)) (\<lambda>_. io_return True)) (io_return False))
      d i [] (Inr True) d i []" for i
    using assms(1) by (intro talks_catch talks_bind [OF talks_connect] talks_return) (simp_all add: reachable_def)
  have replies: "listener_replies tip @ ins = message_bytes cmd_VERSION build_version_payload @ message_bytes cmd_VERACK []
      @ message_bytes cmd_INV (GetHash tip) @ message_bytes cmd_BLOCK (CBlock_Serialize tip) @ ins"
    by (simp add: listener_replies_def)
  have requests: "connector_requests tip = (([] @ message_bytes cmd_VERSION build_version_payload)
      @ message_bytes cmd_VERACK []) @ message_bytes cmd_GETDATA (GetHash tip)"
    by (simp add: connector_requests_def)
  show ?thesis
    unfolding poll_connect_def replies requests
  proof (rule talks_bind [OF connect], simp only: not_True_eq_False if_False)
    show "talks (io_bind (peer_send cmd_VERSION build_version_payload) (\<lambda>_.
       expect cmd_VERSION (\<lambda>_.
         io_bind (peer_send cmd_VERACK []) (\<lambda>_.
         expect cmd_VERACK (\<lambda>_.
         expect cmd_INV (\<lambda>announced.
           io_bind (peer_send cmd_GETDATA announced) (\<lambda>_.
           expect cmd_BLOCK (\<lambda>payload.
             io_bind (io_lift (CBlock_Deserialize payload 0)) (\<lambda>(received_block, _). io_return (Have_Block received_block)))
             poll_done)) poll_done) poll_done)) poll_done)) d
       (message_bytes cmd_VERSION build_version_payload @ message_bytes cmd_VERACK []
        @ message_bytes cmd_INV (GetHash tip) @ message_bytes cmd_BLOCK (CBlock_Serialize tip) @ ins) []
       (Inr (Have_Block tip)) d ins ((([] @ message_bytes cmd_VERSION build_version_payload)
        @ message_bytes cmd_VERACK []) @ message_bytes cmd_GETDATA (GetHash tip))"
      by (intro talks_expect talks_send assms(3) commands_ok small_payloads)
        (simp_all add: MAX_PAYLOAD_SIZE_def des talks_Pair)
  qed
qed

lemma talks_done: "talks poll_done d ins outs (Inr Poll_Next) d ins outs"
  unfolding poll_done_def by (rule talks_bind [OF talks_close]) (rule talks_return)

lemma talks_poll_block_extended:
  assumes "try_extend_chain S (node_chain nd) blk = Inr (True, chain)" and "save_chain chain (node_path nd) d = Inr d'"
  shows "talks (poll_block S nd blk) d ins outs (Inr (Poll_Next, nd\<lparr>node_chain := chain\<rparr>)) d' ins outs"
  unfolding poll_block_def
  by (simp add: assms(1)) (rule talks_bind [OF talks_write [of "save_chain chain (node_path nd)", OF assms(2)]],
    rule talks_bind [OF talks_done], rule talks_return)

lemma talks_poll_block_request:
  assumes "try_extend_chain S (node_chain nd) blk = Inr (False, chain)" and "IsMerkleRootValid blk" and "check_proof_of_work blk"
    and "deserialize_chain payload = Inr peer_chain" and "length payload \<le> unat MAX_PAYLOAD_SIZE"
  shows "talks (poll_block S nd blk) d (message_bytes cmd_CHAIN payload @ ins) outs (Inr (Have_Chain peer_chain, nd)) d ins
    (outs @ message_bytes cmd_GETBLOCKS [])"
proof -
  have "talks (poll_request blk) d (message_bytes cmd_CHAIN payload @ ins) outs (Inr (Have_Chain peer_chain)) d ins
    (outs @ message_bytes cmd_GETBLOCKS [])"
    unfolding poll_request_def using assms(2-4)
    by simp (intro talks_send talks_expect commands_ok assms(5), simp add: assms(4) talks_Pair)
  then show ?thesis
    unfolding poll_block_def by (simp add: assms(1)) (rule talks_bind, assumption, rule talks_return)
qed

lemma talks_poll_chain:
  assumes "try_reorg S (node_chain nd) peer_chain = Inr (True, peer_chain)" and "save_chain peer_chain (node_path nd) d = Inr d'"
  shows "talks (poll_chain S nd peer_chain) d ins outs (Inr (Poll_Next, nd\<lparr>node_chain := peer_chain\<rparr>)) d' ins outs"
  unfolding poll_chain_def
  by (simp add: assms(1)) (rule talks_bind [OF talks_write [of "save_chain peer_chain (node_path nd)", OF assms(2)]],
    rule talks_bind [OF talks_done], rule talks_return)


text \<open>What the poller has sent whenever it waits.\<close>

lemma causal_poll [causal_intros]:
  "causal m \<Longrightarrow> (\<And>b. causal (f b)) \<Longrightarrow> (\<And>c. causal (g c)) \<Longrightarrow>
     causal (case p of Poll_Next \<Rightarrow> m | Have_Block b \<Rightarrow> f b | Have_Chain c \<Rightarrow> g c)"
  by (cases p) simp_all

lemma causal_PollPeer:
  "causal poll_done" "causal (poll_connect E addr)" "causal (poll_block S nd blk)" "causal (poll_chain S nd chain)"
  "causal (PollPeer S E addr nd)"
  unfolding PollPeer_def poll_connect_def poll_block_def poll_request_def poll_chain_def poll_done_def
  by (intro causal_intros)+

lemma poll_connected:
  assumes "reachable E addr"
  shows "talks (io_catch (io_bind (connect_to E (peer_host addr) (peer_port addr)) (\<lambda>_. io_return True)) (io_return False))
    d i [] (Inr True) d i []"
  using assms by (intro talks_catch talks_bind [OF talks_connect] talks_return) (simp_all add: reachable_def)

lemma poll_connect_waits:
  assumes "reachable E addr"
  shows "waits (poll_connect E addr) d [] [] (message_bytes cmd_VERSION build_version_payload)"
    and "waits (poll_connect E addr) d (message_bytes cmd_VERSION build_version_payload) []
      (message_bytes cmd_VERSION build_version_payload @ message_bytes cmd_VERACK [])"
    and "waits (poll_connect E addr) d (message_bytes cmd_VERSION build_version_payload @ message_bytes cmd_VERACK []
      @ message_bytes cmd_INV (GetHash tip)) [] (connector_requests tip)"
proof -
  have "waits (poll_connect E addr) d [] [] ([] @ message_bytes cmd_VERSION build_version_payload)"
    unfolding poll_connect_def
    by (rule waits_bind [OF poll_connected [OF assms]], simp only: not_True_eq_False if_False)
      (intro waits_send waits_here causal_intros causal_PollPeer)
  then show "waits (poll_connect E addr) d [] [] (message_bytes cmd_VERSION build_version_payload)" by simp
  have "waits (poll_connect E addr) d (message_bytes cmd_VERSION build_version_payload @ []) []
      (([] @ message_bytes cmd_VERSION build_version_payload) @ message_bytes cmd_VERACK [])"
    unfolding poll_connect_def
    by (rule waits_bind [OF poll_connected [OF assms]], simp only: not_True_eq_False if_False)
      (intro waits_send waits_expect waits_here causal_intros causal_PollPeer commands_ok small_payloads)
  then show "waits (poll_connect E addr) d (message_bytes cmd_VERSION build_version_payload) []
      (message_bytes cmd_VERSION build_version_payload @ message_bytes cmd_VERACK [])" by simp
  have "waits (poll_connect E addr) d (message_bytes cmd_VERSION build_version_payload @ message_bytes cmd_VERACK []
      @ message_bytes cmd_INV (GetHash tip) @ []) []
      ((([] @ message_bytes cmd_VERSION build_version_payload) @ message_bytes cmd_VERACK []) @ message_bytes cmd_GETDATA (GetHash tip))"
    unfolding poll_connect_def
    by (rule waits_bind [OF poll_connected [OF assms]], simp only: not_True_eq_False if_False)
      (intro waits_send waits_expect waits_here causal_intros causal_PollPeer commands_ok small_payloads, simp)
  then show "waits (poll_connect E addr) d (message_bytes cmd_VERSION build_version_payload @ message_bytes cmd_VERACK []
      @ message_bytes cmd_INV (GetHash tip)) [] (connector_requests tip)" by (simp add: connector_requests_def)
qed

lemma PollPeer_first: "waits (poll_connect E addr) d ins outs sent \<Longrightarrow> waits (PollPeer S E addr nd) d ins outs sent"
  unfolding PollPeer_def by (erule waits_first) (intro causal_steady causal_intros causal_PollPeer)

lemma poll_waits_chain:
  assumes "reachable E addr" and "wf_block tip" and "length (CBlock_Serialize tip) \<le> unat MAX_PAYLOAD_SIZE"
    and "try_extend_chain S (node_chain nd) tip = Inr (False, chain)" and "IsMerkleRootValid tip" and "check_proof_of_work tip"
  shows "waits (PollPeer S E addr nd) d (listener_replies tip) [] (connector_requests tip @ message_bytes cmd_GETBLOCKS [])"
proof -
  have "waits (poll_block S nd tip) d [] outs (outs @ message_bytes cmd_GETBLOCKS [])" for outs
    unfolding poll_block_def poll_request_def using assms(4-6)
    by simp (intro waits_first waits_send waits_here causal_steady causal_intros causal_PollPeer)
  then have "waits (PollPeer S E addr nd) d (listener_replies tip @ []) [] (connector_requests tip @ message_bytes cmd_GETBLOCKS [])"
    unfolding PollPeer_def
    by (intro waits_bind [OF talks_poll_connect [OF assms(1-3)]], simp only: poll.case)
      (intro waits_first causal_steady causal_intros causal_PollPeer, simp)
  then show ?thesis by simp
qed

text \<open>What the peer's handler does with the poller's requests, once the greeting is over.\<close>

lemma ends_greeted:
  assumes "node_chain b \<noteq> []"
    and "ends (HandleConnection S b Serving) db ins (listener_replies (last (node_chain b))) r db sent"
  shows "ends (HandleConnection S b Await_VERSION) db (connector_requests (last (node_chain b)) @ ins) [] r db sent"
proof -
  let ?tip = "last (node_chain b)"
  have "connector_requests ?tip @ ins = message_bytes cmd_VERSION build_version_payload @ message_bytes cmd_VERACK []
      @ message_bytes cmd_GETDATA (GetHash ?tip) @ ins" by (simp add: connector_requests_def)
  moreover have "ends (HandleConnection S b Serving) db (message_bytes cmd_GETDATA (GetHash ?tip) @ ins)
      (message_bytes cmd_VERSION build_version_payload @ message_bytes cmd_VERACK [] @ message_bytes cmd_INV (GetHash ?tip)) r db sent"
    by (rule ends_handler [OF talks_getdata [OF assms(1) small_payloads(2)]])
      (use assms(2) in \<open>simp_all add: listener_replies_def\<close>)
  ultimately show ?thesis by (simp only:) (rule ends_greeting [OF assms(1)])
qed

text \<open>The order of the messages up to the peer's tip.\<close>

lemma poll_turns:
  assumes "reachable E addr" and "node_chain b \<noteq> []"
  shows "turns (PollPeer S E addr a) d (HandleConnection S b Await_VERSION) db
    (connector_requests (last (node_chain b))) (listener_replies (last (node_chain b)))"
proof -
  have "ends (HandleConnection S b Await_VERSION) db (connector_requests (last (node_chain b)) @ []) [] (Inr ()) db
      (listener_replies (last (node_chain b)))"
    by (rule ends_greeted [OF assms(2) handler_ends])
  then show ?thesis
    by (intro fetch_turns [OF greeting_turns [OF PollPeer_first [OF poll_connect_waits(1) [OF assms(1)]] handler_waits
          PollPeer_first [OF poll_connect_waits(2) [OF assms(1)]] handler_greets [OF assms(2)]]
        PollPeer_first [OF poll_connect_waits(3) [OF assms(1)]]] ends_waits) simp
qed

text \<open>The poll when the peer's tip extends the chain, and when the peer's whole chain is fetched.\<close>

lemma poll_extends:
  assumes "reachable E addr" and "writable d (node_path a)" and "wf_block tip"
    and "length (CBlock_Serialize tip) \<le> unat MAX_PAYLOAD_SIZE"
    and "try_extend_chain S (node_chain a) tip = Inr (True, chain)"
  shows "\<exists>d'. talks (PollPeer S E addr a) d (listener_replies tip) [] (Inr (a\<lparr>node_chain := node_chain a @ [tip]\<rparr>)) d' [] (connector_requests tip)
    \<and> in_sync (a\<lparr>node_chain := node_chain a @ [tip]\<rparr>) d'"
proof -
  from try_extend_chain_cases [OF assms(5)]
  have ext: "try_extend_chain S (node_chain a) tip = Inr (True, node_chain a @ [tip])" using assms(5) by simp
  obtain d' where d': "save_chain (node_chain a @ [tip]) (node_path a) d = Inr d'"
    using assms(2) by (simp add: save_chain_def write_file_eq)
  have "talks (PollPeer S E addr a) d (listener_replies tip @ []) [] (Inr (a\<lparr>node_chain := node_chain a @ [tip]\<rparr>)) d' [] (connector_requests tip)"
    unfolding PollPeer_def
    by (rule talks_bind [OF talks_poll_connect [OF assms(1,3,4)]], simp only: poll.case)
      (rule talks_bind [OF talks_poll_block_extended [OF ext d']], simp add: talks_Pair talks_return)
  with saved_file [OF d'] show ?thesis by (intro exI [of _ d']) (simp add: in_sync_def)
qed

lemma poll_switches:
  assumes "reachable E addr" and "writable d (node_path a)" and "wf_block tip"
    and "length (CBlock_Serialize tip) \<le> unat MAX_PAYLOAD_SIZE"
    and "IsMerkleRootValid tip" and "check_proof_of_work tip" and "list_all wf_block chain" and "length chain < 2 ^ 32"
    and "length (serialize_chain chain) \<le> unat MAX_PAYLOAD_SIZE"
    and "try_extend_chain S (node_chain a) tip = Inr (False, chain')"
    and "try_reorg S (node_chain a) chain = Inr (True, chain)"
  shows "\<exists>d'. talks (PollPeer S E addr a) d (listener_replies tip @ message_bytes cmd_CHAIN (serialize_chain chain)) []
      (Inr (a\<lparr>node_chain := chain\<rparr>)) d' [] (connector_requests tip @ message_bytes cmd_GETBLOCKS [])
    \<and> in_sync (a\<lparr>node_chain := chain\<rparr>) d'"
proof -
  obtain d' where d': "save_chain chain (node_path a) d = Inr d'"
    using assms(2) by (simp add: save_chain_def write_file_eq)
  note fetch = talks_poll_block_request [OF _ assms(5,6) deserialize_serialize_chain [OF assms(7,8)] assms(9)]
  have "talks (PollPeer S E addr a) d (listener_replies tip @ message_bytes cmd_CHAIN (serialize_chain chain) @ []) []
      (Inr (a\<lparr>node_chain := chain\<rparr>)) d' [] (connector_requests tip @ message_bytes cmd_GETBLOCKS [])"
    unfolding PollPeer_def
    by (rule talks_bind [OF talks_poll_connect [OF assms(1,3,4)]], simp only: poll.case, rule talks_bind [OF fetch])
      (use assms(10) in simp, simp, rule talks_bind [OF talks_poll_chain [OF assms(11) d']], simp add: talks_Pair talks_return)
  with saved_file [OF d'] show ?thesis by (intro exI [of _ d']) (simp add: in_sync_def)
qed

text \<open>C20: A node catches up with a peer it polls. The peer's tip is a well-formed block with a valid Merkle
  root and proof of work, and it extends the poller's chain, or the peer's whole chain has the same
  genesis, is valid and has strictly more work; tip and chain fit into 4 MiB each, the poller can
  connect and its chain file is writable. Then, on connections without errors and in whatever order
  and pieces the bytes arrive, there is always more to arrive until both sides have all the other
  sends: no order leaves both waiting for each other. The poll then returns without waiting for more,
  and the poller's tip, in memory and in its chain file, is the peer's; the peer's handler has sent
  all it sends and returns when the poller closes.\<close>

theorem poll_adopts_tip:
  assumes "reachable E addr" and "writable d (node_path a)" and "node_chain b \<noteq> []" and "list_all wf_block (node_chain b)"
    and "length (node_chain b) < 2 ^ 32" and "length (CBlock_Serialize (last (node_chain b))) \<le> unat MAX_PAYLOAD_SIZE"
    and "length (serialize_chain (node_chain b)) \<le> unat MAX_PAYLOAD_SIZE"
    and "IsMerkleRootValid (last (node_chain b))" and "check_proof_of_work (last (node_chain b))"
    and "try_extend_chain S (node_chain a) (last (node_chain b)) = Inr (extended, chain)"
    and "\<not> extended \<Longrightarrow> try_reorg S (node_chain a) (node_chain b) = Inr (True, node_chain b)"
  shows "\<exists>requests replies a' d'.
      converse (PollPeer S E addr a) d (HandleConnection S b Await_VERSION) db requests replies
      \<and> talks (PollPeer S E addr a) d replies [] (Inr a') d' [] requests
      \<and> ends (HandleConnection S b Await_VERSION) db requests [] (Inr ()) db replies
      \<and> last (node_chain a') = last (node_chain b) \<and> in_sync a' d'"
proof -
  let ?tip = "last (node_chain b)" and ?c = "message_bytes cmd_CHAIN (serialize_chain (node_chain b))"
  let ?A = "PollPeer S E addr a" and ?B = "HandleConnection S b Await_VERSION"
  have tip: "wf_block ?tip" using assms(3,4) by (simp add: list_all_iff)
  note turns = poll_turns [OF assms(1,3), of S a d db]
  note finish = turns_converse [OF _ talks_says waits_says [OF ends_waits] causal_PollPeer(5) causal_handler]
  show ?thesis
  proof (cases extended)
    case True
    with assms(10) have "try_extend_chain S (node_chain a) ?tip = Inr (True, chain)" by simp
    from poll_extends [OF assms(1,2) tip assms(6) this] obtain d' where
      a: "talks ?A d (listener_replies ?tip) [] (Inr (a\<lparr>node_chain := node_chain a @ [?tip]\<rparr>)) d' [] (connector_requests ?tip)"
      "in_sync (a\<lparr>node_chain := node_chain a @ [?tip]\<rparr>) d'" by blast
    have "ends ?B db (connector_requests ?tip @ []) [] (Inr ()) db (listener_replies ?tip)"
      by (rule ends_greeted [OF assms(3) handler_ends])
    then have b: "ends ?B db (connector_requests ?tip) [] (Inr ()) db (listener_replies ?tip)" by simp
    from finish [OF turns a(1) b] a b show ?thesis by (fastforce intro: exI [of _ d'])
  next
    case False
    with assms(10) have ext: "try_extend_chain S (node_chain a) ?tip = Inr (False, chain)" by simp
    from poll_switches [OF assms(1,2) tip assms(6,8,9,4,5,7) ext assms(11) [OF False]] obtain d' where
      a: "talks ?A d (listener_replies ?tip @ ?c) [] (Inr (a\<lparr>node_chain := node_chain b\<rparr>)) d' []
        (connector_requests ?tip @ message_bytes cmd_GETBLOCKS [])"
      "in_sync (a\<lparr>node_chain := node_chain b\<rparr>) d'" by blast
    have "ends (HandleConnection S b Serving) db (message_bytes cmd_GETBLOCKS [] @ []) (listener_replies ?tip) (Inr ()) db
        (listener_replies ?tip @ ?c)"
      by (rule ends_handler [OF talks_getblocks]) (simp_all add: handler_ends)
    with ends_greeted [OF assms(3) this] have b: "ends ?B db (connector_requests ?tip @ message_bytes cmd_GETBLOCKS []) [] (Inr ()) db
        (listener_replies ?tip @ ?c)" by simp
    note more = turns_answer [OF turns_ask [OF turns waits_says [OF poll_waits_chain [OF assms(1) tip assms(6) ext assms(8,9)]]]
      waits_says [OF ends_waits [OF b]]]
    from finish [OF more a(1) b] a b show ?thesis by (fastforce intro: exI [of _ d'])
  qed
qed


section \<open>A sample run\<close>

definition sample_node :: "CBlock list \<Rightarrow> Node" where
  "sample_node chain =
     \<lparr>node_port = 9000, node_path = ''chain.dat'', node_peers = [\<lparr>peer_host = ''10.0.0.2'', peer_port = 9000\<rparr>],
      node_mines = False, node_wallet = sample_wallet, node_chain = chain\<rparr>"

definition sample_os :: os where
  "sample_os = \<lparr>os_socket = True, os_bind = \<lambda>_. True, os_listen = True, os_accept = True,
     os_inet_pton = \<lambda>_. True, os_connect = \<lambda>_ _. True\<rparr>"

lemma sample_tip: "length (CBlock_Serialize demo_block) \<le> unat MAX_PAYLOAD_SIZE"
  by (simp add: demo_block_length MAX_PAYLOAD_SIZE_def)

lemma demo_try_extend: "try_extend_chain S [demo_genesis] demo_block = Inr (True, [demo_genesis, demo_block])"
  using demo_extends [of S] by (simp add: try_extend_chain_true)

lemma demo_chain_length: "length (serialize_chain [demo_genesis, demo_block]) \<le> unat MAX_PAYLOAD_SIZE"
proof -
  have "vtx demo_genesis = [set_hash (demo_coinbase 0)]" by (simp add: demo_genesis_def demo_coinbase_built)
  then have "length (CBlock_Serialize demo_genesis) = 185"
    by (simp add: CBlock_Serialize_eq demo_header_bytes demo_coinbase_bytes header0_bytes_def coinbase0_bytes_def)
  with demo_block_length show ?thesis
    by (simp add: serialize_chain_eq block_codec.counted_def MAX_PAYLOAD_SIZE_def)
qed

lemma poll_adopts_tip_witness:
  "\<exists>requests replies a' d'.
      converse (PollPeer toy_secp sample_os \<lparr>peer_host = ''10.0.0.2'', peer_port = 9000\<rparr> (sample_node [demo_genesis])) empty_disk
        (HandleConnection toy_secp (sample_node [demo_genesis, demo_block]) Await_VERSION) empty_disk requests replies
      \<and> talks (PollPeer toy_secp sample_os \<lparr>peer_host = ''10.0.0.2'', peer_port = 9000\<rparr> (sample_node [demo_genesis]))
          empty_disk replies [] (Inr a') d' [] requests
      \<and> ends (HandleConnection toy_secp (sample_node [demo_genesis, demo_block]) Await_VERSION) empty_disk requests []
          (Inr ()) empty_disk replies
      \<and> last (node_chain a') = demo_block \<and> in_sync a' d'"
proof -
  have tip: "last [demo_genesis, demo_block] = demo_block" by simp
  have "IsMerkleRootValid demo_block" using demo_extends by (simp add: extends_def)
  then show ?thesis
    using poll_adopts_tip [of sample_os "\<lparr>peer_host = ''10.0.0.2'', peer_port = 9000\<rparr>" empty_disk "sample_node [demo_genesis]"
        "sample_node [demo_genesis, demo_block]" toy_secp True "[demo_genesis, demo_block]" empty_disk]
      demo_try_extend [of toy_secp] demo_chain_length demo_wf sample_tip demo_pow(2)
    by (simp add: sample_node_def reachable_def sample_os_def empty_disk_def)
qed


text \<open>A follower starts from a seeded chain file, polls its peer and takes over its block.\<close>

definition seeded_disk :: disk where
  "seeded_disk = empty_disk\<lparr>files := [''chain.dat'' \<mapsto> serialize_chain [demo_genesis]]\<rparr>"

lemma sample_Node_new:
  "\<exists>wlt w'. Node_new toy_secp 0 (Some (replicate 32 7)) 9000 ''chain.dat''
       [\<lparr>peer_host = ''10.0.0.2'', peer_port = 9000\<rparr>] False (idle_world seeded_disk)
     = (Inr ((sample_node [demo_genesis])\<lparr>node_wallet := wlt\<rparr>), w')
     \<and> files (w_disk w') ''chain.dat'' = Some (serialize_chain [demo_genesis])
     \<and> files (w_disk w') ''chain.dat.mempool'' = None \<and> writable (w_disk w') = (\<lambda>_. True)
     \<and> w_sockets w' = 0"
proof -
  obtain wlt where wlt: "Wallet_new toy_secp (Some (replicate 32 7)) = Inr wlt"
    by (simp add: Wallet_new_def generate_keypair_def create_address_from_pubkey_def toy_secp_def Let_def)
  have "deserialize_chain (serialize_chain [demo_genesis]) = Inr [demo_genesis]"
    using deserialize_serialize_chain [of "[demo_genesis]"] demo_wf(1) by simp
  with wlt show ?thesis
    by (simp add: Node_new_def load_or_create_wallet_def load_or_create_chain_def io_bind_def io_catch_def read_file_def
        io_write_def write_file_eq save_chain_def load_chain_def seeded_disk_def empty_disk_def sample_node_def idle_world_def)
qed


lemma talks_turn:
  assumes "talks m (s_disk s) ins outs (Inr x) d' ins' outs'" and "clean c" and "inbox c = ins" and "outbox c = outs"
    and "waited c = None"
  shows "\<exists>c' j. turn m c f s = f x c' (s\<lparr>s_disk := d', s_sockets := j\<rparr>)
    \<and> clean c' \<and> inbox c' = ins' \<and> outbox c' = outs' \<and> waited c' = None"
proof -
  let ?w = "\<lparr>w_disk = s_disk s, w_peer = c, w_sockets = s_sockets s\<rparr>"
  obtain w' where "m ?w = (Inr x, w')" "w_disk w' = d'" "peer_is ins' outs' w'"
    using talksD [OF assms(1), of ?w] assms(2-5) by (auto simp: peer_is_def)
  then show ?thesis
    by (intro exI [of _ "w_peer w'"] exI [of _ "w_sockets w'"]) (auto simp: turn_def peer_is_def)
qed

lemma poll_turn_block:
  "s_poll s = Have_Block blk \<Longrightarrow> poll_turn S E c s = turn (poll_block S (s_node s) blk) (s_poll_conn s)
     (\<lambda>(p, nd) c s. s\<lparr>s_poll := p, s_poll_conn := c, s_node := nd\<rparr>) s"
  by (simp add: poll_turn_def)

lemma sample_run:
  "\<exists>nd w' s1 s2. Node_new toy_secp 0 (Some (replicate 32 7)) 9000 ''chain.dat''
       [\<lparr>peer_host = ''10.0.0.2'', peer_port = 9000\<rparr>] False (idle_world seeded_disk) = (Inr nd, w')
     \<and> \<not> node_mines nd \<and> node_chain nd = [demo_genesis] \<and> mempool_ok nd (w_disk w') \<and> w_sockets w' = 0
     \<and> daemon_reach toy_secp (Run_start nd w') s1 \<and> s_node s1 = nd \<and> s_disk s1 = w_disk w'
     \<and> daemon_step toy_secp s1 s2 \<and> s_running s2 \<and> node_chain (s_node s2) = [demo_genesis, demo_block]
     \<and> files (s_disk s2) ''chain.dat'' = Some (serialize_chain [demo_genesis, demo_block]) \<and> writable (s_disk s2) ''chain.dat''
     \<and> files (w_disk w') ''chain.dat'' = Some (serialize_chain [demo_genesis]) \<and> writable (w_disk w') ''chain.dat''"
proof -
  obtain wlt w' where start: "Node_new toy_secp 0 (Some (replicate 32 7)) 9000 ''chain.dat''
       [\<lparr>peer_host = ''10.0.0.2'', peer_port = 9000\<rparr>] False (idle_world seeded_disk)
     = (Inr ((sample_node [demo_genesis])\<lparr>node_wallet := wlt\<rparr>), w')"
    and w': "files (w_disk w') ''chain.dat.mempool'' = None" "writable (w_disk w') = (\<lambda>_. True)" "w_sockets w' = 0"
      "files (w_disk w') ''chain.dat'' = Some (serialize_chain [demo_genesis])"
    using sample_Node_new by blast
  let ?nd = "(sample_node [demo_genesis])\<lparr>node_wallet := wlt\<rparr>" and ?addr = "\<lparr>peer_host = ''10.0.0.2'', peer_port = 9000\<rparr>"
  let ?s = "Run_start ?nd w'" and ?c = "\<lparr>inbox = listener_replies demo_block, recv_sizes = [], outbox = [], send_sizes = [], waited = None\<rparr>"
  have nd: "node_chain ?nd = [demo_genesis]" "node_path ?nd = ''chain.dat''" "node_peers ?nd = [?addr]" "\<not> node_mines ?nd"
    by (simp_all add: sample_node_def)
  have s: "s_disk ?s = w_disk w'" "s_poll ?s = Poll_Next" "s_queue ?s = [?addr]" "s_node ?s = ?nd" "s_running ?s"
    by (simp_all add: Run_start_def nd)
  have "talks (poll_connect sample_os ?addr) (s_disk ?s) (listener_replies demo_block @ []) [] (Inr (Have_Block demo_block)) (w_disk w')
      [] (connector_requests demo_block)"
    unfolding s(1) by (rule talks_poll_connect [OF _ demo_wf(2) sample_tip]) (simp add: reachable_def sample_os_def)
  from talks_turn [OF this, of ?c "\<lambda>p c s. s\<lparr>s_poll := p, s_poll_conn := c, s_queue := []\<rparr>"]
  obtain c1 j where c1: "poll_turn toy_secp sample_os ?c ?s
      = ?s\<lparr>s_disk := w_disk w', s_sockets := j, s_poll := Have_Block demo_block, s_poll_conn := c1, s_queue := []\<rparr>" "clean c1" "waited c1 = None"
    by (auto simp: poll_turn_def s clean_def)
  define s1 where "s1 = poll_turn toy_secp sample_os ?c ?s"
  have s1: "s_disk s1 = w_disk w'" "s_poll s1 = Have_Block demo_block" "s_node s1 = ?nd" "s_poll_conn s1 = c1" "s_running s1"
    by (simp_all add: s1_def c1(1) s)
  obtain d' where d': "save_chain [demo_genesis, demo_block] (node_path ?nd) (w_disk w') = Inr d'" "writable d' = (\<lambda>_. True)"
    by (simp add: save_chain_def write_file_eq w'(2))
  from talks_poll_block_extended [OF _ d'(1), of toy_secp demo_block] demo_try_extend nd(1)
  have "talks (poll_block toy_secp ?nd demo_block) (s_disk s1) (inbox c1) (outbox c1)
      (Inr (Poll_Next, ?nd\<lparr>node_chain := [demo_genesis, demo_block]\<rparr>)) d' (inbox c1) (outbox c1)"
    unfolding s1(1) by auto
  from talks_turn [OF this c1(2) refl refl c1(3), of "\<lambda>(p, nd) c s. s\<lparr>s_poll := p, s_poll_conn := c, s_node := nd\<rparr>"]
  obtain c2 k where c2: "poll_turn toy_secp sample_os c1 s1 = s1\<lparr>s_disk := d', s_sockets := k, s_poll := Poll_Next, s_poll_conn := c2,
      s_node := ?nd\<lparr>node_chain := [demo_genesis, demo_block]\<rparr>\<rparr>"
    using poll_turn_block [OF s1(2), of toy_secp sample_os c1] by (auto simp: s1)
  have "mempool_ok ?nd (w_disk w')"
    using w'(1) nd(2) by (simp add: mempool_ok_def mempool_of_def load_mempool_def read_file_def)
  moreover have "daemon_reach toy_secp ?s s1" unfolding s1_def by (intro reach_step [OF reach_start] polls s(5))
  moreover have "daemon_step toy_secp s1 (poll_turn toy_secp sample_os c1 s1)" by (intro polls s1(5))
  ultimately show ?thesis using start nd w'(2-4) s1 c2 d'(2) saved_file [OF d'(1)]
    by (intro exI [of _ ?nd] exI [of _ w'] exI [of _ s1] exI [of _ "poll_turn toy_secp sample_os c1 s1"] conjI) simp_all
qed

lemma daemon_refines_node_witness:
  "\<exists>(s :: system) (s' :: system). node_chain (s_node s) = [demo_genesis] \<and> node_chain (s_node s') = [demo_genesis, demo_block]
     \<and> (node_event toy_secp)\<^sup>*\<^sup>* (s_node s, s_disk s) (s_node s', s_disk s')"
proof -
  obtain nd w' s1 s2 where r: "s_node s1 = nd" "node_chain nd = [demo_genesis]" "daemon_step toy_secp s1 s2" "s_running s2"
    "node_chain (s_node s2) = [demo_genesis, demo_block]" using sample_run by blast
  from daemon_refines_node [OF reach_step [OF reach_start r(3)] r(4)] r(1,2,5) show ?thesis
    by (intro exI [of _ s1] exI [of _ s2]) simp
qed

lemma daemon_invariant_witness:
  "\<exists>nd w' (s :: system). Node_new toy_secp 0 (Some (replicate 32 7)) 9000 ''chain.dat''
       [\<lparr>peer_host = ''10.0.0.2'', peer_port = 9000\<rparr>] False (idle_world seeded_disk) = (Inr nd, w')
     \<and> node_chain (s_node s) = [demo_genesis, demo_block] \<and> node_keeps nd (s_node s) (s_disk s)"
proof -
  obtain nd w' s1 s2 where r: "Node_new toy_secp 0 (Some (replicate 32 7)) 9000 ''chain.dat''
       [\<lparr>peer_host = ''10.0.0.2'', peer_port = 9000\<rparr>] False (idle_world seeded_disk) = (Inr nd, w')"
    "daemon_reach toy_secp (Run_start nd w') s1" "daemon_step toy_secp s1 s2" "s_running s2"
    "node_chain (s_node s2) = [demo_genesis, demo_block]" using sample_run by blast
  from daemon_invariant [OF r(1) reach_step [OF r(2,3)] r(4)] r(1,5) show ?thesis
    by (intro exI [of _ nd] exI [of _ w'] exI [of _ s2]) simp
qed

lemma follower_never_mines_witness:
  "(may_follow toy_secp)\<^sup>*\<^sup>* [demo_genesis] [demo_genesis, demo_block]"
  using sample_run follower_never_mines [OF reach_step [OF reach_start]] by metis

lemma daemon_mempool_bounded_witness:
  "\<exists>s s'. daemon_reach toy_secp s s' \<and> node_chain (s_node s') = [demo_genesis, demo_block]
     \<and> mempool_ok (s_node s') (s_disk s')"
  using sample_run daemon_mempool_bounded [OF reach_step [OF reach_start]] reach_step [OF reach_start] by metis

lemma daemon_leaks_no_socket_witness:
  "\<exists>s. node_chain (s_node s) = [demo_genesis, demo_block] \<and> s_sockets s = sockets_of s"
  using sample_run daemon_leaks_no_socket [OF reach_step] by (metis add_0)

lemma daemon_step_valid_witness:
  "validate_full_chain toy_secp [demo_genesis, demo_block] = Inr True"
proof -
  obtain s1 s2 where s: "daemon_step toy_secp s1 s2" "s_running s2" "node_chain (s_node s1) = [demo_genesis]"
    "mempool_ok (s_node s1) (s_disk s1)" "node_chain (s_node s2) = [demo_genesis, demo_block]"
    using sample_run by metis
  have "validate_full_chain toy_secp [demo_genesis] = Inr True"
    using demo_genesis_ledger by (auto simp: validate_full_chain_ledger)
  moreover have "independent (vtx demo_block)" by (simp add: demo_block_def build_coinbase_sel)
  ultimately show ?thesis
    using daemon_step_valid [OF s(1,2) _ s(4)] s(3,5) demo_unique by simp
qed

section \<open>A message that stops the node\<close>

text \<open>C31: A TX message whose payload is not a transaction stops the whole node, from any peer that has
  completed the handshake: \<open>Deserialize\<close> throws in a detached thread that catches nothing.\<close>

theorem malformed_tx_stops_node:
  assumes "s_running s" and "i < length (s_handlers s)" and "s_handlers s ! i = (Serving, c)" and "clean c"
    and "inbox c = message_bytes cmd_TX payload @ rest" and "length payload \<le> unat MAX_PAYLOAD_SIZE"
    and "Transaction_Deserialize payload 0 = Inl e"
  shows "\<exists>s'. daemon_step S s s' \<and> \<not> s_running s' \<and> (\<forall>s''. \<not> daemon_step S s' s'')"
proof -
  obtain w where "peer_receive \<lparr>w_disk = s_disk s, w_peer = c, w_sockets = s_sockets s\<rparr>
      = (Inr (Some \<lparr>m_command = cmd_TX, m_payload = payload\<rparr>), w)"
    using receive_frame [OF assms(4,5) commands_ok(6) assms(6)] by (auto simp: peer_receive_def)
  then have "\<not> s_running (handle_turn S i s)"
    by (simp add: handle_turn_def assms(3) turn_def handle_step_def handle_request_def io_bind_run(1) assms(7)
        cmd_TX_def cmd_GETDATA_def cmd_GETBLOCKS_def)
  moreover have "daemon_step S s (handle_turn S i s)" by (rule handles [OF assms(1,2)])
  ultimately show ?thesis by (auto elim: daemon_step.cases)
qed


lemma malformed_tx_stops_node_witness:
  "\<exists>s s'. s_running s \<and> daemon_step toy_secp s s' \<and> \<not> s_running s' \<and> (\<forall>s''. \<not> daemon_step toy_secp s' s'')"
proof -
  define c where "c = \<lparr>inbox = message_bytes cmd_TX [], recv_sizes = [], outbox = [], send_sizes = [], waited = None\<rparr>"
  define s where "s = (Run_start (sample_node [demo_genesis]) (idle_world seeded_disk))\<lparr>s_handlers := [(Serving, c)]\<rparr>"
  have s: "s_running s" "0 < length (s_handlers s)" "s_handlers s ! 0 = (Serving, c)"
    by (simp_all add: s_def Run_start_def)
  have c: "clean c" "inbox c = message_bytes cmd_TX [] @ []" by (simp_all add: c_def clean_def)
  obtain e where "Transaction_Deserialize [] 0 = Inl e"
    by (simp add: Transaction_Deserialize_def read_uint_32LE_def)
  from malformed_tx_stops_node [OF s c _ this] s(1) show ?thesis by auto
qed

end
