(* ===== verification/Cli.thy ===== *)
theory Cli
  imports Daemon_Sync Base58
begin

text \<open>
  \<open>src/Siliqua.cpp\<close>: the command line, its validation, the dispatch to the commands, and the
  demonstration mode; with \<open>fill_random\<close> and the creation of the secp256k1 context, which happen before
  or below them. What is printed is modelled where it is the command's result.
\<close>

section \<open>Start-up\<close>

text \<open>\<open>fill_random\<close> on Linux; \<open>answer\<close> is what \<open>getrandom\<close> wrote, \<open>None\<close> when it failed.\<close>

definition fill_random :: "bytes option \<Rightarrow> nat \<Rightarrow> bytes option" where
  "fill_random answer len =
     (case answer of
        None \<Rightarrow> None
      | Some data \<Rightarrow> if length data \<noteq> len then None else Some data)"

text \<open>The constructor of \<open>Secp256k1Context\<close>; \<open>made\<close> and \<open>randomized\<close> are the library's answers.\<close>

definition Secp256k1Context_new :: "bool \<Rightarrow> bytes option \<Rightarrow> (bytes \<Rightarrow> bool) \<Rightarrow> unit result" where
  "Secp256k1Context_new made answer randomized =
     (if \<not> made then Inl (Runtime_error ''Failed to create secp256k1 context'')
      else
        (case fill_random answer 32 of
           None \<Rightarrow> Inl (Runtime_error ''Failed to generate randomness'')
         | Some randomize \<Rightarrow>
             if \<not> randomized randomize
             then Inl (Runtime_error ''Failed to randomize secp256k1 context'')
             else Inr ()))"

section \<open>The commands\<close>

definition EXIT_RUNTIME_ERROR :: int where "EXIT_RUNTIME_ERROR = 1"
definition EXIT_USAGE_ERROR :: int where "EXIT_USAGE_ERROR = 2"
definition UNLIMITED :: nat where "UNLIMITED = 2 ^ 64 - 1"

record CommandSpec =
  flag_of :: string
  min_args :: nat
  max_args :: nat
  usage_of :: string
  summary_of :: string

definition kCommands :: "CommandSpec list" where
  "kCommands = [
     \<lparr>flag_of = ''--seed'', min_args = 1, max_args = 1, usage_of = ''--seed <chain_path>'',
      summary_of = ''mine a fresh genesis-only chain and save it''\<rparr>,
     \<lparr>flag_of = ''--listen'', min_args = 1, max_args = 2, usage_of = ''--listen <port> [chain_path]'',
      summary_of = ''mine one block, serve it to one peer''\<rparr>,
     \<lparr>flag_of = ''--connect'', min_args = 2, max_args = 3, usage_of = ''--connect <host> <port> [chain_path]'',
      summary_of = ''fetch a block from a peer and append it if valid''\<rparr>,
     \<lparr>flag_of = ''--address'', min_args = 1, max_args = 1, usage_of = ''--address <chain_path>'',
      summary_of = ''print this node's wallet address (Base58Check)''\<rparr>,
     \<lparr>flag_of = ''--balance'', min_args = 1, max_args = 1, usage_of = ''--balance <chain_path>'',
      summary_of = ''print this node's spendable UTXOs and total''\<rparr>,
     \<lparr>flag_of = ''--send'', min_args = 5, max_args = 5,
      usage_of = ''--send <host> <port> <chain_path> <recipient_address> <amount>'',
      summary_of = ''sign a payment and send it to a peer's mempool''\<rparr>,
     \<lparr>flag_of = ''--receive-tx'', min_args = 2, max_args = 2, usage_of = ''--receive-tx <port> <chain_path>'',
      summary_of = ''accept one transaction from a peer into the mempool''\<rparr>,
     \<lparr>flag_of = ''--daemon'', min_args = 2, max_args = UNLIMITED,
      usage_of = ''--daemon <port> <chain_path> [host:port ...] [--no-mine]'',
      summary_of = ''run a persistent node (mines + syncs; --no-mine = follower)''\<rparr>]"

definition find_command :: "string \<Rightarrow> CommandSpec option" where
  "find_command flag = List.find (\<lambda>command. flag_of command = flag) kCommands"

section \<open>Numbers\<close>

text \<open>The white space and digits of the C locale.\<close>

definition is_space :: "char \<Rightarrow> bool" where
  "is_space c \<longleftrightarrow> c = CHR '' '' \<or> c = CHR 0x09 \<or> c = CHR 0x0A \<or> c = CHR 0x0B \<or> c = CHR 0x0C \<or> c = CHR 0x0D"

definition is_digit :: "char \<Rightarrow> bool" where
  "is_digit c \<longleftrightarrow> 48 \<le> (of_char c :: nat) \<and> (of_char c :: nat) \<le> 57"

definition decimal_value :: "string \<Rightarrow> int" where
  "decimal_value digits = foldl (\<lambda>v c. 10 * v + (of_char c - 48)) 0 digits"

fun read_sign :: "string \<Rightarrow> bool \<times> string" where
  "read_sign (c # text) = (if c = CHR ''-'' then (True, text) else if c = CHR ''+'' then (False, text) else (False, c # text))"
| "read_sign [] = (False, [])"

text \<open>\<open>std::stoll(text, &used)\<close>: the value and \<open>used\<close>, with \<open>strtoll\<close>'s syntax; \<open>std::stoi\<close> is the same on the
  range of \<open>int\<close>.\<close>

definition read_integer :: "int \<Rightarrow> int \<Rightarrow> string \<Rightarrow> (int \<times> nat) result" where
  "read_integer low high text =
     (let (negative, body) = read_sign (dropWhile is_space text);
          digits = takeWhile is_digit body;
          value = (if negative then - decimal_value digits else decimal_value digits)
      in if digits = [] then Inl (Invalid_argument ''stoll'')
         else if value < low \<or> high < value then Inl (Out_of_range ''stoll'')
         else Inr (value, length text - length body + length digits))"

definition stoll :: "string \<Rightarrow> (int \<times> nat) result" where
  "stoll = read_integer (- (2 ^ 63)) (2 ^ 63 - 1)"

definition stoi :: "string \<Rightarrow> (int \<times> nat) result" where
  "stoi = read_integer (- (2 ^ 31)) (2 ^ 31 - 1)"

definition parse_port :: "string \<Rightarrow> u16 option" where
  "parse_port text =
     (case stoll text of
        Inl _ \<Rightarrow> None
      | Inr (value, used) \<Rightarrow>
          if used \<noteq> length text \<or> value < 1 \<or> value > 65535 then None else Some (word_of_int value))"

definition parse_amount :: "string \<Rightarrow> i64 option" where
  "parse_amount text =
     (case stoll text of
        Inl _ \<Rightarrow> None
      | Inr (value, used) \<Rightarrow>
          if used \<noteq> length text \<or> value \<le> 0 then None else Some (word_of_int value))"

section \<open>Validation\<close>

text \<open>The status, and what goes to the user: the help, or an explanation with the usage of the command.\<close>

datatype feedback =
    Silent
  | Help
  | Unknown_argument string
  | Wrong_number CommandSpec
  | Invalid string string string CommandSpec

fun what_of :: "exn \<Rightarrow> string" where
  "what_of (Out_of_range m) = m"
| "what_of (Invalid_argument m) = m"
| "what_of (Length_error m) = m"
| "what_of (Runtime_error m) = m"
| "what_of (Undefined_behaviour m) = m"
| "what_of No_return = []"

definition port_reason :: string where
  "port_reason = ''expected a number from 1 to 65535''"

definition check_arguments :: "string list \<Rightarrow> int \<times> feedback" where
  "check_arguments args =
     (let flag = args ! 0 in
      if flag = ''--help'' \<or> flag = ''-h'' then (0, Help)
      else
        (case find_command flag of
           None \<Rightarrow> (EXIT_USAGE_ERROR, Unknown_argument flag)
         | Some spec \<Rightarrow>
             (let given = length args - 1;
                  invalid = (\<lambda>what value why. (EXIT_USAGE_ERROR, Invalid what value why spec))
              in
              if given < min_args spec \<or> given > max_args spec then (EXIT_USAGE_ERROR, Wrong_number spec)
              else if (flag = ''--listen'' \<or> flag = ''--receive-tx'' \<or> flag = ''--daemon'') \<and> parse_port (args ! 1) = None
              then invalid ''port'' (args ! 1) port_reason
              else if (flag = ''--connect'' \<or> flag = ''--send'') \<and> parse_port (args ! 2) = None
              then invalid ''port'' (args ! 2) port_reason
              else if flag = ''--send''
              then
                (case decode_address (args ! 4) of
                   Inl e \<Rightarrow> invalid ''recipient address'' (args ! 4) (what_of e)
                 | Inr _ \<Rightarrow>
                     if parse_amount (args ! 5) = None
                     then invalid ''amount'' (args ! 5) ''expected a positive integer number of satoshi''
                     else (- 1, Silent))
              else (- 1, Silent))))"


text \<open>What goes to the user, as text: \<open>print_usage\<close> and the explanations of \<open>check_arguments\<close>. \<open>println\<close> ends
  the line, \<open>left_66\<close> is the format \<open>{:<66}\<close>.\<close>

definition println :: "string \<Rightarrow> string" where
  "println line = line @ [CHR 0x0A]"

definition left_66 :: "string \<Rightarrow> string" where
  "left_66 item = item @ replicate (66 - length item) (CHR '' '')"

definition print_usage :: string where
  "print_usage =
     println (''Siliqua - Bitcoin-like blockchain node.'' @ [CHR 0x0A])
     @ println (''Usage: Siliqua <command> [arguments]'' @ [CHR 0x0A])
     @ concat (map (\<lambda>command. println (''  '' @ left_66 (usage_of command) @ '' '' @ summary_of command)) kCommands)
     @ println ([CHR 0x0A] @ ''  --help, -h                                                         show this help'')
     @ println ([CHR 0x0A] @ ''Without any arguments the program runs a demonstration mode (hashing, keypair,'')
     @ println ''signature, address, sample transactions; writes utxo.dat to the current folder).''
     @ println ''Exit codes: 0 success, 1 runtime error, 2 invalid command line.''"

definition quoted :: "string \<Rightarrow> string" where
  "quoted item = [CHR 0x27] @ item @ [CHR 0x27]"

text \<open>The text on standard output and on standard error.\<close>

fun print_feedback :: "feedback \<Rightarrow> string \<times> string" where
  "print_feedback Silent = ([], [])"
| "print_feedback Help = (print_usage, [])"
| "print_feedback (Unknown_argument flag) =
     ([], println (''Unknown argument '' @ quoted flag @ ''.'' @ [CHR 0x0A]) @ print_usage)"
| "print_feedback (Wrong_number spec) =
     ([], println (''Wrong number of arguments for '' @ flag_of spec @ ''.'' @ [CHR 0x0A] @ ''Usage: Siliqua '' @ usage_of spec))"
| "print_feedback (Invalid what val why spec) =
     ([], println (''Invalid '' @ what @ '' '' @ quoted val @ (if why = [] then [] else '': '' @ why) @ ''.'' @ [CHR 0x0A]
       @ ''Usage: Siliqua '' @ usage_of spec))"

text \<open>The help is a table: every usage fits its column, so every summary starts in column 70, as the text of
  \<open>--help\<close> does.\<close>

lemma usage_aligned:
  "list_all (\<lambda>command. length (''  '' @ left_66 (usage_of command) @ '' '') = 69) kCommands"
  "length ''  --help, -h                                                         '' = 69"
  by (simp_all add: kCommands_def left_66_def)

text \<open>A rejected command line says why on standard error, and only that; help goes to standard output; a
  valid one says nothing.\<close>

lemma feedback_streams:
  "check_arguments args = (code, f) \<Longrightarrow>
     (code = - 1 \<longleftrightarrow> f = Silent) \<and> (code = 0 \<longleftrightarrow> f = Help)
     \<and> (code = EXIT_USAGE_ERROR \<longleftrightarrow> snd (print_feedback f) \<noteq> [] \<and> fst (print_feedback f) = [])"
  by (cases f) (auto simp: check_arguments_def Let_def EXIT_USAGE_ERROR_def println_def print_usage_def
      split: option.splits sum.splits if_splits)

section \<open>The demonstration mode\<close>

definition EXIT_FAILURE :: int where "EXIT_FAILURE = 1"

text \<open>The two transactions it builds.\<close>

definition demo_tx :: Transaction where
  "demo_tx =
     (let tx = mk_Transaction 1 [mk_CTxIn (COutPoint (replicate 32 1) 1) [0x01, 0x02]]
                 [\<lparr>nValue = 100000, scriptPubKey = [0xAA, 0xBB]\<rparr>] 0
      in tx\<lparr>tx_hash := Transaction_GetHash tx\<rparr>)"

definition demo_coinbase_tx :: Transaction where
  "demo_coinbase_tx =
     (let tx = mk_Transaction 1 [CTxIn_default\<lparr>scriptSig := [0x00]\<rparr>]
                 [\<lparr>nValue = 100000, scriptPubKey = [0xAA, 0xBB]\<rparr>] 0
      in tx\<lparr>tx_hash := Transaction_GetHash tx\<rparr>)"

text \<open>The keys, the signature and the address of a line of input.\<close>

definition demo_keys :: "secp256k1 \<Rightarrow> bytes option \<Rightarrow> string \<Rightarrow> string option" where
  "demo_keys S random input =
     (case generate_keypair S random input of
        None \<Rightarrow> None
      | Some km \<Rightarrow>
          (case generate_sign S input (km_seckey km) of
             None \<Rightarrow> None
           | Some sm \<Rightarrow>
               if \<not> verify_sign S (sm_serialized sm) (km_compressed km) (sm_hash sm) then None
               else map_option snd (create_address_from_pubkey (km_compressed km))))"

definition demonstration :: "secp256k1 \<Rightarrow> bytes option \<Rightarrow> string \<Rightarrow> int io" where
  "demonstration S random input =
     (case demo_keys S random input of
        None \<Rightarrow> io_return EXIT_FAILURE
      | Some _ \<Rightarrow>
          (let utxos = utxo_emplace (COutPoint (tx_hash demo_coinbase_tx) 0) (vout demo_coinbase_tx ! 0) []
           in io_bind (io_write (save_utxo_set utxos ''utxo.dat'')) (\<lambda>_.
              io_bind (io_read (\<lambda>d. load_utxo_set d ''utxo.dat'')) (\<lambda>_.
              io_return 0))))"

lemma demo_kinds: "\<not> IsCoinbase demo_tx" "IsCoinbase demo_coinbase_tx"
  by (simp_all add: demo_tx_def demo_coinbase_tx_def mk_Transaction_def mk_CTxIn_def IsCoinbase_def IsNull_def
      CTxIn_default_def COutPoint_null_def Let_def list_all_iff)

section \<open>run and main\<close>

text \<open>How a run ends: with an exit code, after printing an address or a balance, or not at all, with the
  node that serves from then on.\<close>

datatype outcome = Exits int | Prints_address string | Prints_balance nat i64 | Serves Node

text \<open>One argument after the chain path of \<open>--daemon\<close>.\<close>

definition daemon_argument :: "string \<Rightarrow> PeerAddress list \<times> bool \<Rightarrow> PeerAddress list \<times> bool" where
  "daemon_argument arg = (\<lambda>(peers, mine).
     if arg = ''--no-mine'' then (peers, False)
     else
       (let host = takeWhile (\<lambda>c. c \<noteq> CHR '':'') arg; colon = length host in
        if colon = length arg \<or> colon = 0 then (peers, mine)
        else
          (case parse_port (drop (colon + 1) arg) of
             None \<Rightarrow> (peers, mine)
           | Some port \<Rightarrow> (peers @ [\<lparr>peer_host = host, peer_port = port\<rparr>], mine))))"

definition total_of :: "UtxoSet \<Rightarrow> i64" where
  "total_of owned = foldl (\<lambda>total (_, txout). total + nValue txout) 0 owned"

definition port_arg :: "string \<Rightarrow> u16 result" where
  "port_arg text = rbind (stoi text) (\<lambda>(value, _). Inr (word_of_int value))"

definition run ::
    "secp256k1 \<Rightarrow> os \<Rightarrow> u32 \<Rightarrow> bytes option \<Rightarrow> string \<Rightarrow> string list \<Rightarrow> outcome io" where
  "run S E now random input args =
     (let done_zero = (\<lambda>m. io_bind m (\<lambda>_. io_return (Exits 0))) in
      if length args \<ge> 2 \<and> args ! 0 = ''--seed'' then
        done_zero (io_bind (io_lift (build_genesis_chain now (replicate 20 0))) (\<lambda>chain.
          io_write (save_chain chain (args ! 1))))
      else if length args \<ge> 2 \<and> args ! 0 = ''--listen'' then
        io_bind (io_lift (port_arg (args ! 1))) (\<lambda>port.
        done_zero (run_listener S E now random port (if length args \<ge> 3 then args ! 2 else ''chain.dat'')))
      else if length args \<ge> 3 \<and> args ! 0 = ''--connect'' then
        io_bind (io_lift (port_arg (args ! 2))) (\<lambda>port.
        done_zero (run_connector S E (args ! 1) port (if length args \<ge> 4 then args ! 3 else ''chain.dat'')))
      else if length args \<ge> 2 \<and> args ! 0 = ''--address'' then
        io_bind (load_or_create_wallet S random (args ! 1 @ ''.wallet'')) (\<lambda>w.
        io_return (Prints_address (encode_address (address_of w))))
      else if length args \<ge> 2 \<and> args ! 0 = ''--balance'' then
        io_bind (load_or_create_wallet S random (args ! 1 @ ''.wallet'')) (\<lambda>w.
        io_bind (io_read (\<lambda>d. load_chain d (args ! 1))) (\<lambda>chain.
        (let owned = filter_utxos_by_address (build_utxo_set chain) (address_of w)
         in io_return (Prints_balance (length owned) (total_of owned)))))
      else if length args \<ge> 6 \<and> args ! 0 = ''--send'' then
        io_bind (io_lift (port_arg (args ! 2))) (\<lambda>port.
        io_bind (io_lift (decode_address (args ! 4))) (\<lambda>recipient.
        io_bind (io_lift (stoll (args ! 5))) (\<lambda>(amount, _).
        done_zero (run_send_tx S E random (args ! 1) port (args ! 3) recipient (word_of_int amount)))))
      else if length args \<ge> 3 \<and> args ! 0 = ''--receive-tx'' then
        io_bind (io_lift (port_arg (args ! 1))) (\<lambda>port.
        done_zero (run_receive_tx S E port (args ! 2)))
      else if length args \<ge> 3 \<and> args ! 0 = ''--daemon'' then
        io_bind (io_lift (port_arg (args ! 1))) (\<lambda>port.
        (let (peers, mine) = fold daemon_argument (drop 3 args) ([], True) in
         io_bind (Node_new S now random port (args ! 2) peers mine) (\<lambda>nd. io_return (Serves nd))))
      else io_bind (demonstration S random input) (\<lambda>code. io_return (Exits code)))"

definition main ::
    "secp256k1 \<Rightarrow> os \<Rightarrow> u32 \<Rightarrow> bytes option \<Rightarrow> string \<Rightarrow> string list \<Rightarrow> outcome io" where
  "main S E now random input args =
     (let status = (if args \<noteq> [] then fst (check_arguments args) else - 1) in
      if args \<noteq> [] \<and> status \<ge> 0 then io_return (Exits status)
      else io_catch (run S E now random input args) (io_return (Exits EXIT_RUNTIME_ERROR)))"

section \<open>What the number parsers accept\<close>

lemma read_sign_cases:
  "read_sign text = (negative, body) \<Longrightarrow> \<exists>sign. text = sign @ body \<and> (if negative then sign = ''-'' else sign \<in> {[], ''+''})"
  by (cases "text" rule: read_sign.cases) (auto split: if_splits)

text \<open>The decimal numbers the program accepts: spaces, an optional plus, digits.\<close>

definition plain_number :: "string \<Rightarrow> int \<Rightarrow> bool" where
  "plain_number text v \<longleftrightarrow>
     (\<exists>spaces sign digits. text = spaces @ sign @ digits \<and> list_all is_space spaces \<and> sign \<in> {[], ''+''}
        \<and> digits \<noteq> [] \<and> list_all is_digit digits \<and> v = decimal_value digits)"

lemma digit_facts [simp]: "is_digit c \<Longrightarrow> \<not> is_space c" "is_digit c \<Longrightarrow> c \<noteq> CHR ''-''" "is_digit c \<Longrightarrow> c \<noteq> CHR ''+''"
  by (auto simp: is_digit_def is_space_def)

lemma read_plain:
  assumes "text = spaces @ sign @ digits" and "list_all is_space spaces" and "sign \<in> {[], ''+''}"
    and "digits \<noteq> []" and "list_all is_digit digits" and "low \<le> decimal_value digits" and "decimal_value digits \<le> high"
  shows "read_integer low high text = Inr (decimal_value digits, length text)"
proof -
  obtain c ds where ds: "digits = c # ds" "is_digit c" using assms(4,5) by (cases digits) auto
  have "\<not> is_space c" using ds(2) by simp
  then have "dropWhile is_space (sign @ digits) = sign @ digits" using assms(3) ds(1) by (auto simp: is_space_def [of "CHR ''+''"])
  then have rest: "dropWhile is_space text = sign @ digits"
    using assms(1,2) by (simp add: dropWhile_append2 list_all_iff)
  have sign: "read_sign (sign @ digits) = (False, digits)" using assms(3) ds by auto
  have t: "takeWhile is_digit digits = digits" using assms(5) by (simp add: list_all_iff takeWhile_eq_all_conv)
  have len: "length text - length digits + length digits = length text" using assms(1) by simp
  show ?thesis using assms(4,6,7) unfolding read_integer_def rest sign Let_def prod.case t len by simp
qed

lemma digits_nonneg: "list_all is_digit digits \<Longrightarrow> 0 \<le> decimal_value digits"
proof -
  have "list_all is_digit digits \<Longrightarrow> 0 \<le> a \<Longrightarrow> 0 \<le> foldl (\<lambda>v c. 10 * v + (of_char c - 48)) a digits" for a :: int
  proof (induction digits arbitrary: a)
    case (Cons c digits)
    from Cons.prems have "(48 :: nat) \<le> of_char c" by (simp add: is_digit_def)
    then have "(48 :: int) \<le> of_char c" by (metis of_nat_mono of_nat_numeral of_nat_of_char)
    with Cons.prems have "0 \<le> 10 * a + (of_char c - 48)" by simp
    with Cons.IH Cons.prems(1) show ?case by simp
  qed simp
  then show "list_all is_digit digits \<Longrightarrow> 0 \<le> decimal_value digits" by (simp add: decimal_value_def)
qed

lemma read_whole:
  assumes "read_integer low high text = Inr (v, length text)" and "0 < v"
  shows "plain_number text v \<and> low \<le> v \<and> v \<le> high"
proof -
  let ?rest = "dropWhile is_space text"
  obtain negative body where sb: "read_sign ?rest = (negative, body)" by fastforce
  let ?digits = "takeWhile is_digit body"
  from read_sign_cases [OF sb] obtain sign where sign: "?rest = sign @ body"
    "if negative then sign = ''-'' else sign \<in> {[], ''+''}" by blast
  from assms(1) have val: "?digits \<noteq> []" "v = (if negative then - decimal_value ?digits else decimal_value ?digits)"
    "low \<le> v" "v \<le> high" and used: "length text - length body + length ?digits = length text"
    by (auto simp: read_integer_def sb Let_def split: if_splits)
  have "list_all is_digit ?digits" by (auto simp: list_all_iff dest: set_takeWhileD)
  then have nonneg: "0 \<le> decimal_value ?digits" by (rule digits_nonneg)
  with val(2) assms(2) have pos: "\<not> negative" by auto
  have split_text: "text = takeWhile is_space text @ sign @ body" using sign(1) by (metis takeWhile_dropWhile_id)
  then have "length body \<le> length text" by (metis le_add1 le_add2 le_trans length_append)
  with used have "length ?digits = length body" by linarith
  then have b: "?digits = body" by (metis append_eq_conv_conj takeWhile_dropWhile_id length_takeWhile_le take_all_iff order_refl takeWhile_eq_take)
  have "list_all is_space (takeWhile is_space text)" by (auto simp: list_all_iff dest: set_takeWhileD)
  moreover have "v = decimal_value body" "sign \<in> {[], ''+''}" using val(2) sign(2) pos b by simp_all
  ultimately have "plain_number text v"
    unfolding plain_number_def using split_text val(1) \<open>list_all is_digit ?digits\<close> unfolding b by blast
  with val(3,4) show ?thesis by simp
qed

lemma stoll_plain:
  assumes "0 < v" and "v < 2 ^ 63"
  shows "stoll text = Inr (v, length text) \<longleftrightarrow> plain_number text v"
proof
  assume "plain_number text v"
  then obtain spaces sign digits where p: "text = spaces @ sign @ digits" "list_all is_space spaces"
    "sign \<in> {[], ''+''}" "digits \<noteq> []" "list_all is_digit digits" "v = decimal_value digits"
    unfolding plain_number_def by blast
  with read_plain [OF p(1-5)] assms show "stoll text = Inr (v, length text)" by (simp add: stoll_def)
qed (use read_whole assms(1) in \<open>auto simp: stoll_def\<close>)

lemma parse_port_plain:
  "parse_port text = Some port \<longleftrightarrow> (\<exists>v. plain_number text v \<and> 1 \<le> v \<and> v \<le> 65535 \<and> port = word_of_int v)"
proof
  assume "parse_port text = Some port"
  then obtain v where "stoll text = Inr (v, length text)" "1 \<le> v" "v \<le> 65535" "port = word_of_int v"
    by (auto simp: parse_port_def split: sum.splits if_splits)
  with stoll_plain [of v "text"] show "\<exists>v. plain_number text v \<and> 1 \<le> v \<and> v \<le> 65535 \<and> port = word_of_int v"
    by auto
next
  assume "\<exists>v. plain_number text v \<and> 1 \<le> v \<and> v \<le> 65535 \<and> port = word_of_int v"
  then obtain v where "plain_number text v" "1 \<le> v" "v \<le> 65535" "port = word_of_int v" by blast
  with stoll_plain [of v "text"] show "parse_port text = Some port" by (auto simp: parse_port_def)
qed

lemma parse_amount_plain:
  "parse_amount text = Some amount \<longleftrightarrow>
     (\<exists>v. plain_number text v \<and> 0 < v \<and> v < 2 ^ 63 \<and> amount = word_of_int v)"
proof
  assume "parse_amount text = Some amount"
  then obtain v where val: "stoll text = Inr (v, length text)" "0 < v" "amount = word_of_int v"
    by (auto simp: parse_amount_def split: sum.splits if_splits)
  with read_whole [of "- (2 ^ 63)" "2 ^ 63 - 1" "text" v]
  show "\<exists>v. plain_number text v \<and> 0 < v \<and> v < 2 ^ 63 \<and> amount = word_of_int v"
    by (auto simp: stoll_def)
next
  assume "\<exists>v. plain_number text v \<and> 0 < v \<and> v < 2 ^ 63 \<and> amount = word_of_int v"
  then obtain v where "plain_number text v" "0 < v" "v < 2 ^ 63" "amount = word_of_int v" by blast
  with stoll_plain [of v "text"] show "parse_amount text = Some amount" by (auto simp: parse_amount_def)
qed

text \<open>The number parsers accept exactly a decimal number in range, leading white space and a plus sign
  included; anything after the last digit, a minus sign or an overflow is rejected.\<close>

theorem parsers_accept:
  "(parse_port text = Some port \<longleftrightarrow>
      (\<exists>v. plain_number text v \<and> 1 \<le> v \<and> v \<le> 65535 \<and> port = word_of_int v))
   \<and> (parse_amount text = Some amount \<longleftrightarrow>
      (\<exists>v. plain_number text v \<and> 0 < v \<and> v < 2 ^ 63 \<and> amount = word_of_int v))"
  using parse_port_plain parse_amount_plain by blast


section \<open>A command line and its command\<close>

text \<open>What the usage says, as a type: the commands, how a command line is read, and what each one does.\<close>

datatype command =
    Seed string
  | Listen u16 string
  | Connect string u16 string
  | Address string
  | Balance string
  | Send string u16 string bytes i64
  | Receive_tx u16 string
  | Run_daemon u16 string "PeerAddress list" bool

text \<open>\<open>host:port\<close>, with a host that is not empty.\<close>

definition parse_peer :: "string \<Rightarrow> PeerAddress option" where
  "parse_peer arg =
     (let host = takeWhile (\<lambda>c. c \<noteq> CHR '':'') arg in
      case dropWhile (\<lambda>c. c \<noteq> CHR '':'') arg of
        [] \<Rightarrow> None
      | _ # port \<Rightarrow>
          if host = [] \<or> arg = ''--no-mine'' then None
          else map_option (\<lambda>port. \<lparr>peer_host = host, peer_port = port\<rparr>) (parse_port port))"

definition with_port :: "string \<Rightarrow> (u16 \<Rightarrow> command) \<Rightarrow> command option" where
  "with_port text f = map_option f (parse_port text)"

definition parse_send :: "string \<Rightarrow> string \<Rightarrow> string \<Rightarrow> string \<Rightarrow> string \<Rightarrow> command option" where
  "parse_send host port path recipient amount =
     (case (parse_port port, decode_address recipient, parse_amount amount) of
        (Some port, Inr recipient, Some amount) \<Rightarrow> Some (Send host port path recipient amount)
      | _ \<Rightarrow> None)"

definition parse_command :: "string \<Rightarrow> string list \<Rightarrow> command option" where
  "parse_command flag rest =
     (if flag = ''--seed'' then (case rest of [path] \<Rightarrow> Some (Seed path) | _ \<Rightarrow> None)
      else if flag = ''--listen'' then
        (case rest of
           [port] \<Rightarrow> with_port port (\<lambda>port. Listen port ''chain.dat'')
         | [port, path] \<Rightarrow> with_port port (\<lambda>port. Listen port path)
         | _ \<Rightarrow> None)
      else if flag = ''--connect'' then
        (case rest of
           [host, port] \<Rightarrow> with_port port (\<lambda>port. Connect host port ''chain.dat'')
         | [host, port, path] \<Rightarrow> with_port port (\<lambda>port. Connect host port path)
         | _ \<Rightarrow> None)
      else if flag = ''--address'' then (case rest of [path] \<Rightarrow> Some (Address path) | _ \<Rightarrow> None)
      else if flag = ''--balance'' then (case rest of [path] \<Rightarrow> Some (Balance path) | _ \<Rightarrow> None)
      else if flag = ''--send'' then
        (case rest of
           [host, port, path, recipient, amount] \<Rightarrow> parse_send host port path recipient amount
         | _ \<Rightarrow> None)
      else if flag = ''--receive-tx'' then
        (case rest of [port, path] \<Rightarrow> with_port port (\<lambda>port. Receive_tx port path) | _ \<Rightarrow> None)
      else if flag = ''--daemon'' then
        (case rest of
           port # path # more_args \<Rightarrow>
             with_port port (\<lambda>port. Run_daemon port path (List.map_filter parse_peer more_args) (''--no-mine'' \<notin> set more_args))
         | _ \<Rightarrow> None)
      else None)"

definition then_exit :: "unit io \<Rightarrow> outcome io" where
  "then_exit m = io_bind m (\<lambda>_. io_return (Exits 0))"

primrec run_command :: "secp256k1 \<Rightarrow> os \<Rightarrow> u32 \<Rightarrow> bytes option \<Rightarrow> command \<Rightarrow> outcome io" where
  "run_command S E now random (Seed path) =
     then_exit (io_bind (io_lift (build_genesis_chain now (replicate 20 0))) (\<lambda>chain. io_write (save_chain chain path)))"
| "run_command S E now random (Listen port path) = then_exit (run_listener S E now random port path)"
| "run_command S E now random (Connect host port path) = then_exit (run_connector S E host port path)"
| "run_command S E now random (Address path) =
     io_bind (load_or_create_wallet S random (path @ ''.wallet'')) (\<lambda>w.
     io_return (Prints_address (encode_address (address_of w))))"
| "run_command S E now random (Balance path) =
     io_bind (load_or_create_wallet S random (path @ ''.wallet'')) (\<lambda>w.
     io_bind (io_read (\<lambda>d. load_chain d path)) (\<lambda>chain.
     (let owned = filter_utxos_by_address (build_utxo_set chain) (address_of w)
      in io_return (Prints_balance (length owned) (total_of owned)))))"
| "run_command S E now random (Send host port path recipient amount) =
     then_exit (run_send_tx S E random host port path recipient amount)"
| "run_command S E now random (Receive_tx port path) = then_exit (run_receive_tx S E port path)"
| "run_command S E now random (Run_daemon port path peers mine) =
     io_bind (Node_new S now random port path peers mine) (\<lambda>nd. io_return (Serves nd))"

lemma read_integer_narrow:
  "read_integer low high text = Inr (v, used) \<Longrightarrow> low' \<le> v \<Longrightarrow> v \<le> high' \<Longrightarrow> read_integer low' high' text = Inr (v, used)"
  by (auto simp: read_integer_def Let_def split: prod.splits if_splits)

lemma port_arg_valid: "parse_port text = Some port \<Longrightarrow> port_arg text = Inr port"
proof -
  assume "parse_port text = Some port"
  then obtain v where v: "stoll text = Inr (v, length text)" "1 \<le> v" "v \<le> 65535" "port = word_of_int v"
    by (auto simp: parse_port_def split: sum.splits if_splits)
  from read_integer_narrow [OF v(1) [unfolded stoll_def], of "- (2 ^ 31)" "2 ^ 31 - 1"] v(2,3)
  have "stoi text = Inr (v, length text)" by (simp add: stoi_def)
  with v(4) show ?thesis by (simp add: port_arg_def)
qed

lemma amount_arg_valid: "parse_amount text = Some amount \<Longrightarrow> \<exists>v used. stoll text = Inr (v, used) \<and> word_of_int v = amount"
  by (auto simp: parse_amount_def split: sum.splits if_splits)

lemma daemon_argument_peer:
  "daemon_argument arg (peers, mine)
     = (peers @ (case parse_peer arg of None \<Rightarrow> [] | Some peer \<Rightarrow> [peer]), mine \<and> arg \<noteq> ''--no-mine'')"
proof -
  let ?host = "takeWhile (\<lambda>c. c \<noteq> CHR '':'') arg" and ?rest = "dropWhile (\<lambda>c. c \<noteq> CHR '':'') arg"
  have "length arg = length ?host + length ?rest" by (metis length_append takeWhile_dropWhile_id)
  then have colon: "length ?host = length arg \<longleftrightarrow> ?rest = []" by simp
  have port: "drop (length ?host + 1) arg = tl ?rest" by (simp add: dropWhile_eq_drop drop_Suc tl_drop)
  show ?thesis
  proof (cases "arg = ''--no-mine''")
    case True
    then show ?thesis by (simp add: daemon_argument_def parse_peer_def)
  next
    case False
    note unfolded = daemon_argument_def parse_peer_def Let_def port colon
    show ?thesis
    proof (cases ?rest)
      case Nil
      with False show ?thesis unfolding unfolded by (simp add: Nil)
    next
      case (Cons c port)
      with False show ?thesis unfolding unfolded by (cases "parse_port port") (simp_all add: Cons)
    qed
  qed
qed

lemma daemon_arguments:
  "fold daemon_argument args (peers, mine) = (peers @ List.map_filter parse_peer args, mine \<and> ''--no-mine'' \<notin> set args)"
  by (induction args arbitrary: peers mine)
    (auto simp: daemon_argument_peer List.map_filter_simps split: option.split)


lemma arities:
  "map (\<lambda>c. (flag_of c, min_args c, max_args c)) kCommands =
     [(''--seed'', 1, 1), (''--listen'', 1, 2), (''--connect'', 2, 3), (''--address'', 1, 1), (''--balance'', 1, 1),
      (''--send'', 5, 5), (''--receive-tx'', 2, 2), (''--daemon'', 2, UNLIMITED)]"
  by (simp add: kCommands_def)

lemma flags: "map flag_of kCommands
  = [''--seed'', ''--listen'', ''--connect'', ''--address'', ''--balance'', ''--send'', ''--receive-tx'', ''--daemon'']"
  using arg_cong [OF arities, of "map fst"] by (simp add: comp_def)

lemma find_unknown: "find_command flag = None \<longleftrightarrow> flag \<notin> set (map flag_of kCommands)"
  by (auto simp: find_command_def find_None_iff)

lemma find_distinct: "distinct (map g xs) \<Longrightarrow> x \<in> set xs \<Longrightarrow> List.find (\<lambda>y. g y = g x) xs = Some x"
  by (induction xs) auto

lemma find_command_of:
  assumes "(f, a, b) \<in> set (map (\<lambda>c. (flag_of c, min_args c, max_args c)) kCommands)"
  shows "\<exists>spec. find_command f = Some spec \<and> min_args spec = a \<and> max_args spec = b"
proof -
  from assms obtain c where c: "c \<in> set kCommands" "flag_of c = f" "min_args c = a" "max_args c = b" by auto
  have "distinct (map flag_of kCommands)" unfolding flags by simp
  from find_distinct [OF this c(1)] c(2-4) show ?thesis by (simp add: find_command_def)
qed

text \<open>A command's number of arguments, and the validation of a command line by its flag.\<close>

lemma find_commands:
  "\<exists>spec. find_command ''--seed'' = Some spec \<and> min_args spec = 1 \<and> max_args spec = 1"
  "\<exists>spec. find_command ''--listen'' = Some spec \<and> min_args spec = 1 \<and> max_args spec = 2"
  "\<exists>spec. find_command ''--connect'' = Some spec \<and> min_args spec = 2 \<and> max_args spec = 3"
  "\<exists>spec. find_command ''--address'' = Some spec \<and> min_args spec = 1 \<and> max_args spec = 1"
  "\<exists>spec. find_command ''--balance'' = Some spec \<and> min_args spec = 1 \<and> max_args spec = 1"
  "\<exists>spec. find_command ''--send'' = Some spec \<and> min_args spec = 5 \<and> max_args spec = 5"
  "\<exists>spec. find_command ''--receive-tx'' = Some spec \<and> min_args spec = 2 \<and> max_args spec = 2"
  "\<exists>spec. find_command ''--daemon'' = Some spec \<and> min_args spec = 2 \<and> max_args spec = UNLIMITED"
  by (rule find_command_of, unfold arities, simp)+

abbreviation status :: "string list \<Rightarrow> int" where
  "status args \<equiv> fst (check_arguments args)"

lemma status_no_port:
  "status (''--seed'' # rest) = (if length rest = 1 then - 1 else 2)"
  "status (''--address'' # rest) = (if length rest = 1 then - 1 else 2)"
  "status (''--balance'' # rest) = (if length rest = 1 then - 1 else 2)"
  using find_commands(1,4,5) by (cases rest; auto simp: check_arguments_def EXIT_USAGE_ERROR_def Let_def)+

lemma status_listen: "status (''--listen'' # rest)
    = (if 1 \<le> length rest \<and> length rest \<le> 2 \<and> parse_port (hd rest) \<noteq> None then - 1 else 2)"
  using find_commands(2) by (cases rest) (auto simp: check_arguments_def EXIT_USAGE_ERROR_def Let_def)

lemma status_receive: "status (''--receive-tx'' # rest)
    = (if length rest = 2 \<and> parse_port (hd rest) \<noteq> None then - 1 else 2)"
  using find_commands(7) by (cases rest; cases "tl rest") (auto simp: check_arguments_def EXIT_USAGE_ERROR_def Let_def)

lemma status_daemon: "status (''--daemon'' # rest)
    = (if 2 \<le> length rest \<and> length rest \<le> UNLIMITED \<and> parse_port (hd rest) \<noteq> None then - 1 else 2)"
  using find_commands(8) by (cases rest; cases "tl rest") (auto simp: check_arguments_def EXIT_USAGE_ERROR_def Let_def)

lemma status_connect: "status (''--connect'' # rest)
    = (if 2 \<le> length rest \<and> length rest \<le> 3 \<and> parse_port (rest ! 1) \<noteq> None then - 1 else 2)"
  using find_commands(3) by (auto simp: check_arguments_def EXIT_USAGE_ERROR_def Let_def)

lemma status_send: "status (''--send'' # rest)
    = (if length rest = 5 \<and> parse_port (rest ! 1) \<noteq> None \<and> (\<exists>a. decode_address (rest ! 3) = Inr a) \<and> parse_amount (rest ! 4) \<noteq> None
       then - 1 else 2)"
  using find_commands(6) by (auto simp: check_arguments_def EXIT_USAGE_ERROR_def Let_def split: sum.split)

lemma status_unknown:
  "flag \<notin> set (map flag_of kCommands) \<Longrightarrow> status (flag # rest) = (if flag = ''--help'' \<or> flag = ''-h'' then 0 else 2)"
  unfolding find_unknown [symmetric] by (simp add: check_arguments_def EXIT_USAGE_ERROR_def)


text \<open>The run of a command line with enough arguments, by its flag.\<close>

lemma run_seed: "run S E now random input [''--seed'', path] = run_command S E now random (Seed path)"
  by (simp add: run_def then_exit_def)

lemma run_listen:
  "run S E now random input (''--listen'' # port # rest) = io_bind (io_lift (port_arg port)) (\<lambda>port.
     run_command S E now random (Listen port (if rest = [] then ''chain.dat'' else hd rest)))"
  by (cases rest) (simp_all add: run_def then_exit_def)

lemma run_connect:
  "run S E now random input (''--connect'' # host # port # rest) = io_bind (io_lift (port_arg port)) (\<lambda>port.
     run_command S E now random (Connect host port (if rest = [] then ''chain.dat'' else hd rest)))"
  by (cases rest) (simp_all add: run_def then_exit_def)

lemma run_address: "run S E now random input [''--address'', path] = run_command S E now random (Address path)"
  by (simp add: run_def)

lemma run_balance: "run S E now random input [''--balance'', path] = run_command S E now random (Balance path)"
  by (simp add: run_def)

lemma run_send:
  "run S E now random input [''--send'', host, port, path, recipient, amount] = io_bind (io_lift (port_arg port)) (\<lambda>port.
     io_bind (io_lift (decode_address recipient)) (\<lambda>recipient. io_bind (io_lift (stoll amount)) (\<lambda>(amount, _).
     run_command S E now random (Send host port path recipient (word_of_int amount)))))"
  by (simp add: run_def then_exit_def)

lemma run_receive:
  "run S E now random input [''--receive-tx'', port, path] = io_bind (io_lift (port_arg port)) (\<lambda>port.
     run_command S E now random (Receive_tx port path))"
  by (simp add: run_def then_exit_def)

lemma run_the_daemon:
  "run S E now random input (''--daemon'' # port # path # rest) = io_bind (io_lift (port_arg port)) (\<lambda>port.
     run_command S E now random (Run_daemon port path (List.map_filter parse_peer rest) (''--no-mine'' \<notin> set rest)))"
  by (simp add: run_def daemon_arguments)


text \<open>\<open>dispatches flag rest\<close>: the validation accepts the command line exactly when it reads as a command, and
  then the run of it is the command.\<close>

definition dispatches :: "string \<Rightarrow> string list \<Rightarrow> bool" where
  "dispatches flag rest \<longleftrightarrow>
     (case parse_command flag rest of
        None \<Rightarrow> status (flag # rest) \<in> {0, 2}
      | Some cmd \<Rightarrow> status (flag # rest) = - 1
          \<and> (\<forall>S E now random input. run S E now random input (flag # rest) = run_command S E now random cmd))"

lemmas dispatch_simps = dispatches_def parse_command_def with_port_def port_arg_valid

lemma dispatch_path_only:
  "dispatches ''--seed'' rest" "dispatches ''--address'' rest" "dispatches ''--balance'' rest"
  by (cases rest rule: remdups_adj.cases; simp add: dispatch_simps status_no_port run_seed run_address run_balance)+

lemma dispatch_listen: "dispatches ''--listen'' rest"
proof (cases rest)
  case (Cons port rest')
  then show ?thesis
    by (cases rest' rule: remdups_adj.cases; cases "parse_port port")
      (simp_all add: dispatch_simps status_listen run_listen)
qed (simp add: dispatch_simps status_listen)

lemma dispatch_connect: "dispatches ''--connect'' rest"
proof (cases rest rule: remdups_adj.cases)
  case (3 host port rest')
  then show ?thesis
    by (cases rest' rule: remdups_adj.cases; cases "parse_port port")
      (simp_all add: dispatch_simps status_connect run_connect)
qed (simp_all add: dispatch_simps status_connect)

lemma dispatch_receive: "dispatches ''--receive-tx'' rest"
proof (cases rest rule: remdups_adj.cases)
  case (3 port path rest')
  then show ?thesis
    by (cases rest'; cases "parse_port port") (simp_all add: dispatch_simps status_receive run_receive)
qed (simp_all add: dispatch_simps status_receive)

lemma dispatch_daemon: "length rest \<le> UNLIMITED \<Longrightarrow> dispatches ''--daemon'' rest"
proof (cases rest rule: remdups_adj.cases)
  case (3 port path rest')
  moreover assume "length rest \<le> UNLIMITED"
  ultimately show ?thesis
    by (cases "parse_port port") (simp_all add: dispatch_simps status_daemon run_the_daemon)
qed (simp_all add: dispatch_simps status_daemon)

lemma dispatch_send: "dispatches ''--send'' rest"
proof (cases "length rest = 5")
  case True
  then obtain host port path recipient amount where rest: "rest = [host, port, path, recipient, amount]"
    by (auto simp: eval_nat_numeral length_Suc_conv)
  show ?thesis
  proof (cases "\<exists>p a r. parse_port port = Some p \<and> decode_address recipient = Inr r \<and> parse_amount amount = Some a")
    case True
    then obtain p r a where ok: "parse_port port = Some p" "decode_address recipient = Inr r" "parse_amount amount = Some a"
      by blast
    from amount_arg_valid [OF ok(3)] obtain v used where "stoll amount = Inr (v, used)" "word_of_int v = a" by blast
    with ok show ?thesis by (simp add: rest dispatch_simps parse_send_def status_send run_send)
  next
    case False
    then show ?thesis
      by (cases "parse_port port"; cases "decode_address recipient"; cases "parse_amount amount")
        (simp_all add: rest dispatch_simps parse_send_def status_send)
  qed
next
  case False
  have "parse_command ''--send'' rest = None"
    using False by (auto simp: parse_command_def split: list.split)
  with False show ?thesis by (simp add: dispatches_def status_send)
qed

lemma parse_unknown: "flag \<notin> set (map flag_of kCommands) \<Longrightarrow> parse_command flag rest = None"
  unfolding flags by (simp add: parse_command_def)

lemma all_dispatch: "length rest \<le> UNLIMITED \<Longrightarrow> dispatches flag rest"
proof (cases "flag \<in> set (map flag_of kCommands)")
  case True
  moreover assume "length rest \<le> UNLIMITED"
  ultimately show ?thesis
    unfolding flags
    using dispatch_path_only dispatch_listen dispatch_connect dispatch_receive dispatch_daemon dispatch_send by auto
next
  case False
  from parse_unknown [OF this] status_unknown [OF this] show ?thesis by (simp add: dispatches_def)
qed

text \<open>C35: A command line is executed exactly when it reads as one of the commands of the usage, with a port
  from 1 to 65535, an address that decodes and a positive amount where they are asked for; \<open>main\<close> then runs
  that command with the values read, a \<open>std::exception\<close> becoming exit code 1. Any other command line
  ends at once with code 0 (help) or 2, with nothing executed.\<close>

theorem main_dispatches:
  assumes "length rest \<le> UNLIMITED"
  shows "case parse_command flag rest of
     None \<Rightarrow> \<exists>code \<in> {0, 2}. main S E now random input (flag # rest) = io_return (Exits code)
   | Some cmd \<Rightarrow> main S E now random input (flag # rest)
       = io_catch (run_command S E now random cmd) (io_return (Exits 1))"
  using all_dispatch [OF assms, of flag] unfolding dispatches_def main_def EXIT_RUNTIME_ERROR_def Let_def
  by (cases "parse_command flag rest") auto

lemma main_dispatches_witness:
  "main toy_secp sample_os 0 None [] [''--receive-tx'', '' 9000'', ''chain.dat'']
     = io_catch (run_command toy_secp sample_os 0 None (Receive_tx 9000 ''chain.dat'')) (io_return (Exits 1))"
proof -
  have "parse_port '' 9000'' = Some 9000" by code_simp
  then have p: "parse_command ''--receive-tx'' ['' 9000'', ''chain.dat''] = Some (Receive_tx 9000 ''chain.dat'')"
    by (simp add: parse_command_def with_port_def)
  have "length ['' 9000'', ''chain.dat''] \<le> UNLIMITED" by (simp add: UNLIMITED_def)
  from main_dispatches [OF this, where flag = "''--receive-tx''"] p show ?thesis by simp
qed

section \<open>Exit codes\<close>

abbreviation ends_well :: "outcome \<Rightarrow> world \<Rightarrow> bool" where
  "ends_well res w \<equiv> (case res of Exits code \<Rightarrow> code \<in> {0, 1} | _ \<Rightarrow> True)"

abbreviation anything :: "world \<Rightarrow> bool" where
  "anything w \<equiv> True"

lemma yields_after: "(\<And>x. yields anything (f x) Q) \<Longrightarrow> yields anything (io_bind m f) Q"
  by (rule yields_bind [of _ _ "\<lambda>_ _. True"]) (simp_all add: yields_def)

lemma yields_code: "ends_well res undefined \<Longrightarrow> yields anything (io_return res) ends_well"
  by (rule yields_return) simp

lemma yields_cases:
  "yields P m Q \<Longrightarrow> yields P m' Q \<Longrightarrow> yields P (if b then m else m') Q"
  "(\<And>x y. yields P (f x y) Q) \<Longrightarrow> yields P (case z of (x, y) \<Rightarrow> f x y) Q"
  by (auto split: prod.split)

lemma run_ends: "yields anything (run S E now random input args) ends_well"
proof -
  have "yields anything (demonstration S random input) (\<lambda>code _. code \<in> {0, 1})"
    unfolding demonstration_def Let_def EXIT_FAILURE_def
    by (cases "demo_keys S random input") (auto intro!: yields_after yields_return)
  then have demo: "yields anything (io_bind (demonstration S random input) (\<lambda>code. io_return (Exits code))) ends_well"
    by (rule yields_bind) (auto simp: yields_def)
  show ?thesis
    unfolding run_def Let_def
    by (rule demo yields_cases yields_after yields_code | simp)+
qed

lemma status_values: "status args \<in> {- 1, 0, 2}"
  by (auto simp: check_arguments_def Let_def EXIT_USAGE_ERROR_def split: option.split sum.split)

text \<open>Whatever happens while it runs, the program ends with exit code 0, 1 or 2, a printed result, or a
  node that serves: no \<open>std::exception\<close> gets out of \<open>main\<close>.\<close>

theorem main_exit_codes:
  "case fst (main S E now random input args w) of
     Inl e \<Rightarrow> \<not> catchable e
   | Inr res \<Rightarrow> (case res of Exits code \<Rightarrow> code \<in> {0, 1, 2} | _ \<Rightarrow> True)"
proof -
  obtain r w' where run: "run S E now random input args w = (r, w')" by fastforce
  have "case r of Inl e \<Rightarrow> True | Inr res \<Rightarrow> ends_well res w'"
    using yieldsD [OF run_ends TrueI] run by (cases r) (auto split: outcome.splits)
  then show ?thesis
    using status_values [of args] run
    by (auto simp: main_def io_catch_def EXIT_RUNTIME_ERROR_def Let_def split: sum.splits outcome.splits)
qed

section \<open>The demonstration\<close>

text \<open>With a library that meets its documentation, a valid secret key from the random source and a
  writable current folder, the demonstration mode succeeds on every input line: the key pair signs the
  line, the signature verifies, and the UTXO set it saves loads back as the one entry it put in.\<close>

theorem demonstration_succeeds:
  assumes "secp_documented S" and "ec_seckey_verify S sk" and "writable (w_disk w) ''utxo.dat''"
  shows "\<exists>w' loaded. demonstration S (Some sk) input w = (Inr 0, w') \<and> load_utxo_set (w_disk w') ''utxo.dat'' = Inr loaded
    \<and> utxo_find loaded (COutPoint (tx_hash demo_coinbase_tx) 0) = Some \<lparr>nValue = 100000, scriptPubKey = [0xAA, 0xBB]\<rparr>"
proof -
  obtain pk c where keys: "ec_pubkey_create S sk = Some pk" "ec_pubkey_serialize S pk = Some (c, 33)"
    using secp_documentedE [OF assms(1,2), of "replicate 32 0"] by (metis length_replicate)
  from generate_sign_verify [OF assms(1,2) keys, of input] have "demo_keys S (Some sk) input \<noteq> None"
    using assms(2) keys by (elim exE conjE) (simp add: demo_keys_def generate_keypair_def create_address_total)
  moreover define utxos where "utxos = [(COutPoint (tx_hash demo_coinbase_tx) 0, \<lparr>nValue = 100000, scriptPubKey = [0xAA :: byte, 0xBB]\<rparr> :: CTxOut)]"
  moreover have put: "utxo_emplace (COutPoint (tx_hash demo_coinbase_tx) 0) (vout demo_coinbase_tx ! 0) [] = utxos"
    by (simp add: utxo_emplace_def utxos_def) (simp add: demo_coinbase_tx_def mk_Transaction_def Let_def)
  moreover obtain d' where d': "save_utxo_set utxos ''utxo.dat'' (w_disk w) = Inr d'"
    using assms(3) by (simp add: save_utxo_set_def write_file_eq Let_def)
  moreover have "list_all (\<lambda>(p, t). wf_outpoint p \<and> wf_txout t) utxos"
    by (simp add: utxos_def wf_defs demo_coinbase_tx_def mk_Transaction_def Let_def Transaction_GetHash_def)
  then obtain loaded where "load_utxo_set d' ''utxo.dat'' = Inr loaded" "utxo_find loaded = utxo_find utxos"
    using load_save_utxo_set [OF _ _ _ d'] by (auto simp: utxos_def utxo_distinct_def)
  moreover have "utxo_find utxos (COutPoint (tx_hash demo_coinbase_tx) 0) = Some \<lparr>nValue = 100000, scriptPubKey = [0xAA, 0xBB]\<rparr>"
    by (simp add: utxos_def utxo_find_def)
  ultimately show ?thesis
    by (auto simp: demonstration_def io_bind_def io_write_def put)
qed


lemma demonstration_succeeds_witness:
  "\<exists>w'. demonstration toy_secp (Some (replicate 32 7)) ''hello'' (idle_world empty_disk) = (Inr 0, w')"
proof -
  have "ec_seckey_verify toy_secp (replicate 32 7)" "writable (w_disk (idle_world empty_disk)) ''utxo.dat''"
    by (simp_all add: toy_secp_def empty_disk_def)
  from demonstration_succeeds [OF toy_secp_documented this, of "''hello''"] show ?thesis by blast
qed

end
