(* ===== verification/Daemon_Restart.thy ===== *)
theory Daemon_Restart
  imports Daemon_Sync
begin

text \<open>
  What a daemon keeps fits the file formats, and what its threads leave on disk, an exception included,
  is a chain file from which a restart goes on.
\<close>

section \<open>Blocks the program builds are well formed\<close>

lemma coinbase_wf: "length a = ADDRESS_SIZE \<Longrightarrow> wf_tx (build_coinbase_tx a h f)"
  unfolding wf_tx_def
  by (simp add: build_coinbase_tx_def Let_def wf_defs mk_Transaction_def CTxIn_default_def COutPoint_null_def
      build_p2pkh_script_pubkey_def ADDRESS_SIZE_def)

lemma merkle_loop_lengths: "list_all (\<lambda>h. length h = 32) xs \<Longrightarrow> list_all (\<lambda>h. length h = 32) (merkle_loop xs)"
proof (induction xs rule: merkle_loop.induct)
  case (1 xs)
  then show ?case
    by (cases "1 < length xs") (simp_all add: merkle_loop.simps [of xs] next_layer_lengths)
qed

lemma length_BuildMerkleRoot: "list_all wf_tx (vtx blk) \<Longrightarrow> length (BuildMerkleRoot blk) = 32"
  using merkle_loop_lengths [of "map tx_hash (vtx blk)"]
  by (auto simp: BuildMerkleRoot_def list_all_iff wf_tx_def split: list.split)

lemma built_block_wf:
  assumes "build_next_block now headers prev a fees txs = Inr blk"
    and "length a = ADDRESS_SIZE" and "length prev = 32" and "list_all wf_tx txs" and "length txs < 2 ^ 32 - 1"
  shows "wf_block blk"
proof -
  from build_next_block_Inr [OF assms(1)] have blk: "IsMerkleRootValid blk" "hashPrevBlock blk = prev"
    "vtx blk = build_coinbase_tx a (word_of_nat (length headers)) fees # txs" by simp_all
  with assms(4) have txs: "list_all wf_tx (vtx blk)" by (simp add: coinbase_wf [OF assms(2)])
  with length_BuildMerkleRoot [OF this] blk assms(3,5) show ?thesis
    by (simp add: wf_block_def wf_header_def IsMerkleRootValid_def)
qed

lemma select_mempool_length: "select_mempool S mempool u acc f = (txs, F) \<Longrightarrow> length txs \<le> length acc + length mempool"
proof (induction S mempool u acc f rule: select_mempool.induct)
  case (2 S tx mempool u acc f)
  let ?fee = "validate_and_get_fee S tx u"
  show ?case
  proof (cases "0 \<le> sint ?fee")
    case True
    from "2.IH"(1) [OF refl True] "2.prems" True show ?thesis by (simp add: Let_def)
  next
    case False
    with "2.IH"(2) [OF refl False] "2.prems" show ?thesis by (simp add: Let_def)
  qed
qed simp

section \<open>The type of a daemon's state\<close>

definition wf_node :: "Node \<Rightarrow> disk \<Rightarrow> bool" where
  "wf_node nd d \<longleftrightarrow> list_all wf_block (node_chain nd) \<and> length (address_of (node_wallet nd)) = ADDRESS_SIZE \<and> mempool_ok nd d"

fun wf_poll :: "poll \<Rightarrow> bool" where
  "wf_poll Poll_Next \<longleftrightarrow> True"
| "wf_poll (Have_Block blk) \<longleftrightarrow> wf_block blk"
| "wf_poll (Have_Chain chain) \<longleftrightarrow> list_all wf_block chain"

definition wf_blocks :: "system \<Rightarrow> bool" where
  "wf_blocks s \<longleftrightarrow> list_all wf_block (node_chain (s_node s)) \<and> wf_poll (s_poll s)"

definition wf_system :: "system \<Rightarrow> bool" where
  "wf_system s \<longleftrightarrow> wf_node (s_node s) (s_disk s) \<and> wf_blocks s"

text \<open>A block mined on a well-formed state is well formed.\<close>

lemma mined_wf:
  assumes "wf_node nd d"
    and "select_mempool S (mempool_of d (node_path nd @ ''.mempool'')) (build_utxo_set (node_chain nd)) [] 0 = (txs, fees)"
    and "build_next_block now (extract_headers (node_chain nd)) (GetHash (last (node_chain nd)))
      (address_of (node_wallet nd)) fees txs = Inr blk"
  shows "wf_block blk"
  using assms(1) select_mempool_subset [OF assms(2)] select_mempool_length [OF assms(2)]
  by (intro built_block_wf [OF assms(3)])
    (auto simp: wf_node_def mempool_ok_def list_all_iff MAX_MEMPOOL_SIZE_def)

lemma wf_mine:
  assumes "wf_node nd d"
  shows "yields (disk_is d) (MiningLoop_turn S now nd) (\<lambda>nd' _. list_all wf_block (node_chain nd'))"
proof -
  have "list_all wf_block (node_chain nd)" using assms by (simp add: wf_node_def)
  with assms show ?thesis
    unfolding yields_def MiningLoop_turn_def by (auto elim!: io_bindE mine_on_tip_cases) (rule mined_wf, assumption+)
qed

text \<open>What arrives from a peer is deserialised, hence well formed.\<close>

lemma wf_connect: "yields P (poll_connect E addr) (\<lambda>p _. wf_poll p)"
  unfolding poll_connect_def poll_done_def yields_def
  by (auto simp: expect_def io_lift_def dest!: block_codec.des_sound elim!: io_bindE split: option.splits if_splits)

lemma wf_request: "yields P (poll_request blk) (\<lambda>p _. wf_poll p)"
  unfolding poll_request_def poll_done_def yields_def
  by (auto simp: expect_def io_lift_def dest!: deserialize_chain_wf elim!: io_bindE split: option.splits if_splits)

lemma wf_block_turn:
  assumes "list_all wf_block (node_chain nd)" and "wf_block blk"
  shows "yields P (poll_block S nd blk) (\<lambda>(p, nd') _. list_all wf_block (node_chain nd') \<and> wf_poll p)"
  using assms yieldsD [OF wf_request [of "\<lambda>_. True" blk] TrueI]
  by (auto simp: yields_def poll_block_def poll_done_def elim!: io_bindE dest!: try_extend_chain_cases split: if_splits)

lemma wf_chain_turn:
  assumes "list_all wf_block (node_chain nd)" and "list_all wf_block chain"
  shows "yields P (poll_chain S nd chain) (\<lambda>(p, nd') _. list_all wf_block (node_chain nd') \<and> wf_poll p)"
  using assms
  by (auto simp: yields_def poll_chain_def poll_done_def elim!: io_bindE dest!: try_reorg_cases split: if_splits)


lemma wf_blocksI: "list_all wf_block (node_chain (s_node s)) \<Longrightarrow> wf_poll (s_poll s) \<Longrightarrow> wf_blocks s"
  by (simp add: wf_blocks_def)

lemma yields_any: "yields P m (\<lambda>_ _. True)"
  by (simp add: yields_def)

lemma wf_turn:
  assumes "yields (disk_is (s_disk s)) m Q" and "s_running (turn m c f s)"
    and "\<And>x w s'. Q x w \<Longrightarrow> s' = f x (w_peer w) (s\<lparr>s_disk := w_disk w, s_sockets := w_sockets w\<rparr>) \<Longrightarrow> wf_blocks s'"
  shows "wf_blocks (turn m c f s)"
  by (rule turn_returns [OF assms(1) _ assms(2)]) (use assms(3) in auto)

lemma step_wf_blocks:
  assumes "daemon_step S s s'" and "s_running s'" and "wf_system s"
  shows "wf_blocks s'"
proof -
  have nd: "wf_node (s_node s) (s_disk s)" "list_all wf_block (node_chain (s_node s))" "wf_poll (s_poll s)"
    using assms(3) by (simp_all add: wf_system_def wf_blocks_def)
  from assms(1) show ?thesis
  proof (cases rule: daemon_step.cases)
    case (accepts E c)
    then show ?thesis using assms(2) by (auto simp: accept_turn_def nd intro: wf_blocksI intro!: wf_turn [OF yields_any])
  next
    case (handles i)
    then show ?thesis using assms(2) by (auto simp: handle_turn_def Let_def split_def nd intro: wf_blocksI intro!: wf_turn [OF yields_any])
  next
    case (mines now)
    then show ?thesis using assms(2) by (auto simp: mine_turn_def nd intro: wf_blocksI intro!: wf_turn [OF wf_mine [OF nd(1)]])
  next
    case (polls E c)
    show ?thesis
    proof (cases "s_poll s")
      case Poll_Next
      then show ?thesis using polls assms(2)
        by (cases "s_queue s") (auto simp: poll_turn_def nd intro: wf_blocksI intro!: wf_turn [OF wf_connect])
    next
      case (Have_Block blk)
      then show ?thesis using polls assms(2) nd(3)
        by (auto simp: poll_turn_def nd intro: wf_blocksI intro!: wf_turn [OF wf_block_turn [OF nd(2)]])
    next
      case (Have_Chain chain)
      then show ?thesis using polls assms(2) nd(3)
        by (auto simp: poll_turn_def nd intro: wf_blocksI intro!: wf_turn [OF wf_chain_turn [OF nd(2)]])
    qed
  qed
qed

lemma step_wf:
  assumes "daemon_step S s s'" and "s_running s'" and "wf_system s"
  shows "wf_system s'"
proof -
  note e = daemon_step_event [OF assms(1,2)]
  have "node_wallet (s_node s') = node_wallet (s_node s)" using e by (auto elim: node_eventE)
  with event_mempool [OF e] step_wf_blocks [OF assms] assms(3) show ?thesis
    by (simp add: wf_system_def wf_node_def wf_blocks_def)
qed

lemma reach_wf: "daemon_reach S s s' \<Longrightarrow> s_running s' \<Longrightarrow> wf_system s \<Longrightarrow> wf_system s'"
  by (induction rule: threads.reach_invariant) (simp_all add: step_wf)

section \<open>The start\<close>

lemma io_catchE:
  assumes "io_catch m h w = (Inr x, w')"
  obtains "m w = (Inr x, w')" | e w1 where "m w = (Inl e, w1)" and "h w1 = (Inr x, w')"
  using assms by (auto simp: io_catch_def split: prod.splits sum.splits if_splits)

lemma loaded_wallet_ok: "load_or_create_wallet S random p w = (Inr wlt, w') \<Longrightarrow> wallet_ok S wlt"
  unfolding load_or_create_wallet_def
  by (erule io_catchE) (auto simp: io_lift_def FromSeckey_ok Wallet_new_ok elim!: io_bindE split: if_splits)

lemma loaded_chain_wf:
  assumes "load_or_create_chain now p a w = (Inr chain, w')" and "length a = ADDRESS_SIZE"
  shows "list_all wf_block chain"
  using assms(1) unfolding load_or_create_chain_def
proof (rule io_catchE)
  assume "io_read (\<lambda>d. load_chain d p) w = (Inr chain, w')"
  then show ?thesis by (auto simp: load_chain_def elim!: rbindE dest: deserialize_chain_wf)
next
  fix e w1 assume "io_lift (build_genesis_chain now a) w1 = (Inr chain, w')"
  then show ?thesis using built_block_wf [of now "[]" "replicate 32 0" a 0 "[]"] assms(2)
    by (auto simp: io_lift_def build_genesis_chain_def elim!: rbindE)
qed

lemma Node_new_wf:
  assumes "Node_new S now random port path peers mine w = (Inr nd, w')" and "mempool_ok nd (w_disk w')"
  shows "wf_system (Run_start nd w')"
  using assms
  by (auto simp: Node_new_def wf_system_def wf_node_def wf_blocks_def Run_start_def
      elim!: io_bindE dest!: loaded_wallet_ok [THEN wallet_address_length]) (rule loaded_chain_wf, assumption+)+


text \<open>C36: The state of a running daemon keeps its type: every block in memory, from the file, mined or received,
  fits the block format, and so do the mempool and what the poll holds between its two critical sections.\<close>

theorem daemon_state_well_formed:
  assumes "Node_new S now random port path peers mine w = (Inr nd, w')" and "mempool_ok nd (w_disk w')"
    and "daemon_reach S (Run_start nd w') s" and "s_running s"
  shows "wf_system s"
  using reach_wf [OF assms(3,4) Node_new_wf [OF assms(1,2)]] .

section \<open>Crashes\<close>

text \<open>Files to go on from: the wallet's key; and well-formed blocks, with the genesis of the node's chain and
  no less work.\<close>

definition keeps_key :: "Node \<Rightarrow> disk \<Rightarrow> bool" where
  "keeps_key nd d \<longleftrightarrow> files d (node_path nd @ ''.wallet'') = Some (seckey_of (node_wallet nd))"

definition holds_chain :: "Node \<Rightarrow> disk \<Rightarrow> CBlock list \<Rightarrow> bool" where
  "holds_chain nd d chain \<longleftrightarrow> files d (node_path nd) = Some (serialize_chain chain) \<and> list_all wf_block chain
     \<and> chain \<noteq> [] \<and> GetHash (hd chain) = GetHash (hd (node_chain nd))
     \<and> f64_le (work nd) (calculate_chain_work (extract_headers chain))"

definition recoverable :: "Node \<Rightarrow> disk \<Rightarrow> bool" where
  "recoverable nd d \<longleftrightarrow> keeps_key nd d \<and> (\<exists>chain. holds_chain nd d chain)"

definition sound_node :: "Node \<Rightarrow> disk \<Rightarrow> bool" where
  "sound_node nd d \<longleftrightarrow> wf_node nd d \<and> in_sync nd d \<and> keeps_key nd d \<and> node_chain nd \<noteq> []"

lemma sound_holds: "sound_node nd d \<Longrightarrow> holds_chain nd d (node_chain nd)"
  by (simp add: sound_node_def wf_node_def in_sync_def holds_chain_def work_def f64_le_refl chain_work_double)

lemma sound_recoverable: "sound_node nd d \<Longrightarrow> recoverable nd d"
  using sound_holds by (auto simp: recoverable_def sound_node_def)

lemma saved_key: "save_chain chain (node_path nd) d = Inr d' \<Longrightarrow> keeps_key nd d' = keeps_key nd d"
  by (auto simp: save_chain_def keeps_key_def dest!: write_file_files)

lemma pended_key: "save_mempool m (node_path nd @ ''.mempool'') d = Inr d' \<Longrightarrow> keeps_key nd d' = keeps_key nd d"
  by (auto simp: save_mempool_eq keeps_key_def dest!: write_file_files)

lemma saved_recoverable:
  assumes "sound_node nd d" and "save_chain chain (node_path nd) d = Inr d'" and "may_follow S (node_chain nd) chain"
    and "list_all wf_block chain"
  shows "recoverable nd d'"
  using assms(1) saved_file [OF assms(2)] saved_key [OF assms(2)] may_follow_keeps [OF assms(3)] assms(4)
  by (auto simp: recoverable_def holds_chain_def work_def sound_node_def)

lemma longer_recoverable:
  assumes "sound_node nd d" and "wf_block blk" and "save_chain (node_chain nd @ [blk]) (node_path nd) d = Inr d'"
  shows "recoverable nd d'"
  using assms(1,2) saved_file [OF assms(3)] saved_key [OF assms(3)]
  by (auto simp: recoverable_def holds_chain_def sound_node_def wf_node_def work_def extract_headers_snoc chain_work_mono
      intro!: exI [of _ "node_chain nd @ [blk]"])

lemma mempool_recoverable:
  assumes "save_mempool m (node_path nd @ ''.mempool'') d = Inr d'" and "recoverable nd d"
  shows "recoverable nd d'"
  using assms(2) other_file [OF assms(1)] pended_key [OF assms(1)] by (simp add: recoverable_def holds_chain_def)

text \<open>However an action ends, the file is one to go on from.\<close>

lemma keeps_read: "keeps I (load_or_create_chain now p a)" "keeps I (load_mempool_or_empty p)"
  by (auto simp: leads_def load_or_create_chain_def load_mempool_or_empty_def io_catch_def io_lift_def split: sum.split)

lemma accept_recoverable: "keeps (\<lambda>w. recoverable nd (w_disk w)) (AcceptTransaction S nd tx)"
  unfolding AcceptTransaction_def Let_def
  by (intro leads_if leads_same leads_bind [OF keeps_read(2)] leads_write) (auto intro: mempool_recoverable)

lemma handle_recoverable: "keeps (\<lambda>w. recoverable nd (w_disk w)) (handle_step S nd h)"
proof -
  let ?I = "\<lambda>w. recoverable nd (w_disk w)"
  have I: "disk_only ?I" by (rule disk_only_disk)
  have bind: "keeps ?I m \<Longrightarrow> (\<And>x. keeps ?I (f x)) \<Longrightarrow> keeps ?I (io_bind m f)" for m :: "'x io" and f :: "'x \<Rightarrow> handler io"
    by (rule leads_bind)
  show ?thesis
    unfolding handle_step_def handle_version_def handle_verack_def handle_request_def hang_up_def
    by (cases h) (auto intro!: bind leads_expect [OF I] leads_net [OF I] leads_same accept_recoverable
        split: option.split prod.split)
qed

lemma leads_strengthen: "leads P m Q \<Longrightarrow> (\<And>w. P' w \<Longrightarrow> P w) \<Longrightarrow> leads P' m Q"
  by (simp add: leads_def)

lemma leads_then: "leads P m Q \<Longrightarrow> (\<And>x. keeps Q (f x)) \<Longrightarrow> leads P (io_bind m f) Q"
  by (auto simp: leads_def io_bind_def split: prod.splits sum.splits)

lemma recoverable_done: "keeps (\<lambda>w. recoverable nd (w_disk w)) poll_done"
  unfolding poll_done_def by (intro leads_bind leads_net leads_same disk_only_disk)

lemma mine_recoverable:
  assumes "sound_node nd d"
  shows "leads (disk_is d) (MiningLoop_turn S now nd) (\<lambda>w. recoverable nd (w_disk w))"
proof -
  let ?R = "\<lambda>w. recoverable nd (w_disk w)"
  have same: "disk_is d w \<Longrightarrow> ?R w" for w using sound_recoverable [OF assms] by simp
  have wf: "wf_node nd d" and ne: "node_chain nd \<noteq> []" using assms by (simp_all add: sound_node_def)
  have save: "leads (disk_is d) (io_write (save_chain (node_chain nd @ [blk]) (node_path nd))) ?R" if "wf_block blk" for blk
    by (rule leads_write [OF _ same]) (use longer_recoverable [OF assms that] in simp_all)
  have clear: "keeps ?R (io_bind (io_write (save_mempool m (node_path nd @ ''.mempool''))) (\<lambda>_. io_return x))" for m and x :: "CBlock \<times> CBlock list"
    by (intro leads_bind leads_write leads_same) (auto intro: mempool_recoverable)
  have "leads (disk_is d) (mine_on_tip S now (node_path nd) (address_of (node_wallet nd)) (node_chain nd)) ?R"
    unfolding mine_on_tip_def Let_def
    by (intro leads_bind_mempool same)
      (auto simp: chain_back_def ne intro!: leads_bind_lift leads_then [OF save clear] same mined_wf [OF wf] split: prod.split)
  then show ?thesis
    unfolding MiningLoop_turn_def by (rule leads_then) (auto intro: leads_same split: prod.split)
qed

lemma block_recoverable:
  assumes "sound_node nd d" and "wf_block blk"
  shows "leads (disk_is d) (poll_block S nd blk) (\<lambda>w. recoverable nd (w_disk w))"
proof -
  let ?R = "\<lambda>w. recoverable nd (w_disk w)"
  have same: "disk_is d w \<Longrightarrow> ?R w" for w using sound_recoverable [OF assms(1)] by simp
  have ok: "list_all wf_block (node_chain nd @ [blk])" using assms by (simp add: sound_node_def wf_node_def)
  have request: "leads (disk_is d) (poll_request blk) ?R"
    by (rule leads_weaken [OF _ same]) 
      (auto simp: poll_request_def poll_done_def intro!: leads_bind leads_expect leads_net leads_same)
  have save: "leads (disk_is d) (io_write (save_chain chain (node_path nd))) ?R"
    if "try_extend_chain S (node_chain nd) blk = Inr (True, chain)" for chain
    by (rule leads_write)
      (use that ok in \<open>auto simp: try_extend_chain_true may_follow_def intro: same saved_recoverable [OF assms(1), where S = S]\<close>)
  show ?thesis
    unfolding poll_block_def
    by (rule leads_bind_lift [OF _ same])
      (auto intro!: leads_then [OF save] leads_then [OF recoverable_done] leads_then [OF request] leads_same)
qed

lemma chain_recoverable:
  assumes "sound_node nd d" and "list_all wf_block chain"
  shows "leads (disk_is d) (poll_chain S nd chain) (\<lambda>w. recoverable nd (w_disk w))"
proof -
  let ?R = "\<lambda>w. recoverable nd (w_disk w)"
  have same: "disk_is d w \<Longrightarrow> ?R w" for w using sound_recoverable [OF assms(1)] by simp
  have save: "leads (disk_is d) (io_write (save_chain chain' (node_path nd))) ?R"
    if "try_reorg S (node_chain nd) chain = Inr (True, chain')" for chain'
    by (rule leads_write)
      (use that assms(2) in \<open>auto simp: try_reorg_true may_follow_def intro: same saved_recoverable [OF assms(1), where S = S]\<close>)
  show ?thesis
    unfolding poll_chain_def
    by (rule leads_bind_lift [OF _ same])
      (auto intro!: leads_then [OF leads_if [OF save leads_same(1)]] leads_then [OF recoverable_done] leads_same same)
qed


lemma turn_recoverable:
  assumes "leads (disk_is (s_disk s)) m (\<lambda>w. recoverable nd (w_disk w))" and "\<And>x c s'. s_disk (f x c s') = s_disk s'"
  shows "recoverable nd (s_disk (turn m c f s))"
  using leadsD [OF assms(1), of "\<lparr>w_disk = s_disk s, w_peer = c, w_sockets = s_sockets s\<rparr>"] assms(2)
  by (auto simp: turn_def split: prod.split sum.split)

lemma step_recoverable:
  assumes "daemon_step S s s'" and "sound_node (s_node s) (s_disk s)" and "wf_system s"
  shows "recoverable (s_node s) (s_disk s')"
proof -
  have idle: "leads (disk_is (s_disk s)) m (\<lambda>w. recoverable (s_node s) (w_disk w))" if "keeps (disk_is (s_disk s)) m" for m :: "'x io"
    by (rule leads_weaken [OF that]) (simp add: sound_recoverable [OF assms(2)])
  from assms(1) show ?thesis
  proof (cases rule: daemon_step.cases)
    case (accepts E c)
    then show ?thesis by (auto simp: accept_turn_def intro!: turn_recoverable idle leads_net)
  next
    case (handles i)
    have "leads (disk_is (s_disk s)) (handle_step S (s_node s) h) (\<lambda>w. recoverable (s_node s) (w_disk w))" for h
      by (rule leads_strengthen [OF handle_recoverable]) (simp add: sound_recoverable [OF assms(2)])
    with handles show ?thesis by (auto simp: handle_turn_def Let_def split_def intro!: turn_recoverable)
  next
    case (mines now)
    then show ?thesis by (auto simp: mine_turn_def intro!: turn_recoverable mine_recoverable [OF assms(2)])
  next
    case (polls E c)
    have poll: "wf_poll (s_poll s)" using assms(3) by (simp add: wf_system_def wf_blocks_def)
    have connect: "keeps (disk_is (s_disk s)) (poll_connect E addr)" for addr
      using net_disk(3) [of E "peer_host addr" "peer_port addr"]
      by (auto simp: poll_connect_def poll_done_def intro!: leads_bind leads_catch leads_expect leads_net leads_same)
    show ?thesis
    proof (cases "s_poll s")
      case Poll_Next
      then show ?thesis using polls
        by (cases "s_queue s") (auto simp: poll_turn_def sound_recoverable [OF assms(2)] intro!: turn_recoverable idle connect)
    next
      case (Have_Block blk)
      then show ?thesis using polls poll
        by (auto simp: poll_turn_def intro!: turn_recoverable block_recoverable [OF assms(2)])
    next
      case (Have_Chain chain)
      then show ?thesis using polls poll
        by (auto simp: poll_turn_def intro!: turn_recoverable chain_recoverable [OF assms(2)])
    qed
  qed
qed


section \<open>Restarting\<close>

lemma loaded_wallet_key:
  assumes "load_or_create_wallet S random p w = (Inr wlt, w')" and "\<And>r. random = Some r \<Longrightarrow> length r = 32"
  shows "files (w_disk w') p = Some (seckey_of wlt) \<and> FromSeckey S (seckey_of wlt) = Inr wlt \<and> length (seckey_of wlt) = 32"
  using assms(1) unfolding load_or_create_wallet_def
proof (rule io_catchE)
  assume "io_bind (io_read (\<lambda>d. read_file d p)) (\<lambda>buffer.
      if length buffer \<noteq> 32 then io_lift (Inl (Runtime_error ''load_or_create_wallet: unexpected wallet file size''))
      else io_lift (FromSeckey S buffer)) w = (Inr wlt, w')"
  then obtain buffer where "files (w_disk w') p = Some buffer" "length buffer = 32" "FromSeckey S buffer = Inr wlt"
    by (auto simp: io_lift_def read_file_def elim!: io_bindE split: if_splits option.splits)
  with FromSeckey_ok [OF this(3)] show ?thesis by simp
next
  fix e w1 assume "io_bind (io_lift (Wallet_new S random)) (\<lambda>wlt.
      io_bind (io_write (\<lambda>d. write_file d p (seckey_of wlt))) (\<lambda>_. io_return wlt)) w1 = (Inr wlt, w')"
  then have new: "Wallet_new S random = Inr wlt" and stored: "files (w_disk w') p = Some (seckey_of wlt)"
    by (auto simp: io_lift_def elim!: io_bindE io_writeE dest!: write_file_files)
  then obtain r where "random = Some r" "seckey_of wlt = r"
    by (auto simp: Wallet_new_def generate_keypair_def split: option.splits if_splits)
  with stored wallet_restored [OF new] assms(2) show ?thesis by simp
qed

lemma Node_new_key:
  assumes "Node_new S now random port path peers mine w = (Inr nd, w')" and "\<And>r. random = Some r \<Longrightarrow> length r = 32"
  shows "keeps_key nd (w_disk w') \<and> FromSeckey S (seckey_of (node_wallet nd)) = Inr (node_wallet nd)
    \<and> length (seckey_of (node_wallet nd)) = 32"
proof -
  from assms(1) obtain wlt w1 chain w2 where wlt: "load_or_create_wallet S random (path @ ''.wallet'') w = (Inr wlt, w1)"
    and "load_or_create_chain now path (address_of wlt) w1 = (Inr chain, w2)"
    and save: "io_write (save_chain chain path) w2 = (Inr (), w')"
    and nd: "node_wallet nd = wlt" "node_path nd = path"
    by (auto simp: Node_new_def elim!: io_bindE)
  then have "w2 = w1" by (simp add: load_or_create_keeps)
  with save nd saved_key [of chain nd] loaded_wallet_key [OF wlt assms(2)] show ?thesis
    by (auto simp: keeps_key_def elim!: io_writeE)
qed

lemma event_key: "node_event S (nd, d) (nd', d') \<Longrightarrow> keeps_key nd d \<Longrightarrow> keeps_key nd' d'"
  by (erule node_eventE) (auto simp: saved_key pended_key keeps_key_def [of "_\<lparr>node_chain := _\<rparr>"] keeps_key_def [symmetric])

lemma events_key: "(node_event S)\<^sup>*\<^sup>* (nd, d) (nd', d') \<Longrightarrow> keeps_key nd d \<Longrightarrow> keeps_key nd' d'"
  by (induction rule: rtranclp_induct2) (auto intro: event_key)

lemma restart_from:
  assumes "keeps_key nd d" and "FromSeckey S (seckey_of (node_wallet nd)) = Inr (node_wallet nd)"
    and "length (seckey_of (node_wallet nd)) = 32" and "holds_chain nd d chain" and "length chain < 2 ^ 32"
    and "writable d (node_path nd)"
  shows "\<exists>nd' w'. Node_new S now random port (node_path nd) peers mine (idle_world d) = (Inr nd', w')
    \<and> node_chain nd' = chain \<and> node_wallet nd' = node_wallet nd"
proof -
  have "load_or_create_wallet S random (node_path nd @ ''.wallet'') (idle_world d) = (Inr (node_wallet nd), idle_world d)"
    using assms(1-3) by (simp add: load_or_create_wallet_def io_catch_def io_bind_def read_file_def keeps_key_def)
  moreover have "load_or_create_chain now (node_path nd) a (idle_world d) = (Inr chain, idle_world d)" for a
    using assms(4,5) by (simp add: load_or_create_chain_def io_catch_def load_chain_def read_file_def holds_chain_def
        deserialize_serialize_chain)
  moreover obtain d' where "save_chain chain (node_path nd) d = Inr d'"
    using assms(6) by (simp add: save_chain_def write_file_eq)
  ultimately show ?thesis by (simp add: Node_new_def io_bind_def io_write_def)
qed


lemma length_serialize_chain: "length chain \<le> length (serialize_chain chain)"
proof -
  have "length chain \<le> length (concat (map CBlock_Serialize chain))"
    by (induction chain) (auto simp: CBlock_Serialize_eq CBlockHeader_Serialize_eq)
  then show ?thesis by (simp add: serialize_chain_eq block_codec.counted_def)
qed

lemma reach_sound:
  assumes "Node_new S now random port path peers mine w = (Inr nd, w')" and "\<And>r. random = Some r \<Longrightarrow> length r = 32"
    and "mempool_ok nd (w_disk w')" and "node_chain nd \<noteq> []"
    and "daemon_reach S (Run_start nd w') s" and "s_running s"
  shows "sound_node (s_node s) (s_disk s) \<and> node_keeps nd (s_node s) (s_disk s)"
proof -
  note events = daemon_reach_events [OF assms(5,6)]
  have "wf_system s" by (rule reach_wf [OF assms(5,6) Node_new_wf [OF assms(1,3)]])
  moreover have keeps: "node_keeps nd (s_node s) (s_disk s)"
    using events_keep [of S nd "w_disk w'"] events Node_new_in_sync [OF assms(1)] by (simp add: Run_start_def)
  moreover have "keeps_key (s_node s) (s_disk s)"
    using events_key [OF events] Node_new_key [OF assms(1,2)] by (simp add: Run_start_def)
  ultimately show ?thesis using assms(4) by (simp add: sound_node_def wf_system_def node_keeps_def)
qed

text \<open>What a later state of the node can go on from, the node as it started can.\<close>

lemma holds_initial:
  assumes "node_keeps nd nd1 d1" and "node_chain nd \<noteq> []" and "holds_chain nd1 d chain"
  shows "holds_chain nd d chain"
proof -
  from assms(1) have "node_path nd1 = node_path nd" by (auto simp: node_keeps_def dest: arg_cong [of _ _ node_path])
  with assms show ?thesis by (auto simp: holds_chain_def node_keeps_def elim: f64_le_trans)
qed

lemma key_initial:
  assumes "node_keeps nd nd1 d1" shows "keeps_key nd1 d = keeps_key nd d"
proof -
  from assms have "node_path nd1 = node_path nd" "node_wallet nd1 = node_wallet nd"
    by (auto simp: node_keeps_def dest: arg_cong [of _ _ node_path] arg_cong [of _ _ node_wallet])
  then show ?thesis by (simp add: keeps_key_def)
qed

text \<open>Whether the daemon still runs or a thread's exception has ended it, the files are ones to go on from.\<close>

lemma reach_recoverable:
  assumes "Node_new S now random port path peers mine w = (Inr nd, w')" and "\<And>r. random = Some r \<Longrightarrow> length r = 32"
    and "mempool_ok nd (w_disk w')" and "node_chain nd \<noteq> []" and reach: "daemon_reach S (Run_start nd w') s"
  shows "\<exists>chain. keeps_key nd (s_disk s) \<and> holds_chain nd (s_disk s) chain \<and> (s_running s \<longrightarrow> chain = node_chain (s_node s))"
proof (cases "s_running s")
  case True
  with reach_sound [OF assms] have sound: "sound_node (s_node s) (s_disk s)" and keeps: "node_keeps nd (s_node s) (s_disk s)"
    by simp_all
  then show ?thesis
    using holds_initial [OF keeps assms(4) sound_holds [OF sound]] key_initial [OF keeps] by (auto simp: sound_node_def)
next
  case False
  from reach obtain s1 where s1: "daemon_reach S (Run_start nd w') s1" "s_running s1" "daemon_step S s1 s"
    by (rule threads.reach_cases) (use False in \<open>simp_all add: Run_start_def\<close>)
  from reach_sound [OF assms(1-4) s1(1,2)] have sound: "sound_node (s_node s1) (s_disk s1)"
    and keeps: "node_keeps nd (s_node s1) (s_disk s1)" by simp_all
  from step_recoverable [OF s1(3) sound reach_wf [OF s1(1,2) Node_new_wf [OF assms(1,3)]]]
  obtain chain where "keeps_key (s_node s1) (s_disk s)" "holds_chain (s_node s1) (s_disk s) chain"
    by (auto simp: recoverable_def)
  with False holds_initial [OF keeps assms(4)] key_initial [OF keeps] show ?thesis by auto
qed

section \<open>Reading a file ends in an answer\<close>

text \<open>Whatever a file holds, the readers return or throw something that \<open>catch (const std::exception&)\<close>
  stops.\<close>

definition civil :: "'a result \<Rightarrow> bool" where
  "civil r \<longleftrightarrow> (\<forall>e. r = Inl e \<longrightarrow> catchable e)"

lemma civil_Inr [simp]: "civil (Inr x)"
  by (simp add: civil_def)

lemma civil_bind: "civil r \<Longrightarrow> (\<And>x. civil (f x)) \<Longrightarrow> civil (rbind r f)"
  by (cases r) (auto simp: civil_def)

lemma civil_bind_pair: "civil r \<Longrightarrow> (\<And>x y. civil (f x y)) \<Longrightarrow> civil (rbind r (\<lambda>(x, y). f x y))"
  by (rule civil_bind) auto

lemma civil_many: "(\<And>off. civil (rd off)) \<Longrightarrow> civil (read_many rd n off)"
  by (induction n arbitrary: off) (auto intro!: civil_bind_pair)

lemma civil_at: "civil (vector_at data off)"
  by (simp add: vector_at_def civil_def)

lemma civil_fields:
  "civil (read_uint_32LE data off)" "civil (read_var_int32 data off)" "civil (read_uint_64LE data off)"
  "civil (read_bytes data off n)" "civil (read_bytes32 data off)"
proof -
  show u32: "civil (read_uint_32LE data off)"
    unfolding read_uint_32LE_def by (intro civil_bind civil_at civil_Inr)
  then show "civil (read_var_int32 data off)" by (simp add: read_var_int32_def)
  have "civil (read_uint_64LE_loop data off is v)" for "is" v
    by (induction data off "is" v rule: read_uint_64LE_loop.induct) (auto simp: civil_def rbind_def vector_at_def split: sum.splits)
  then show "civil (read_uint_64LE data off)"
    unfolding read_uint_64LE_def by (rule civil_bind) (rule civil_Inr)
qed (simp_all add: read_bytes_def read_bytes32_def civil_def)

lemma civil_file: "civil (read_file d path)"
  by (simp add: read_file_def civil_def split: option.split)

lemma civil_tx: "civil (Transaction_Deserialize data off)"
  unfolding Transaction_Deserialize_def CTxIn_Deserialize_def CTxOut_Deserialize_def COutPoint_Deserialize_def
  by (intro civil_bind_pair civil_many civil_fields civil_Inr)

lemma civil_load_mempool: "civil (load_mempool d path)"
  unfolding load_mempool_def by (intro civil_bind civil_file civil_bind_pair civil_many civil_fields civil_tx civil_Inr)

lemma civil_deserialize_chain: "civil (deserialize_chain buffer)"
  unfolding deserialize_chain_def CBlock_Deserialize_def CBlockHeader_Deserialize_def
  by (intro civil_bind_pair civil_many civil_fields civil_tx civil_Inr)

lemma civil_load_chain: "civil (load_chain d path)"
  unfolding load_chain_def by (intro civil_bind civil_file civil_deserialize_chain)

section \<open>Files cut short\<close>

text \<open>What \<open>deserialize_chain\<close> reads stands at the front of the buffer; so a first part of a chain file that
  is not all of it is refused.\<close>

lemma deserialize_front:
  assumes "bytes_at buffer 0 (serialize_chain chain)" and "list_all wf_block chain" and "length chain < 2 ^ 32"
  shows "deserialize_chain buffer = Inr chain"
proof -
  have "bytes_at buffer 0 (le32 (word_of_nat (length chain)))" "bytes_at buffer 4 (concat (map CBlock_Serialize chain))"
    using assms(1) by (simp_all add: serialize_chain_eq block_codec.counted_def bytes_at_append)
  from read_var_int32_at [OF this(1)] block_codec.read_many_ser [OF assms(2) this(2)] block_codec.read_counted(3) [OF assms(2,3)]
  show ?thesis by (simp add: deserialize_chain_def)
qed

lemma cut_chain_refused:
  assumes "list_all wf_block chain" and "length chain < 2 ^ 32" and "k < length (serialize_chain chain)"
  shows "\<exists>e. deserialize_chain (take k (serialize_chain chain)) = Inl e \<and> catchable e"
proof (cases "deserialize_chain (take k (serialize_chain chain))")
  case (Inl e)
  with civil_deserialize_chain show ?thesis unfolding civil_def by blast
next
  case (Inr chain')
  let ?buf = "serialize_chain chain"
  have front: "bytes_at (take k ?buf) 0 (serialize_chain chain')" "list_all wf_block chain'" "length chain' < 2 ^ 32"
    using Inr by (auto simp: deserialize_chain_def serialize_chain_eq elim!: rbindE dest: block_codec.read_counted_sound)
  then have "bytes_at ?buf 0 (serialize_chain chain')"
    by (auto simp: bytes_at_def slice_def min_def split: if_splits)
  from deserialize_front [OF this front(2,3)] have "chain' = chain" using deserialize_serialize_chain [OF assms(1,2)] by simp
  with bytes_at_bound [OF front(1)] assms(3) show ?thesis by simp
qed

text \<open>A chain file that holds only a first part of what was to be written.\<close>

definition cut_short :: "disk \<Rightarrow> string \<Rightarrow> bool" where
  "cut_short d path \<longleftrightarrow> (\<exists>chain k. list_all wf_block chain \<and> length chain < 2 ^ 32 \<and> k < length (serialize_chain chain)
     \<and> files d path = Some (take k (serialize_chain chain)))"

text \<open>The disks a step passes through that starts with \<open>d\<close> and leaves \<open>d'\<close>: a step saves the chain at most once
  and the mempool at most once, in this order, and each save empties the file before it fills it.\<close>

inductive passes :: "string \<Rightarrow> disk \<Rightarrow> disk \<Rightarrow> disk \<Rightarrow> bool" for path d d' where
  before: "passes path d d' d"
| in_chain_save: "files d' path = Some new \<Longrightarrow> cut_write d path new k = Inr dm \<Longrightarrow> passes path d d' dm"
| in_mempool_save: "files d' (path @ ''.mempool'') = Some new \<Longrightarrow> cut_write d' (path @ ''.mempool'') new k = Inr dm \<Longrightarrow>
    passes path d d' dm"
| after: "passes path d d' d'"

lemma cut_write_files: "cut_write d path buffer k = Inr dm \<Longrightarrow> files dm = (files d)(path \<mapsto> take k buffer)"
  by (simp add: cut_write_eq write_file_files)

lemma passed_disk:
  assumes "passes (node_path nd) d d' dm" and "keeps_key nd d" and "holds_chain nd d chain"
    and "keeps_key nd d'" and "holds_chain nd d' chain'" and "length chain' < 2 ^ 32"
  shows "keeps_key nd dm \<and> (cut_short dm (node_path nd) \<or> holds_chain nd dm chain \<and> dm = d \<or> holds_chain nd dm chain')"
  using assms(1)
proof (cases rule: passes.cases)
  case (in_chain_save new k)
  note f = cut_write_files [OF in_chain_save(2)]
  have new: "new = serialize_chain chain'" using in_chain_save(1) assms(5) by (simp add: holds_chain_def)
  have "cut_short dm (node_path nd)" if "k < length new"
    unfolding cut_short_def using that assms(5,6) f new
    by (intro exI [of _ chain'] exI [of _ k]) (simp add: holds_chain_def)
  moreover have "holds_chain nd dm chain'" if "\<not> k < length new"
    using that assms(5) f new by (simp add: holds_chain_def)
  ultimately show ?thesis using assms(2) f by (auto simp: keeps_key_def)
next
  case (in_mempool_save new k)
  with cut_write_files [OF in_mempool_save(2)] assms(4,5) show ?thesis by (simp add: keeps_key_def holds_chain_def)
qed (use assms in simp_all)

text \<open>A start from a file cut short: a new genesis.\<close>

lemma restart_from_cut:
  assumes "keeps_key nd d" and "FromSeckey S (seckey_of (node_wallet nd)) = Inr (node_wallet nd)"
    and "length (seckey_of (node_wallet nd)) = 32" and "cut_short d (node_path nd)" and "writable d (node_path nd)"
  shows "case build_genesis_chain now (address_of (node_wallet nd)) of
      Inl e \<Rightarrow> fst (Node_new S now random port (node_path nd) peers mine (idle_world d)) = Inl e
    | Inr chain \<Rightarrow> \<exists>nd' w'. Node_new S now random port (node_path nd) peers mine (idle_world d) = (Inr nd', w')
        \<and> node_chain nd' = chain \<and> node_wallet nd' = node_wallet nd"
proof -
  have "load_or_create_wallet S random (node_path nd @ ''.wallet'') (idle_world d) = (Inr (node_wallet nd), idle_world d)"
    using assms(1-3) by (simp add: load_or_create_wallet_def io_catch_def io_bind_def read_file_def keeps_key_def)
  moreover obtain e where "load_chain d (node_path nd) = Inl e" "catchable e"
    using assms(4) cut_chain_refused by (fastforce simp: cut_short_def load_chain_def read_file_def)
  then have "load_or_create_chain now (node_path nd) a (idle_world d) = (build_genesis_chain now a, idle_world d)" for a
    by (simp add: load_or_create_chain_def io_catch_def)
  ultimately have run: "Node_new S now random port (node_path nd) peers mine (idle_world d)
      = io_bind (io_lift (build_genesis_chain now (address_of (node_wallet nd)))) (\<lambda>chain.
        io_bind (io_write (save_chain chain (node_path nd))) (\<lambda>_.
        io_return \<lparr>node_port = port, node_path = node_path nd, node_peers = peers, node_mines = mine,
          node_wallet = node_wallet nd, node_chain = chain\<rparr>)) (idle_world d)"
    by (simp add: Node_new_def io_bind_def io_lift_def)
  show ?thesis
  proof (cases "build_genesis_chain now (address_of (node_wallet nd))")
    case (Inr chain)
    obtain d' where "save_chain chain (node_path nd) d = Inr d'"
      using assms(5) by (simp add: save_chain_def write_file_eq)
    with Inr run show ?thesis by (simp add: io_bind_def io_write_def)
  qed (simp add: run)
qed

text \<open>C7: What a restart recovers. A daemon is stopped, from outside or by an exception in one of its threads,
  before, during or after a step of another thread, also in the middle of a write; then it is started
  again. It has its wallet again. If the stop has not cut the chain file short, it has a chain of the same
  genesis, well formed and of no less work than it started from, and exactly the chain it had when no step
  was under way. If a save of the chain was cut short, the file is refused and replaced by a new genesis
  block: the chain is lost. The chain file is one that fits into 4 GiB and is writable, the chain was not
  empty, no coinbase was in the mempool file at the start, and \<open>fill_random\<close> has filled the 32 bytes of the
  key.\<close>

theorem restart_recovers:
  assumes "Node_new S now random port path peers mine w = (Inr nd, w')" and "\<And>r. random = Some r \<Longrightarrow> length r = 32"
    and "mempool_ok nd (w_disk w')" and "node_chain nd \<noteq> []" and "daemon_reach S (Run_start nd w') s"
    and "daemon_step S s s'" and "passes path (s_disk s) (s_disk s') d"
    and "length (the (files (s_disk s) path)) < 2 ^ 32" and "length (the (files (s_disk s') path)) < 2 ^ 32" and "writable d path"
  shows "if cut_short d path
    then (case build_genesis_chain now' (address_of (node_wallet nd)) of
        Inl e \<Rightarrow> fst (Node_new S now' random' port' path peers' mine' (idle_world d)) = Inl e
      | Inr chain \<Rightarrow> \<exists>nd' w''. Node_new S now' random' port' path peers' mine' (idle_world d) = (Inr nd', w'')
          \<and> node_chain nd' = chain \<and> node_wallet nd' = node_wallet nd)
    else (\<exists>nd' w''. Node_new S now' random' port' path peers' mine' (idle_world d) = (Inr nd', w'')
      \<and> node_wallet nd' = node_wallet nd \<and> list_all wf_block (node_chain nd') \<and> node_chain nd' \<noteq> []
      \<and> GetHash (hd (node_chain nd')) = GetHash (hd (node_chain nd)) \<and> f64_le (work nd) (work nd')
      \<and> (d = s_disk s \<longrightarrow> node_chain nd' = node_chain (s_node s)))"
proof -
  have path: "node_path nd = path" using Node_new_in_sync [OF assms(1)] by simp
  have running: "s_running s" by (rule threads.step_live [OF assms(6)])
  from reach_recoverable [OF assms(1-5)] running have key: "keeps_key nd (s_disk s)"
    and chain: "holds_chain nd (s_disk s) (node_chain (s_node s))" by auto
  from reach_recoverable [OF assms(1-4) reach_step [OF assms(5,6)]] obtain chain' where
    key': "keeps_key nd (s_disk s')" and chain': "holds_chain nd (s_disk s') chain'" by blast
  have len: "length (node_chain (s_node s)) < 2 ^ 32" "length chain' < 2 ^ 32"
    using length_serialize_chain [of "node_chain (s_node s)"] length_serialize_chain [of chain'] chain chain' assms(8,9)
    by (simp_all add: holds_chain_def path)
  from passed_disk [OF assms(7) [folded path] key chain key' chain' len(2)] have d: "keeps_key nd d"
    "cut_short d path \<or> holds_chain nd d (node_chain (s_node s)) \<and> d = s_disk s \<or> holds_chain nd d chain'"
    by (simp_all add: path)
  note wallet = Node_new_key [OF assms(1,2)]
  show ?thesis
  proof (cases "cut_short d path")
    case True
    with restart_from_cut [OF d(1), of S now' random' port' peers' mine', unfolded path] wallet assms(10)
    show ?thesis by simp
  next
    case False
    then obtain c where c: "holds_chain nd d c" "length c < 2 ^ 32" "d = s_disk s \<Longrightarrow> c = node_chain (s_node s)"
      using d(2) chain len by metis
    from restart_from [OF d(1) _ _ c(1,2), of S now' random' port' peers' mine'] wallet assms(10) obtain nd' w'' where
      "Node_new S now' random' port' path peers' mine' (idle_world d) = (Inr nd', w'')"
      "node_chain nd' = c" "node_wallet nd' = node_wallet nd" by (auto simp: path)
    with c False show ?thesis by (simp add: holds_chain_def work_def)
  qed
qed


text \<open>The hypothesis \<open>node_chain nd \<noteq> []\<close> is needed: a chain file with a count of zero loads, and the miner then
  asks an empty vector for its last element.\<close>

lemma empty_chain_undefined:
  assumes "files d path = Some [0, 0, 0, 0]"
  shows "load_chain d path = Inr []"
    and "node_chain nd = [] \<Longrightarrow> files (w_disk w) (node_path nd @ ''.mempool'') = None \<Longrightarrow>
      fst (MiningLoop_turn S now nd w) = Inl (Undefined_behaviour ''back() of an empty vector'')"
proof -
  have "serialize_chain [] = [0, 0, 0, 0]" by (simp add: serialize_chain_eq block_codec.counted_def le32_def)
  with deserialize_serialize_chain [of "[]"] assms show "load_chain d path = Inr []"
    by (simp add: load_chain_def read_file_def)
  show "node_chain nd = [] \<Longrightarrow> files (w_disk w) (node_path nd @ ''.mempool'') = None \<Longrightarrow>
      fst (MiningLoop_turn S now nd w) = Inl (Undefined_behaviour ''back() of an empty vector'')"
    by (simp add: MiningLoop_turn_def mine_on_tip_def io_bind_def io_lift_def chain_back_def Let_def load_mempool_or_empty_def
        io_catch_def load_mempool_def read_file_def split: prod.split)
qed

lemma daemon_state_well_formed_witness:
  "\<exists>s. node_chain (s_node s) = [demo_genesis, demo_block] \<and> wf_system s"
proof -
  obtain nd w' s1 s2 where r: "Node_new toy_secp 0 (Some (replicate 32 7)) 9000 ''chain.dat''
       [\<lparr>peer_host = ''10.0.0.2'', peer_port = 9000\<rparr>] False (idle_world seeded_disk) = (Inr nd, w')"
    "mempool_ok nd (w_disk w')" "daemon_reach toy_secp (Run_start nd w') s1" "daemon_step toy_secp s1 s2" "s_running s2"
    "node_chain (s_node s2) = [demo_genesis, demo_block]" using sample_run by blast
  from daemon_state_well_formed [OF r(1,2) reach_step [OF r(3,4)] r(5)] r(6) show ?thesis by blast
qed

lemma demo_not_cut: "files d p = Some (serialize_chain [demo_genesis, demo_block]) \<Longrightarrow> \<not> cut_short d p"
proof
  assume f: "files d p = Some (serialize_chain [demo_genesis, demo_block])" and "cut_short d p"
  then obtain chain k where "list_all wf_block chain" "length chain < 2 ^ 32" "k < length (serialize_chain chain)"
    "serialize_chain [demo_genesis, demo_block] = take k (serialize_chain chain)" by (auto simp: cut_short_def)
  with cut_chain_refused [of chain k] deserialize_serialize_chain [of "[demo_genesis, demo_block]"] demo_wf show False by auto
qed

text \<open>Some thread can always step; here one whose system call fails.\<close>

lemma failing_step: "s_running s \<Longrightarrow> \<exists>s'. daemon_step S s s' \<and> s_disk s' = s_disk s"
proof -
  assume "s_running s"
  let ?E = "\<lparr>os_socket = False, os_bind = \<lambda>_. False, os_listen = False, os_accept = False,
     os_inet_pton = \<lambda>_. False, os_connect = \<lambda>_ _. False\<rparr>"
  have "s_disk (accept_turn ?E c s) = s_disk s" for c
    by (simp add: accept_turn_def turn_def create_listener_def accept_connection_def)
  with accepts [OF \<open>s_running s\<close>, of S ?E] show ?thesis by blast
qed

text \<open>The sample daemon is stopped after it has saved the block, and in the middle of saving it.\<close>

lemma restart_recovers_witness:
  "(\<exists>(s :: system) nd w'. s_running s \<and> Node_new toy_secp 7 None 9001 ''chain.dat'' [] True (idle_world (s_disk s)) = (Inr nd, w')
      \<and> node_chain nd = [demo_genesis, demo_block])
   \<and> (\<exists>d wlt. files d ''chain.dat'' = Some (take 100 (serialize_chain [demo_genesis, demo_block]))
      \<and> (case build_genesis_chain 7 (address_of wlt) of
          Inl e \<Rightarrow> fst (Node_new toy_secp 7 None 9001 ''chain.dat'' [] True (idle_world d)) = Inl e
        | Inr chain \<Rightarrow> \<exists>nd w'. Node_new toy_secp 7 None 9001 ''chain.dat'' [] True (idle_world d) = (Inr nd, w')
            \<and> node_chain nd = chain \<and> node_wallet nd = wlt))"
proof
  let ?file = "serialize_chain [demo_genesis, demo_block]" and ?p = "''chain.dat''"
  obtain nd w' s1 s2 where r: "Node_new toy_secp 0 (Some (replicate 32 7)) 9000 ?p
       [\<lparr>peer_host = ''10.0.0.2'', peer_port = 9000\<rparr>] False (idle_world seeded_disk) = (Inr nd, w')"
    "mempool_ok nd (w_disk w')" "node_chain nd = [demo_genesis]" "daemon_reach toy_secp (Run_start nd w') s1"
    "daemon_step toy_secp s1 s2" "s_running s2" "node_chain (s_node s2) = [demo_genesis, demo_block]"
    "files (s_disk s2) ?p = Some ?file" "writable (s_disk s2) ?p" "s_disk s1 = w_disk w'"
    "files (w_disk w') ?p = Some (serialize_chain [demo_genesis])" "writable (w_disk w') ?p"
    using sample_run by blast
  have len: "length (the (files (s_disk s2) ?p)) < 2 ^ 32" "100 < length ?file"
  proof -
    show "length (the (files (s_disk s2) ?p)) < 2 ^ 32" using demo_chain_length by (simp add: r(8) MAX_PAYLOAD_SIZE_def)
    show "100 < length ?file"
      using demo_block_length by (simp add: serialize_chain_eq block_codec.counted_def)
  qed
  obtain s3 where s3: "daemon_step toy_secp s2 s3" "s_disk s3 = s_disk s2" using failing_step [OF r(6)] by blast
  have "\<not> cut_short (s_disk s2) ?p" by (rule demo_not_cut) (rule r(8))
  with restart_recovers [OF r(1) _ r(2) _ reach_step [OF r(4,5)] s3(1) passes.before len(1) _ r(9), of 7 None 9001 "[]" True] r(3,6,7) s3(2) len(1)
  show "\<exists>(s :: system) nd w'. s_running s \<and> Node_new toy_secp 7 None 9001 ?p [] True (idle_world (s_disk s)) = (Inr nd, w')
      \<and> node_chain nd = [demo_genesis, demo_block]"
    by (intro exI [of _ s2]) auto
  have len1: "length (the (files (s_disk s1) ?p)) < 2 ^ 32"
    using demo_chain_length by (simp add: r(10,11) serialize_chain_eq block_codec.counted_def MAX_PAYLOAD_SIZE_def)
  obtain d where d: "cut_write (s_disk s1) ?p ?file 100 = Inr d" "files d ?p = Some (take 100 ?file)" "writable d ?p"
    using r(12) by (auto simp: r(10) cut_write_eq write_file_eq)
  have "cut_short d ?p"
    unfolding cut_short_def using d(2) len(2) demo_wf
    by (intro exI [of _ "[demo_genesis, demo_block]"] exI [of _ 100]) simp
  with restart_recovers [OF r(1) _ r(2) _ r(4,5) in_chain_save [OF r(8) d(1)] len1 len(1) d(3), of 7 None 9001 "[]" True] r(3) d(2)
  show "\<exists>d wlt. files d ?p = Some (take 100 ?file)
      \<and> (case build_genesis_chain 7 (address_of wlt) of
          Inl e \<Rightarrow> fst (Node_new toy_secp 7 None 9001 ?p [] True (idle_world d)) = Inl e
        | Inr chain \<Rightarrow> \<exists>nd w'. Node_new toy_secp 7 None 9001 ?p [] True (idle_world d) = (Inr nd, w')
            \<and> node_chain nd = chain \<and> node_wallet nd = wlt)"
    by (intro exI [of _ d] exI [of _ "node_wallet nd"]) simp
qed

end
