(* ===== verification/Payment.thy ===== *)
theory Payment
  imports Daemon_Restart
begin

text \<open>
  A payment across the components: the wallet builds it, \<open>run_send_tx\<close> sends it, \<open>run_receive_tx\<close> or a
  daemon takes it into its mempool file, and the block mined next carries it, so that the chain's
  UTXO set holds the recipient's output and no longer those that were spent.
\<close>

section \<open>What the wallet builds is valid\<close>

lemma length_script_sig: "length (build_script_sig sg pk) = 2 + length sg + length pk"
  by (simp add: build_script_sig_def Let_def)

lemma length_p2pkh: "length (build_p2pkh_script_pubkey a) = 5 + length a"
  by (simp add: build_p2pkh_eq)

text \<open>A script signature of the wallet is 99 bytes long.\<close>

lemma length_Sign:
  assumes "secp_documented S" and "wallet_ok S w" and "Sign S w tx = Inr ss"
  shows "length ss = 99"
proof -
  from assms(2) obtain len where w: "ec_seckey_verify S (seckey_of w)"
    "ec_pubkey_create S (seckey_of w) = Some (pubkey_of w)"
    "ec_pubkey_serialize S (pubkey_of w) = Some (compressed_pubkey_of w, len)" by (auto simp: wallet_ok_def)
  from sign_raw_verifies [OF assms(1) w, of "Transaction_GetHash tx"] assms(3) show ?thesis
    by (auto simp: Sign_def Let_def length_script_sig)
qed

lemma concat_length_le: "(\<And>x. x \<in> set xs \<Longrightarrow> length (f x) \<le> k) \<Longrightarrow> length (concat (map f xs)) \<le> k * length xs"
  by (induction xs) (auto simp: algebra_simps intro: add_mono)

text \<open>Outpoints that inputs may name: a 32-byte hash, and not the null outpoint of a coinbase.\<close>

definition spendable :: "UtxoSet \<Rightarrow> bool" where
  "spendable utxos \<longleftrightarrow> list_all (\<lambda>(p, t). wf_outpoint p \<and> \<not> IsNull p) utxos"

lemma select_utxos_prefix:
  assumes "select_utxos need utxos [] 0 = (selected, acc)" and "sane_utxos utxos"
  obtains k where "selected = map fst (take k utxos)" and "sint acc = total_value (take k utxos)"
    and "sint need \<le> sint acc \<or> take k utxos = utxos"
  using select_utxos_correct [OF assms(1)] assms(2) by (auto simp: sane_utxos_def)

lemma created_well_formed:
  assumes "secp_documented S" and "wallet_ok S w" and "sane_utxos utxos" and "spendable utxos"
    and "length utxos < 2 ^ 32" and "length r = ADDRESS_SIZE" and "0 < sint (amount + fee)"
    and "CreateTransaction S w utxos r amount fee = Inr tx"
  shows "wf_tx tx" and "\<not> IsCoinbase tx" and "length (Transaction_Serialize tx) \<le> 90 + 143 * length utxos"
proof -
  from CreateTransaction_Inr [OF assms(8)] obtain selected acc ss outs where c:
    "select_utxos (amount + fee) utxos [] 0 = (selected, acc)" "sint (amount + fee) \<le> sint acc"
    "Sign S w (mk_Transaction 1 (map (\<lambda>p. mk_CTxIn p []) selected) outs 0) = Inr ss"
    "outs = \<lparr>nValue = amount, scriptPubKey = build_p2pkh_script_pubkey r\<rparr>
       # (if sint DUST_THRESHOLD \<le> sint (acc - amount - fee)
          then [\<lparr>nValue = acc - amount - fee, scriptPubKey = build_p2pkh_script_pubkey (address_of w)\<rparr>] else [])"
    "tx = set_hash (mk_Transaction 1 (map (\<lambda>p. mk_CTxIn p ss) selected) outs 0)" by metis
  from select_utxos_prefix [OF c(1) assms(3)] obtain k where
    k: "selected = map fst (take k utxos)" "sint acc = total_value (take k utxos)" by metis
  note ss = length_Sign [OF assms(1,2) c(3)] and a = wallet_address_length [OF assms(2)]
  have ok: "wf_outpoint p" "\<not> IsNull p" if "p \<in> set selected" for p
    using that assms(4) by (auto simp: k(1) spendable_def list_all_iff dest!: in_set_takeD)
  have n: "length selected \<le> length utxos" by (simp add: k(1))
  have outs: "length outs \<le> 2" "\<And>t. t \<in> set outs \<Longrightarrow> length (scriptPubKey t) = 25"
    using assms(6) a by (auto simp: c(4) length_p2pkh ADDRESS_SIZE_def)
  have "selected \<noteq> []"
  proof
    assume "selected = []"
    then have "total_value (take k utxos) = 0" by (auto simp: k(1))
    with c(2) k(2) assms(7) show False by simp
  qed
  with ok(2) [of "hd selected"] show "\<not> IsCoinbase tx"
    by (auto simp: IsCoinbase_def c(5) mk_CTxIn_def hd_conv_nth neq_Nil_conv)
  show "wf_tx tx"
    using ok(1) ss outs n assms(5) by (auto simp: wf_defs c(5) mk_CTxIn_def list_all_iff)
  have "length (concat (map CTxIn_Serialize (vin tx))) \<le> 143 * length (vin tx)"
    using ok(1) ss by (intro concat_length_le) (auto simp: c(5) codec_simps mk_CTxIn_def wf_outpoint_def)
  moreover have "length (concat (map CTxOut_Serialize (vout tx))) \<le> 37 * length (vout tx)"
    using outs(2) by (intro concat_length_le) (auto simp: c(5) codec_simps)
  ultimately show "length (Transaction_Serialize tx) \<le> 90 + 143 * length utxos"
    using n outs(1) by (simp add: Transaction_Serialize_eq c(5))
qed


text \<open>A UTXO set of the wallet's own outputs, as another set, the node's whole view, has them.\<close>

definition owned_in :: "Wallet \<Rightarrow> UtxoSet \<Rightarrow> UtxoSet \<Rightarrow> bool" where
  "owned_in w utxos u \<longleftrightarrow>
     list_all (\<lambda>(p, t). utxo_find u p = Some t \<and> scriptPubKey t = build_p2pkh_script_pubkey (address_of w)) utxos"

lemma created_inputs:
  assumes "map prevout (vin tx) = map fst (take k utxos)" and "owned_in w utxos u" and "sane_utxos utxos"
  shows "sum_list (map sint (in_values u (vin tx))) = total_value (take k utxos)"
    and "sane_values (in_values u (vin tx))"
    and "\<And>i. i \<in> set (vin tx) \<Longrightarrow> \<exists>t. utxo_find u (prevout i) = Some t \<and> scriptPubKey t = build_p2pkh_script_pubkey (address_of w)"
proof -
  have entry: "utxo_find u p = Some t" "scriptPubKey t = build_p2pkh_script_pubkey (address_of w)" "0 \<le> sint (nValue t)"
    if "(p, t) \<in> set (take k utxos)" for p t
    using in_set_takeD [OF that] assms(2,3) by (auto simp: owned_in_def sane_utxos_def list_all_iff)
  have "in_values u (vin tx) = map (\<lambda>p. nValue (the (utxo_find u p))) (map prevout (vin tx))"
    by (simp add: in_values_def)
  then have vals: "in_values u (vin tx) = map (\<lambda>(p, t). nValue t) (take k utxos)"
    using entry(1) unfolding assms(1) by (auto simp: comp_def)
  then show sum: "sum_list (map sint (in_values u (vin tx))) = total_value (take k utxos)"
    by (simp add: total_value_def comp_def case_prod_unfold)
  have "total_value (take k utxos) < 2 ^ 63"
    using total_value_take [of utxos k] assms(3) by (auto simp: sane_utxos_def)
  with sum entry(3) show "sane_values (in_values u (vin tx))"
    unfolding sane_values_def by (auto simp: vals list_all_iff)
  fix i assume "i \<in> set (vin tx)"
  then have "prevout i \<in> set (map fst (take k utxos))" by (simp flip: assms(1))
  with entry show "\<exists>t. utxo_find u (prevout i) = Some t \<and> scriptPubKey t = build_p2pkh_script_pubkey (address_of w)"
    by fastforce
qed

lemma created_vout:
  assumes "CreateTransaction S w utxos r amount fee = Inr tx"
  obtains "vout tx = [\<lparr>nValue = amount, scriptPubKey = build_p2pkh_script_pubkey r\<rparr>]"
  | t where "vout tx = [\<lparr>nValue = amount, scriptPubKey = build_p2pkh_script_pubkey r\<rparr>, t]" and "0 \<le> sint (nValue t)"
proof -
  from CreateTransaction_Inr [OF assms] obtain selected acc ss outs where
    "outs = \<lparr>nValue = amount, scriptPubKey = build_p2pkh_script_pubkey r\<rparr>
       # (if sint DUST_THRESHOLD \<le> sint (acc - amount - fee)
          then [\<lparr>nValue = acc - amount - fee, scriptPubKey = build_p2pkh_script_pubkey (address_of w)\<rparr>] else [])"
    "tx = set_hash (mk_Transaction 1 (map (\<lambda>p. mk_CTxIn p ss) selected) outs 0)" by metis
  then show thesis using that by (cases "sint DUST_THRESHOLD \<le> sint (acc - amount - fee)") (simp_all add: DUST_THRESHOLD_def)
qed

lemma created_outputs:
  assumes "CreateTransaction S w utxos r amount fee = Inr tx" and "0 \<le> sint amount"
  shows "sint amount \<le> total_out tx" and "total_out tx < 2 ^ 63 \<Longrightarrow> sane_values (map nValue (vout tx))"
  by (cases rule: created_vout [OF assms(1)]; use assms(2) in \<open>simp add: sane_values_def total_out_def\<close>)+

text \<open>What the wallet builds of its own outputs passes the check of every node that has them, with the fee
  it was asked to leave.\<close>

lemma created_valid:
  assumes "secp_documented S" and "wallet_ok S w" and "sane_utxos utxos" and "owned_in w utxos u"
    and "0 \<le> sint amount" and "0 \<le> sint fee" and "0 < sint amount + sint fee" and "sint amount + sint fee < 2 ^ 63"
    and "sint amount + sint fee \<le> total_value utxos"
  obtains tx where "CreateTransaction S w utxos r amount fee = Inr tx"
    and "hd (vout tx) = \<lparr>nValue = amount, scriptPubKey = build_p2pkh_script_pubkey r\<rparr>"
    and "sint fee \<le> sint (validate_and_get_fee S tx u)"
    and "set (map prevout (vin tx)) \<subseteq> fst ` set utxos"
proof -
  from create_transaction_balance [OF assms(1-3,5,6,8), of r] assms(9) obtain tx k where
    tx: "CreateTransaction S w utxos r amount fee = Inr tx" "map prevout (vin tx) = map fst (take k utxos)"
    "hd (vout tx) = \<lparr>nValue = amount, scriptPubKey = build_p2pkh_script_pubkey r\<rparr>"
    "sint fee \<le> total_value (take k utxos) - total_out tx" by (auto simp: not_less)
  note ins = created_inputs [OF tx(2) assms(4,3)]
  note signed = conjunct1 [OF create_transaction_signed [OF assms(1,2) tx(1)]]
  have lt: "total_value (take k utxos) < 2 ^ 63"
    using total_value_take [of utxos k] assms(3) by (auto simp: sane_utxos_def)
  with tx(4) assms(6) have outs: "sane_values (map nValue (vout tx))"
    by (intro created_outputs(2) [OF tx(1) assms(5)]) simp
  have "vin tx \<noteq> []"
  proof
    assume "vin tx = []"
    with tx(2) have "total_value (take k utxos) = 0" by auto
    moreover note created_outputs(1) [OF tx(1) assms(5)]
    ultimately show False using tx(4) assms(7) by simp
  qed
  moreover have "input_ok S tx u i inp" if "(i, inp) \<in> set (List.enumerate 0 (vin tx))" for i inp
  proof -
    from that have i: "i < length (vin tx)" "inp \<in> set (vin tx)" by (auto simp: in_set_enumerate_eq)
    with ins(3) obtain t where "utxo_find u (prevout inp) = Some t"
      "scriptPubKey t = build_p2pkh_script_pubkey (address_of w)" by blast
    with signed i(1) show ?thesis by (simp add: input_ok_def list_all_iff)
  qed
  ultimately have "inputs_ok S tx u" by (auto simp: inputs_ok_def list_all_iff)
  with fee_spec_lemma [OF ins(2) outs, of S] tx(4) assms(6) ins(1)
  have "sint fee \<le> sint (validate_and_get_fee S tx u)" by (simp add: Let_def total_out_def)
  moreover have "set (map prevout (vin tx)) \<subseteq> fst ` set utxos" unfolding tx(2) by (auto dest: in_set_takeD)
  ultimately show thesis using tx(1,3) that by blast
qed


section \<open>What a node sees of its wallet's outputs\<close>

lemma created_outpoint:
  assumes "list_all wf_tx txs" and "(p, t) \<in> set (created txs)" shows "wf_outpoint p \<and> \<not> IsNull p"
proof -
  from assms(2) obtain tx i where tx: "tx \<in> set txs" "i < length (vout tx)" "p = COutPoint (tx_hash tx) (word_of_nat i)"
    by (auto simp: created_def tx_outputs_def)
  with assms(1) have wf: "length (vout tx) < 2 ^ 32" "length (tx_hash tx) = 32" by (auto simp: list_all_iff wf_tx_def)
  with tx(2) have "unat (word_of_nat i :: u32) = i" by (simp add: word_of_nat_inverse32)
  with tx(2) wf(1) have "(word_of_nat i :: u32) \<noteq> 0xFFFFFFFF" by (auto simp: word_unat_eq_iff)
  with wf(2) tx(3) show ?thesis by (simp add: wf_outpoint_def IsNull_def)
qed

lemma all_txs_wf: "list_all wf_block chain \<Longrightarrow> list_all wf_tx (all_txs chain)"
  by (auto simp: all_txs_def list_all_iff wf_block_def)

lemma wallet_view:
  assumes "list_all wf_block chain"
    and owned_def: "owned = filter_utxos_by_address (build_utxo_set chain) (address_of w)"
  shows "owned_in w owned (build_utxo_set chain)" and "spendable owned"
proof -
  have find: "utxo_find (build_utxo_set chain) p = Some t \<and> extract_p2pkh_address (scriptPubKey t) = Some (address_of w)"
    if "(p, t) \<in> set owned" for p t
  proof -
    have "distinct (map fst owned)"
      using filter_loop_distinct [of "[]"] by (simp add: owned_def filter_utxos_by_address_def utxo_distinct_def)
    with that have "utxo_find owned p = Some t" by (simp add: utxo_find_def)
    then show ?thesis unfolding owned_def by (simp only: owned_utxos)
  qed
  then show "owned_in w owned (build_utxo_set chain)"
    by (auto simp: owned_in_def list_all_iff extract_p2pkh_iff)
  have "(p, t) \<in> set (created (all_txs chain))" if "(p, t) \<in> set owned" for p t
    using find [OF that] by (auto simp: build_utxo_set_find_lemma split: if_splits dest: map_of_SomeD)
  with created_outpoint [OF all_txs_wf [OF assms(1)]] show "spendable owned"
    by (fastforce simp: spendable_def list_all_iff)
qed


section \<open>Loading a mempool in a conversation\<close>

lemma talks_mempool:
  assumes "talks (f (mempool_of d path)) d ins outs r d' ins' outs'"
  shows "talks (io_bind (load_mempool_or_empty path) f) d ins outs r d' ins' outs'"
proof (rule talks_bind [where f = f])
  show "talks (load_mempool_or_empty path) d ins outs (Inr (mempool_of d path)) d ins outs"
    using civil_load_mempool [of d path]
    by (auto simp: talks_def load_mempool_or_empty_def io_catch_def mempool_of_def civil_def split: sum.split)
qed (rule assms)


section \<open>The conversation\<close>

definition payment_requests :: "Transaction \<Rightarrow> bytes" where
  "payment_requests tx =
     message_bytes cmd_VERSION build_version_payload @ message_bytes cmd_VERACK []
     @ message_bytes cmd_TX (Transaction_Serialize tx)"

definition payment_replies :: bytes where
  "payment_replies = message_bytes cmd_VERSION build_version_payload @ message_bytes cmd_VERACK []"

lemma talks_listen:
  assumes "os_socket E" and "os_bind E port" and "os_listen E" and "os_accept E"
  shows "talks (create_listener E port) d ins outs (Inr ()) d ins outs"
    and "talks (accept_connection E) d ins outs (Inr ()) d ins outs"
  using assms by (simp_all add: talks_def create_listener_def accept_connection_def open_socket_def peer_is_def)

lemma talks_with_chain:
  assumes "load_chain d p = Inr chain" and "talks (f chain) d ins outs r d' ins' outs'"
  shows "talks (with_chain p f) d ins outs r d' ins' outs'"
proof -
  have "with_chain p f w = f chain w" if "w_disk w = d" for w
    using that assms(1) by (simp add: with_chain_def io_bind_def io_catch_def)
  with assms(2) show ?thesis by (simp add: talks_def)
qed

lemma talks_wallet:
  assumes "files d path = Some sk" and "length sk = 32" and "FromSeckey S sk = Inr w"
  shows "talks (load_or_create_wallet S random path) d ins outs (Inr w) d ins outs"
  using assms by (simp add: talks_def load_or_create_wallet_def io_catch_def io_bind_def read_file_def)

lemma waits_with_chain:
  assumes "load_chain d p = Inr chain" and "waits (f chain) d ins outs sent"
  shows "waits (with_chain p f) d ins outs sent"
proof -
  have "with_chain p f w = f chain w" if "w_disk w = d" for w
    using that assms(1) by (simp add: with_chain_def io_bind_def io_catch_def)
  with assms(2) show ?thesis by (simp add: waits_def)
qed

lemma causal_commands [causal_intros]:
  "causal (run_send_tx S E random host port p r amount)" "causal (run_receive_tx S E port p)"
  unfolding run_send_tx_def run_receive_tx_def receive_tx_payload_def load_or_create_wallet_def load_mempool_or_empty_def Let_def
  by (intro causal_intros)+

text \<open>The payer, while it waits and to its end; what the peer sends after its VERACK stays unread.\<close>

lemma payer_waits:
  assumes "os_socket E" and "os_inet_pton E host" and "os_connect E host port"
    and "files d (p @ ''.wallet'') = Some sk" and "length sk = 32" and "FromSeckey S sk = Inr w"
    and "load_chain d p = Inr chain"
    and "CreateTransaction S w (filter_utxos_by_address (build_utxo_set chain) (address_of w)) r amount DEFAULT_FEE = Inr tx"
  shows "waits (run_send_tx S E random host port p r amount) d [] [] (message_bytes cmd_VERSION build_version_payload)"
    and "waits (run_send_tx S E random host port p r amount) d (message_bytes cmd_VERSION build_version_payload) []
      (message_bytes cmd_VERSION build_version_payload @ message_bytes cmd_VERACK [])"
proof -
  let ?f = "io_bind (peer_send cmd_TX (Transaction_Serialize tx)) (\<lambda>_. io_return ())"
  have run: "waits (run_send_tx S E random host port p r amount) d ins [] sent"
    if "waits (client_handshake ?f) d ins [] sent" for ins sent
  proof -
    have "waits (io_bind (connect_to E host port) (\<lambda>_. with_peer (client_handshake ?f))) d ins [] sent"
      by (rule waits_bind [OF talks_connect [OF assms(1-3)]]) (rule waits_with_peer [OF that])
    moreover have "io_catch (io_bind (io_lift (Inr tx)) (\<lambda>tx. io_return (Some tx))) (io_return None) = io_return (Some tx)"
      by (simp add: io_catch_def fun_eq_iff)
    ultimately show ?thesis
      unfolding run_send_tx_def Let_def
      by (intro waits_bind [OF talks_wallet [OF assms(4-6)]] waits_with_chain [OF assms(7)]) (simp add: assms(8))
  qed
  have "causal ?f" by (intro causal_intros)
  from client_waits [OF this, of d "[]"] run
  show "waits (run_send_tx S E random host port p r amount) d [] [] (message_bytes cmd_VERSION build_version_payload)"
    and "waits (run_send_tx S E random host port p r amount) d (message_bytes cmd_VERSION build_version_payload) []
      (message_bytes cmd_VERSION build_version_payload @ message_bytes cmd_VERACK [])"
    by simp_all
qed

lemma payer_talks:
  assumes "os_socket E" and "os_inet_pton E host" and "os_connect E host port"
    and "files d (p @ ''.wallet'') = Some sk" and "length sk = 32" and "FromSeckey S sk = Inr w"
    and "load_chain d p = Inr chain"
    and "CreateTransaction S w (filter_utxos_by_address (build_utxo_set chain) (address_of w)) r amount DEFAULT_FEE = Inr tx"
  shows "talks (run_send_tx S E random host port p r amount) d (payment_replies @ rest) [] (Inr ()) d rest (payment_requests tx)"
proof -
  have requests: "payment_requests tx = (([] @ message_bytes cmd_VERSION build_version_payload)
      @ message_bytes cmd_VERACK []) @ message_bytes cmd_TX (Transaction_Serialize tx)"
    by (simp add: payment_requests_def)
  have replies: "payment_replies @ rest = message_bytes cmd_VERSION build_version_payload @ message_bytes cmd_VERACK [] @ rest"
    by (simp add: payment_replies_def)
  have talk: "talks (client_handshake (io_bind (peer_send cmd_TX (Transaction_Serialize tx)) (\<lambda>_. io_return ())))
      d (payment_replies @ rest) [] (Inr ()) d rest (payment_requests tx)"
    unfolding client_handshake_def requests replies
    by (intro talks_send talks_expect talks_return commands_ok small_payloads) simp
  have "talks (io_bind (connect_to E host port) (\<lambda>_. with_peer (client_handshake
      (io_bind (peer_send cmd_TX (Transaction_Serialize tx)) (\<lambda>_. io_return ())))))
      d (payment_replies @ rest) [] (Inr ()) d rest (payment_requests tx)"
    by (rule talks_bind [OF talks_connect [OF assms(1-3)]]) (rule talks_with_peer [OF talk])
  moreover have "io_catch (io_bind (io_lift (Inr tx)) (\<lambda>tx. io_return (Some tx))) (io_return None) = io_return (Some tx)"
    by (simp add: io_catch_def fun_eq_iff)
  ultimately show ?thesis
    unfolding run_send_tx_def Let_def
    by (intro talks_bind [OF talks_wallet [OF assms(4-6)]] talks_with_chain [OF assms(7)]) (simp add: assms(8))
qed


text \<open>The receiving command, and the handler of a daemon.\<close>

lemma talks_pend:
  "save_mempool m path d = Inr d' \<Longrightarrow> talks (io_write (save_mempool m path)) d ins outs (Inr ()) d' ins outs"
  by (rule talks_write)

lemma receiver_talks:
  assumes "os_socket E" and "os_bind E port" and "os_listen E" and "os_accept E"
    and "load_chain d q = Inr chain" and "wf_tx tx" and "\<not> IsCoinbase tx"
    and "length (Transaction_Serialize tx) \<le> unat MAX_PAYLOAD_SIZE"
    and "0 \<le> sint (validate_and_get_fee S tx (build_utxo_set chain))"
    and "length (mempool_of d (q @ ''.mempool'')) < MAX_MEMPOOL_SIZE"
    and "save_mempool (mempool_of d (q @ ''.mempool'') @ [tx]) (q @ ''.mempool'') d = Inr d'"
  shows "talks (run_receive_tx S E port q) d (payment_requests tx) [] (Inr ()) d' [] payment_replies"
proof -
  have payload: "talks (receive_tx_payload S q (build_utxo_set chain) (Transaction_Serialize tx)) d [] outs (Inr ()) d' [] outs" for outs
    unfolding receive_tx_payload_def tx_codec.des_whole [OF assms(6)] io_bind_lift case_prod_conv Let_def
    using assms(7,9,10)
    by (intro talks_mempool) (auto intro!: talks_bind [OF talks_pend [OF assms(11)]] talks_close)
  have requests: "payment_requests tx = message_bytes cmd_VERSION build_version_payload @ message_bytes cmd_VERACK []
      @ message_bytes cmd_TX (Transaction_Serialize tx) @ []"
    and replies: "payment_replies = ([] @ message_bytes cmd_VERSION build_version_payload) @ message_bytes cmd_VERACK []"
    by (simp_all add: payment_requests_def payment_replies_def)
  have talk: "talks (server_handshake (expect cmd_TX (receive_tx_payload S q (build_utxo_set chain)) close_socket) close_socket)
      d (payment_requests tx) [] (Inr ()) d' [] payment_replies"
    unfolding server_handshake_def requests replies
    by (intro talks_send talks_expect payload commands_ok small_payloads assms(8)) simp
  show ?thesis
    unfolding run_receive_tx_def Let_def
    by (intro talks_with_chain [OF assms(5)] talks_bind [OF talks_listen(1) [OF assms(1-4)]]
        talks_bind [OF talks_listen(2) [OF assms(1-4)]] talks_with_peer talk)
qed

lemma receiver_waits:
  assumes "os_socket E" and "os_bind E port" and "os_listen E" and "os_accept E" and "load_chain d q = Inr chain"
  shows "waits (run_receive_tx S E port q) d (message_bytes cmd_VERSION build_version_payload) []
      (message_bytes cmd_VERSION build_version_payload)"
    and "waits (run_receive_tx S E port q) d (message_bytes cmd_VERSION build_version_payload @ message_bytes cmd_VERACK []) []
      payment_replies"
proof -
  let ?f = "expect cmd_TX (receive_tx_payload S q (build_utxo_set chain)) close_socket"
  have c: "causal (receive_tx_payload S q (build_utxo_set chain) payload)" for payload
    unfolding receive_tx_payload_def load_mempool_or_empty_def Let_def by (intro causal_intros)
  have run: "waits (run_receive_tx S E port q) d ins [] sent" if "waits (server_handshake ?f close_socket) d ins [] sent" for ins sent
    unfolding run_receive_tx_def Let_def
    by (intro waits_with_chain [OF assms(5)] waits_bind [OF talks_listen(1) [OF assms(1-4)]]
        waits_bind [OF talks_listen(2) [OF assms(1-4)]] waits_with_peer that)
  have "causal ?f" by (intro causal_intros c)
  from server_waits [OF this causal_basic(5), of d "[]"] run
  show "waits (run_receive_tx S E port q) d (message_bytes cmd_VERSION build_version_payload) []
      (message_bytes cmd_VERSION build_version_payload)" by simp
  have "waits (server_handshake ?f close_socket) d (message_bytes cmd_VERSION build_version_payload @ message_bytes cmd_VERACK [] @ []) []
      (([] @ message_bytes cmd_VERSION build_version_payload) @ message_bytes cmd_VERACK [])"
    unfolding server_handshake_def
    by (intro waits_send waits_expect waits_here causal_intros c commands_ok small_payloads) simp
  from run [OF this] show "waits (run_receive_tx S E port q) d
      (message_bytes cmd_VERSION build_version_payload @ message_bytes cmd_VERACK []) [] payment_replies"
    by (simp add: payment_replies_def)
qed

lemma handler_takes_payment:
  assumes "node_chain nd \<noteq> []" and "wf_tx tx" and "\<not> IsCoinbase tx"
    and "length (Transaction_Serialize tx) \<le> unat MAX_PAYLOAD_SIZE"
    and "0 \<le> sint (validate_and_get_fee S tx (build_utxo_set (node_chain nd)))"
    and "length (mempool_of d (node_path nd @ ''.mempool'')) < MAX_MEMPOOL_SIZE"
    and "save_mempool (mempool_of d (node_path nd @ ''.mempool'') @ [tx]) (node_path nd @ ''.mempool'') d = Inr d'"
  shows "ends (HandleConnection S nd Await_VERSION) d (payment_requests tx) [] (Inr ()) d'
    (payment_replies @ message_bytes cmd_INV (GetHash (last (node_chain nd))))"
proof -
  have "talks (AcceptTransaction S nd tx) d ins outs (Inr ()) d' ins outs" for ins outs
    unfolding AcceptTransaction_def Let_def using assms(3,5,6)
    by (simp add: not_le not_less) (rule talks_mempool, simp add: talks_pend [OF assms(7)])
  then have "talks (handle_step S nd Serving) d (message_bytes cmd_TX (Transaction_Serialize tx) @ []) outs (Inr Serving) d' [] outs" for outs
    unfolding handle_step_def handle_request_def handler.case
    by (intro talks_bind [OF talks_received [OF commands_ok(6) assms(4)]])
      (auto simp: cmd_GETDATA_def cmd_GETBLOCKS_def cmd_TX_def tx_codec.des_whole [OF assms(2)] intro: talks_bind talks_return)
  from ends_handler [OF this _ handler_ends] have
    "ends (HandleConnection S nd Serving) d (message_bytes cmd_TX (Transaction_Serialize tx) @ []) outs (Inr ()) d' outs" for outs
    by simp
  from ends_greeting [OF assms(1) this] show ?thesis
    by (simp add: payment_requests_def payment_replies_def)
qed


lemma DEFAULT_FEE_value [simp]: "sint DEFAULT_FEE = 1000"
  by (simp add: DEFAULT_FEE_def)

lemma save_mempool_writes:
  assumes "writable d path" and "list_all wf_tx m" and "length m < 2 ^ 32"
  obtains d' where "save_mempool m path d = Inr d'" and "load_mempool d' path = Inr m"
proof -
  obtain d' where d': "save_mempool m path d = Inr d'" using assms(1) by (simp add: save_mempool_eq write_file_eq)
  with load_save_mempool [OF assms(2,3)] that show thesis by blast
qed

lemma mempool_of_wf: "list_all wf_tx (mempool_of d path)"
proof (cases "load_mempool d path")
  case (Inr m)
  then show ?thesis
    by (auto simp: load_mempool_def mempool_of_def elim!: rbindE dest!: tx_codec.read_counted_sound)
qed (simp add: mempool_of_def)

text \<open>C8: A payment reaches the mempool. A node whose wallet file holds the key of \<open>w\<close> and whose chain pays that
  wallet at least amount plus fee, the amount not negative and the sum below 2^63, in outputs with sane
  amounts and at most 29000 of them, can connect and runs
  \<open>run_send_tx\<close>; another node with the same chain, with room in its writable mempool file, runs \<open>run_receive_tx\<close>,
  or is a daemon whose handler takes the connection. On connections without errors, in whatever order and pieces the bytes arrive,
  there is always more to arrive until each side has all the other sends: no order leaves both waiting
  for each other. The payer then returns without waiting for more, the receiving command too, the
  daemon's handler when the payer closes, and the receiver's mempool file then loads as its mempool with
  the payment at its end. The payment pays the amount to
  the recipient with its first output and leaves at least the default fee.\<close>

theorem payment_reaches_mempool:
  assumes "secp_documented S" and "os_socket E" and "os_inet_pton E host" and "os_connect E host port"
    and "os_socket E'" and "os_bind E' port" and "os_listen E'" and "os_accept E'"
    and "files ds (p @ ''.wallet'') = Some sk" and "length sk = 32" and "FromSeckey S sk = Inr w"
    and "load_chain ds p = Inr chain" and "load_chain dr q = Inr chain" and "chain \<noteq> []"
    and "sane_utxos (filter_utxos_by_address (build_utxo_set chain) (address_of w))"
    and "length (filter_utxos_by_address (build_utxo_set chain) (address_of w)) \<le> 29000"
    and "0 \<le> sint amount" and "sint amount + sint DEFAULT_FEE < 2 ^ 63"
    and "sint amount + sint DEFAULT_FEE \<le> total_value (filter_utxos_by_address (build_utxo_set chain) (address_of w))"
    and "length r = ADDRESS_SIZE" and "length (mempool_of dr (q @ ''.mempool'')) < MAX_MEMPOOL_SIZE"
    and "writable dr (q @ ''.mempool'')" and "node_chain nd = chain" and "node_path nd = q"
  shows "\<exists>tx requests replies inv dr'.
      converse (run_send_tx S E random host port p r amount) ds (run_receive_tx S E' port q) dr requests replies
    \<and> talks (run_send_tx S E random host port p r amount) ds replies [] (Inr ()) ds [] requests
    \<and> talks (run_receive_tx S E' port q) dr requests [] (Inr ()) dr' [] replies
    \<and> converse (run_send_tx S E random host port p r amount) ds (HandleConnection S nd Await_VERSION) dr requests (replies @ inv)
    \<and> talks (run_send_tx S E random host port p r amount) ds (replies @ inv) [] (Inr ()) ds inv requests
    \<and> ends (HandleConnection S nd Await_VERSION) dr requests [] (Inr ()) dr' (replies @ inv)
    \<and> load_mempool dr' (q @ ''.mempool'') = Inr (mempool_of dr (q @ ''.mempool'') @ [tx])
    \<and> hd (vout tx) = \<lparr>nValue = amount, scriptPubKey = build_p2pkh_script_pubkey r\<rparr>
    \<and> sint DEFAULT_FEE \<le> sint (validate_and_get_fee S tx (build_utxo_set chain))"
proof -
  let ?own = "filter_utxos_by_address (build_utxo_set chain) (address_of w)" and ?m = "mempool_of dr (q @ ''.mempool'')"
  have w: "wallet_ok S w" using FromSeckey_ok [OF assms(11)] by blast
  have "list_all wf_block chain" using assms(12) by (auto simp: load_chain_def elim!: rbindE dest: deserialize_chain_wf)
  note view = wallet_view [OF this refl, of w]
  obtain tx where tx: "CreateTransaction S w ?own r amount DEFAULT_FEE = Inr tx"
    "hd (vout tx) = \<lparr>nValue = amount, scriptPubKey = build_p2pkh_script_pubkey r\<rparr>"
    "sint DEFAULT_FEE \<le> sint (validate_and_get_fee S tx (build_utxo_set chain))"
    using created_valid [OF assms(1) w assms(15) view(1) assms(17) _ _ assms(18,19)] assms(17) by (metis DEFAULT_FEE_value add_nonneg_pos zero_le_numeral zero_less_numeral)
  have "sint (amount + DEFAULT_FEE) = sint amount + sint DEFAULT_FEE"
    using assms(17,18) by (intro sint_add_i64) (simp add: in_i64_def)
  then have "0 < sint (amount + DEFAULT_FEE)" using assms(17) by simp
  note built = created_well_formed [OF assms(1) w assms(15) view(2) _ assms(20) this tx(1)]
  have wf: "wf_tx tx" "\<not> IsCoinbase tx" "length (Transaction_Serialize tx) \<le> unat MAX_PAYLOAD_SIZE"
    using built assms(16) by (simp_all add: MAX_PAYLOAD_SIZE_def)
  have fee: "0 \<le> sint (validate_and_get_fee S tx (build_utxo_set chain))" using tx(3) by simp
  obtain dr' where dr': "save_mempool (?m @ [tx]) (q @ ''.mempool'') dr = Inr dr'"
    "load_mempool dr' (q @ ''.mempool'') = Inr (?m @ [tx])"
    by (rule save_mempool_writes [OF assms(22), of "?m @ [tx]"])
      (use wf(1) mempool_of_wf assms(21) in \<open>simp_all add: MAX_MEMPOOL_SIZE_def\<close>)
  let ?A = "run_send_tx S E random host port p r amount" and ?B = "run_receive_tx S E' port q"
    and ?H = "HandleConnection S nd Await_VERSION" and ?inv = "message_bytes cmd_INV (GetHash (last chain))"
  note pay = payer_talks [OF assms(2-4,9-12) tx(1), of random] and wait = payer_waits [OF assms(2-4,9-12) tx(1), of random]
  note got = receiver_talks [OF assms(5-8,13) wf fee assms(21) dr'(1)] and rw = receiver_waits [OF assms(5-8,13), of S]
  have hand: "ends ?H dr (payment_requests tx) [] (Inr ()) dr' (payment_replies @ ?inv)"
    using handler_takes_payment [of nd tx S dr dr'] wf fee dr'(1) assms(14,21,23,24) by simp
  have hw: "waits ?H dr (message_bytes cmd_VERSION build_version_payload @ message_bytes cmd_VERACK []) [] (payment_replies @ ?inv)"
    using handler_greets [of nd S dr] assms(14,23) by (simp add: payment_replies_def)
  have "converse ?A ds ?B dr (payment_requests tx) payment_replies"
    using turns_converse [OF turns_ask [OF greeting_turns [OF wait(1) rw(1) wait(2) rw(2)] talks_says] talks_says talks_says [OF got]]
      pay [of "[]"] causal_commands by simp
  moreover have "converse ?A ds ?H dr (payment_requests tx) (payment_replies @ ?inv)"
    using turns_converse [OF turns_ask [OF greeting_turns [OF wait(1) handler_waits wait(2) hw] talks_says] talks_says
      waits_says [OF ends_waits [OF hand]]] pay [of ?inv] causal_commands causal_handler by simp
  ultimately show ?thesis
    using pay [of "[]"] pay [of ?inv] hand got dr'(2) tx(2,3) unfolding append_Nil2 by blast
qed


text \<open>A sample: a chain of one block whose coinbase pays the sample wallet.\<close>

definition paid_coinbase :: Transaction where
  "paid_coinbase = build_coinbase_tx (address_of sample_wallet) 0 0"

definition paid_chain :: "CBlock list" where
  "paid_chain = [demo_genesis\<lparr>vtx := [paid_coinbase]\<rparr>]"

definition payer_disk :: disk where
  "payer_disk = empty_disk\<lparr>files := [''a'' \<mapsto> serialize_chain paid_chain, ''a.wallet'' \<mapsto> replicate 32 7]\<rparr>"

definition receiver_disk :: disk where
  "receiver_disk = empty_disk\<lparr>files := [''b'' \<mapsto> serialize_chain paid_chain]\<rparr>"

lemma paid_chain_loads: "load_chain payer_disk ''a'' = Inr paid_chain" "load_chain receiver_disk ''b'' = Inr paid_chain"
proof -
  have "wf_tx paid_coinbase" using wallet_address_length [OF sample_wallet_ok] by (simp add: paid_coinbase_def coinbase_wf)
  with demo_wf(1) have "list_all wf_block paid_chain" by (simp add: paid_chain_def wf_block_def wf_header_def)
  then have "deserialize_chain (serialize_chain paid_chain) = Inr paid_chain"
    by (rule deserialize_serialize_chain) (simp add: paid_chain_def)
  then show "load_chain payer_disk ''a'' = Inr paid_chain" "load_chain receiver_disk ''b'' = Inr paid_chain"
    by (simp_all add: load_chain_def read_file_def payer_disk_def receiver_disk_def)
qed

lemma paid_owned:
  "filter_utxos_by_address (build_utxo_set paid_chain) (address_of sample_wallet)
     = [(COutPoint (tx_hash paid_coinbase) 0,
         \<lparr>nValue = 5000000000, scriptPubKey = build_p2pkh_script_pubkey (address_of sample_wallet)\<rparr>)]"
proof -
  have cb: "vout paid_coinbase = [\<lparr>nValue = 5000000000, scriptPubKey = build_p2pkh_script_pubkey (address_of sample_wallet)\<rparr>]"
    "map prevout (vin paid_coinbase) = [COutPoint_null]"
    by (simp_all add: paid_coinbase_def build_coinbase_tx_def Let_def calculate_block_reward_def HALVING_INTERVAL_def
        INITIAL_REWARD_def CTxIn_default_def)
  have addr: "extract_p2pkh_address (build_p2pkh_script_pubkey (address_of sample_wallet)) = Some (address_of sample_wallet)"
    using wallet_address_length [OF sample_wallet_ok] by (simp add: extract_p2pkh_iff)
  show ?thesis
    by (simp add: filter_utxos_by_address_def build_utxo_set_eq all_txs_def paid_chain_def spent_def created_def tx_outputs_def
        cb addr utxo_emplace_def utxo_find_def utxo_erase_def COutPoint_null_def)
qed

lemma payment_reaches_mempool_witness:
  "\<exists>tx requests replies inv dr'.
      converse (run_send_tx toy_secp sample_os None ''10.0.0.2'' 9000 ''a'' (replicate 20 9) 3000) payer_disk
        (run_receive_tx toy_secp sample_os 9000 ''b'') receiver_disk requests replies
    \<and> talks (run_send_tx toy_secp sample_os None ''10.0.0.2'' 9000 ''a'' (replicate 20 9) 3000) payer_disk replies []
        (Inr ()) payer_disk [] requests
    \<and> talks (run_receive_tx toy_secp sample_os 9000 ''b'') receiver_disk requests [] (Inr ()) dr' [] replies
    \<and> converse (run_send_tx toy_secp sample_os None ''10.0.0.2'' 9000 ''a'' (replicate 20 9) 3000) payer_disk
        (HandleConnection toy_secp ((sample_node paid_chain)\<lparr>node_path := ''b''\<rparr>) Await_VERSION) receiver_disk requests (replies @ inv)
    \<and> talks (run_send_tx toy_secp sample_os None ''10.0.0.2'' 9000 ''a'' (replicate 20 9) 3000) payer_disk (replies @ inv) []
        (Inr ()) payer_disk inv requests
    \<and> ends (HandleConnection toy_secp ((sample_node paid_chain)\<lparr>node_path := ''b''\<rparr>) Await_VERSION) receiver_disk requests []
        (Inr ()) dr' (replies @ inv)
    \<and> load_mempool dr' (''b'' @ ''.mempool'') = Inr (mempool_of receiver_disk (''b'' @ ''.mempool'') @ [tx])
    \<and> hd (vout tx) = \<lparr>nValue = 3000, scriptPubKey = build_p2pkh_script_pubkey (replicate 20 9)\<rparr>
    \<and> sint DEFAULT_FEE \<le> sint (validate_and_get_fee toy_secp tx (build_utxo_set paid_chain))"
proof -
  have m: "mempool_of receiver_disk ''b.mempool'' = []"
    by (simp add: mempool_of_def load_mempool_def read_file_def receiver_disk_def empty_disk_def)
  have w: "FromSeckey toy_secp (replicate 32 7) = Inr sample_wallet"
    by (simp add: FromSeckey_def toy_secp_def sample_wallet_def create_address_total hash160_def)
  have d: "paid_chain \<noteq> []" "files payer_disk ''a.wallet'' = Some (replicate 32 7)" "writable receiver_disk path" for path
    by (simp_all add: paid_chain_def payer_disk_def receiver_disk_def empty_disk_def)
  show ?thesis
    by (rule payment_reaches_mempool [OF toy_secp_documented _ _ _ _ _ _ _ _ _ w paid_chain_loads])
      (simp_all add: paid_owned sane_utxos_def sample_os_def ADDRESS_SIZE_def m d MAX_MEMPOOL_SIZE_def sample_node_def)
qed

section \<open>The block mined next confirms it\<close>

text \<open>The outputs of the last transaction of a valid chain are unspent.\<close>

lemma last_tx_unspent:
  assumes "ledger S (chain @ [blk]) u'" and "outpoints_unique (all_txs (chain @ [blk]))"
    and "vtx blk = front @ [tx]" and "\<not> IsCoinbase tx" and "(p, t) \<in> set (tx_outputs tx)"
  shows "utxo_find (build_utxo_set (chain @ [blk])) p = Some t"
proof -
  let ?txs = "all_txs chain @ front"
  have all: "all_txs (chain @ [blk]) = ?txs @ [tx]" by (simp add: all_txs_snoc assms(3))
  note uniq = assms(2) [unfolded all]
  from assms(1) obtain u F where u: "ledger S chain u" "full_chain_txs S (front @ [tx]) u 0 = Some (u', F)"
    by (auto simp: block_valid_def assms(3) elim!: ledger_snocE)
  then obtain v g where v: "full_chain_txs S front u 0 = Some (v, g)" "full_chain_txs S [tx] v g = Some (u', F)"
    by (auto simp: full_chain_txs_append split: option.splits)
  then have ok: "inputs_ok S tx v" using assms(4) validate_fee_nonneg(1) by (auto simp: Let_def split: if_splits)
  have "replay_inv (all_txs chain) u"
    using ledger_replayed [OF u(1)] outpoints_unique_append [of "all_txs chain" "front @ [tx]"] uniq by simp
  from replay_txs [OF v(1) this outpoints_unique_append [OF uniq]] have inv: "replay_inv ?txs v" .
  from replay_step [OF inv uniq] ok assms(4)
  have "replayed (?txs @ [tx]) (add_outputs tx (erase_inputs tx v))" by (auto simp: replay_inv_def)
  then have "utxo_find (build_utxo_set (chain @ [blk])) p = utxo_find (add_outputs tx (erase_inputs tx v)) p"
    by (simp add: build_utxo_set_find_lemma replayed_def all)
  moreover have d: "distinct (map fst (created ?txs @ tx_outputs tx))"
    using uniq by (simp add: outpoints_unique_def created_def)
  then have "map_of (tx_outputs tx) p = Some t" using assms(5) by simp
  moreover have "map_of (created ?txs) p = None" using d assms(5) by (force simp: map_of_eq_None_iff)
  then have "utxo_find v p = None" using inv by (simp add: replay_inv_def replayed_def)
  ultimately show ?thesis by (simp add: find_add_outputs find_erase_inputs)
qed

text \<open>The miner takes a valid transaction at the end of its mempool unless one before it spends its inputs.\<close>

lemma select_mempool_takes:
  "0 \<le> sint (validate_and_get_fee S tx u) \<Longrightarrow> set (map prevout (vin tx)) \<inter> set (spent m) = {} \<Longrightarrow>
     \<exists>sel F. select_mempool S (m @ [tx]) u acc f = (acc @ sel @ [tx], F) \<and> set sel \<subseteq> set m"
proof (induction m arbitrary: u acc f)
  case (Cons t m)
  have rest: "set (map prevout (vin tx)) \<inter> set (spent m) = {}" and
    t: "set (map prevout (vin tx)) \<inter> set (map prevout (vin t)) = {}"
    using Cons.prems(2) by (auto simp: spent_def)
  let ?u = "add_outputs t (erase_inputs t u)"
  have "utxo_find ?u (prevout i) = utxo_find u (prevout i)" if "i \<in> set (vin tx)" for i
    using inputs_ok_found [OF validate_fee_nonneg(1) [OF Cons.prems(1)] that] t that
    by (auto simp: find_add_outputs find_erase_inputs)
  then have "validate_and_get_fee S tx ?u = validate_and_get_fee S tx u" by (intro fee_cong) simp
  with Cons.prems(1) have still: "0 \<le> sint (validate_and_get_fee S tx ?u)" by simp
  show ?case
  proof (cases "0 \<le> sint (validate_and_get_fee S t u)")
    case True
    from Cons.IH [OF still rest, of "acc @ [t]" "f + validate_and_get_fee S t u"]
    obtain sel F where "select_mempool S (m @ [tx]) ?u (acc @ [t]) (f + validate_and_get_fee S t u) = ((acc @ [t]) @ sel @ [tx], F)"
      "set sel \<subseteq> set m" by blast
    with True show ?thesis by (intro exI [of _ "t # sel"]) (auto simp: Let_def)
  next
    case False
    from Cons.IH [OF Cons.prems(1) rest, of acc f] False show ?thesis by (auto simp: Let_def)
  qed
qed simp


text \<open>C9: A payment in the mempool is confirmed by the next block. Let the mempool file of a node with a valid
  chain end in a valid transaction whose inputs no transaction before it spends; no coinbase is in the
  file, no outpoint of the new chain is created twice and no coinbase of it names one as an input. When mining returns, the payment is the
  last transaction of the new block, the recipient of its first output owns it in the UTXO set of the
  new chain, with exactly the amount, everything the payment spent is gone from that set, and the
  saved chain passes \<open>validate_full_chain\<close>.\<close>

theorem payment_confirmed:
  assumes "validate_full_chain S chain = Inr True"
    and "mine_on_tip S now q a chain w = (Inr (blk, chain'), w')"
    and "mempool_of (w_disk w) (q @ ''.mempool'') = m @ [tx]"
    and "0 \<le> sint (validate_and_get_fee S tx (build_utxo_set chain))"
    and "list_all (\<lambda>t. \<not> IsCoinbase t) (m @ [tx])" and "set (map prevout (vin tx)) \<inter> set (spent m) = {}"
    and "vout tx \<noteq> []" and "hd (vout tx) = \<lparr>nValue = amount, scriptPubKey = build_p2pkh_script_pubkey r\<rparr>"
    and "length r = ADDRESS_SIZE" and "outpoints_unique (all_txs chain')"
  shows "last (vtx blk) = tx
    \<and> utxo_find (filter_utxos_by_address (build_utxo_set chain') r) (COutPoint (tx_hash tx) 0)
        = Some \<lparr>nValue = amount, scriptPubKey = build_p2pkh_script_pubkey r\<rparr>
    \<and> (\<forall>i \<in> set (vin tx). utxo_find (build_utxo_set chain') (prevout i) = None)
    \<and> validate_full_chain S chain' = Inr True \<and> files (w_disk w') q = Some (serialize_chain chain')"
proof -
  from assms(2) obtain txs fees d1 where mined:
    "select_mempool S (mempool_of (w_disk w) (q @ ''.mempool'')) (build_utxo_set chain) [] 0 = (txs, fees)"
    "build_next_block now (extract_headers chain) (GetHash (last chain)) a fees txs = Inr blk"
    "chain \<noteq> []" "chain' = chain @ [blk]" "save_chain chain' q (w_disk w) = Inr d1"
    "save_mempool [] (q @ ''.mempool'') d1 = Inr (w_disk w')" by (rule mine_on_tip_cases)
  from select_mempool_takes [OF assms(4,6), of "[]" 0] mined(1) obtain sel where txs: "txs = sel @ [tx]" "set sel \<subseteq> set m"
    by (auto simp: assms(3))
  have ncb: "list_all (\<lambda>t. \<not> IsCoinbase t) txs" "\<not> IsCoinbase tx" using assms(5) txs by (auto simp: list_all_iff)
  obtain cb where vtx: "vtx blk = (cb # sel) @ [tx]" using build_next_block_Inr [OF mined(2)] txs(1) by auto
  from assms(1) obtain u where "ledger S chain u" unfolding validate_full_chain_ledger by blast
  from mined_on_valid_chain [OF this mined(3,1,2) ncb(1)] assms(10) obtain u' where
    l: "ledger S chain' u'" unfolding mined(4) by blast
  have "(COutPoint (tx_hash tx) 0, hd (vout tx)) \<in> set (tx_outputs tx)"
    using assms(7) by (force simp: tx_outputs_def hd_conv_nth)
  from last_tx_unspent [OF l [unfolded mined(4)] assms(10) [unfolded mined(4)] vtx ncb(2) this]
  have "utxo_find (build_utxo_set chain') (COutPoint (tx_hash tx) 0) = Some \<lparr>nValue = amount, scriptPubKey = build_p2pkh_script_pubkey r\<rparr>"
    by (simp add: mined(4) assms(8))
  then have "utxo_find (filter_utxos_by_address (build_utxo_set chain') r) (COutPoint (tx_hash tx) 0)
      = Some \<lparr>nValue = amount, scriptPubKey = build_p2pkh_script_pubkey r\<rparr>"
    using assms(9) by (simp add: owned_utxos extract_p2pkh_iff)
  moreover have "utxo_find (build_utxo_set chain') (prevout i) = None" if "i \<in> set (vin tx)" for i
    using that by (auto simp: build_utxo_set_find_lemma mined(4) all_txs_snoc vtx spent_def)
  moreover have "files (w_disk w') q = Some (serialize_chain chain')"
    using write_file_files [OF mined(5) [unfolded save_chain_def]] write_file_files [OF mined(6) [unfolded save_mempool_eq]]
    by simp
  ultimately show ?thesis using l vtx mined(4) by (auto simp: validate_full_chain_ledger)
qed

end
