(* ===== verification/Payment_Hashes.thy ===== *)
theory Payment_Hashes
  imports Mined
begin

text \<open>
  More hashes evaluated in the kernel, for a block with a payment: the payment, which spends the reward of
  the block mined first, the Merkle root over the coinbase of theory \<open>Mined\<close> and the payment, in
  either order, and the header.
\<close>

section \<open>The compressions\<close>

definition schedule_12 :: "word_t list" where
  "schedule_12 =
    [0x1000000, 0x1000000, 0x7395F32B, 0x502A67F0, 0x709865E7, 0xAC2BF48, 0xFC27EADE, 0x722662CE,
     0x452125E7, 0xCE71FA47, 0, 0x1000000, 0x19FFFFFF, 0xFF010000, 0xF205, 0x2A010000, 0x36D61AC3,
     0xC569D966, 0xB623479D, 0x1B6528AF, 0x794A1B12, 0x94D37668, 0x7F3127FD, 0xE30A17E, 0xAA6D0AA4,
     0xC9288CDA, 0x3FB38428, 0xD5025923, 0xBF9088F5, 0x1C345858, 0xA891481B, 0x8195AE06, 0x30A18669,
     0x64509715, 0x968CE082, 0xE1860531, 0xA01D1B2E, 0xBC528571, 0x527502F, 0x6FBC76C3, 0xE052C064,
     0xCBDABAF1, 0x24833CC2, 0x5DE3FE74, 0x1B7C693A, 0x128567F0, 0x48BA8FA2, 0x36DA589E, 0x163B701B,
     0x20015F69, 0xC93BFAC9, 0x90DC5416, 0x8A60B112, 0x3060285F, 0x212362F7, 0xFCF412AC, 0x31D1ED17,
     0x703D7B5B, 0x9D1F4ACB, 0x68377BF7, 0x53822F27, 0x74B6D66F, 0x44A3B79C, 0x3819C9A]"

lemma schedule_12_ok: "sched_ok schedule_12"
  by (simp add: schedule_12_def sha_ops)

lemma rounds_12_0:
  "rounds [0x428A2F98, 0x71374491, 0xB5C0FBCF, 0xE9B5DBA5, 0x3956C25B, 0x59F111F1, 0x923F82A4, 0xAB1C5ED5,
     0xD807AA98, 0x12835B01, 0x243185BE, 0x550C7DC3, 0x72BE5D74, 0x80DEB1FE, 0x9BDC06A7, 0xC19BF174]
    [0x1000000, 0x1000000, 0x7395F32B, 0x502A67F0, 0x709865E7, 0xAC2BF48, 0xFC27EADE, 0x722662CE,
     0x452125E7, 0xCE71FA47, 0, 0x1000000, 0x19FFFFFF, 0xFF010000, 0xF205, 0x2A010000]
    (0x6A09E667, 0xBB67AE85, 0x3C6EF372, 0xA54FF53A, 0x510E527F, 0x9B05688C, 0x1F83D9AB, 0x5BE0CD19)
   = (0x2C6BFCD8, 0xB438B33, 0x3E3B84BD, 0xE5F971AC, 0xDC964A10, 0x5621536C, 0xBA42B02F, 0xDEBED045)"
  by (simp add: round_step_eq sha_ops)

lemma rounds_12_1:
  "rounds [0xE49B69C1, 0xEFBE4786, 0xFC19DC6, 0x240CA1CC, 0x2DE92C6F, 0x4A7484AA, 0x5CB0A9DC, 0x76F988DA,
     0x983E5152, 0xA831C66D, 0xB00327C8, 0xBF597FC7, 0xC6E00BF3, 0xD5A79147, 0x6CA6351, 0x14292967]
    [0x36D61AC3, 0xC569D966, 0xB623479D, 0x1B6528AF, 0x794A1B12, 0x94D37668, 0x7F3127FD, 0xE30A17E,
     0xAA6D0AA4, 0xC9288CDA, 0x3FB38428, 0xD5025923, 0xBF9088F5, 0x1C345858, 0xA891481B, 0x8195AE06]
    (0x2C6BFCD8, 0xB438B33, 0x3E3B84BD, 0xE5F971AC, 0xDC964A10, 0x5621536C, 0xBA42B02F, 0xDEBED045)
   = (0x4F8583CF, 0x36F1D00A, 0x37F7011A, 0xCABF75CF, 0xE99D240, 0xE7EF6ACA, 0xB73BAF5, 0x5AA54C9E)"
  by (simp add: round_step_eq sha_ops)

lemma rounds_12_2:
  "rounds [0x27B70A85, 0x2E1B2138, 0x4D2C6DFC, 0x53380D13, 0x650A7354, 0x766A0ABB, 0x81C2C92E, 0x92722C85,
     0xA2BFE8A1, 0xA81A664B, 0xC24B8B70, 0xC76C51A3, 0xD192E819, 0xD6990624, 0xF40E3585, 0x106AA070]
    [0x30A18669, 0x64509715, 0x968CE082, 0xE1860531, 0xA01D1B2E, 0xBC528571, 0x527502F, 0x6FBC76C3,
     0xE052C064, 0xCBDABAF1, 0x24833CC2, 0x5DE3FE74, 0x1B7C693A, 0x128567F0, 0x48BA8FA2, 0x36DA589E]
    (0x4F8583CF, 0x36F1D00A, 0x37F7011A, 0xCABF75CF, 0xE99D240, 0xE7EF6ACA, 0xB73BAF5, 0x5AA54C9E)
   = (0xC9F7D515, 0xAEF46464, 0x7B4C4627, 0xB214885B, 0x9150BDA9, 0xA167EF5D, 0xFFF71711, 0x66DC907C)"
  by (simp add: round_step_eq sha_ops)

lemma rounds_12_3:
  "rounds [0x19A4C116, 0x1E376C08, 0x2748774C, 0x34B0BCB5, 0x391C0CB3, 0x4ED8AA4A, 0x5B9CCA4F, 0x682E6FF3,
     0x748F82EE, 0x78A5636F, 0x84C87814, 0x8CC70208, 0x90BEFFFA, 0xA4506CEB, 0xBEF9A3F7, 0xC67178F2]
    [0x163B701B, 0x20015F69, 0xC93BFAC9, 0x90DC5416, 0x8A60B112, 0x3060285F, 0x212362F7, 0xFCF412AC,
     0x31D1ED17, 0x703D7B5B, 0x9D1F4ACB, 0x68377BF7, 0x53822F27, 0x74B6D66F, 0x44A3B79C, 0x3819C9A]
    (0xC9F7D515, 0xAEF46464, 0x7B4C4627, 0xB214885B, 0x9150BDA9, 0xA167EF5D, 0xFFF71711, 0x66DC907C)
   = (0x376CD10F, 0x11DEF1FC, 0x982BFFAA, 0xA8904D3B, 0xE1ED1D45, 0x282CE4D, 0x18F08B4, 0x832C5EC2)"
  by (simp add: round_step_eq sha_ops)

lemma compression_12:
  "hash256_block [0x6A09E667, 0xBB67AE85, 0x3C6EF372, 0xA54FF53A, 0x510E527F, 0x9B05688C, 0x1F83D9AB, 0x5BE0CD19]
    [1, 0, 0, 0, 1, 0, 0, 0, 0x73, 0x95, 0xF3, 0x2B, 0x50, 0x2A, 0x67, 0xF0, 0x70, 0x98, 0x65, 0xE7,
     0xA, 0xC2, 0xBF, 0x48, 0xFC, 0x27, 0xEA, 0xDE, 0x72, 0x26, 0x62, 0xCE, 0x45, 0x21, 0x25, 0xE7,
     0xCE, 0x71, 0xFA, 0x47, 0, 0, 0, 0, 1, 0, 0, 0, 0x19, 0xFF, 0xFF, 0xFF, 0xFF, 1, 0, 0, 0, 0,
     0xF2, 5, 0x2A, 1, 0, 0]
   = [0xA176B776, 0xCD46A081, 0xD49AF31C, 0x4DE04275, 0x32FB6FC4, 0x9D8836D9, 0x2112E25F, 0xDF0D2BDB]"
proof -
  let ?blk = "[1, 0, 0, 0, 1, 0, 0, 0, 0x73, 0x95, 0xF3, 0x2B, 0x50, 0x2A, 0x67, 0xF0, 0x70, 0x98, 0x65, 0xE7,
     0xA, 0xC2, 0xBF, 0x48, 0xFC, 0x27, 0xEA, 0xDE, 0x72, 0x26, 0x62, 0xCE, 0x45, 0x21, 0x25, 0xE7,
     0xCE, 0x71, 0xFA, 0x47, 0, 0, 0, 0, 1, 0, 0, 0, 0x19, 0xFF, 0xFF, 0xFF, 0xFF, 1, 0, 0, 0, 0,
     0xF2, 5, 0x2A, 1, 0, 0] :: bytes"
  have "map (block_word ?blk) [0..<16] = take 16 schedule_12"
    unfolding block_words by (simp add: block_word_def mask_8bit_def schedule_12_def)
  then have "message_schedule ?blk = schedule_12"
    by (intro message_scheduleI schedule_12_ok) (simp_all add: schedule_12_def)
  moreover have "rounds add_constant schedule_12 (0x6A09E667, 0xBB67AE85, 0x3C6EF372, 0xA54FF53A, 0x510E527F, 0x9B05688C, 0x1F83D9AB, 0x5BE0CD19) = (0x376CD10F, 0x11DEF1FC, 0x982BFFAA, 0xA8904D3B, 0xE1ED1D45, 0x282CE4D, 0x18F08B4, 0x832C5EC2)"
    using rounds_chunks [OF rounds_12_0 rounds_12_1 rounds_12_2 rounds_12_3]
    by (simp add: add_constant_def schedule_12_def)
  ultimately show ?thesis
    by (simp add: hash256_block_def mask_32bit_def)
qed

definition schedule_13 :: "word_t list" where
  "schedule_13 =
    [0x190000, 0x76A914, 0x9090909, 0x9090909, 0x9090909, 0x9090909, 0x9090909, 0x88AC0000, 0x8000,
     0, 0, 0, 0, 0, 0, 0x310, 0x8264386D, 0x53D21A85, 0xF59662EA, 0xA881718F, 0x578FBC5B,
     0xF1567B86, 0x42C1291D, 0x1DA03C8C, 0x59053F7, 0xF674855, 0xCC0577FD, 0xA4B3BBE8, 0x688DA65,
     0xED61933E, 0xB4E3BE93, 0xC6A77A63, 0xC0FEC855, 0xC60722D8, 0xAD7D4D96, 0x7759830F, 0xE16E0BAD,
     0x10D0B501, 0xE2AFFB18, 0x25088EFD, 0x4856A20E, 0xD374E102, 0xF3D92CBB, 0x6EFD01DB, 0xD0094B5B,
     0xCF3051CE, 0x68A02DF8, 0x3376E380, 0x9C79645, 0xD32E0A76, 0xC7290260, 0xD0A8AC13, 0x7F6802AA,
     0x908733A1, 0xF49AD271, 0x6B6AEBF1, 0x7659502D, 0xE5EC90FC, 0x4204DE08, 0xC83569F3, 0xE57200C7,
     0xD47C1451, 0xD335A9EA, 0xA12242F6]"

lemma schedule_13_ok: "sched_ok schedule_13"
  by (simp add: schedule_13_def sha_ops)

lemma rounds_13_0:
  "rounds [0x428A2F98, 0x71374491, 0xB5C0FBCF, 0xE9B5DBA5, 0x3956C25B, 0x59F111F1, 0x923F82A4, 0xAB1C5ED5,
     0xD807AA98, 0x12835B01, 0x243185BE, 0x550C7DC3, 0x72BE5D74, 0x80DEB1FE, 0x9BDC06A7, 0xC19BF174]
    [0x190000, 0x76A914, 0x9090909, 0x9090909, 0x9090909, 0x9090909, 0x9090909, 0x88AC0000, 0x8000,
     0, 0, 0, 0, 0, 0, 0x310]
    (0xA176B776, 0xCD46A081, 0xD49AF31C, 0x4DE04275, 0x32FB6FC4, 0x9D8836D9, 0x2112E25F, 0xDF0D2BDB)
   = (0xE1D92273, 0xB6D0A7EB, 0xDDF320C5, 0xC6E33E47, 0x31750719, 0x52115657, 0xC4D44827, 0xB3860BE6)"
  by (simp add: round_step_eq sha_ops)

lemma rounds_13_1:
  "rounds [0xE49B69C1, 0xEFBE4786, 0xFC19DC6, 0x240CA1CC, 0x2DE92C6F, 0x4A7484AA, 0x5CB0A9DC, 0x76F988DA,
     0x983E5152, 0xA831C66D, 0xB00327C8, 0xBF597FC7, 0xC6E00BF3, 0xD5A79147, 0x6CA6351, 0x14292967]
    [0x8264386D, 0x53D21A85, 0xF59662EA, 0xA881718F, 0x578FBC5B, 0xF1567B86, 0x42C1291D, 0x1DA03C8C,
     0x59053F7, 0xF674855, 0xCC0577FD, 0xA4B3BBE8, 0x688DA65, 0xED61933E, 0xB4E3BE93, 0xC6A77A63]
    (0xE1D92273, 0xB6D0A7EB, 0xDDF320C5, 0xC6E33E47, 0x31750719, 0x52115657, 0xC4D44827, 0xB3860BE6)
   = (0x6496FAA5, 0x1070A134, 0xC96C2530, 0x1869AA46, 0xD184F55A, 0xAD9A82E9, 0x33310BE4, 0x653E213)"
  by (simp add: round_step_eq sha_ops)

lemma rounds_13_2:
  "rounds [0x27B70A85, 0x2E1B2138, 0x4D2C6DFC, 0x53380D13, 0x650A7354, 0x766A0ABB, 0x81C2C92E, 0x92722C85,
     0xA2BFE8A1, 0xA81A664B, 0xC24B8B70, 0xC76C51A3, 0xD192E819, 0xD6990624, 0xF40E3585, 0x106AA070]
    [0xC0FEC855, 0xC60722D8, 0xAD7D4D96, 0x7759830F, 0xE16E0BAD, 0x10D0B501, 0xE2AFFB18, 0x25088EFD,
     0x4856A20E, 0xD374E102, 0xF3D92CBB, 0x6EFD01DB, 0xD0094B5B, 0xCF3051CE, 0x68A02DF8, 0x3376E380]
    (0x6496FAA5, 0x1070A134, 0xC96C2530, 0x1869AA46, 0xD184F55A, 0xAD9A82E9, 0x33310BE4, 0x653E213)
   = (0x1ACA534C, 0xCEDAA398, 0x5588D1FF, 0x8A135316, 0x6FFB7D89, 0x5CF6D361, 0x669E9BA2, 0x975B02DF)"
  by (simp add: round_step_eq sha_ops)

lemma rounds_13_3:
  "rounds [0x19A4C116, 0x1E376C08, 0x2748774C, 0x34B0BCB5, 0x391C0CB3, 0x4ED8AA4A, 0x5B9CCA4F, 0x682E6FF3,
     0x748F82EE, 0x78A5636F, 0x84C87814, 0x8CC70208, 0x90BEFFFA, 0xA4506CEB, 0xBEF9A3F7, 0xC67178F2]
    [0x9C79645, 0xD32E0A76, 0xC7290260, 0xD0A8AC13, 0x7F6802AA, 0x908733A1, 0xF49AD271, 0x6B6AEBF1,
     0x7659502D, 0xE5EC90FC, 0x4204DE08, 0xC83569F3, 0xE57200C7, 0xD47C1451, 0xD335A9EA, 0xA12242F6]
    (0x1ACA534C, 0xCEDAA398, 0x5588D1FF, 0x8A135316, 0x6FFB7D89, 0x5CF6D361, 0x669E9BA2, 0x975B02DF)
   = (0xD0224079, 0x45AF2560, 0x73C41207, 0xDC56EBE5, 0x212480C9, 0xF7DED1E2, 0x933CA2F8, 0x97CBC1DA)"
  by (simp add: round_step_eq sha_ops)

lemma compression_13:
  "hash256_block [0xA176B776, 0xCD46A081, 0xD49AF31C, 0x4DE04275, 0x32FB6FC4, 0x9D8836D9, 0x2112E25F, 0xDF0D2BDB]
    [0, 0x19, 0, 0, 0, 0x76, 0xA9, 0x14, 9, 9, 9, 9, 9, 9, 9, 9, 9, 9, 9, 9, 9, 9, 9, 9, 9, 9, 9, 9,
     0x88, 0xAC, 0, 0, 0, 0, 0x80, 0, 0, 0, 0, 0, 0, 0, 0, 0, 0, 0, 0, 0, 0, 0, 0, 0, 0, 0, 0, 0, 0,
     0, 0, 0, 0, 0, 3, 0x10]
   = [0x7198F7EF, 0x12F5C5E1, 0x485F0523, 0x2A372E5A, 0x541FF08D, 0x956708BB, 0xB44F8557, 0x76D8EDB5]"
proof -
  let ?blk = "[0, 0x19, 0, 0, 0, 0x76, 0xA9, 0x14, 9, 9, 9, 9, 9, 9, 9, 9, 9, 9, 9, 9, 9, 9, 9, 9, 9, 9, 9, 9,
     0x88, 0xAC, 0, 0, 0, 0, 0x80, 0, 0, 0, 0, 0, 0, 0, 0, 0, 0, 0, 0, 0, 0, 0, 0, 0, 0, 0, 0, 0, 0,
     0, 0, 0, 0, 0, 3, 0x10] :: bytes"
  have "map (block_word ?blk) [0..<16] = take 16 schedule_13"
    unfolding block_words by (simp add: block_word_def mask_8bit_def schedule_13_def)
  then have "message_schedule ?blk = schedule_13"
    by (intro message_scheduleI schedule_13_ok) (simp_all add: schedule_13_def)
  moreover have "rounds add_constant schedule_13 (0xA176B776, 0xCD46A081, 0xD49AF31C, 0x4DE04275, 0x32FB6FC4, 0x9D8836D9, 0x2112E25F, 0xDF0D2BDB) = (0xD0224079, 0x45AF2560, 0x73C41207, 0xDC56EBE5, 0x212480C9, 0xF7DED1E2, 0x933CA2F8, 0x97CBC1DA)"
    using rounds_chunks [OF rounds_13_0 rounds_13_1 rounds_13_2 rounds_13_3]
    by (simp add: add_constant_def schedule_13_def)
  ultimately show ?thesis
    by (simp add: hash256_block_def mask_32bit_def)
qed

definition schedule_14 :: "word_t list" where
  "schedule_14 =
    [0x7198F7EF, 0x12F5C5E1, 0x485F0523, 0x2A372E5A, 0x541FF08D, 0x956708BB, 0xB44F8557, 0x76D8EDB5,
     0x80000000, 0, 0, 0, 0, 0, 0, 0x100, 0x229C0F79, 0xA269529A, 0x493E185B, 0x9976627E,
     0xCAFD3D2A, 0xEB724D7B, 0x4CADFBA0, 0x199D7172, 0x65205757, 0x5FCF40FC, 0xBACE789F, 0x137394F8,
     0xDEE4E71B, 0x595D2D2, 0x9369F2B, 0xAE1B70B9, 0x948D48FB, 0x6D3B9CBF, 0xE07CCFAE, 0x39AF4ED6,
     0x48941AE7, 0x7B4D947F, 0x4462E762, 0xDE94CF23, 0x2521C787, 0xF499FFA6, 0xE72E9724, 0x31C9D513,
     0xC38EB10B, 0xB1EC372, 0x31111BD8, 0x44991249, 0xCC15836D, 0x720BB8F3, 0xFD2238D5, 0x69F3CED7,
     0x4382DF88, 0xC0E5DDC5, 0x2CC90A90, 0x7B2465E0, 0x67D25366, 0xA0F1EA6B, 0xA06D6FC, 0xE1518857,
     0x8BC0FBF5, 0x1DB733EA, 0xED6447A9, 0xCEBC6EBE]"

lemma schedule_14_ok: "sched_ok schedule_14"
  by (simp add: schedule_14_def sha_ops)

lemma rounds_14_0:
  "rounds [0x428A2F98, 0x71374491, 0xB5C0FBCF, 0xE9B5DBA5, 0x3956C25B, 0x59F111F1, 0x923F82A4, 0xAB1C5ED5,
     0xD807AA98, 0x12835B01, 0x243185BE, 0x550C7DC3, 0x72BE5D74, 0x80DEB1FE, 0x9BDC06A7, 0xC19BF174]
    [0x7198F7EF, 0x12F5C5E1, 0x485F0523, 0x2A372E5A, 0x541FF08D, 0x956708BB, 0xB44F8557, 0x76D8EDB5,
     0x80000000, 0, 0, 0, 0, 0, 0, 0x100]
    (0x6A09E667, 0xBB67AE85, 0x3C6EF372, 0xA54FF53A, 0x510E527F, 0x9B05688C, 0x1F83D9AB, 0x5BE0CD19)
   = (0xE921FD87, 0xE012266D, 0xE95B1A31, 0x67F9F67E, 0xF9628DFA, 0x8972E038, 0xA9389A0E, 0x85A2E55C)"
  by (simp add: round_step_eq sha_ops)

lemma rounds_14_1:
  "rounds [0xE49B69C1, 0xEFBE4786, 0xFC19DC6, 0x240CA1CC, 0x2DE92C6F, 0x4A7484AA, 0x5CB0A9DC, 0x76F988DA,
     0x983E5152, 0xA831C66D, 0xB00327C8, 0xBF597FC7, 0xC6E00BF3, 0xD5A79147, 0x6CA6351, 0x14292967]
    [0x229C0F79, 0xA269529A, 0x493E185B, 0x9976627E, 0xCAFD3D2A, 0xEB724D7B, 0x4CADFBA0, 0x199D7172,
     0x65205757, 0x5FCF40FC, 0xBACE789F, 0x137394F8, 0xDEE4E71B, 0x595D2D2, 0x9369F2B, 0xAE1B70B9]
    (0xE921FD87, 0xE012266D, 0xE95B1A31, 0x67F9F67E, 0xF9628DFA, 0x8972E038, 0xA9389A0E, 0x85A2E55C)
   = (0x757AFE20, 0x9D19B8B9, 0xABD1A94B, 0xC167F812, 0x43081584, 0xDFCEA390, 0x3DFF46EE, 0x7070DE89)"
  by (simp add: round_step_eq sha_ops)

lemma rounds_14_2:
  "rounds [0x27B70A85, 0x2E1B2138, 0x4D2C6DFC, 0x53380D13, 0x650A7354, 0x766A0ABB, 0x81C2C92E, 0x92722C85,
     0xA2BFE8A1, 0xA81A664B, 0xC24B8B70, 0xC76C51A3, 0xD192E819, 0xD6990624, 0xF40E3585, 0x106AA070]
    [0x948D48FB, 0x6D3B9CBF, 0xE07CCFAE, 0x39AF4ED6, 0x48941AE7, 0x7B4D947F, 0x4462E762, 0xDE94CF23,
     0x2521C787, 0xF499FFA6, 0xE72E9724, 0x31C9D513, 0xC38EB10B, 0xB1EC372, 0x31111BD8, 0x44991249]
    (0x757AFE20, 0x9D19B8B9, 0xABD1A94B, 0xC167F812, 0x43081584, 0xDFCEA390, 0x3DFF46EE, 0x7070DE89)
   = (0x33DBA7D8, 0xCAD11F61, 0x9410B4DF, 0x8E92495C, 0x91975CBD, 0xB466BAA6, 0xAAD91643, 0xC49CA700)"
  by (simp add: round_step_eq sha_ops)

lemma rounds_14_3:
  "rounds [0x19A4C116, 0x1E376C08, 0x2748774C, 0x34B0BCB5, 0x391C0CB3, 0x4ED8AA4A, 0x5B9CCA4F, 0x682E6FF3,
     0x748F82EE, 0x78A5636F, 0x84C87814, 0x8CC70208, 0x90BEFFFA, 0xA4506CEB, 0xBEF9A3F7, 0xC67178F2]
    [0xCC15836D, 0x720BB8F3, 0xFD2238D5, 0x69F3CED7, 0x4382DF88, 0xC0E5DDC5, 0x2CC90A90, 0x7B2465E0,
     0x67D25366, 0xA0F1EA6B, 0xA06D6FC, 0xE1518857, 0x8BC0FBF5, 0x1DB733EA, 0xED6447A9, 0xCEBC6EBE]
    (0x33DBA7D8, 0xCAD11F61, 0x9410B4DF, 0x8E92495C, 0x91975CBD, 0xB466BAA6, 0xAAD91643, 0xC49CA700)
   = (0xF6C30AB2, 0x226190D0, 0xE717CFCE, 0x9B0BC9D, 0xC2DC0DA5, 0x1ABB8C91, 0xE9D23889, 0x1E468C93)"
  by (simp add: round_step_eq sha_ops)

lemma compression_14:
  "hash256_block [0x6A09E667, 0xBB67AE85, 0x3C6EF372, 0xA54FF53A, 0x510E527F, 0x9B05688C, 0x1F83D9AB, 0x5BE0CD19]
    [0x71, 0x98, 0xF7, 0xEF, 0x12, 0xF5, 0xC5, 0xE1, 0x48, 0x5F, 5, 0x23, 0x2A, 0x37, 0x2E, 0x5A,
     0x54, 0x1F, 0xF0, 0x8D, 0x95, 0x67, 8, 0xBB, 0xB4, 0x4F, 0x85, 0x57, 0x76, 0xD8, 0xED, 0xB5,
     0x80, 0, 0, 0, 0, 0, 0, 0, 0, 0, 0, 0, 0, 0, 0, 0, 0, 0, 0, 0, 0, 0, 0, 0, 0, 0, 0, 0, 0, 0, 1,
     0]
   = [0x60CCF119, 0xDDC93F55, 0x2386C340, 0xAF00B1D7, 0x13EA6024, 0xB5C0F51D, 0x9561234, 0x7A2759AC]"
proof -
  let ?blk = "[0x71, 0x98, 0xF7, 0xEF, 0x12, 0xF5, 0xC5, 0xE1, 0x48, 0x5F, 5, 0x23, 0x2A, 0x37, 0x2E, 0x5A,
     0x54, 0x1F, 0xF0, 0x8D, 0x95, 0x67, 8, 0xBB, 0xB4, 0x4F, 0x85, 0x57, 0x76, 0xD8, 0xED, 0xB5,
     0x80, 0, 0, 0, 0, 0, 0, 0, 0, 0, 0, 0, 0, 0, 0, 0, 0, 0, 0, 0, 0, 0, 0, 0, 0, 0, 0, 0, 0, 0, 1,
     0] :: bytes"
  have "map (block_word ?blk) [0..<16] = take 16 schedule_14"
    unfolding block_words by (simp add: block_word_def mask_8bit_def schedule_14_def)
  then have "message_schedule ?blk = schedule_14"
    by (intro message_scheduleI schedule_14_ok) (simp_all add: schedule_14_def)
  moreover have "rounds add_constant schedule_14 (0x6A09E667, 0xBB67AE85, 0x3C6EF372, 0xA54FF53A, 0x510E527F, 0x9B05688C, 0x1F83D9AB, 0x5BE0CD19) = (0xF6C30AB2, 0x226190D0, 0xE717CFCE, 0x9B0BC9D, 0xC2DC0DA5, 0x1ABB8C91, 0xE9D23889, 0x1E468C93)"
    using rounds_chunks [OF rounds_14_0 rounds_14_1 rounds_14_2 rounds_14_3]
    by (simp add: add_constant_def schedule_14_def)
  ultimately show ?thesis
    by (simp add: hash256_block_def mask_32bit_def)
qed

definition schedule_15 :: "word_t list" where
  "schedule_15 =
    [0x375BE944, 0x61363F92, 0xAAAB16B8, 0x3C04C3C1, 0x3C6BCCB0, 0x118CC915, 0x6FD1B486, 0x14D6F3DB,
     0x60CCF119, 0xDDC93F55, 0x2386C340, 0xAF00B1D7, 0x13EA6024, 0xB5C0F51D, 0x9561234, 0x7A2759AC,
     0x87842C5E, 0x6E685CA3, 0xA23A19C6, 0xAA705E8, 0x5C77927C, 0xE932971C, 0x2DA57D2C, 0xB8512545,
     0xE0460ADB, 0x6B0FB595, 0x8908636A, 0xA2EBB9C, 0x4BAC4136, 0x5BDAEE7C, 0xEC31FA3B, 0x2C3CE0E6,
     0x112E6A8A, 0x3483C33, 0xB4B482A9, 0x879B8556, 0xAB25065, 0x8A29F56C, 0x914ACFA3, 0xB737A35A,
     0xEC62E267, 0x2299B7BC, 0xD59E8454, 0x77B181C2, 0xB0BFCD64, 0xF2BAFF2C, 0xB482EE22, 0xC59422D1,
     0xC823A5DC, 0xD3401474, 0x2F77E0AD, 0xA035E287, 0xBEC08F0B, 0x72CB352B, 0xF88841EF, 0xE65511B7,
     0xFA90255E, 0x8EF40BF2, 0x76783BC5, 0xE746668C, 0x368BA541, 0xD3637525, 0xF46AFCD0, 0xDE09D527]"

lemma schedule_15_ok: "sched_ok schedule_15"
  by (simp add: schedule_15_def sha_ops)

lemma rounds_15_0:
  "rounds [0x428A2F98, 0x71374491, 0xB5C0FBCF, 0xE9B5DBA5, 0x3956C25B, 0x59F111F1, 0x923F82A4, 0xAB1C5ED5,
     0xD807AA98, 0x12835B01, 0x243185BE, 0x550C7DC3, 0x72BE5D74, 0x80DEB1FE, 0x9BDC06A7, 0xC19BF174]
    [0x375BE944, 0x61363F92, 0xAAAB16B8, 0x3C04C3C1, 0x3C6BCCB0, 0x118CC915, 0x6FD1B486, 0x14D6F3DB,
     0x60CCF119, 0xDDC93F55, 0x2386C340, 0xAF00B1D7, 0x13EA6024, 0xB5C0F51D, 0x9561234, 0x7A2759AC]
    (0x6A09E667, 0xBB67AE85, 0x3C6EF372, 0xA54FF53A, 0x510E527F, 0x9B05688C, 0x1F83D9AB, 0x5BE0CD19)
   = (0x98D7F1F6, 0x3E8701D3, 0x50077BBA, 0xC5EB87B1, 0xA49C8C, 0xFE4CB605, 0x4D0645E2, 0xA7C5C38C)"
  by (simp add: round_step_eq sha_ops)

lemma rounds_15_1:
  "rounds [0xE49B69C1, 0xEFBE4786, 0xFC19DC6, 0x240CA1CC, 0x2DE92C6F, 0x4A7484AA, 0x5CB0A9DC, 0x76F988DA,
     0x983E5152, 0xA831C66D, 0xB00327C8, 0xBF597FC7, 0xC6E00BF3, 0xD5A79147, 0x6CA6351, 0x14292967]
    [0x87842C5E, 0x6E685CA3, 0xA23A19C6, 0xAA705E8, 0x5C77927C, 0xE932971C, 0x2DA57D2C, 0xB8512545,
     0xE0460ADB, 0x6B0FB595, 0x8908636A, 0xA2EBB9C, 0x4BAC4136, 0x5BDAEE7C, 0xEC31FA3B, 0x2C3CE0E6]
    (0x98D7F1F6, 0x3E8701D3, 0x50077BBA, 0xC5EB87B1, 0xA49C8C, 0xFE4CB605, 0x4D0645E2, 0xA7C5C38C)
   = (0x64667A98, 0x13482C58, 0xC87FDD0A, 0x5A81FEE4, 0x582D8DEA, 0x9484C42C, 0x6A5C77A7, 0x47B4D681)"
  by (simp add: round_step_eq sha_ops)

lemma rounds_15_2:
  "rounds [0x27B70A85, 0x2E1B2138, 0x4D2C6DFC, 0x53380D13, 0x650A7354, 0x766A0ABB, 0x81C2C92E, 0x92722C85,
     0xA2BFE8A1, 0xA81A664B, 0xC24B8B70, 0xC76C51A3, 0xD192E819, 0xD6990624, 0xF40E3585, 0x106AA070]
    [0x112E6A8A, 0x3483C33, 0xB4B482A9, 0x879B8556, 0xAB25065, 0x8A29F56C, 0x914ACFA3, 0xB737A35A,
     0xEC62E267, 0x2299B7BC, 0xD59E8454, 0x77B181C2, 0xB0BFCD64, 0xF2BAFF2C, 0xB482EE22, 0xC59422D1]
    (0x64667A98, 0x13482C58, 0xC87FDD0A, 0x5A81FEE4, 0x582D8DEA, 0x9484C42C, 0x6A5C77A7, 0x47B4D681)
   = (0x503BB1A1, 0xF327131C, 0xA6BFF404, 0xD7C58850, 0x90AB308D, 0xF19ABC, 0xFAA23D9D, 0xCEF7822A)"
  by (simp add: round_step_eq sha_ops)

lemma rounds_15_3:
  "rounds [0x19A4C116, 0x1E376C08, 0x2748774C, 0x34B0BCB5, 0x391C0CB3, 0x4ED8AA4A, 0x5B9CCA4F, 0x682E6FF3,
     0x748F82EE, 0x78A5636F, 0x84C87814, 0x8CC70208, 0x90BEFFFA, 0xA4506CEB, 0xBEF9A3F7, 0xC67178F2]
    [0xC823A5DC, 0xD3401474, 0x2F77E0AD, 0xA035E287, 0xBEC08F0B, 0x72CB352B, 0xF88841EF, 0xE65511B7,
     0xFA90255E, 0x8EF40BF2, 0x76783BC5, 0xE746668C, 0x368BA541, 0xD3637525, 0xF46AFCD0, 0xDE09D527]
    (0x503BB1A1, 0xF327131C, 0xA6BFF404, 0xD7C58850, 0x90AB308D, 0xF19ABC, 0xFAA23D9D, 0xCEF7822A)
   = (0xE5F28800, 0xAC21EEED, 0x3F9EE72F, 0xDF1378E5, 0xFE2822F6, 0x12D020C7, 0x240392FE, 0x22B6610)"
  by (simp add: round_step_eq sha_ops)

lemma compression_15:
  "hash256_block [0x6A09E667, 0xBB67AE85, 0x3C6EF372, 0xA54FF53A, 0x510E527F, 0x9B05688C, 0x1F83D9AB, 0x5BE0CD19]
    [0x37, 0x5B, 0xE9, 0x44, 0x61, 0x36, 0x3F, 0x92, 0xAA, 0xAB, 0x16, 0xB8, 0x3C, 4, 0xC3, 0xC1,
     0x3C, 0x6B, 0xCC, 0xB0, 0x11, 0x8C, 0xC9, 0x15, 0x6F, 0xD1, 0xB4, 0x86, 0x14, 0xD6, 0xF3, 0xDB,
     0x60, 0xCC, 0xF1, 0x19, 0xDD, 0xC9, 0x3F, 0x55, 0x23, 0x86, 0xC3, 0x40, 0xAF, 0, 0xB1, 0xD7,
     0x13, 0xEA, 0x60, 0x24, 0xB5, 0xC0, 0xF5, 0x1D, 9, 0x56, 0x12, 0x34, 0x7A, 0x27, 0x59, 0xAC]
   = [0x4FFC6E67, 0x67899D72, 0x7C0DDAA1, 0x84636E1F, 0x4F367575, 0xADD58953, 0x43876CA9, 0x5E0C3329]"
proof -
  let ?blk = "[0x37, 0x5B, 0xE9, 0x44, 0x61, 0x36, 0x3F, 0x92, 0xAA, 0xAB, 0x16, 0xB8, 0x3C, 4, 0xC3, 0xC1,
     0x3C, 0x6B, 0xCC, 0xB0, 0x11, 0x8C, 0xC9, 0x15, 0x6F, 0xD1, 0xB4, 0x86, 0x14, 0xD6, 0xF3, 0xDB,
     0x60, 0xCC, 0xF1, 0x19, 0xDD, 0xC9, 0x3F, 0x55, 0x23, 0x86, 0xC3, 0x40, 0xAF, 0, 0xB1, 0xD7,
     0x13, 0xEA, 0x60, 0x24, 0xB5, 0xC0, 0xF5, 0x1D, 9, 0x56, 0x12, 0x34, 0x7A, 0x27, 0x59, 0xAC] :: bytes"
  have "map (block_word ?blk) [0..<16] = take 16 schedule_15"
    unfolding block_words by (simp add: block_word_def mask_8bit_def schedule_15_def)
  then have "message_schedule ?blk = schedule_15"
    by (intro message_scheduleI schedule_15_ok) (simp_all add: schedule_15_def)
  moreover have "rounds add_constant schedule_15 (0x6A09E667, 0xBB67AE85, 0x3C6EF372, 0xA54FF53A, 0x510E527F, 0x9B05688C, 0x1F83D9AB, 0x5BE0CD19) = (0xE5F28800, 0xAC21EEED, 0x3F9EE72F, 0xDF1378E5, 0xFE2822F6, 0x12D020C7, 0x240392FE, 0x22B6610)"
    using rounds_chunks [OF rounds_15_0 rounds_15_1 rounds_15_2 rounds_15_3]
    by (simp add: add_constant_def schedule_15_def)
  ultimately show ?thesis
    by (simp add: hash256_block_def mask_32bit_def)
qed

definition schedule_16 :: "word_t list" where
  "schedule_16 =
    [0x80000000, 0, 0, 0, 0, 0, 0, 0, 0, 0, 0, 0, 0, 0, 0, 0x200, 0x80000000, 0x1400000, 0x205000,
     0x5088, 0x22000800, 0x22550014, 0x5089742, 0xA0000020, 0x5A880000, 0x5C9400, 0x16D49D,
     0xFA801F00, 0xD33225D0, 0x11675959, 0xF6E6BFDA, 0xB30C1549, 0x8B2B050, 0x9D7C4C27, 0xCE2A393,
     0x88E6E1EA, 0xA52B4335, 0x67A16F49, 0xD732016F, 0x4EEB2E91, 0x5DBF55E5, 0x8EEE2335, 0xE2BC5EC2,
     0xA83F4394, 0x45AD78F7, 0x36F3D0CD, 0xD99C05E8, 0xB0511DC7, 0x69BC7AC4, 0xBD11375B, 0xE3BA71E5,
     0x3B209FF2, 0x18FEEE17, 0xE25AD9E7, 0x13375046, 0x515089D, 0x4F0D0F04, 0x2627484E, 0x310128D2,
     0xC668B434, 0x420841CC, 0x62D311B8, 0xE59BA771, 0x85A7A484]"

lemma schedule_16_ok: "sched_ok schedule_16"
  by (simp add: schedule_16_def sha_ops)

lemma rounds_16_0:
  "rounds [0x428A2F98, 0x71374491, 0xB5C0FBCF, 0xE9B5DBA5, 0x3956C25B, 0x59F111F1, 0x923F82A4, 0xAB1C5ED5,
     0xD807AA98, 0x12835B01, 0x243185BE, 0x550C7DC3, 0x72BE5D74, 0x80DEB1FE, 0x9BDC06A7, 0xC19BF174]
    [0x80000000, 0, 0, 0, 0, 0, 0, 0, 0, 0, 0, 0, 0, 0, 0, 0x200]
    (0x4FFC6E67, 0x67899D72, 0x7C0DDAA1, 0x84636E1F, 0x4F367575, 0xADD58953, 0x43876CA9, 0x5E0C3329)
   = (0x61AA33B, 0xB2781F5A, 0xB1744AC9, 0x49C4D345, 0x614479F7, 0x4A63A4F2, 0xCE4169F3, 0x33F4D3DD)"
  by (simp add: round_step_eq sha_ops)

lemma rounds_16_1:
  "rounds [0xE49B69C1, 0xEFBE4786, 0xFC19DC6, 0x240CA1CC, 0x2DE92C6F, 0x4A7484AA, 0x5CB0A9DC, 0x76F988DA,
     0x983E5152, 0xA831C66D, 0xB00327C8, 0xBF597FC7, 0xC6E00BF3, 0xD5A79147, 0x6CA6351, 0x14292967]
    [0x80000000, 0x1400000, 0x205000, 0x5088, 0x22000800, 0x22550014, 0x5089742, 0xA0000020,
     0x5A880000, 0x5C9400, 0x16D49D, 0xFA801F00, 0xD33225D0, 0x11675959, 0xF6E6BFDA, 0xB30C1549]
    (0x61AA33B, 0xB2781F5A, 0xB1744AC9, 0x49C4D345, 0x614479F7, 0x4A63A4F2, 0xCE4169F3, 0x33F4D3DD)
   = (0x2C8E4123, 0xAF0B9A30, 0xC4D7D1B8, 0x59A30BD8, 0x5F0E8C3, 0x99A463B3, 0xFDDC9FE2, 0xC606FCC7)"
  by (simp add: round_step_eq sha_ops)

lemma rounds_16_2:
  "rounds [0x27B70A85, 0x2E1B2138, 0x4D2C6DFC, 0x53380D13, 0x650A7354, 0x766A0ABB, 0x81C2C92E, 0x92722C85,
     0xA2BFE8A1, 0xA81A664B, 0xC24B8B70, 0xC76C51A3, 0xD192E819, 0xD6990624, 0xF40E3585, 0x106AA070]
    [0x8B2B050, 0x9D7C4C27, 0xCE2A393, 0x88E6E1EA, 0xA52B4335, 0x67A16F49, 0xD732016F, 0x4EEB2E91,
     0x5DBF55E5, 0x8EEE2335, 0xE2BC5EC2, 0xA83F4394, 0x45AD78F7, 0x36F3D0CD, 0xD99C05E8, 0xB0511DC7]
    (0x2C8E4123, 0xAF0B9A30, 0xC4D7D1B8, 0x59A30BD8, 0x5F0E8C3, 0x99A463B3, 0xFDDC9FE2, 0xC606FCC7)
   = (0xFB0A20EC, 0xCC04FB15, 0x43332C54, 0x217836DD, 0x9C7C79B, 0x94A27B9B, 0xC9C3DACD, 0x7EF2C131)"
  by (simp add: round_step_eq sha_ops)

lemma rounds_16_3:
  "rounds [0x19A4C116, 0x1E376C08, 0x2748774C, 0x34B0BCB5, 0x391C0CB3, 0x4ED8AA4A, 0x5B9CCA4F, 0x682E6FF3,
     0x748F82EE, 0x78A5636F, 0x84C87814, 0x8CC70208, 0x90BEFFFA, 0xA4506CEB, 0xBEF9A3F7, 0xC67178F2]
    [0x69BC7AC4, 0xBD11375B, 0xE3BA71E5, 0x3B209FF2, 0x18FEEE17, 0xE25AD9E7, 0x13375046, 0x515089D,
     0x4F0D0F04, 0x2627484E, 0x310128D2, 0xC668B434, 0x420841CC, 0x62D311B8, 0xE59BA771, 0x85A7A484]
    (0xFB0A20EC, 0xCC04FB15, 0x43332C54, 0x217836DD, 0x9C7C79B, 0x94A27B9B, 0xC9C3DACD, 0x7EF2C131)
   = (0x2AA09289, 0x6C8E5F4C, 0xC6466906, 0x616DE99A, 0xDB7D6882, 0xD2B2DA37, 0x91E49524, 0xD22B289C)"
  by (simp add: round_step_eq sha_ops)

lemma compression_16:
  "hash256_block [0x4FFC6E67, 0x67899D72, 0x7C0DDAA1, 0x84636E1F, 0x4F367575, 0xADD58953, 0x43876CA9, 0x5E0C3329]
    [0x80, 0, 0, 0, 0, 0, 0, 0, 0, 0, 0, 0, 0, 0, 0, 0, 0, 0, 0, 0, 0, 0, 0, 0, 0, 0, 0, 0, 0, 0, 0,
     0, 0, 0, 0, 0, 0, 0, 0, 0, 0, 0, 0, 0, 0, 0, 0, 0, 0, 0, 0, 0, 0, 0, 0, 0, 0, 0, 0, 0, 0, 0, 2,
     0]
   = [0x7A9D00F0, 0xD417FCBE, 0x425443A7, 0xE5D157B9, 0x2AB3DDF7, 0x8088638A, 0xD56C01CD, 0x30375BC5]"
proof -
  let ?blk = "[0x80, 0, 0, 0, 0, 0, 0, 0, 0, 0, 0, 0, 0, 0, 0, 0, 0, 0, 0, 0, 0, 0, 0, 0, 0, 0, 0, 0, 0, 0, 0,
     0, 0, 0, 0, 0, 0, 0, 0, 0, 0, 0, 0, 0, 0, 0, 0, 0, 0, 0, 0, 0, 0, 0, 0, 0, 0, 0, 0, 0, 0, 0, 2,
     0] :: bytes"
  have "map (block_word ?blk) [0..<16] = take 16 schedule_16"
    unfolding block_words by (simp add: block_word_def mask_8bit_def schedule_16_def)
  then have "message_schedule ?blk = schedule_16"
    by (intro message_scheduleI schedule_16_ok) (simp_all add: schedule_16_def)
  moreover have "rounds add_constant schedule_16 (0x4FFC6E67, 0x67899D72, 0x7C0DDAA1, 0x84636E1F, 0x4F367575, 0xADD58953, 0x43876CA9, 0x5E0C3329) = (0x2AA09289, 0x6C8E5F4C, 0xC6466906, 0x616DE99A, 0xDB7D6882, 0xD2B2DA37, 0x91E49524, 0xD22B289C)"
    using rounds_chunks [OF rounds_16_0 rounds_16_1 rounds_16_2 rounds_16_3]
    by (simp add: add_constant_def schedule_16_def)
  ultimately show ?thesis
    by (simp add: hash256_block_def mask_32bit_def)
qed

definition schedule_17 :: "word_t list" where
  "schedule_17 =
    [0x7A9D00F0, 0xD417FCBE, 0x425443A7, 0xE5D157B9, 0x2AB3DDF7, 0x8088638A, 0xD56C01CD, 0x30375BC5,
     0x80000000, 0, 0, 0, 0, 0, 0, 0x100, 0x12A2665B, 0x2ADFED24, 0xFCD6786F, 0xD8C5631, 0x3BABCEFA,
     0xA3DA554D, 0xCEB07CE2, 0xB4017523, 0xDCBE7FB5, 0x90EF254C, 0xFDA7D088, 0xB1D7B09D, 0xB6445DE0,
     0xFD21981F, 0x59A35242, 0x9D996B6, 0x1D57E3A1, 0x80900E26, 0x3278F30E, 0xCB850912, 0xBB273F5D,
     0xE68B6248, 0x5D96781E, 0x9E71EA36, 0x92D92D9A, 0x864FA3BF, 0x3E05BC1D, 0x5364BE96, 0x4CAC0950,
     0x7E5D05B2, 0x862B44C6, 0x789BC0DA, 0xCD1C225D, 0x7DE6830A, 0x99D6E39A, 0xDF1E2AD, 0x3CAAF2A7,
     0xE2C576E2, 0x1BA0582, 0xED3BDC58, 0xDA5B69B2, 0x87EA0A0, 0x2F4109FC, 0xBFAE95E8, 0xFF974766,
     0x65764E56, 0xA9C38C2, 0xEC9E9D5A]"

lemma schedule_17_ok: "sched_ok schedule_17"
  by (simp add: schedule_17_def sha_ops)

lemma rounds_17_0:
  "rounds [0x428A2F98, 0x71374491, 0xB5C0FBCF, 0xE9B5DBA5, 0x3956C25B, 0x59F111F1, 0x923F82A4, 0xAB1C5ED5,
     0xD807AA98, 0x12835B01, 0x243185BE, 0x550C7DC3, 0x72BE5D74, 0x80DEB1FE, 0x9BDC06A7, 0xC19BF174]
    [0x7A9D00F0, 0xD417FCBE, 0x425443A7, 0xE5D157B9, 0x2AB3DDF7, 0x8088638A, 0xD56C01CD, 0x30375BC5,
     0x80000000, 0, 0, 0, 0, 0, 0, 0x100]
    (0x6A09E667, 0xBB67AE85, 0x3C6EF372, 0xA54FF53A, 0x510E527F, 0x9B05688C, 0x1F83D9AB, 0x5BE0CD19)
   = (0xD0B4077F, 0xE67D3C69, 0xECA7B4CE, 0x7B92ED79, 0x406F5294, 0x4394BA80, 0xC1F15907, 0x14659B44)"
  by (simp add: round_step_eq sha_ops)

lemma rounds_17_1:
  "rounds [0xE49B69C1, 0xEFBE4786, 0xFC19DC6, 0x240CA1CC, 0x2DE92C6F, 0x4A7484AA, 0x5CB0A9DC, 0x76F988DA,
     0x983E5152, 0xA831C66D, 0xB00327C8, 0xBF597FC7, 0xC6E00BF3, 0xD5A79147, 0x6CA6351, 0x14292967]
    [0x12A2665B, 0x2ADFED24, 0xFCD6786F, 0xD8C5631, 0x3BABCEFA, 0xA3DA554D, 0xCEB07CE2, 0xB4017523,
     0xDCBE7FB5, 0x90EF254C, 0xFDA7D088, 0xB1D7B09D, 0xB6445DE0, 0xFD21981F, 0x59A35242, 0x9D996B6]
    (0xD0B4077F, 0xE67D3C69, 0xECA7B4CE, 0x7B92ED79, 0x406F5294, 0x4394BA80, 0xC1F15907, 0x14659B44)
   = (0x81C3CA33, 0xBC21A08E, 0x6445ADF1, 0x13FABA6F, 0x1F7EDC1A, 0xCE39802D, 0x3C051383, 0x2323C798)"
  by (simp add: round_step_eq sha_ops)

lemma rounds_17_2:
  "rounds [0x27B70A85, 0x2E1B2138, 0x4D2C6DFC, 0x53380D13, 0x650A7354, 0x766A0ABB, 0x81C2C92E, 0x92722C85,
     0xA2BFE8A1, 0xA81A664B, 0xC24B8B70, 0xC76C51A3, 0xD192E819, 0xD6990624, 0xF40E3585, 0x106AA070]
    [0x1D57E3A1, 0x80900E26, 0x3278F30E, 0xCB850912, 0xBB273F5D, 0xE68B6248, 0x5D96781E, 0x9E71EA36,
     0x92D92D9A, 0x864FA3BF, 0x3E05BC1D, 0x5364BE96, 0x4CAC0950, 0x7E5D05B2, 0x862B44C6, 0x789BC0DA]
    (0x81C3CA33, 0xBC21A08E, 0x6445ADF1, 0x13FABA6F, 0x1F7EDC1A, 0xCE39802D, 0x3C051383, 0x2323C798)
   = (0x40FBB3DC, 0x2CE2BE0C, 0x2E631306, 0x61C9E09D, 0xA9E98E13, 0x2F831C8B, 0xE36BE742, 0xAEB2AB05)"
  by (simp add: round_step_eq sha_ops)

lemma rounds_17_3:
  "rounds [0x19A4C116, 0x1E376C08, 0x2748774C, 0x34B0BCB5, 0x391C0CB3, 0x4ED8AA4A, 0x5B9CCA4F, 0x682E6FF3,
     0x748F82EE, 0x78A5636F, 0x84C87814, 0x8CC70208, 0x90BEFFFA, 0xA4506CEB, 0xBEF9A3F7, 0xC67178F2]
    [0xCD1C225D, 0x7DE6830A, 0x99D6E39A, 0xDF1E2AD, 0x3CAAF2A7, 0xE2C576E2, 0x1BA0582, 0xED3BDC58,
     0xDA5B69B2, 0x87EA0A0, 0x2F4109FC, 0xBFAE95E8, 0xFF974766, 0x65764E56, 0xA9C38C2, 0xEC9E9D5A]
    (0x40FBB3DC, 0x2CE2BE0C, 0x2E631306, 0x61C9E09D, 0xA9E98E13, 0x2F831C8B, 0xE36BE742, 0xAEB2AB05)
   = (0x51A18535, 0x85CBED4C, 0x93DEE9CD, 0x500494A0, 0xC1C84940, 0x5DF1A763, 0xEEB207B2, 0x97066400)"
  by (simp add: round_step_eq sha_ops)

lemma compression_17:
  "hash256_block [0x6A09E667, 0xBB67AE85, 0x3C6EF372, 0xA54FF53A, 0x510E527F, 0x9B05688C, 0x1F83D9AB, 0x5BE0CD19]
    [0x7A, 0x9D, 0, 0xF0, 0xD4, 0x17, 0xFC, 0xBE, 0x42, 0x54, 0x43, 0xA7, 0xE5, 0xD1, 0x57, 0xB9,
     0x2A, 0xB3, 0xDD, 0xF7, 0x80, 0x88, 0x63, 0x8A, 0xD5, 0x6C, 1, 0xCD, 0x30, 0x37, 0x5B, 0xC5,
     0x80, 0, 0, 0, 0, 0, 0, 0, 0, 0, 0, 0, 0, 0, 0, 0, 0, 0, 0, 0, 0, 0, 0, 0, 0, 0, 0, 0, 0, 0, 1,
     0]
   = [0xBBAB6B9C, 0x41339BD1, 0xD04DDD3F, 0xF55489DA, 0x12D69BBF, 0xF8F70FEF, 0xE35E15D, 0xF2E73119]"
proof -
  let ?blk = "[0x7A, 0x9D, 0, 0xF0, 0xD4, 0x17, 0xFC, 0xBE, 0x42, 0x54, 0x43, 0xA7, 0xE5, 0xD1, 0x57, 0xB9,
     0x2A, 0xB3, 0xDD, 0xF7, 0x80, 0x88, 0x63, 0x8A, 0xD5, 0x6C, 1, 0xCD, 0x30, 0x37, 0x5B, 0xC5,
     0x80, 0, 0, 0, 0, 0, 0, 0, 0, 0, 0, 0, 0, 0, 0, 0, 0, 0, 0, 0, 0, 0, 0, 0, 0, 0, 0, 0, 0, 0, 1,
     0] :: bytes"
  have "map (block_word ?blk) [0..<16] = take 16 schedule_17"
    unfolding block_words by (simp add: block_word_def mask_8bit_def schedule_17_def)
  then have "message_schedule ?blk = schedule_17"
    by (intro message_scheduleI schedule_17_ok) (simp_all add: schedule_17_def)
  moreover have "rounds add_constant schedule_17 (0x6A09E667, 0xBB67AE85, 0x3C6EF372, 0xA54FF53A, 0x510E527F, 0x9B05688C, 0x1F83D9AB, 0x5BE0CD19) = (0x51A18535, 0x85CBED4C, 0x93DEE9CD, 0x500494A0, 0xC1C84940, 0x5DF1A763, 0xEEB207B2, 0x97066400)"
    using rounds_chunks [OF rounds_17_0 rounds_17_1 rounds_17_2 rounds_17_3]
    by (simp add: add_constant_def schedule_17_def)
  ultimately show ?thesis
    by (simp add: hash256_block_def mask_32bit_def)
qed

definition schedule_18 :: "word_t list" where
  "schedule_18 =
    [0x1000000, 0x5D674205, 0xF3702F5E, 0x601CDD35, 0x220E910C, 0x9CBF5DFF, 0x749272C4, 0xF4808E40,
     0x90F1B164, 0xBBAB6B9C, 0x41339BD1, 0xD04DDD3F, 0xF55489DA, 0x12D69BBF, 0xF8F70FEF, 0xE35E15D,
     0xF4771BDF, 0x9380E2E3, 0x83F6202B, 0x7AC18A17, 0x44E6EB03, 0xA4D8C7E1, 0xE8A2756A, 0x1B846C57,
     0x8D79AB6D, 0x47995F71, 0xAFD4236F, 0x22B2BB27, 0xAAFE3C8, 0x98DDCA9, 0xE5A8C0A4, 0x5905439B,
     0xA27FF91A, 0x1C7155FC, 0xED57E2C6, 0xBA8DC151, 0x41A086EA, 0x38CD825B, 0x4BB1FD7D, 0xCFDBD2F5,
     0x288F2AF0, 0x8A87B2F7, 0xBF69121A, 0xFD0D7925, 0x12E81A8F, 0xCE204D9E, 0x310BD97D, 0x90314DA0,
     0x736EF76B, 0xD3DCA72B, 0x541A355D, 0x91C80254, 0x3DCFC007, 0xF7DC136E, 0xFAC913D8, 0xFF2F0D99,
     0xBB0DBE2E, 0xABF753C2, 0xC440288B, 0x996C4E5B, 0x5369B33F, 0x81C666DD, 0x2075EFEE, 0xB025ECE8]"

lemma schedule_18_ok: "sched_ok schedule_18"
  by (simp add: schedule_18_def sha_ops)

lemma rounds_18_0:
  "rounds [0x428A2F98, 0x71374491, 0xB5C0FBCF, 0xE9B5DBA5, 0x3956C25B, 0x59F111F1, 0x923F82A4, 0xAB1C5ED5,
     0xD807AA98, 0x12835B01, 0x243185BE, 0x550C7DC3, 0x72BE5D74, 0x80DEB1FE, 0x9BDC06A7, 0xC19BF174]
    [0x1000000, 0x5D674205, 0xF3702F5E, 0x601CDD35, 0x220E910C, 0x9CBF5DFF, 0x749272C4, 0xF4808E40,
     0x90F1B164, 0xBBAB6B9C, 0x41339BD1, 0xD04DDD3F, 0xF55489DA, 0x12D69BBF, 0xF8F70FEF, 0xE35E15D]
    (0x6A09E667, 0xBB67AE85, 0x3C6EF372, 0xA54FF53A, 0x510E527F, 0x9B05688C, 0x1F83D9AB, 0x5BE0CD19)
   = (0xF4643AB2, 0x44437646, 0x7ADE5034, 0x6EB77ABC, 0xC7C214C2, 0xF53F4619, 0xCF1D3632, 0x46EE5B12)"
  by (simp add: round_step_eq sha_ops)

lemma rounds_18_1:
  "rounds [0xE49B69C1, 0xEFBE4786, 0xFC19DC6, 0x240CA1CC, 0x2DE92C6F, 0x4A7484AA, 0x5CB0A9DC, 0x76F988DA,
     0x983E5152, 0xA831C66D, 0xB00327C8, 0xBF597FC7, 0xC6E00BF3, 0xD5A79147, 0x6CA6351, 0x14292967]
    [0xF4771BDF, 0x9380E2E3, 0x83F6202B, 0x7AC18A17, 0x44E6EB03, 0xA4D8C7E1, 0xE8A2756A, 0x1B846C57,
     0x8D79AB6D, 0x47995F71, 0xAFD4236F, 0x22B2BB27, 0xAAFE3C8, 0x98DDCA9, 0xE5A8C0A4, 0x5905439B]
    (0xF4643AB2, 0x44437646, 0x7ADE5034, 0x6EB77ABC, 0xC7C214C2, 0xF53F4619, 0xCF1D3632, 0x46EE5B12)
   = (0x9CBEA705, 0xC4A9A1B8, 0x56953A4B, 0x280070BA, 0x1A272A41, 0x6C494CBA, 0xCDF83241, 0xDEF2BE1)"
  by (simp add: round_step_eq sha_ops)

lemma rounds_18_2:
  "rounds [0x27B70A85, 0x2E1B2138, 0x4D2C6DFC, 0x53380D13, 0x650A7354, 0x766A0ABB, 0x81C2C92E, 0x92722C85,
     0xA2BFE8A1, 0xA81A664B, 0xC24B8B70, 0xC76C51A3, 0xD192E819, 0xD6990624, 0xF40E3585, 0x106AA070]
    [0xA27FF91A, 0x1C7155FC, 0xED57E2C6, 0xBA8DC151, 0x41A086EA, 0x38CD825B, 0x4BB1FD7D, 0xCFDBD2F5,
     0x288F2AF0, 0x8A87B2F7, 0xBF69121A, 0xFD0D7925, 0x12E81A8F, 0xCE204D9E, 0x310BD97D, 0x90314DA0]
    (0x9CBEA705, 0xC4A9A1B8, 0x56953A4B, 0x280070BA, 0x1A272A41, 0x6C494CBA, 0xCDF83241, 0xDEF2BE1)
   = (0x4D82D53, 0x9DC5C15, 0x2AC6AE1, 0xE1D5E346, 0x2C4277A1, 0x8F4EC3C4, 0x22180C7F, 0x9344617C)"
  by (simp add: round_step_eq sha_ops)

lemma rounds_18_3:
  "rounds [0x19A4C116, 0x1E376C08, 0x2748774C, 0x34B0BCB5, 0x391C0CB3, 0x4ED8AA4A, 0x5B9CCA4F, 0x682E6FF3,
     0x748F82EE, 0x78A5636F, 0x84C87814, 0x8CC70208, 0x90BEFFFA, 0xA4506CEB, 0xBEF9A3F7, 0xC67178F2]
    [0x736EF76B, 0xD3DCA72B, 0x541A355D, 0x91C80254, 0x3DCFC007, 0xF7DC136E, 0xFAC913D8, 0xFF2F0D99,
     0xBB0DBE2E, 0xABF753C2, 0xC440288B, 0x996C4E5B, 0x5369B33F, 0x81C666DD, 0x2075EFEE, 0xB025ECE8]
    (0x4D82D53, 0x9DC5C15, 0x2AC6AE1, 0xE1D5E346, 0x2C4277A1, 0x8F4EC3C4, 0x22180C7F, 0x9344617C)
   = (0x39FF6FAD, 0xAAD79368, 0xB18A8D33, 0x589C26CF, 0x84D49C1, 0xC7F99E0C, 0xABD5E30E, 0x1146B644)"
  by (simp add: round_step_eq sha_ops)

lemma compression_18:
  "hash256_block [0x6A09E667, 0xBB67AE85, 0x3C6EF372, 0xA54FF53A, 0x510E527F, 0x9B05688C, 0x1F83D9AB, 0x5BE0CD19]
    [1, 0, 0, 0, 0x5D, 0x67, 0x42, 5, 0xF3, 0x70, 0x2F, 0x5E, 0x60, 0x1C, 0xDD, 0x35, 0x22, 0xE,
     0x91, 0xC, 0x9C, 0xBF, 0x5D, 0xFF, 0x74, 0x92, 0x72, 0xC4, 0xF4, 0x80, 0x8E, 0x40, 0x90, 0xF1,
     0xB1, 0x64, 0xBB, 0xAB, 0x6B, 0x9C, 0x41, 0x33, 0x9B, 0xD1, 0xD0, 0x4D, 0xDD, 0x3F, 0xF5, 0x54,
     0x89, 0xDA, 0x12, 0xD6, 0x9B, 0xBF, 0xF8, 0xF7, 0xF, 0xEF, 0xE, 0x35, 0xE1, 0x5D]
   = [0xA4095614, 0x663F41ED, 0xEDF980A5, 0xFDEC1C09, 0x595B9C40, 0x62FF0698, 0xCB59BCB9, 0x6D27835D]"
proof -
  let ?blk = "[1, 0, 0, 0, 0x5D, 0x67, 0x42, 5, 0xF3, 0x70, 0x2F, 0x5E, 0x60, 0x1C, 0xDD, 0x35, 0x22, 0xE,
     0x91, 0xC, 0x9C, 0xBF, 0x5D, 0xFF, 0x74, 0x92, 0x72, 0xC4, 0xF4, 0x80, 0x8E, 0x40, 0x90, 0xF1,
     0xB1, 0x64, 0xBB, 0xAB, 0x6B, 0x9C, 0x41, 0x33, 0x9B, 0xD1, 0xD0, 0x4D, 0xDD, 0x3F, 0xF5, 0x54,
     0x89, 0xDA, 0x12, 0xD6, 0x9B, 0xBF, 0xF8, 0xF7, 0xF, 0xEF, 0xE, 0x35, 0xE1, 0x5D] :: bytes"
  have "map (block_word ?blk) [0..<16] = take 16 schedule_18"
    unfolding block_words by (simp add: block_word_def mask_8bit_def schedule_18_def)
  then have "message_schedule ?blk = schedule_18"
    by (intro message_scheduleI schedule_18_ok) (simp_all add: schedule_18_def)
  moreover have "rounds add_constant schedule_18 (0x6A09E667, 0xBB67AE85, 0x3C6EF372, 0xA54FF53A, 0x510E527F, 0x9B05688C, 0x1F83D9AB, 0x5BE0CD19) = (0x39FF6FAD, 0xAAD79368, 0xB18A8D33, 0x589C26CF, 0x84D49C1, 0xC7F99E0C, 0xABD5E30E, 0x1146B644)"
    using rounds_chunks [OF rounds_18_0 rounds_18_1 rounds_18_2 rounds_18_3]
    by (simp add: add_constant_def schedule_18_def)
  ultimately show ?thesis
    by (simp add: hash256_block_def mask_32bit_def)
qed

definition schedule_19 :: "word_t list" where
  "schedule_19 =
    [0xF2E73119, 0x3F15365, 0xFFFF7F20, 0, 0x80000000, 0, 0, 0, 0, 0, 0, 0, 0, 0, 0, 0x280,
     0x9187B94F, 0x86C9824A, 0x2BA9DA3D, 0x24DC1DD, 0x5653DAD7, 0x58D5B21F, 0x9624D795, 0xE22B6B,
     0x77E7732D, 0x7C82B324, 0x5A3CAEB0, 0x663D6C54, 0x1B6E5B91, 0xB1DE0817, 0xE83EA10C, 0xA04CEB3D,
     0x77EE5622, 0xD384CA28, 0x3DEA385B, 0x6CF4B969, 0xBC8831C6, 0x18A4B0C9, 0xB22DAFAE, 0xD0248571,
     0x991A8DAF, 0xCCEFC0BA, 0xDD94B003, 0xF2FDF352, 0xBDA78E13, 0x589FE38E, 0x44CE53A3, 0x26A2C523,
     0xA1F0B476, 0x2B263560, 0x6EA349FA, 0x9D4CDA6F, 0xA01980FC, 0x749AB4C6, 0xA212E4ED, 0x6E768F42,
     0x8F2F39AE, 0x1EF3A0F, 0xBE11E161, 0xE0A8E109, 0xEE37051C, 0x424936D4, 0x92D1E87, 0x47D2998B]"

lemma schedule_19_ok: "sched_ok schedule_19"
  by (simp add: schedule_19_def sha_ops)

lemma rounds_19_0:
  "rounds [0x428A2F98, 0x71374491, 0xB5C0FBCF, 0xE9B5DBA5, 0x3956C25B, 0x59F111F1, 0x923F82A4, 0xAB1C5ED5,
     0xD807AA98, 0x12835B01, 0x243185BE, 0x550C7DC3, 0x72BE5D74, 0x80DEB1FE, 0x9BDC06A7, 0xC19BF174]
    [0xF2E73119, 0x3F15365, 0xFFFF7F20, 0, 0x80000000, 0, 0, 0, 0, 0, 0, 0, 0, 0, 0, 0x280]
    (0xA4095614, 0x663F41ED, 0xEDF980A5, 0xFDEC1C09, 0x595B9C40, 0x62FF0698, 0xCB59BCB9, 0x6D27835D)
   = (0x43200F19, 0x315ABC9D, 0xFF85E583, 0xDBC7A9CE, 0x11307DFC, 0x36476F8C, 0xE1CE78DC, 0x53B79632)"
  by (simp add: round_step_eq sha_ops)

lemma rounds_19_1:
  "rounds [0xE49B69C1, 0xEFBE4786, 0xFC19DC6, 0x240CA1CC, 0x2DE92C6F, 0x4A7484AA, 0x5CB0A9DC, 0x76F988DA,
     0x983E5152, 0xA831C66D, 0xB00327C8, 0xBF597FC7, 0xC6E00BF3, 0xD5A79147, 0x6CA6351, 0x14292967]
    [0x9187B94F, 0x86C9824A, 0x2BA9DA3D, 0x24DC1DD, 0x5653DAD7, 0x58D5B21F, 0x9624D795, 0xE22B6B,
     0x77E7732D, 0x7C82B324, 0x5A3CAEB0, 0x663D6C54, 0x1B6E5B91, 0xB1DE0817, 0xE83EA10C, 0xA04CEB3D]
    (0x43200F19, 0x315ABC9D, 0xFF85E583, 0xDBC7A9CE, 0x11307DFC, 0x36476F8C, 0xE1CE78DC, 0x53B79632)
   = (0x145F6F16, 0x34C06B50, 0xC08D7C97, 0x6679E1D2, 0xD23FF863, 0x16B0715E, 0xB2415B45, 0xD024BC06)"
  by (simp add: round_step_eq sha_ops)

lemma rounds_19_2:
  "rounds [0x27B70A85, 0x2E1B2138, 0x4D2C6DFC, 0x53380D13, 0x650A7354, 0x766A0ABB, 0x81C2C92E, 0x92722C85,
     0xA2BFE8A1, 0xA81A664B, 0xC24B8B70, 0xC76C51A3, 0xD192E819, 0xD6990624, 0xF40E3585, 0x106AA070]
    [0x77EE5622, 0xD384CA28, 0x3DEA385B, 0x6CF4B969, 0xBC8831C6, 0x18A4B0C9, 0xB22DAFAE, 0xD0248571,
     0x991A8DAF, 0xCCEFC0BA, 0xDD94B003, 0xF2FDF352, 0xBDA78E13, 0x589FE38E, 0x44CE53A3, 0x26A2C523]
    (0x145F6F16, 0x34C06B50, 0xC08D7C97, 0x6679E1D2, 0xD23FF863, 0x16B0715E, 0xB2415B45, 0xD024BC06)
   = (0xFCA50174, 0x89F04228, 0xC06998CD, 0xF2AE5CE8, 0xD27206C5, 0xB7632BD3, 0xCF314C4E, 0xE45681CB)"
  by (simp add: round_step_eq sha_ops)

lemma rounds_19_3:
  "rounds [0x19A4C116, 0x1E376C08, 0x2748774C, 0x34B0BCB5, 0x391C0CB3, 0x4ED8AA4A, 0x5B9CCA4F, 0x682E6FF3,
     0x748F82EE, 0x78A5636F, 0x84C87814, 0x8CC70208, 0x90BEFFFA, 0xA4506CEB, 0xBEF9A3F7, 0xC67178F2]
    [0xA1F0B476, 0x2B263560, 0x6EA349FA, 0x9D4CDA6F, 0xA01980FC, 0x749AB4C6, 0xA212E4ED, 0x6E768F42,
     0x8F2F39AE, 0x1EF3A0F, 0xBE11E161, 0xE0A8E109, 0xEE37051C, 0x424936D4, 0x92D1E87, 0x47D2998B]
    (0xFCA50174, 0x89F04228, 0xC06998CD, 0xF2AE5CE8, 0xD27206C5, 0xB7632BD3, 0xCF314C4E, 0xE45681CB)
   = (0xED1AC314, 0xD7AF91AB, 0x6945A98C, 0xCFDE8A07, 0x80073BE, 0x521BC916, 0x2D6B83FB, 0x4FC480E9)"
  by (simp add: round_step_eq sha_ops)

lemma compression_19:
  "hash256_block [0xA4095614, 0x663F41ED, 0xEDF980A5, 0xFDEC1C09, 0x595B9C40, 0x62FF0698, 0xCB59BCB9, 0x6D27835D]
    [0xF2, 0xE7, 0x31, 0x19, 3, 0xF1, 0x53, 0x65, 0xFF, 0xFF, 0x7F, 0x20, 0, 0, 0, 0, 0x80, 0, 0, 0,
     0, 0, 0, 0, 0, 0, 0, 0, 0, 0, 0, 0, 0, 0, 0, 0, 0, 0, 0, 0, 0, 0, 0, 0, 0, 0, 0, 0, 0, 0, 0, 0,
     0, 0, 0, 0, 0, 0, 0, 0, 0, 0, 2, 0x80]
   = [0x91241928, 0x3DEED398, 0x573F2A31, 0xCDCAA610, 0x615C0FFE, 0xB51ACFAE, 0xF8C540B4, 0xBCEC0446]"
proof -
  let ?blk = "[0xF2, 0xE7, 0x31, 0x19, 3, 0xF1, 0x53, 0x65, 0xFF, 0xFF, 0x7F, 0x20, 0, 0, 0, 0, 0x80, 0, 0, 0,
     0, 0, 0, 0, 0, 0, 0, 0, 0, 0, 0, 0, 0, 0, 0, 0, 0, 0, 0, 0, 0, 0, 0, 0, 0, 0, 0, 0, 0, 0, 0, 0,
     0, 0, 0, 0, 0, 0, 0, 0, 0, 0, 2, 0x80] :: bytes"
  have "map (block_word ?blk) [0..<16] = take 16 schedule_19"
    unfolding block_words by (simp add: block_word_def mask_8bit_def schedule_19_def)
  then have "message_schedule ?blk = schedule_19"
    by (intro message_scheduleI schedule_19_ok) (simp_all add: schedule_19_def)
  moreover have "rounds add_constant schedule_19 (0xA4095614, 0x663F41ED, 0xEDF980A5, 0xFDEC1C09, 0x595B9C40, 0x62FF0698, 0xCB59BCB9, 0x6D27835D) = (0xED1AC314, 0xD7AF91AB, 0x6945A98C, 0xCFDE8A07, 0x80073BE, 0x521BC916, 0x2D6B83FB, 0x4FC480E9)"
    using rounds_chunks [OF rounds_19_0 rounds_19_1 rounds_19_2 rounds_19_3]
    by (simp add: add_constant_def schedule_19_def)
  ultimately show ?thesis
    by (simp add: hash256_block_def mask_32bit_def)
qed

definition schedule_20 :: "word_t list" where
  "schedule_20 =
    [0x91241928, 0x3DEED398, 0x573F2A31, 0xCDCAA610, 0x615C0FFE, 0xB51ACFAE, 0xF8C540B4, 0xBCEC0446,
     0x80000000, 0, 0, 0, 0, 0, 0, 0x100, 0x144421D7, 0xE154A275, 0x7DBA96CF, 0x862D616F,
     0x732010F9, 0xF89AA4DF, 0x9F3A995F, 0xE8FA6C14, 0x80F89551, 0xF96D6EC8, 0xDE502FB5, 0x8DA349B9,
     0xAB665C8, 0x6D033916, 0xE79A15CA, 0x21811BA8, 0x358C9FB9, 0xA34E3F7A, 0x7F16D73C, 0x621ABC6E,
     0x9B5F5FDF, 0xF465F861, 0xB4BA217E, 0xF7D36D4B, 0x4E71C06C, 0xCF518A09, 0xC9546B75, 0x25AA5697,
     0xA74260D3, 0x8F9C46FD, 0x6E612408, 0x6EAA34EB, 0x2A6EBFB9, 0x8C6A0388, 0xAC7F541B, 0xC69E1E0C,
     0xF1D6D26, 0x935F15C7, 0x90DF8E26, 0x2C0BE116, 0x7AC6530C, 0xF0D9078D, 0x33476445, 0x36554FE,
     0x949C3861, 0x756EEAFF, 0x8BB9AE4F, 0x6AA4D7AA]"

lemma schedule_20_ok: "sched_ok schedule_20"
  by (simp add: schedule_20_def sha_ops)

lemma rounds_20_0:
  "rounds [0x428A2F98, 0x71374491, 0xB5C0FBCF, 0xE9B5DBA5, 0x3956C25B, 0x59F111F1, 0x923F82A4, 0xAB1C5ED5,
     0xD807AA98, 0x12835B01, 0x243185BE, 0x550C7DC3, 0x72BE5D74, 0x80DEB1FE, 0x9BDC06A7, 0xC19BF174]
    [0x91241928, 0x3DEED398, 0x573F2A31, 0xCDCAA610, 0x615C0FFE, 0xB51ACFAE, 0xF8C540B4, 0xBCEC0446,
     0x80000000, 0, 0, 0, 0, 0, 0, 0x100]
    (0x6A09E667, 0xBB67AE85, 0x3C6EF372, 0xA54FF53A, 0x510E527F, 0x9B05688C, 0x1F83D9AB, 0x5BE0CD19)
   = (0x4AC835C8, 0x1993B854, 0x33F09D1E, 0x7709D96A, 0xFC69AF97, 0x3A4B47A9, 0xEB691AD9, 0x5D7364FD)"
  by (simp add: round_step_eq sha_ops)

lemma rounds_20_1:
  "rounds [0xE49B69C1, 0xEFBE4786, 0xFC19DC6, 0x240CA1CC, 0x2DE92C6F, 0x4A7484AA, 0x5CB0A9DC, 0x76F988DA,
     0x983E5152, 0xA831C66D, 0xB00327C8, 0xBF597FC7, 0xC6E00BF3, 0xD5A79147, 0x6CA6351, 0x14292967]
    [0x144421D7, 0xE154A275, 0x7DBA96CF, 0x862D616F, 0x732010F9, 0xF89AA4DF, 0x9F3A995F, 0xE8FA6C14,
     0x80F89551, 0xF96D6EC8, 0xDE502FB5, 0x8DA349B9, 0xAB665C8, 0x6D033916, 0xE79A15CA, 0x21811BA8]
    (0x4AC835C8, 0x1993B854, 0x33F09D1E, 0x7709D96A, 0xFC69AF97, 0x3A4B47A9, 0xEB691AD9, 0x5D7364FD)
   = (0xDEA2A6E5, 0x15122404, 0x7852303A, 0x2E21F23F, 0x69EF2A22, 0x4D45988D, 0x1380EB92, 0x42B0D2EE)"
  by (simp add: round_step_eq sha_ops)

lemma rounds_20_2:
  "rounds [0x27B70A85, 0x2E1B2138, 0x4D2C6DFC, 0x53380D13, 0x650A7354, 0x766A0ABB, 0x81C2C92E, 0x92722C85,
     0xA2BFE8A1, 0xA81A664B, 0xC24B8B70, 0xC76C51A3, 0xD192E819, 0xD6990624, 0xF40E3585, 0x106AA070]
    [0x358C9FB9, 0xA34E3F7A, 0x7F16D73C, 0x621ABC6E, 0x9B5F5FDF, 0xF465F861, 0xB4BA217E, 0xF7D36D4B,
     0x4E71C06C, 0xCF518A09, 0xC9546B75, 0x25AA5697, 0xA74260D3, 0x8F9C46FD, 0x6E612408, 0x6EAA34EB]
    (0xDEA2A6E5, 0x15122404, 0x7852303A, 0x2E21F23F, 0x69EF2A22, 0x4D45988D, 0x1380EB92, 0x42B0D2EE)
   = (0x4CBC6C9E, 0x15F9850B, 0x24A64B5, 0xA49B5F66, 0xCF7AF1CD, 0x32B1193E, 0xADF05B18, 0xCFCBA990)"
  by (simp add: round_step_eq sha_ops)

lemma rounds_20_3:
  "rounds [0x19A4C116, 0x1E376C08, 0x2748774C, 0x34B0BCB5, 0x391C0CB3, 0x4ED8AA4A, 0x5B9CCA4F, 0x682E6FF3,
     0x748F82EE, 0x78A5636F, 0x84C87814, 0x8CC70208, 0x90BEFFFA, 0xA4506CEB, 0xBEF9A3F7, 0xC67178F2]
    [0x2A6EBFB9, 0x8C6A0388, 0xAC7F541B, 0xC69E1E0C, 0xF1D6D26, 0x935F15C7, 0x90DF8E26, 0x2C0BE116,
     0x7AC6530C, 0xF0D9078D, 0x33476445, 0x36554FE, 0x949C3861, 0x756EEAFF, 0x8BB9AE4F, 0x6AA4D7AA]
    (0x4CBC6C9E, 0x15F9850B, 0x24A64B5, 0xA49B5F66, 0xCF7AF1CD, 0x32B1193E, 0xADF05B18, 0xCFCBA990)
   = (0x92F1BC1, 0xA9CA89C5, 0xBE8DFF33, 0xF245B94, 0xE7A22673, 0x11D2BA57, 0xA3BA712B, 0x8F646D46)"
  by (simp add: round_step_eq sha_ops)

lemma compression_20:
  "hash256_block [0x6A09E667, 0xBB67AE85, 0x3C6EF372, 0xA54FF53A, 0x510E527F, 0x9B05688C, 0x1F83D9AB, 0x5BE0CD19]
    [0x91, 0x24, 0x19, 0x28, 0x3D, 0xEE, 0xD3, 0x98, 0x57, 0x3F, 0x2A, 0x31, 0xCD, 0xCA, 0xA6, 0x10,
     0x61, 0x5C, 0xF, 0xFE, 0xB5, 0x1A, 0xCF, 0xAE, 0xF8, 0xC5, 0x40, 0xB4, 0xBC, 0xEC, 4, 0x46,
     0x80, 0, 0, 0, 0, 0, 0, 0, 0, 0, 0, 0, 0, 0, 0, 0, 0, 0, 0, 0, 0, 0, 0, 0, 0, 0, 0, 0, 0, 0, 1,
     0]
   = [0x73390228, 0x6532384A, 0xFAFCF2A5, 0xB47450CE, 0x38B078F2, 0xACD822E3, 0xC33E4AD6, 0xEB453A5F]"
proof -
  let ?blk = "[0x91, 0x24, 0x19, 0x28, 0x3D, 0xEE, 0xD3, 0x98, 0x57, 0x3F, 0x2A, 0x31, 0xCD, 0xCA, 0xA6, 0x10,
     0x61, 0x5C, 0xF, 0xFE, 0xB5, 0x1A, 0xCF, 0xAE, 0xF8, 0xC5, 0x40, 0xB4, 0xBC, 0xEC, 4, 0x46,
     0x80, 0, 0, 0, 0, 0, 0, 0, 0, 0, 0, 0, 0, 0, 0, 0, 0, 0, 0, 0, 0, 0, 0, 0, 0, 0, 0, 0, 0, 0, 1,
     0] :: bytes"
  have "map (block_word ?blk) [0..<16] = take 16 schedule_20"
    unfolding block_words by (simp add: block_word_def mask_8bit_def schedule_20_def)
  then have "message_schedule ?blk = schedule_20"
    by (intro message_scheduleI schedule_20_ok) (simp_all add: schedule_20_def)
  moreover have "rounds add_constant schedule_20 (0x6A09E667, 0xBB67AE85, 0x3C6EF372, 0xA54FF53A, 0x510E527F, 0x9B05688C, 0x1F83D9AB, 0x5BE0CD19) = (0x92F1BC1, 0xA9CA89C5, 0xBE8DFF33, 0xF245B94, 0xE7A22673, 0x11D2BA57, 0xA3BA712B, 0x8F646D46)"
    using rounds_chunks [OF rounds_20_0 rounds_20_1 rounds_20_2 rounds_20_3]
    by (simp add: add_constant_def schedule_20_def)
  ultimately show ?thesis
    by (simp add: hash256_block_def mask_32bit_def)
qed

definition schedule_21 :: "word_t list" where
  "schedule_21 =
    [0x60CCF119, 0xDDC93F55, 0x2386C340, 0xAF00B1D7, 0x13EA6024, 0xB5C0F51D, 0x9561234, 0x7A2759AC,
     0x375BE944, 0x61363F92, 0xAAAB16B8, 0x3C04C3C1, 0x3C6BCCB0, 0x118CC915, 0x6FD1B486, 0x14D6F3DB,
     0xAEA30210, 0x64F01069, 0xD7B96DDF, 0xC7E0BDA7, 0xD16E1AE2, 0x5C9EF8FD, 0x6E222A3A, 0x4115454A,
     0x938E1FCC, 0xE4B9F9BA, 0xF3CFEB8E, 0x661F806D, 0xBBECDEE4, 0x1BD59988, 0xADACE235, 0x1C661D8B,
     0x5B21BF36, 0x24639ABD, 0x9E5E441E, 0x9B057618, 0x270475A8, 0x13CC158C, 0xCE330AA, 0x3150783F,
     0xCD662F94, 0xAFAA46C9, 0x96F59EC4, 0xE26D6B60, 0xC187782A, 0x88016F3C, 0xC4F47C34, 0x8C4804CA,
     0x54E5CB74, 0x7E2912C9, 0x5D5DCC08, 0x51739876, 0x2DD575C3, 0x3191737D, 0x13C51F24, 0xD9E6D94D,
     0x8F1A34F8, 0xC103BEA2, 0xCC7B173E, 0x4CB1AB05, 0x10439A57, 0xEAD20847, 0xE2E403D2, 0xF15C5E34]"

lemma schedule_21_ok: "sched_ok schedule_21"
  by (simp add: schedule_21_def sha_ops)

lemma rounds_21_0:
  "rounds [0x428A2F98, 0x71374491, 0xB5C0FBCF, 0xE9B5DBA5, 0x3956C25B, 0x59F111F1, 0x923F82A4, 0xAB1C5ED5,
     0xD807AA98, 0x12835B01, 0x243185BE, 0x550C7DC3, 0x72BE5D74, 0x80DEB1FE, 0x9BDC06A7, 0xC19BF174]
    [0x60CCF119, 0xDDC93F55, 0x2386C340, 0xAF00B1D7, 0x13EA6024, 0xB5C0F51D, 0x9561234, 0x7A2759AC,
     0x375BE944, 0x61363F92, 0xAAAB16B8, 0x3C04C3C1, 0x3C6BCCB0, 0x118CC915, 0x6FD1B486, 0x14D6F3DB]
    (0x6A09E667, 0xBB67AE85, 0x3C6EF372, 0xA54FF53A, 0x510E527F, 0x9B05688C, 0x1F83D9AB, 0x5BE0CD19)
   = (0x2E331A11, 0x938D9AAB, 0x99B7944, 0xE8A9052D, 0xE90D126B, 0x85BF38EA, 0x8DD08AD4, 0xAD60408)"
  by (simp add: round_step_eq sha_ops)

lemma rounds_21_1:
  "rounds [0xE49B69C1, 0xEFBE4786, 0xFC19DC6, 0x240CA1CC, 0x2DE92C6F, 0x4A7484AA, 0x5CB0A9DC, 0x76F988DA,
     0x983E5152, 0xA831C66D, 0xB00327C8, 0xBF597FC7, 0xC6E00BF3, 0xD5A79147, 0x6CA6351, 0x14292967]
    [0xAEA30210, 0x64F01069, 0xD7B96DDF, 0xC7E0BDA7, 0xD16E1AE2, 0x5C9EF8FD, 0x6E222A3A, 0x4115454A,
     0x938E1FCC, 0xE4B9F9BA, 0xF3CFEB8E, 0x661F806D, 0xBBECDEE4, 0x1BD59988, 0xADACE235, 0x1C661D8B]
    (0x2E331A11, 0x938D9AAB, 0x99B7944, 0xE8A9052D, 0xE90D126B, 0x85BF38EA, 0x8DD08AD4, 0xAD60408)
   = (0x678242CF, 0x72689C8F, 0x9A00BA7E, 0xAA79BAC3, 0xF22872F, 0xB46BB69D, 0x78AA2814, 0xDF18775A)"
  by (simp add: round_step_eq sha_ops)

lemma rounds_21_2:
  "rounds [0x27B70A85, 0x2E1B2138, 0x4D2C6DFC, 0x53380D13, 0x650A7354, 0x766A0ABB, 0x81C2C92E, 0x92722C85,
     0xA2BFE8A1, 0xA81A664B, 0xC24B8B70, 0xC76C51A3, 0xD192E819, 0xD6990624, 0xF40E3585, 0x106AA070]
    [0x5B21BF36, 0x24639ABD, 0x9E5E441E, 0x9B057618, 0x270475A8, 0x13CC158C, 0xCE330AA, 0x3150783F,
     0xCD662F94, 0xAFAA46C9, 0x96F59EC4, 0xE26D6B60, 0xC187782A, 0x88016F3C, 0xC4F47C34, 0x8C4804CA]
    (0x678242CF, 0x72689C8F, 0x9A00BA7E, 0xAA79BAC3, 0xF22872F, 0xB46BB69D, 0x78AA2814, 0xDF18775A)
   = (0x46221E83, 0xB91122AC, 0x3BBCDB15, 0xCE8675ED, 0xA0FB17EC, 0x7020C3B0, 0xBE80C6F1, 0x8ECEB9C7)"
  by (simp add: round_step_eq sha_ops)

lemma rounds_21_3:
  "rounds [0x19A4C116, 0x1E376C08, 0x2748774C, 0x34B0BCB5, 0x391C0CB3, 0x4ED8AA4A, 0x5B9CCA4F, 0x682E6FF3,
     0x748F82EE, 0x78A5636F, 0x84C87814, 0x8CC70208, 0x90BEFFFA, 0xA4506CEB, 0xBEF9A3F7, 0xC67178F2]
    [0x54E5CB74, 0x7E2912C9, 0x5D5DCC08, 0x51739876, 0x2DD575C3, 0x3191737D, 0x13C51F24, 0xD9E6D94D,
     0x8F1A34F8, 0xC103BEA2, 0xCC7B173E, 0x4CB1AB05, 0x10439A57, 0xEAD20847, 0xE2E403D2, 0xF15C5E34]
    (0x46221E83, 0xB91122AC, 0x3BBCDB15, 0xCE8675ED, 0xA0FB17EC, 0x7020C3B0, 0xBE80C6F1, 0x8ECEB9C7)
   = (0xFBB27062, 0x4944CEB0, 0xF7262718, 0xDBFA244C, 0x9661CE3A, 0x65DDCCCA, 0x6B938429, 0xC83BD2CB)"
  by (simp add: round_step_eq sha_ops)

lemma compression_21:
  "hash256_block [0x6A09E667, 0xBB67AE85, 0x3C6EF372, 0xA54FF53A, 0x510E527F, 0x9B05688C, 0x1F83D9AB, 0x5BE0CD19]
    [0x60, 0xCC, 0xF1, 0x19, 0xDD, 0xC9, 0x3F, 0x55, 0x23, 0x86, 0xC3, 0x40, 0xAF, 0, 0xB1, 0xD7,
     0x13, 0xEA, 0x60, 0x24, 0xB5, 0xC0, 0xF5, 0x1D, 9, 0x56, 0x12, 0x34, 0x7A, 0x27, 0x59, 0xAC,
     0x37, 0x5B, 0xE9, 0x44, 0x61, 0x36, 0x3F, 0x92, 0xAA, 0xAB, 0x16, 0xB8, 0x3C, 4, 0xC3, 0xC1,
     0x3C, 0x6B, 0xCC, 0xB0, 0x11, 0x8C, 0xC9, 0x15, 0x6F, 0xD1, 0xB4, 0x86, 0x14, 0xD6, 0xF3, 0xDB]
   = [0x65BC56C9, 0x4AC7D35, 0x33951A8A, 0x814A1986, 0xE77020B9, 0xE33556, 0x8B175DD4, 0x241C9FE4]"
proof -
  let ?blk = "[0x60, 0xCC, 0xF1, 0x19, 0xDD, 0xC9, 0x3F, 0x55, 0x23, 0x86, 0xC3, 0x40, 0xAF, 0, 0xB1, 0xD7,
     0x13, 0xEA, 0x60, 0x24, 0xB5, 0xC0, 0xF5, 0x1D, 9, 0x56, 0x12, 0x34, 0x7A, 0x27, 0x59, 0xAC,
     0x37, 0x5B, 0xE9, 0x44, 0x61, 0x36, 0x3F, 0x92, 0xAA, 0xAB, 0x16, 0xB8, 0x3C, 4, 0xC3, 0xC1,
     0x3C, 0x6B, 0xCC, 0xB0, 0x11, 0x8C, 0xC9, 0x15, 0x6F, 0xD1, 0xB4, 0x86, 0x14, 0xD6, 0xF3, 0xDB] :: bytes"
  have "map (block_word ?blk) [0..<16] = take 16 schedule_21"
    unfolding block_words by (simp add: block_word_def mask_8bit_def schedule_21_def)
  then have "message_schedule ?blk = schedule_21"
    by (intro message_scheduleI schedule_21_ok) (simp_all add: schedule_21_def)
  moreover have "rounds add_constant schedule_21 (0x6A09E667, 0xBB67AE85, 0x3C6EF372, 0xA54FF53A, 0x510E527F, 0x9B05688C, 0x1F83D9AB, 0x5BE0CD19) = (0xFBB27062, 0x4944CEB0, 0xF7262718, 0xDBFA244C, 0x9661CE3A, 0x65DDCCCA, 0x6B938429, 0xC83BD2CB)"
    using rounds_chunks [OF rounds_21_0 rounds_21_1 rounds_21_2 rounds_21_3]
    by (simp add: add_constant_def schedule_21_def)
  ultimately show ?thesis
    by (simp add: hash256_block_def mask_32bit_def)
qed

definition schedule_22 :: "word_t list" where
  "schedule_22 =
    [0x80000000, 0, 0, 0, 0, 0, 0, 0, 0, 0, 0, 0, 0, 0, 0, 0x200, 0x80000000, 0x1400000, 0x205000,
     0x5088, 0x22000800, 0x22550014, 0x5089742, 0xA0000020, 0x5A880000, 0x5C9400, 0x16D49D,
     0xFA801F00, 0xD33225D0, 0x11675959, 0xF6E6BFDA, 0xB30C1549, 0x8B2B050, 0x9D7C4C27, 0xCE2A393,
     0x88E6E1EA, 0xA52B4335, 0x67A16F49, 0xD732016F, 0x4EEB2E91, 0x5DBF55E5, 0x8EEE2335, 0xE2BC5EC2,
     0xA83F4394, 0x45AD78F7, 0x36F3D0CD, 0xD99C05E8, 0xB0511DC7, 0x69BC7AC4, 0xBD11375B, 0xE3BA71E5,
     0x3B209FF2, 0x18FEEE17, 0xE25AD9E7, 0x13375046, 0x515089D, 0x4F0D0F04, 0x2627484E, 0x310128D2,
     0xC668B434, 0x420841CC, 0x62D311B8, 0xE59BA771, 0x85A7A484]"

lemma schedule_22_ok: "sched_ok schedule_22"
  by (simp add: schedule_22_def sha_ops)

lemma rounds_22_0:
  "rounds [0x428A2F98, 0x71374491, 0xB5C0FBCF, 0xE9B5DBA5, 0x3956C25B, 0x59F111F1, 0x923F82A4, 0xAB1C5ED5,
     0xD807AA98, 0x12835B01, 0x243185BE, 0x550C7DC3, 0x72BE5D74, 0x80DEB1FE, 0x9BDC06A7, 0xC19BF174]
    [0x80000000, 0, 0, 0, 0, 0, 0, 0, 0, 0, 0, 0, 0, 0, 0, 0x200]
    (0x65BC56C9, 0x4AC7D35, 0x33951A8A, 0x814A1986, 0xE77020B9, 0xE33556, 0x8B175DD4, 0x241C9FE4)
   = (0x1FD9F134, 0xB9D16D9C, 0x61FAC1EE, 0x778ECC8A, 0xA0DDB8A4, 0x8DADC4D, 0x65EA6F99, 0x2BFE98AA)"
  by (simp add: round_step_eq sha_ops)

lemma rounds_22_1:
  "rounds [0xE49B69C1, 0xEFBE4786, 0xFC19DC6, 0x240CA1CC, 0x2DE92C6F, 0x4A7484AA, 0x5CB0A9DC, 0x76F988DA,
     0x983E5152, 0xA831C66D, 0xB00327C8, 0xBF597FC7, 0xC6E00BF3, 0xD5A79147, 0x6CA6351, 0x14292967]
    [0x80000000, 0x1400000, 0x205000, 0x5088, 0x22000800, 0x22550014, 0x5089742, 0xA0000020,
     0x5A880000, 0x5C9400, 0x16D49D, 0xFA801F00, 0xD33225D0, 0x11675959, 0xF6E6BFDA, 0xB30C1549]
    (0x1FD9F134, 0xB9D16D9C, 0x61FAC1EE, 0x778ECC8A, 0xA0DDB8A4, 0x8DADC4D, 0x65EA6F99, 0x2BFE98AA)
   = (0x93F1BB2, 0x3806E959, 0x86D0CEFA, 0xE736F423, 0x232A672A, 0x5BBACEC3, 0x889FBC71, 0xCD08EF18)"
  by (simp add: round_step_eq sha_ops)

lemma rounds_22_2:
  "rounds [0x27B70A85, 0x2E1B2138, 0x4D2C6DFC, 0x53380D13, 0x650A7354, 0x766A0ABB, 0x81C2C92E, 0x92722C85,
     0xA2BFE8A1, 0xA81A664B, 0xC24B8B70, 0xC76C51A3, 0xD192E819, 0xD6990624, 0xF40E3585, 0x106AA070]
    [0x8B2B050, 0x9D7C4C27, 0xCE2A393, 0x88E6E1EA, 0xA52B4335, 0x67A16F49, 0xD732016F, 0x4EEB2E91,
     0x5DBF55E5, 0x8EEE2335, 0xE2BC5EC2, 0xA83F4394, 0x45AD78F7, 0x36F3D0CD, 0xD99C05E8, 0xB0511DC7]
    (0x93F1BB2, 0x3806E959, 0x86D0CEFA, 0xE736F423, 0x232A672A, 0x5BBACEC3, 0x889FBC71, 0xCD08EF18)
   = (0xD0CCDAF0, 0xE707D8C7, 0xDA0B0D7F, 0x687D7FC2, 0xEF3CCDD6, 0x43ECF74F, 0x398CD91B, 0xC3BE4970)"
  by (simp add: round_step_eq sha_ops)

lemma rounds_22_3:
  "rounds [0x19A4C116, 0x1E376C08, 0x2748774C, 0x34B0BCB5, 0x391C0CB3, 0x4ED8AA4A, 0x5B9CCA4F, 0x682E6FF3,
     0x748F82EE, 0x78A5636F, 0x84C87814, 0x8CC70208, 0x90BEFFFA, 0xA4506CEB, 0xBEF9A3F7, 0xC67178F2]
    [0x69BC7AC4, 0xBD11375B, 0xE3BA71E5, 0x3B209FF2, 0x18FEEE17, 0xE25AD9E7, 0x13375046, 0x515089D,
     0x4F0D0F04, 0x2627484E, 0x310128D2, 0xC668B434, 0x420841CC, 0x62D311B8, 0xE59BA771, 0x85A7A484]
    (0xD0CCDAF0, 0xE707D8C7, 0xDA0B0D7F, 0x687D7FC2, 0xEF3CCDD6, 0x43ECF74F, 0x398CD91B, 0xC3BE4970)
   = (0x1DC0B2DB, 0x4E8D4656, 0x1AA6EFF6, 0x3CE1EA80, 0xB588AB81, 0x892BA85B, 0x58797601, 0xBEF9F673)"
  by (simp add: round_step_eq sha_ops)

lemma compression_22:
  "hash256_block [0x65BC56C9, 0x4AC7D35, 0x33951A8A, 0x814A1986, 0xE77020B9, 0xE33556, 0x8B175DD4, 0x241C9FE4]
    [0x80, 0, 0, 0, 0, 0, 0, 0, 0, 0, 0, 0, 0, 0, 0, 0, 0, 0, 0, 0, 0, 0, 0, 0, 0, 0, 0, 0, 0, 0, 0,
     0, 0, 0, 0, 0, 0, 0, 0, 0, 0, 0, 0, 0, 0, 0, 0, 0, 0, 0, 0, 0, 0, 0, 0, 0, 0, 0, 0, 0, 0, 0, 2,
     0]
   = [0x837D09A4, 0x5339C38B, 0x4E3C0A80, 0xBE2C0406, 0x9CF8CC3A, 0x8A0EDDB1, 0xE390D3D5, 0xE3169657]"
proof -
  let ?blk = "[0x80, 0, 0, 0, 0, 0, 0, 0, 0, 0, 0, 0, 0, 0, 0, 0, 0, 0, 0, 0, 0, 0, 0, 0, 0, 0, 0, 0, 0, 0, 0,
     0, 0, 0, 0, 0, 0, 0, 0, 0, 0, 0, 0, 0, 0, 0, 0, 0, 0, 0, 0, 0, 0, 0, 0, 0, 0, 0, 0, 0, 0, 0, 2,
     0] :: bytes"
  have "map (block_word ?blk) [0..<16] = take 16 schedule_22"
    unfolding block_words by (simp add: block_word_def mask_8bit_def schedule_22_def)
  then have "message_schedule ?blk = schedule_22"
    by (intro message_scheduleI schedule_22_ok) (simp_all add: schedule_22_def)
  moreover have "rounds add_constant schedule_22 (0x65BC56C9, 0x4AC7D35, 0x33951A8A, 0x814A1986, 0xE77020B9, 0xE33556, 0x8B175DD4, 0x241C9FE4) = (0x1DC0B2DB, 0x4E8D4656, 0x1AA6EFF6, 0x3CE1EA80, 0xB588AB81, 0x892BA85B, 0x58797601, 0xBEF9F673)"
    using rounds_chunks [OF rounds_22_0 rounds_22_1 rounds_22_2 rounds_22_3]
    by (simp add: add_constant_def schedule_22_def)
  ultimately show ?thesis
    by (simp add: hash256_block_def mask_32bit_def)
qed

definition schedule_23 :: "word_t list" where
  "schedule_23 =
    [0x837D09A4, 0x5339C38B, 0x4E3C0A80, 0xBE2C0406, 0x9CF8CC3A, 0x8A0EDDB1, 0xE390D3D5, 0xE3169657,
     0x80000000, 0, 0, 0, 0, 0, 0, 0x100, 0xEFA0A8DC, 0x5FD5AE55, 0xAB428391, 0x76CC44A2,
     0x73C2A131, 0xB827E798, 0xFE644329, 0xF2C8A221, 0x89A40843, 0xF0AAF8A6, 0xFBD82186, 0x973E2E2F,
     0xCCF53C37, 0xD15C3A1C, 0x2CB6C4EE, 0xB23A1E70, 0x65FDE961, 0x3F63515D, 0xE72320A9, 0xCB1FEEF6,
     0x1929803F, 0x4C706717, 0x15F1811C, 0x2C780AA2, 0xA78E0495, 0xF6C97185, 0x502BF189, 0x80426512,
     0xCD55379A, 0xCE4CFA21, 0x6FB5559, 0xF05B9057, 0x86935BAE, 0xD0ACAF44, 0x3D312DCC, 0x780CA545,
     0xD99A8F05, 0x7452A2FB, 0x6020BD2F, 0x76E6DBD3, 0xABAC975, 0xCF508942, 0xB21B89FE, 0x116E9E40,
     0x5C715964, 0x32DEE64C, 0x5B6A2448, 0x462E6EBF]"

lemma schedule_23_ok: "sched_ok schedule_23"
  by (simp add: schedule_23_def sha_ops)

lemma rounds_23_0:
  "rounds [0x428A2F98, 0x71374491, 0xB5C0FBCF, 0xE9B5DBA5, 0x3956C25B, 0x59F111F1, 0x923F82A4, 0xAB1C5ED5,
     0xD807AA98, 0x12835B01, 0x243185BE, 0x550C7DC3, 0x72BE5D74, 0x80DEB1FE, 0x9BDC06A7, 0xC19BF174]
    [0x837D09A4, 0x5339C38B, 0x4E3C0A80, 0xBE2C0406, 0x9CF8CC3A, 0x8A0EDDB1, 0xE390D3D5, 0xE3169657,
     0x80000000, 0, 0, 0, 0, 0, 0, 0x100]
    (0x6A09E667, 0xBB67AE85, 0x3C6EF372, 0xA54FF53A, 0x510E527F, 0x9B05688C, 0x1F83D9AB, 0x5BE0CD19)
   = (0xE8E62209, 0xBBBC17AE, 0xA32D07DF, 0xCCAA83DA, 0xFA711F0A, 0x3F836280, 0xB1711783, 0x73C90BA7)"
  by (simp add: round_step_eq sha_ops)

lemma rounds_23_1:
  "rounds [0xE49B69C1, 0xEFBE4786, 0xFC19DC6, 0x240CA1CC, 0x2DE92C6F, 0x4A7484AA, 0x5CB0A9DC, 0x76F988DA,
     0x983E5152, 0xA831C66D, 0xB00327C8, 0xBF597FC7, 0xC6E00BF3, 0xD5A79147, 0x6CA6351, 0x14292967]
    [0xEFA0A8DC, 0x5FD5AE55, 0xAB428391, 0x76CC44A2, 0x73C2A131, 0xB827E798, 0xFE644329, 0xF2C8A221,
     0x89A40843, 0xF0AAF8A6, 0xFBD82186, 0x973E2E2F, 0xCCF53C37, 0xD15C3A1C, 0x2CB6C4EE, 0xB23A1E70]
    (0xE8E62209, 0xBBBC17AE, 0xA32D07DF, 0xCCAA83DA, 0xFA711F0A, 0x3F836280, 0xB1711783, 0x73C90BA7)
   = (0x1F4723AF, 0x9667DC7B, 0x2A2FE812, 0x5968DB81, 0x8CFE6EF0, 0xA3E80F06, 0x683FCA66, 0xF3C66DA9)"
  by (simp add: round_step_eq sha_ops)

lemma rounds_23_2:
  "rounds [0x27B70A85, 0x2E1B2138, 0x4D2C6DFC, 0x53380D13, 0x650A7354, 0x766A0ABB, 0x81C2C92E, 0x92722C85,
     0xA2BFE8A1, 0xA81A664B, 0xC24B8B70, 0xC76C51A3, 0xD192E819, 0xD6990624, 0xF40E3585, 0x106AA070]
    [0x65FDE961, 0x3F63515D, 0xE72320A9, 0xCB1FEEF6, 0x1929803F, 0x4C706717, 0x15F1811C, 0x2C780AA2,
     0xA78E0495, 0xF6C97185, 0x502BF189, 0x80426512, 0xCD55379A, 0xCE4CFA21, 0x6FB5559, 0xF05B9057]
    (0x1F4723AF, 0x9667DC7B, 0x2A2FE812, 0x5968DB81, 0x8CFE6EF0, 0xA3E80F06, 0x683FCA66, 0xF3C66DA9)
   = (0xC9F0EF27, 0xE532CB42, 0x56E75E24, 0x27F0358, 0x4B496A3C, 0x5E3FB74D, 0x91AD3C2A, 0x791EEFD6)"
  by (simp add: round_step_eq sha_ops)

lemma rounds_23_3:
  "rounds [0x19A4C116, 0x1E376C08, 0x2748774C, 0x34B0BCB5, 0x391C0CB3, 0x4ED8AA4A, 0x5B9CCA4F, 0x682E6FF3,
     0x748F82EE, 0x78A5636F, 0x84C87814, 0x8CC70208, 0x90BEFFFA, 0xA4506CEB, 0xBEF9A3F7, 0xC67178F2]
    [0x86935BAE, 0xD0ACAF44, 0x3D312DCC, 0x780CA545, 0xD99A8F05, 0x7452A2FB, 0x6020BD2F, 0x76E6DBD3,
     0xABAC975, 0xCF508942, 0xB21B89FE, 0x116E9E40, 0x5C715964, 0x32DEE64C, 0x5B6A2448, 0x462E6EBF]
    (0xC9F0EF27, 0xE532CB42, 0x56E75E24, 0x27F0358, 0x4B496A3C, 0x5E3FB74D, 0x91AD3C2A, 0x791EEFD6)
   = (0x15476A11, 0xC6E95707, 0x36BAE7F1, 0xC0DB84F7, 0xAAB0CFD2, 0x65CC0F62, 0xC73E49A9, 0xA1694A78)"
  by (simp add: round_step_eq sha_ops)

lemma compression_23:
  "hash256_block [0x6A09E667, 0xBB67AE85, 0x3C6EF372, 0xA54FF53A, 0x510E527F, 0x9B05688C, 0x1F83D9AB, 0x5BE0CD19]
    [0x83, 0x7D, 9, 0xA4, 0x53, 0x39, 0xC3, 0x8B, 0x4E, 0x3C, 0xA, 0x80, 0xBE, 0x2C, 4, 6, 0x9C,
     0xF8, 0xCC, 0x3A, 0x8A, 0xE, 0xDD, 0xB1, 0xE3, 0x90, 0xD3, 0xD5, 0xE3, 0x16, 0x96, 0x57, 0x80,
     0, 0, 0, 0, 0, 0, 0, 0, 0, 0, 0, 0, 0, 0, 0, 0, 0, 0, 0, 0, 0, 0, 0, 0, 0, 0, 0, 0, 0, 1, 0]
   = [0x7F515078, 0x8251058C, 0x7329DB63, 0x662B7A31, 0xFBBF2251, 0xD177EE, 0xE6C22354, 0xFD4A1791]"
proof -
  let ?blk = "[0x83, 0x7D, 9, 0xA4, 0x53, 0x39, 0xC3, 0x8B, 0x4E, 0x3C, 0xA, 0x80, 0xBE, 0x2C, 4, 6, 0x9C,
     0xF8, 0xCC, 0x3A, 0x8A, 0xE, 0xDD, 0xB1, 0xE3, 0x90, 0xD3, 0xD5, 0xE3, 0x16, 0x96, 0x57, 0x80,
     0, 0, 0, 0, 0, 0, 0, 0, 0, 0, 0, 0, 0, 0, 0, 0, 0, 0, 0, 0, 0, 0, 0, 0, 0, 0, 0, 0, 0, 1, 0] :: bytes"
  have "map (block_word ?blk) [0..<16] = take 16 schedule_23"
    unfolding block_words by (simp add: block_word_def mask_8bit_def schedule_23_def)
  then have "message_schedule ?blk = schedule_23"
    by (intro message_scheduleI schedule_23_ok) (simp_all add: schedule_23_def)
  moreover have "rounds add_constant schedule_23 (0x6A09E667, 0xBB67AE85, 0x3C6EF372, 0xA54FF53A, 0x510E527F, 0x9B05688C, 0x1F83D9AB, 0x5BE0CD19) = (0x15476A11, 0xC6E95707, 0x36BAE7F1, 0xC0DB84F7, 0xAAB0CFD2, 0x65CC0F62, 0xC73E49A9, 0xA1694A78)"
    using rounds_chunks [OF rounds_23_0 rounds_23_1 rounds_23_2 rounds_23_3]
    by (simp add: add_constant_def schedule_23_def)
  ultimately show ?thesis
    by (simp add: hash256_block_def mask_32bit_def)
qed

section \<open>The hashes\<close>

lemma bit_length_literals: "(512 :: byte) = 0" "(784 :: byte) = 16"
  by simp_all

definition payment_bytes :: bytes where
  "payment_bytes =
    [1, 0, 0, 0, 1, 0, 0, 0, 0x73, 0x95, 0xF3, 0x2B, 0x50, 0x2A, 0x67, 0xF0, 0x70, 0x98, 0x65, 0xE7,
     0xA, 0xC2, 0xBF, 0x48, 0xFC, 0x27, 0xEA, 0xDE, 0x72, 0x26, 0x62, 0xCE, 0x45, 0x21, 0x25, 0xE7,
     0xCE, 0x71, 0xFA, 0x47, 0, 0, 0, 0, 1, 0, 0, 0, 0x19, 0xFF, 0xFF, 0xFF, 0xFF, 1, 0, 0, 0, 0,
     0xF2, 5, 0x2A, 1, 0, 0, 0, 0x19, 0, 0, 0, 0x76, 0xA9, 0x14, 9, 9, 9, 9, 9, 9, 9, 9, 9, 9, 9, 9,
     9, 9, 9, 9, 9, 9, 9, 9, 0x88, 0xAC, 0, 0, 0, 0]"

definition payment_hash :: bytes where
  "payment_hash =
    [0x60, 0xCC, 0xF1, 0x19, 0xDD, 0xC9, 0x3F, 0x55, 0x23, 0x86, 0xC3, 0x40, 0xAF, 0, 0xB1, 0xD7,
     0x13, 0xEA, 0x60, 0x24, 0xB5, 0xC0, 0xF5, 0x1D, 9, 0x56, 0x12, 0x34, 0x7A, 0x27, 0x59, 0xAC]"

lemma payment_first: "hash256 payment_bytes =
    [0x71, 0x98, 0xF7, 0xEF, 0x12, 0xF5, 0xC5, 0xE1, 0x48, 0x5F, 5, 0x23, 0x2A, 0x37, 0x2E, 0x5A,
     0x54, 0x1F, 0xF0, 0x8D, 0x95, 0x67, 8, 0xBB, 0xB4, 0x4F, 0x85, 0x57, 0x76, 0xD8, 0xED, 0xB5]"
  unfolding payment_bytes_def
  by (simp add: sha_run bit_length_literals process_blocks.simps initial_message_digest_def compression_12 compression_13)

lemma payment_double: "hash_double_sha256 payment_bytes = payment_hash"
  unfolding hash_double_sha256_def hash_sha256_def Let_def payment_first payment_hash_def
  by (simp add: sha_run bit_length_literals process_blocks.simps initial_message_digest_def compression_14)

definition pair_bytes :: bytes where
  "pair_bytes =
    [0x37, 0x5B, 0xE9, 0x44, 0x61, 0x36, 0x3F, 0x92, 0xAA, 0xAB, 0x16, 0xB8, 0x3C, 4, 0xC3, 0xC1,
     0x3C, 0x6B, 0xCC, 0xB0, 0x11, 0x8C, 0xC9, 0x15, 0x6F, 0xD1, 0xB4, 0x86, 0x14, 0xD6, 0xF3, 0xDB,
     0x60, 0xCC, 0xF1, 0x19, 0xDD, 0xC9, 0x3F, 0x55, 0x23, 0x86, 0xC3, 0x40, 0xAF, 0, 0xB1, 0xD7,
     0x13, 0xEA, 0x60, 0x24, 0xB5, 0xC0, 0xF5, 0x1D, 9, 0x56, 0x12, 0x34, 0x7A, 0x27, 0x59, 0xAC]"

definition pair_hash :: bytes where
  "pair_hash =
    [0xBB, 0xAB, 0x6B, 0x9C, 0x41, 0x33, 0x9B, 0xD1, 0xD0, 0x4D, 0xDD, 0x3F, 0xF5, 0x54, 0x89, 0xDA,
     0x12, 0xD6, 0x9B, 0xBF, 0xF8, 0xF7, 0xF, 0xEF, 0xE, 0x35, 0xE1, 0x5D, 0xF2, 0xE7, 0x31, 0x19]"

lemma pair_first: "hash256 pair_bytes =
    [0x7A, 0x9D, 0, 0xF0, 0xD4, 0x17, 0xFC, 0xBE, 0x42, 0x54, 0x43, 0xA7, 0xE5, 0xD1, 0x57, 0xB9,
     0x2A, 0xB3, 0xDD, 0xF7, 0x80, 0x88, 0x63, 0x8A, 0xD5, 0x6C, 1, 0xCD, 0x30, 0x37, 0x5B, 0xC5]"
  unfolding pair_bytes_def
  by (simp add: sha_run bit_length_literals process_blocks.simps initial_message_digest_def compression_15 compression_16)

lemma pair_double: "hash_double_sha256 pair_bytes = pair_hash"
  unfolding hash_double_sha256_def hash_sha256_def Let_def pair_first pair_hash_def
  by (simp add: sha_run bit_length_literals process_blocks.simps initial_message_digest_def compression_17)

definition header2_bytes :: bytes where
  "header2_bytes =
    [1, 0, 0, 0, 0x5D, 0x67, 0x42, 5, 0xF3, 0x70, 0x2F, 0x5E, 0x60, 0x1C, 0xDD, 0x35, 0x22, 0xE,
     0x91, 0xC, 0x9C, 0xBF, 0x5D, 0xFF, 0x74, 0x92, 0x72, 0xC4, 0xF4, 0x80, 0x8E, 0x40, 0x90, 0xF1,
     0xB1, 0x64, 0xBB, 0xAB, 0x6B, 0x9C, 0x41, 0x33, 0x9B, 0xD1, 0xD0, 0x4D, 0xDD, 0x3F, 0xF5, 0x54,
     0x89, 0xDA, 0x12, 0xD6, 0x9B, 0xBF, 0xF8, 0xF7, 0xF, 0xEF, 0xE, 0x35, 0xE1, 0x5D, 0xF2, 0xE7,
     0x31, 0x19, 3, 0xF1, 0x53, 0x65, 0xFF, 0xFF, 0x7F, 0x20, 0, 0, 0, 0]"

definition header2_hash :: bytes where
  "header2_hash =
    [0x73, 0x39, 2, 0x28, 0x65, 0x32, 0x38, 0x4A, 0xFA, 0xFC, 0xF2, 0xA5, 0xB4, 0x74, 0x50, 0xCE,
     0x38, 0xB0, 0x78, 0xF2, 0xAC, 0xD8, 0x22, 0xE3, 0xC3, 0x3E, 0x4A, 0xD6, 0xEB, 0x45, 0x3A, 0x5F]"

lemma header2_first: "hash256 header2_bytes =
    [0x91, 0x24, 0x19, 0x28, 0x3D, 0xEE, 0xD3, 0x98, 0x57, 0x3F, 0x2A, 0x31, 0xCD, 0xCA, 0xA6, 0x10,
     0x61, 0x5C, 0xF, 0xFE, 0xB5, 0x1A, 0xCF, 0xAE, 0xF8, 0xC5, 0x40, 0xB4, 0xBC, 0xEC, 4, 0x46]"
  unfolding header2_bytes_def
  by (simp add: sha_run bit_length_literals process_blocks.simps initial_message_digest_def compression_18 compression_19)

lemma header2_double: "hash_double_sha256 header2_bytes = header2_hash"
  unfolding hash_double_sha256_def hash_sha256_def Let_def header2_first header2_hash_def
  by (simp add: sha_run bit_length_literals process_blocks.simps initial_message_digest_def compression_20)

definition swapped_bytes :: bytes where
  "swapped_bytes =
    [0x60, 0xCC, 0xF1, 0x19, 0xDD, 0xC9, 0x3F, 0x55, 0x23, 0x86, 0xC3, 0x40, 0xAF, 0, 0xB1, 0xD7,
     0x13, 0xEA, 0x60, 0x24, 0xB5, 0xC0, 0xF5, 0x1D, 9, 0x56, 0x12, 0x34, 0x7A, 0x27, 0x59, 0xAC,
     0x37, 0x5B, 0xE9, 0x44, 0x61, 0x36, 0x3F, 0x92, 0xAA, 0xAB, 0x16, 0xB8, 0x3C, 4, 0xC3, 0xC1,
     0x3C, 0x6B, 0xCC, 0xB0, 0x11, 0x8C, 0xC9, 0x15, 0x6F, 0xD1, 0xB4, 0x86, 0x14, 0xD6, 0xF3, 0xDB]"

definition swapped_hash :: bytes where
  "swapped_hash =
    [0x7F, 0x51, 0x50, 0x78, 0x82, 0x51, 5, 0x8C, 0x73, 0x29, 0xDB, 0x63, 0x66, 0x2B, 0x7A, 0x31,
     0xFB, 0xBF, 0x22, 0x51, 0, 0xD1, 0x77, 0xEE, 0xE6, 0xC2, 0x23, 0x54, 0xFD, 0x4A, 0x17, 0x91]"

lemma swapped_first: "hash256 swapped_bytes =
    [0x83, 0x7D, 9, 0xA4, 0x53, 0x39, 0xC3, 0x8B, 0x4E, 0x3C, 0xA, 0x80, 0xBE, 0x2C, 4, 6, 0x9C,
     0xF8, 0xCC, 0x3A, 0x8A, 0xE, 0xDD, 0xB1, 0xE3, 0x90, 0xD3, 0xD5, 0xE3, 0x16, 0x96, 0x57]"
  unfolding swapped_bytes_def
  by (simp add: sha_run bit_length_literals process_blocks.simps initial_message_digest_def compression_21 compression_22)

lemma swapped_double: "hash_double_sha256 swapped_bytes = swapped_hash"
  unfolding hash_double_sha256_def hash_sha256_def Let_def swapped_first swapped_hash_def
  by (simp add: sha_run bit_length_literals process_blocks.simps initial_message_digest_def compression_23)

end
