(* ===== verification/Payment_Mined.thy ===== *)
theory Payment_Mined
  imports Payment Payment_Hashes
begin

text \<open>
  A payment confirmed on concrete input: a transaction that spends the reward of the first block of theory
  \<open>Mined\<close> and the block that is mined with it.
\<close>

section \<open>The payment\<close>

text \<open>It needs no key: its one-byte script swallows the locking script, see \<open>p2pkh_spent_without_key\<close>.\<close>

definition demo_payment :: Transaction where
  "demo_payment = set_hash (mk_Transaction 1 [mk_CTxIn (COutPoint coinbase0_hash 0) [0x19]]
     [\<lparr>nValue = 5000000000, scriptPubKey = build_p2pkh_script_pubkey (replicate 20 9)\<rparr>] 0)"

definition demo_payment_block :: CBlock where
  "demo_payment_block =
     \<lparr>nVersion = 1, hashPrevBlock = header0_hash, hashMerkleRoot = pair_hash,
      nTime = 1700000003, nBits = INITIAL_BITS, nNonce = 0,
      vtx = [build_coinbase_tx (replicate 20 0) 1 0, demo_payment]\<rparr>"

lemma demo_payment_sel:
  "vin demo_payment = [mk_CTxIn (COutPoint coinbase0_hash 0) [0x19]]"
  "vout demo_payment = [\<lparr>nValue = 5000000000, scriptPubKey = build_p2pkh_script_pubkey (replicate 20 9)\<rparr>]"
  by (simp_all add: demo_payment_def)

lemma demo_payment_hash: "tx_hash demo_payment = payment_hash"
proof -
  have "Transaction_Serialize demo_payment = payment_bytes"
    by (simp add: serialize_ops demo_payment_def mk_Transaction_def mk_CTxIn_def set_hash_def
        build_p2pkh_script_pubkey_def coinbase0_hash_def payment_bytes_def replicate_num
        OP_DUP_def OP_HASH160_def OP_EQUALVERIFY_def OP_CHECKSIG_def)
  then show ?thesis
    by (simp add: demo_payment_def set_hash_def Transaction_GetHash_def payment_double)
qed

lemma demo_payment_wf: "wf_tx demo_payment"
  by (simp add: wf_tx_def demo_payment_sel wf_defs mk_CTxIn_def length_p2pkh coinbase0_hash_def)
    (simp add: demo_payment_def set_hash_def)

lemma demo_payment_root: "vtx blk = [build_coinbase_tx (replicate 20 0) 1 0, demo_payment] \<Longrightarrow> BuildMerkleRoot blk = pair_hash"
  using pair_double
  by (simp add: BuildMerkleRoot_def merkle_loop.simps demo_coinbase_hash demo_payment_hash
      coinbase1_hash_def payment_hash_def pair_bytes_def)


section \<open>Its block\<close>

lemma demo_payment_pow: "check_proof_of_work demo_payment_block"
proof -
  have "CBlockHeader_Serialize demo_payment_block = header2_bytes"
    by (simp add: CBlockHeader_Serialize_def serialize_ops demo_payment_block_def INITIAL_BITS_def
        header2_bytes_def header0_hash_def pair_hash_def)
  then have "GetHash demo_payment_block = header2_hash" by (simp add: GetHash_def header2_double)
  then show ?thesis
    unfolding check_proof_of_work_def
    by (simp add: demo_payment_block_def INITIAL_BITS_def bits_to_target_def Let_def header2_hash_def replicate_num)
qed

lemma demo_payment_built:
  "build_next_block 1700000003 (extract_headers [demo_genesis]) (GetHash demo_genesis) (replicate 20 0) 0 [demo_payment]
     = Inr demo_payment_block"
proof -
  let ?b = "\<lparr>nVersion = 1, hashPrevBlock = header0_hash, hashMerkleRoot = pair_hash, nTime = 1700000003, nBits = 0,
      nNonce = 0, vtx = [build_coinbase_tx (replicate 20 0) 1 0, demo_payment]\<rparr>"
  have "candidate ?b INITIAL_BITS 0 = demo_payment_block" by (simp add: candidate_def demo_payment_block_def)
  with mine_block_at_once [of ?b INITIAL_BITS] demo_payment_pow have "mine_block ?b INITIAL_BITS = Inr demo_payment_block" by simp
  then show ?thesis
    unfolding build_next_block_def demo_next_bits demo_hash Let_def rbind_Inr
    by (simp add: extract_headers_def demo_payment_root)
qed

lemma demo_reward_unspent:
  "utxo_find (build_utxo_set [demo_genesis]) (COutPoint coinbase0_hash 0)
     = Some \<lparr>nValue = 5000000000, scriptPubKey = build_p2pkh_script_pubkey (replicate 20 0)\<rparr>"
proof -
  let ?c = "build_coinbase_tx (replicate 20 0) 0 0"
  have "all_txs [demo_genesis] = [?c]" by (simp add: all_txs_def demo_genesis_def)
  moreover have "vout ?c = [\<lparr>nValue = 5000000000, scriptPubKey = build_p2pkh_script_pubkey (replicate 20 0)\<rparr>]"
    "map prevout (vin ?c) = [COutPoint_null]"
    by (simp_all add: demo_coinbase_built demo_coinbase_def CTxIn_default_def)
  ultimately show ?thesis
    by (simp add: build_utxo_set_find_lemma spent_def created_def tx_outputs_def demo_coinbase_hash COutPoint_null_def)
qed

lemma demo_payment_fee: "validate_and_get_fee S demo_payment (build_utxo_set [demo_genesis]) = 0"
proof -
  have "verify_transaction_signature S demo_payment 0 (build_p2pkh_script_pubkey (replicate 20 0))"
    by (simp add: verify_transaction_signature_def demo_payment_sel mk_CTxIn_def push_swallows_p2pkh ADDRESS_SIZE_def)
  then show ?thesis
    by (simp add: validate_and_get_fee_def demo_payment_sel mk_CTxIn_def demo_reward_unspent sum_outputs_def)
qed

definition demo_mempool_disk :: disk where
  "demo_mempool_disk = empty_disk\<lparr>files := [''b.mempool'' \<mapsto> tx_codec.counted [demo_payment]]\<rparr>"

lemma demo_mempool: "mempool_of demo_mempool_disk ''b.mempool'' = [demo_payment]"
  using tx_codec.read_counted [of "[demo_payment]"] demo_payment_wf
  by (simp add: mempool_of_def load_mempool_def read_file_def demo_mempool_disk_def)

lemma demo_payment_mined:
  "\<exists>w'. mine_on_tip S 1700000003 ''b'' (replicate 20 0) [demo_genesis] (idle_world demo_mempool_disk)
     = (Inr (demo_payment_block, [demo_genesis, demo_payment_block]), w')"
proof -
  have "load_mempool_or_empty ''b.mempool'' (idle_world demo_mempool_disk) = (Inr [demo_payment], idle_world demo_mempool_disk)"
    using civil_load_mempool [of demo_mempool_disk "''b.mempool''"] demo_mempool
    by (auto simp: load_mempool_or_empty_def io_catch_def mempool_of_def civil_def split: sum.splits)
  moreover have "select_mempool S [demo_payment] (build_utxo_set [demo_genesis]) [] 0 = ([demo_payment], 0)"
    by (simp add: demo_payment_fee)
  moreover have "writable demo_mempool_disk path" for path by (simp add: demo_mempool_disk_def empty_disk_def)
  ultimately show ?thesis using demo_payment_built
    by (simp add: mine_on_tip_def io_bind_def chain_back_def io_write_def save_chain_def save_mempool_eq write_file_eq Let_def)
qed


lemma demo_payment_unique: "outpoints_unique (all_txs [demo_genesis, demo_payment_block])"
proof -
  let ?c = "\<lambda>h. build_coinbase_tx (replicate 20 0) h 0"
  have txs: "all_txs [demo_genesis, demo_payment_block] = [?c 0, ?c 1, demo_payment]"
    by (simp add: all_txs_def demo_genesis_def demo_payment_block_def)
  have outs: "map fst (tx_outputs (?c h)) = [COutPoint (tx_hash (?c h)) 0]"
    "map fst (tx_outputs demo_payment) = [COutPoint payment_hash 0]" for h
    by (simp_all add: tx_outputs_def build_coinbase_tx_def Let_def demo_payment_sel demo_payment_hash)
  have prevouts: "prevout i = COutPoint (replicate 32 0) 0xFFFFFFFF" if "i \<in> set (vin (?c h))" for i h
    using that by (simp add: build_coinbase_tx_def Let_def CTxIn_default_def COutPoint_null_def)
  have keys: "map fst (created [?c 0, ?c 1, demo_payment])
      = [COutPoint coinbase0_hash 0, COutPoint coinbase1_hash 0, COutPoint payment_hash 0]"
    by (simp add: created_def outs demo_coinbase_hash)
  from arg_cong [OF this, of set] have ks: "fst ` set (created [?c 0, ?c 1, demo_payment])
      = {COutPoint coinbase0_hash 0, COutPoint coinbase1_hash 0, COutPoint payment_hash 0}"
    by simp
  have pay: "\<not> IsCoinbase demo_payment" by (simp add: IsCoinbase_def demo_payment_sel mk_CTxIn_def IsNull_def)
  have "coinbase0_hash \<noteq> coinbase1_hash" "coinbase0_hash \<noteq> payment_hash" "coinbase1_hash \<noteq> payment_hash"
    by (simp_all add: coinbase0_hash_def coinbase1_hash_def payment_hash_def)
  then show ?thesis
    unfolding txs outpoints_unique_def keys ks list_all_iff using prevouts pay by auto
qed

lemma payment_confirmed_witness:
  "\<exists>w'. mine_on_tip toy_secp 1700000003 ''b'' (replicate 20 0) [demo_genesis] (idle_world demo_mempool_disk)
      = (Inr (demo_payment_block, [demo_genesis, demo_payment_block]), w')
    \<and> utxo_find (filter_utxos_by_address (build_utxo_set [demo_genesis, demo_payment_block]) (replicate 20 9))
        (COutPoint (tx_hash demo_payment) 0)
      = Some \<lparr>nValue = 5000000000, scriptPubKey = build_p2pkh_script_pubkey (replicate 20 9)\<rparr>
    \<and> utxo_find (build_utxo_set [demo_genesis, demo_payment_block]) (COutPoint coinbase0_hash 0) = None"
proof -
  obtain w' where run: "mine_on_tip toy_secp 1700000003 ''b'' (replicate 20 0) [demo_genesis] (idle_world demo_mempool_disk)
      = (Inr (demo_payment_block, [demo_genesis, demo_payment_block]), w')" using demo_payment_mined by blast
  have "validate_full_chain toy_secp [demo_genesis] = Inr True"
    using demo_genesis_ledger by (auto simp: validate_full_chain_ledger)
  from payment_confirmed [OF this run, of "[]" demo_payment 5000000000 "replicate 20 9"] run demo_payment_unique
  show ?thesis
    by (simp add: demo_mempool demo_payment_fee demo_payment_sel IsCoinbase_def mk_CTxIn_def IsNull_def spent_def ADDRESS_SIZE_def)
qed

text \<open>The Merkle root tells the two orders of these two transactions apart.\<close>

lemma merkle_root_commits_witness:
  "BuildMerkleRoot demo_payment_block
     \<noteq> BuildMerkleRoot (demo_payment_block\<lparr>vtx := [demo_payment, build_coinbase_tx (replicate 20 0) 1 0]\<rparr>)"
proof -
  let ?cb = "build_coinbase_tx (replicate 20 0) 1 0"
  have txs: "vtx demo_payment_block = [?cb, demo_payment]" by (simp add: demo_payment_block_def)
  have hashes: "tx_hash ?cb = coinbase1_hash" "tx_hash demo_payment = payment_hash" "coinbase1_hash \<noteq> payment_hash"
    "length coinbase1_hash = 32" "length payment_hash = 32"
    by (simp_all add: demo_coinbase_hash demo_payment_hash coinbase1_hash_def payment_hash_def)
  have inputs: "merkle_inputs [coinbase1_hash, payment_hash] = [pair_bytes]" "merkle_inputs [payment_hash, coinbase1_hash] = [swapped_bytes]"
    by (simp_all add: merkle_inputs.simps pair_bytes_def swapped_bytes_def coinbase1_hash_def payment_hash_def)
  have "inj_on hash_double_sha256 {pair_bytes, swapped_bytes}"
    by (auto simp: inj_on_def pair_double swapped_double pair_hash_def swapped_hash_def)
  then show ?thesis
    using merkle_root_commits [of demo_payment_block "demo_payment_block\<lparr>vtx := [demo_payment, ?cb]\<rparr>"]
    by (simp add: txs hashes inputs insert_commute del: inj_on_insert)
qed

end
