(* ===== verification/Merkle_Damgard.thy ===== *)
theory Merkle_Damgard
  imports Complex_Main Prelude
begin

text \<open>
  Hash functions that work in blocks of 64 bytes: what the standards of SHA-256 and RIPEMD-160 share, and
  the contract between a block loop and the buffer handling around it.
\<close>

section \<open>Blocks and padding\<close>

fun blocks :: "nat \<Rightarrow> bytes \<Rightarrow> bytes list" where
  "blocks 0 msg = []"
| "blocks (Suc k) msg = take 64 msg # blocks k (drop 64 msg)"

definition full_blocks :: "bytes \<Rightarrow> bytes list" where
  "full_blocks msg = blocks (length msg div 64) msg"

definition leftover :: "bytes \<Rightarrow> bytes" where
  "leftover msg = drop (64 * (length msg div 64)) msg"

text \<open>The padded message: the byte 0x80, the zeros that leave eight bytes to the end of a block, and the
  eight bytes \<open>len8\<close> of the length.\<close>

definition padded :: "bytes \<Rightarrow> bytes \<Rightarrow> bytes" where
  "padded msg len8 = msg @ [0x80] @ replicate ((119 - length msg mod 64) mod 64) 0 @ len8"

lemma full_blocks_step: "64 \<le> length msg \<Longrightarrow> full_blocks msg = take 64 msg # full_blocks (drop 64 msg)"
  by (simp add: full_blocks_def le_div_geq)

lemma full_blocks_short: "length msg < 64 \<Longrightarrow> full_blocks msg = []"
  by (simp add: full_blocks_def)

lemma leftover_step: "64 \<le> length msg \<Longrightarrow> leftover msg = leftover (drop 64 msg)"
  by (simp add: leftover_def le_div_geq add.commute)

lemma leftover_short: "length msg < 64 \<Longrightarrow> leftover msg = msg"
  by (simp add: leftover_def)

lemma length_leftover: "length (leftover msg) = length msg mod 64"
  by (simp add: leftover_def minus_mult_div_eq_mod [symmetric])

lemma full_blocks_append: "full_blocks (a @ b) = full_blocks a @ full_blocks (leftover a @ b)"
proof (induction "length a" arbitrary: a rule: less_induct)
  case less
  show ?case
  proof (cases "64 \<le> length a")
    case True
    with less [of "drop 64 a"] show ?thesis
      by (simp add: full_blocks_step [of "a @ b"] full_blocks_step [of a] leftover_step)
  qed (simp add: full_blocks_short leftover_short)
qed

lemma leftover_append: "leftover (a @ b) = leftover (leftover a @ b)"
proof (induction "length a" arbitrary: a rule: less_induct)
  case less
  show ?case
  proof (cases "64 \<le> length a")
    case True
    with less [of "drop 64 a"] show ?thesis by (simp add: leftover_step [of "a @ b"] leftover_step [of a])
  qed (simp add: leftover_short)
qed

text \<open>The last block, or the last two, of a padded message whose full blocks leave \<open>r\<close>.\<close>

definition last_blocks :: "bytes \<Rightarrow> bytes \<Rightarrow> bytes list" where
  "last_blocks r len8 =
     (if length r \<le> 55 then [r @ [0x80] @ replicate (55 - length r) 0 @ len8]
      else [r @ [0x80] @ replicate (63 - length r) 0, replicate 56 0 @ len8])"

lemma padded_blocks:
  assumes "length len8 = 8"
  shows "full_blocks (padded msg len8) = full_blocks msg @ last_blocks (leftover msg) len8"
proof -
  let ?r = "leftover msg" let ?n = "length ?r"
  have n: "?n = length msg mod 64" "?n < 64" by (simp_all add: length_leftover)
  have "full_blocks (?r @ [0x80] @ replicate ((119 - ?n) mod 64) 0 @ len8) = last_blocks ?r len8" (is "full_blocks ?m = _")
  proof (cases "?n \<le> 55")
    case True
    then have "(119 - ?n) mod 64 = 55 - ?n" by (simp add: mod_if)
    with True assms show ?thesis
      by (simp add: full_blocks_step full_blocks_short last_blocks_def)
  next
    case False
    with n(2) have z: "(119 - ?n) mod 64 = (63 - ?n) + 56" and m: "64 - ?n = Suc (63 - ?n)" by simp_all
    have "take 64 ?m = ?r @ [0x80] @ replicate (63 - ?n) 0" "drop 64 ?m = replicate 56 0 @ len8"
      using False n(2) unfolding z replicate_add by (simp_all add: m)
    moreover have "64 \<le> length ?m" using False n(2) assms by simp
    ultimately show ?thesis using False assms by (simp add: full_blocks_step [of ?m] full_blocks_step full_blocks_short last_blocks_def)
  qed
  then show ?thesis using n(1) by (simp add: padded_def full_blocks_append [of msg])
qed

section \<open>Block loops\<close>

text \<open>A block loop takes 64 bytes off the buffer as long as there are as many, and leaves the rest.\<close>

locale block_loop =
  fixes compress :: "'h \<Rightarrow> bytes \<Rightarrow> 'h"
    and absorb :: "'h \<Rightarrow> bytes \<Rightarrow> 'h \<times> bytes"
  assumes absorb_full: "64 \<le> length buf \<Longrightarrow> absorb h buf = absorb (compress h (take 64 buf)) (drop 64 buf)"
    and absorb_short: "length buf < 64 \<Longrightarrow> absorb h buf = (h, buf)"
begin

lemma absorb_eq: "absorb h buf = (foldl compress h (full_blocks buf), leftover buf)"
proof (induction "length buf" arbitrary: h buf rule: less_induct)
  case less
  show ?case
  proof (cases "64 \<le> length buf")
    case True
    with less [of "drop 64 buf"] show ?thesis by (simp add: absorb_full full_blocks_step leftover_step)
  qed (simp add: absorb_short full_blocks_short leftover_short)
qed

text \<open>A message may arrive in pieces.\<close>

lemma absorb_append: "absorb h (a @ b) = (case absorb h a of (h', r) \<Rightarrow> absorb h' (r @ b))"
  by (simp add: absorb_eq full_blocks_append [of a] leftover_append [of a])

end


section \<open>64-bit words that carry 32-bit values\<close>

abbreviation up :: "u32 \<Rightarrow> 64 word" where
  "up \<equiv> ucast"

abbreviation low :: "64 word \<Rightarrow> u32" where
  "low \<equiv> ucast"

named_theorems up_low \<open>how the 64-bit operations act on 32-bit values\<close>

lemma low_up [simp]: "low (up x) = x"
  by (rule bit_word_eqI) (simp add: bit_simps)

lemma take_bit_sum: "take_bit 32 (take_bit 64 x + take_bit 64 y) = take_bit 32 (x + y)" for x y :: int
  using take_bit_add [of 32 "take_bit 64 x" "take_bit 64 y"] take_bit_add [of 32 x y] by simp

lemma low_add [up_low]: "low (x + y) = low x + low y"
  by transfer (simp add: take_bit_add take_bit_sum)

lemma low_xor [up_low]: "low (x XOR y) = low x XOR low y"
  by (rule bit_word_eqI) (simp add: bit_simps)

lemma up_xor [up_low]: "up x XOR up y = up (x XOR y)"
  by (rule bit_word_eqI) (auto simp: bit_simps)

section \<open>Constants from roots\<close>

text \<open>The first bits of a root, checked on powers.\<close>

lemma root_floor:
  assumes "0 < n" and "k ^ n \<le> p * 2 ^ (b * n)" and "p * 2 ^ (b * n) < (k + 1) ^ n"
  shows "\<lfloor>2 ^ b * root n (real p)\<rfloor> = int k"
proof (rule floor_unique)
  have scaled: "2 ^ b * root n (real p) = root n (real (p * 2 ^ (b * n)))"
    using assms(1) by (simp add: real_root_mult real_root_power_cancel power_mult mult.commute [of "2 ^ b"])
  have "root n (real (k ^ n)) \<le> root n (real (p * 2 ^ (b * n)))" "root n (real (p * 2 ^ (b * n))) < root n (real ((k + 1) ^ n))"
    using assms by (simp_all only: real_root_le_iff real_root_less_iff of_nat_le_iff of_nat_less_iff)
  then show "real_of_int (int k) \<le> 2 ^ b * root n (real p)" "2 ^ b * root n (real p) < real_of_int (int k) + 1"
    using assms(1) unfolding scaled by (simp_all add: real_root_power_cancel)
qed


end
