(* ===== verification/Sha256_Spec.thy ===== *)
theory Sha256_Spec
  imports Picosha2 Merkle_Damgard
begin

text \<open>
  SHA-256 as FIPS 180-4 states it, on 32-bit words, with the constants as the fractional parts of roots of
  primes; and that \<open>picosha2.h\<close>, which computes in 64-bit words and masks, buffers its input and counts its
  length in four digits, computes it.
\<close>

section \<open>The standard\<close>

definition first_primes :: "nat list" where
  "first_primes =
     [2, 3, 5, 7, 11, 13, 17, 19, 23, 29, 31, 37, 41, 43, 47, 53, 59, 61, 67, 71, 73, 79, 83, 89, 97, 101, 103,
      107, 109, 113, 127, 131, 137, 139, 149, 151, 157, 163, 167, 173, 179, 181, 191, 193, 197, 199, 211, 223,
      227, 229, 233, 239, 241, 251, 257, 263, 269, 271, 277, 281, 283, 293, 307, 311]"

text \<open>The first 32 bits of the fractional part.\<close>

definition fraction32 :: "real \<Rightarrow> u32" where
  "fraction32 x = word_of_int \<lfloor>2 ^ 32 * frac x\<rfloor>"

definition sha_K :: "nat \<Rightarrow> u32" where
  "sha_K t = fraction32 (root 3 (real (first_primes ! t)))"

definition sha_H0 :: "u32 list" where
  "sha_H0 = map (\<lambda>i. fraction32 (sqrt (real (first_primes ! i)))) [0..<8]"

definition sha_Ch :: "u32 \<Rightarrow> u32 \<Rightarrow> u32 \<Rightarrow> u32" where
  "sha_Ch x y z = (x AND y) XOR (NOT x AND z)"

definition sha_Maj :: "u32 \<Rightarrow> u32 \<Rightarrow> u32 \<Rightarrow> u32" where
  "sha_Maj x y z = (x AND y) XOR (x AND z) XOR (y AND z)"

definition sha_S0 :: "u32 \<Rightarrow> u32" where
  "sha_S0 x = word_rotr 2 x XOR word_rotr 13 x XOR word_rotr 22 x"

definition sha_S1 :: "u32 \<Rightarrow> u32" where
  "sha_S1 x = word_rotr 6 x XOR word_rotr 11 x XOR word_rotr 25 x"

definition sha_s0 :: "u32 \<Rightarrow> u32" where
  "sha_s0 x = word_rotr 7 x XOR word_rotr 18 x XOR drop_bit 3 x"

definition sha_s1 :: "u32 \<Rightarrow> u32" where
  "sha_s1 x = word_rotr 17 x XOR word_rotr 19 x XOR drop_bit 10 x"

definition be_word :: "bytes \<Rightarrow> nat \<Rightarrow> u32" where
  "be_word blk i = word_of_nat (be_nat (take 4 (drop (4 * i) blk)))"

fun sha_W :: "bytes \<Rightarrow> nat \<Rightarrow> u32" where
  "sha_W blk t =
     (if t < 16 then be_word blk t
      else sha_s1 (sha_W blk (t - 2)) + sha_W blk (t - 7) + sha_s0 (sha_W blk (t - 15)) + sha_W blk (t - 16))"

declare sha_W.simps [simp del]

definition sha_round :: "bytes \<Rightarrow> nat \<Rightarrow> u32 regs \<Rightarrow> u32 regs" where
  "sha_round blk t = (\<lambda>(a, b, c, d, e, f, g, h).
     (let T1 = h + sha_S1 e + sha_Ch e f g + sha_K t + sha_W blk t;
          T2 = sha_S0 a + sha_Maj a b c
      in (T1 + T2, a, b, c, d + T1, e, f, g)))"

definition sha_compress :: "u32 list \<Rightarrow> bytes \<Rightarrow> u32 list" where
  "sha_compress H blk =
     (case fold (sha_round blk) [0..<64] (H ! 0, H ! 1, H ! 2, H ! 3, H ! 4, H ! 5, H ! 6, H ! 7) of
        (a, b, c, d, e, f, g, h) \<Rightarrow>
          [a + H ! 0, b + H ! 1, c + H ! 2, d + H ! 3, e + H ! 4, f + H ! 5, g + H ! 6, h + H ! 7])"

definition be_bytes32 :: "u32 \<Rightarrow> bytes" where
  "be_bytes32 x = [ucast (drop_bit 24 x), ucast (drop_bit 16 x), ucast (drop_bit 8 x), ucast x]"

definition be_bytes64 :: "64 word \<Rightarrow> bytes" where
  "be_bytes64 x = map (\<lambda>i. ucast (drop_bit (56 - 8 * i) x)) [0..<8]"

definition sha256 :: "bytes \<Rightarrow> bytes" where
  "sha256 msg = concat (map be_bytes32
     (foldl sha_compress sha_H0 (full_blocks (padded msg (be_bytes64 (word_of_nat (8 * length msg)))))))"

section \<open>The constants\<close>

lemma two32 [simp]: "(4294967296 :: u32) = 0"
  by code_simp

lemma floor_shifted: "\<lfloor>2 ^ 32 * frac x\<rfloor> = \<lfloor>2 ^ 32 * x\<rfloor> - 2 ^ 32 * \<lfloor>x\<rfloor>" for x :: real
proof -
  have "2 ^ 32 * frac x = 2 ^ 32 * x - real_of_int (2 ^ 32 * \<lfloor>x\<rfloor>)" by (simp add: frac_def algebra_simps)
  then show ?thesis by (simp only: floor_diff_of_int)
qed

lemma fraction32_floor: "fraction32 x = word_of_int \<lfloor>2 ^ 32 * x\<rfloor>"
proof -
  have "word_of_int (\<lfloor>2 ^ 32 * x\<rfloor> - 2 ^ 32 * \<lfloor>x\<rfloor>) = (word_of_int \<lfloor>2 ^ 32 * x\<rfloor> :: u32)" by simp
  then show ?thesis by (simp only: fraction32_def floor_shifted)
qed

text \<open>A root whose integer part is \<open>m\<close> and whose next 32 bits are \<open>c\<close>, checked on powers.\<close>

definition root_bits :: "nat \<Rightarrow> nat \<Rightarrow> nat \<Rightarrow> word_t \<Rightarrow> bool" where
  "root_bits n p m c \<longleftrightarrow> (m * 2 ^ 32 + unat c) ^ n \<le> p * 2 ^ (32 * n) \<and> p * 2 ^ (32 * n) < (m * 2 ^ 32 + unat c + 1) ^ n"

lemma root_bits_fraction:
  assumes "root_bits n p m c" and "0 < n"
  shows "fraction32 (root n (real p)) = ucast c"
proof -
  have "word_of_nat (m * 2 ^ 32 + unat c) = (ucast c :: u32)"
    by (simp only: of_nat_add of_nat_mult of_nat_power) (simp add: unsigned_of_nat)
  then show ?thesis using root_floor [OF assms(2), of "m * 2 ^ 32 + unat c" p 32] assms(1)
    by (simp add: fraction32_floor root_bits_def of_nat_eq_iff)
qed

definition integer_cbrts :: "nat list" where
  "integer_cbrts =
     [1, 1, 1, 1, 2, 2, 2, 2, 2, 3, 3, 3, 3, 3, 3, 3, 3, 3, 4, 4, 4, 4, 4, 4, 4, 4, 4, 4, 4, 4, 5, 5,
      5, 5, 5, 5, 5, 5, 5, 5, 5, 5, 5, 5, 5, 5, 5, 6, 6, 6, 6, 6, 6, 6, 6, 6, 6, 6, 6, 6, 6, 6, 6, 6]"

lemma constants_check:
  "list_all (\<lambda>(p, m, c). root_bits 3 p m c) (zip first_primes (zip integer_cbrts add_constant))"
  "list_all (\<lambda>(p, m, c). root_bits 2 p m c) (zip (take 8 first_primes) (zip [1, 1, 2, 2, 3, 3, 4, 4] initial_message_digest))"
  by (simp_all add: first_primes_def integer_cbrts_def add_constant_def initial_message_digest_def root_bits_def)


section \<open>64-bit words with masks compute on 32-bit words\<close>

lemma mask_32bit_up [up_low]: "mask_32bit x = up (low x)"
proof -
  have m: "(0xffffffff :: word_t) = mask 32" by (simp add: mask_eq_exp_minus_1)
  show ?thesis unfolding mask_32bit_def m by (rule bit_word_eqI) (auto simp: bit_simps)
qed

lemma rotr_up [up_low]:
  assumes "0 < n" and "n < 32" shows "rotr (up x) n = up (word_rotr n x)"
proof -
  have "low (drop_bit n (up x) OR push_bit (32 - n) (up x)) = word_rotr n x"
  proof (rule bit_word_eqI)
    fix j assume "j < LENGTH(32)"
    then have j: "j < 32" by simp
    have "bit (low (drop_bit n (up x) OR push_bit (32 - n) (up x))) j \<longleftrightarrow>
        bit x (n + j) \<or> 32 - n \<le> j \<and> bit x (j - (32 - n))"
      using j by (auto simp: bit_simps dest: bit_imp_le_length)
    also have "\<dots> \<longleftrightarrow> bit x ((n + j) mod 32)"
    proof (cases "n + j < 32")
      case False
      then have "\<not> bit x (n + j)" "32 - n \<le> j" "j - (32 - n) = n + j - 32" "(n + j) mod 32 = n + j - 32"
        using assms j by (auto dest: bit_imp_le_length simp: mod_if)
      with False show ?thesis by simp
    qed auto
    also have "\<dots> \<longleftrightarrow> bit (word_rotr n x) j" using j by (simp add: bit_word_rotr_iff add.commute)
    finally show "bit (low (drop_bit n (up x) OR push_bit (32 - n) (up x))) j \<longleftrightarrow> bit (word_rotr n x) j" .
  qed
  then show ?thesis by (simp add: rotr_def mask_32bit_up)
qed

lemma shr_up [up_low]: "shr (up x) n = up (drop_bit n x)"
  unfolding shr_def by (rule bit_word_eqI) (auto simp: bit_simps dest: bit_imp_le_length)

lemma ch_up [up_low]: "ch (up x) (up y) (up z) = up (sha_Ch x y z)"
  unfolding ch_def sha_Ch_def by (rule bit_word_eqI) (auto simp: bit_simps dest: bit_imp_le_length)

lemma maj_up [up_low]: "maj (up x) (up y) (up z) = up (sha_Maj x y z)"
  unfolding maj_def sha_Maj_def by (rule bit_word_eqI) (auto simp: bit_simps dest: bit_imp_le_length)

lemma sigmas_up [up_low]:
  "bsig0 (up x) = up (sha_S0 x)" "bsig1 (up x) = up (sha_S1 x)" "ssig0 (up x) = up (sha_s0 x)" "ssig1 (up x) = up (sha_s1 x)"
  by (simp_all add: bsig0_def bsig1_def ssig0_def ssig1_def sha_S0_def sha_S1_def sha_s0_def sha_s1_def up_low xor.assoc)

lemma constants_up:
  "t < 64 \<Longrightarrow> add_constant ! t = up (sha_K t)" "initial_message_digest = map up sha_H0"
proof -
  have small: "list_all (\<lambda>c. up (low c) = c) (add_constant @ initial_message_digest)"
    by (simp add: add_constant_def initial_message_digest_def mask_32bit_up [symmetric] mask_32bit_def)
  have lengths: "length first_primes = 64" "length integer_cbrts = 64" "length add_constant = 64" "length initial_message_digest = 8"
    by (simp_all add: first_primes_def integer_cbrts_def add_constant_def initial_message_digest_def)
  show "add_constant ! t = up (sha_K t)" if "t < 64"
  proof -
    from constants_check(1) that lengths have "root_bits 3 (first_primes ! t) (integer_cbrts ! t) (add_constant ! t)"
      by (fastforce simp: list_all_length)
    from root_bits_fraction [OF this] have "sha_K t = low (add_constant ! t)" by (simp add: sha_K_def)
    moreover have "up (low (add_constant ! t)) = add_constant ! t" using small that lengths by (simp add: list_all_iff)
    ultimately show ?thesis by simp
  qed
  show "initial_message_digest = map up sha_H0"
  proof (rule nth_equalityI)
    fix i assume "i < length initial_message_digest"
    then have i: "i < 8" by (simp add: lengths)
    with constants_check(2) lengths have "root_bits 2 (first_primes ! i) ([1, 1, 2, 2, 3, 3, 4, 4] ! i) (initial_message_digest ! i)"
      by (fastforce simp: list_all_length)
    from root_bits_fraction [OF this] have "sha_H0 ! i = low (initial_message_digest ! i)"
      using i by (simp add: sha_H0_def sqrt_def)
    moreover have "up (low (initial_message_digest ! i)) = initial_message_digest ! i"
      using small i lengths by (simp add: list_all_iff)
    ultimately show "initial_message_digest ! i = map up sha_H0 ! i" using i by (simp add: sha_H0_def)
  qed (simp add: lengths sha_H0_def)
qed


section \<open>The compression function\<close>

lemma mask_8bit_id [simp]: "mask_8bit b = b"
  unfolding mask_8bit_def mask_8_numeral by (rule bit_word_eqI) (auto simp: bit_simps)

lemma block_word_up:
  assumes "i < 16" and "length blk = 64" shows "block_word blk i = up (be_word blk i)"
proof -
  let ?b = "\<lambda>j. blk ! (i * 4 + j)"
  have four: "take 4 (drop (4 * i) blk) = [?b 0, ?b 1, ?b 2, ?b 3]"
    using assms by (intro nth_equalityI) (auto simp: less_Suc_eq numeral_eq_Suc mult.commute)
  have "be_nat (take 4 (drop (4 * i) blk)) < 2 ^ 32" using be_nat_less [of "take 4 (drop (4 * i) blk)"] assms by simp
  then have "up (be_word blk i) = word_of_nat (be_nat (take 4 (drop (4 * i) blk)))"
    by (simp add: be_word_def unsigned_of_nat take_bit_nat_eq_self)
  also have "\<dots> = ((push_bit 24 (ucast (?b 0)) + push_bit 16 (ucast (?b 1))) + push_bit 8 (ucast (?b 2))) + ucast (?b 3)"
    unfolding four by (simp add: push_bit_eq_mult)
  also have "\<dots> = ((push_bit 24 (ucast (?b 0)) OR push_bit 16 (ucast (?b 1))) OR push_bit 8 (ucast (?b 2))) OR ucast (?b 3)"
    by (subst disjunctive_add, auto simp: bit_simps dest: bit_imp_le_length)+
  finally show ?thesis by (simp add: block_word_def)
qed

lemma message_schedule_up:
  assumes "length blk = 64" shows "message_schedule blk = map (\<lambda>t. up (sha_W blk t)) [0..<64]"
proof -
  have extend: "extend_schedule (map (\<lambda>t. up (sha_W blk t)) [0..<i]) n = map (\<lambda>t. up (sha_W blk t)) [0..<i + n]" if "16 \<le> i" for i n
    using that
  proof (induction n arbitrary: i)
    case (Suc n)
    have "sha_W blk i = sha_s1 (sha_W blk (i - 2)) + sha_W blk (i - 7) + sha_s0 (sha_W blk (i - 15)) + sha_W blk (i - 16)"
      using Suc.prems by (simp add: sha_W.simps [of blk i])
    with Suc.IH [of "Suc i"] Suc.prems show ?case by (simp add: Let_def up_low)
  qed simp
  have "map (block_word blk) [0..<16] = map (\<lambda>t. up (sha_W blk t)) [0..<16]"
    using assms by (intro map_cong) (auto simp: block_word_up sha_W.simps)
  then show ?thesis unfolding message_schedule_def by (simp only: extend [of 16 48, simplified])
qed

abbreviation up8 :: "u32 regs \<Rightarrow> word_t regs" where
  "up8 \<equiv> (\<lambda>(a, b, c, d, e, f, g, h). (up a, up b, up c, up d, up e, up f, up g, up h))"

lemma round_step_up: "round_step (up (sha_K t)) (up (sha_W blk t)) (up8 r) = up8 (sha_round blk t r)"
  by (simp add: round_step_def sha_round_def Let_def up_low add.assoc split: prod.split)

lemma rounds_up:
  "rounds (map (\<lambda>t. up (sha_K t)) ts) (map (\<lambda>t. up (sha_W blk t)) ts) (up8 r) = up8 (fold (sha_round blk) ts r)"
  by (induction ts arbitrary: r) (simp_all add: round_step_up)

lemma hash256_block_up:
  assumes "length blk = 64" and "length H = 8"
  shows "hash256_block (map up H) blk = map up (sha_compress H blk)"
proof -
  have "length add_constant = 64" by (simp add: add_constant_def)
  then have "add_constant = map (\<lambda>t. up (sha_K t)) [0..<64]"
    by (intro nth_equalityI) (simp_all add: constants_up(1))
  with rounds_up [of "[0..<64]" blk "(H ! 0, H ! 1, H ! 2, H ! 3, H ! 4, H ! 5, H ! 6, H ! 7)"] assms
  show ?thesis
    by (simp add: hash256_block_def sha_compress_def message_schedule_up Let_def up_low add.commute split: prod.split)
qed


section \<open>The length\<close>

text \<open>The digits \<open>add_to_data_length\<close> keeps, and what \<open>write_data_bit_length\<close> makes of them.\<close>

definition digit :: "word_t \<Rightarrow> nat \<Rightarrow> word_t" where
  "digit n i = take_bit 16 (drop_bit (16 * i) n)"

lemma and_16: "x AND 65535 = take_bit 16 x" for x :: word_t
proof -
  have "(65535 :: word_t) = mask 16" by (simp add: mask_eq_exp_minus_1)
  then show ?thesis by (simp only: take_bit_eq_mask)
qed

lemma below_16:
  fixes x :: word_t assumes "x < 65536" shows "digit x i = (if i = 0 then x else 0)"
proof -
  have x: "take_bit 16 x = x"
    using assms by (simp add: word_unat_eq_iff unsigned_take_bit_eq take_bit_nat_eq_self word_less_nat_alt)
  then have "bit x m \<Longrightarrow> m < 16" for m by (metis bit_take_bit_iff)
  then have "i \<noteq> 0 \<Longrightarrow> drop_bit (16 * i) x = 0" by (intro bit_word_eqI) (force simp: bit_simps)
  with x show ?thesis by (simp add: digit_def)
qed

lemma add_carry_zeros: "add_carry c (replicate m 0) = map (digit c) [0..<m]"
proof (induction m arbitrary: c)
  case (Suc m)
  have shift: "map (digit (drop_bit 16 c)) [0..<m] = map (\<lambda>i. digit c (Suc i)) [0..<m]" by (simp add: digit_def add.commute)
  have split: "[0..<Suc m] = 0 # map Suc [0..<m]" by (simp add: upt_conv_Cons map_Suc_upt)
  show ?case
  proof (cases "65536 \<le> c")
    case True
    with Suc.IH [of "drop_bit 16 c"] shift show ?thesis unfolding split by (simp add: Let_def and_16 digit_def o_def)
  next
    case False
    then have "digit c i = (if i = 0 then c else 0)" for i by (intro below_16) simp
    with False show ?thesis unfolding split by (simp add: Let_def o_def map_replicate_const)
  qed
qed simp

lemma data_length_digits: "add_to_data_length n (replicate 4 0) = map (digit n) [0, 1, 2, 3]"
proof -
  have "add_to_data_length n (replicate 4 0) = add_carry n (replicate 4 0)"
    by (simp add: add_to_data_length_def numeral_eq_Suc)
  moreover have "[0..<4] = [0, 1, 2, 3 :: nat]" by (simp add: upt_rec)
  ultimately show ?thesis by (simp only: add_carry_zeros)
qed

lemma bit_length_bytes: "write_data_bit_length (map (digit n) [0, 1, 2, 3]) = be_bytes64 (push_bit 3 n)"
proof -
  define ds where "ds = shift_digits 0 (map (digit n) [0, 1, 2, 3])"
  have "ds = map (digit (push_bit 3 n)) [0, 1, 2, 3]"
    unfolding ds_def by (auto simp: and_16 digit_def intro!: bit_word_eqI) (auto simp: bit_simps)
  then show ?thesis
    unfolding write_data_bit_length_def ds_def [symmetric] be_bytes64_def Let_def
    by (auto simp: upt_rec digit_def intro!: bit_word_eqI) (auto simp: bit_simps)
qed


section \<open>Buffer and padding\<close>

interpretation sha: block_loop hash256_block process_blocks
  by unfold_locales (simp_all add: process_blocks.simps)

lemma length_full_blocks: "blk \<in> set (full_blocks msg) \<Longrightarrow> length blk = 64"
proof (induction "length msg" arbitrary: msg rule: less_induct)
  case less
  with less.hyps [of "drop 64 msg"] show ?case
    by (cases "64 \<le> length msg") (auto simp: full_blocks_step full_blocks_short)
qed

lemma length_sha_compress [simp]: "length (sha_compress H blk) = 8"
  by (simp add: sha_compress_def split: prod.split)

lemma hash256_blocks_up:
  "(\<And>blk. blk \<in> set bs \<Longrightarrow> length blk = 64) \<Longrightarrow> length H = 8 \<Longrightarrow>
     foldl hash256_block (map up H) bs = map up (foldl sha_compress H bs)"
  by (induction bs arbitrary: H) (simp_all add: hash256_block_up)

text \<open>What \<open>finish\<close> does with the rest of the message is what the padding adds to its full blocks.\<close>

lemma finish_padding:
  assumes "length (hs_buffer s) < 64" and "length (write_data_bit_length (hs_length_digits s)) = 8"
  shows "hs_h (finish s) = foldl hash256_block (hs_h s) (last_blocks (hs_buffer s) (write_data_bit_length (hs_length_digits s)))"
proof -
  let ?r = "hs_buffer s" let ?n = "length ?r"
  have temp1: "(?r @ replicate (64 - ?n) 0)[?n := 0x80] = ?r @ [0x80] @ replicate (63 - ?n) 0"
  proof -
    have "replicate (64 - ?n) 0 = 0 # replicate (63 - ?n) (0 :: byte)"
      using assms(1) by (simp add: replicate_Suc [symmetric] Suc_diff_le del: replicate_Suc)
    then show ?thesis by (simp add: list_update_append)
  qed
  show ?thesis
  proof (cases "?n \<le> 55")
    case True
    then have "56 - ?n = Suc (55 - ?n)" "60 - ?n = Suc (59 - ?n)" by simp_all
    with True show ?thesis by (simp add: finish_def Let_def temp1 min_def last_blocks_def)
  next
    case False
    with assms(1) show ?thesis by (simp add: finish_def Let_def temp1 last_blocks_def)
  qed
qed


lemma length_be_bytes64 [simp]: "length (be_bytes64 x) = 8"
  by (simp add: be_bytes64_def)

lemma process_init:
  "process init msg = \<lparr>hs_buffer = leftover msg,
     hs_length_digits = map (digit (word_of_nat (length msg))) [0, 1, 2, 3],
     hs_h = foldl hash256_block initial_message_digest (full_blocks msg)\<rparr>"
  by (simp add: process_def init_def data_length_digits sha.absorb_eq)

lemma hash256_eq_sha256: "hash256 msg = sha256 msg"
proof -
  let ?s = "process init msg" and ?len = "be_bytes64 (word_of_nat (8 * length msg))"
  have len: "write_data_bit_length (hs_length_digits ?s) = ?len"
    unfolding process_init hash256_one_by_one.select_convs bit_length_bytes by (simp add: push_bit_eq_mult mult.commute)
  have s: "hs_buffer ?s = leftover msg" "hs_h ?s = foldl hash256_block initial_message_digest (full_blocks msg)"
    by (simp_all add: process_init)
  have "hs_h (finish ?s) = foldl hash256_block initial_message_digest (full_blocks (padded msg ?len))"
    using finish_padding [of ?s] by (simp add: s len padded_blocks length_leftover)
  also have "\<dots> = map up (foldl sha_compress sha_H0 (full_blocks (padded msg ?len)))"
    unfolding constants_up(2) by (rule hash256_blocks_up) (simp_all add: length_full_blocks sha_H0_def)
  moreover have "map (\<lambda>i. mask_8bit (ucast (drop_bit (24 - 8 * i) (up x)))) [0, 1, 2, 3] = be_bytes32 x" for x
    by (auto simp: be_bytes32_def intro!: bit_word_eqI) (auto simp: bit_simps)
  ultimately show ?thesis by (simp add: hash256_def get_hash_bytes_def sha256_def o_def)
qed

text \<open>C10: \<open>picosha2::hash256\<close>, with its 64-bit words, its buffer and its length digits, is the SHA-256 of FIPS 180-4,
  for every message.\<close>

theorem hash256_is_sha256: "hash256 msg = sha256 msg"
  by (rule hash256_eq_sha256)

end
