(* ===== verification/Ripemd160_Spec.thy ===== *)
theory Ripemd160_Spec
  imports Ripemd160 Merkle_Damgard
begin

text \<open>
  RIPEMD-160 as its authors define it: five rounds on two lines, the message words ordered by the
  permutations \<open>\<rho>\<close> and \<open>\<pi>\<close>, one table of rotations by round and word, constants from square and cube roots;
  and that the Crypto++ class computes it, with its 160 written-out subrounds on 64-bit registers.
\<close>

section \<open>The definition\<close>

definition rmd_rho :: "nat list" where
  "rmd_rho = [7, 4, 13, 1, 10, 6, 15, 3, 12, 0, 9, 5, 2, 14, 11, 8]"

definition rmd_word :: "nat \<Rightarrow> nat \<Rightarrow> nat" where
  "rmd_word k i = ((\<lambda>j. rmd_rho ! j) ^^ k) i"

text \<open>The rotation of round \<open>k\<close> for message word \<open>j\<close>, the same on both lines.\<close>

definition rmd_shift :: "nat \<Rightarrow> nat \<Rightarrow> nat" where
  "rmd_shift k j =
     [[11, 14, 15, 12, 5, 8, 7, 9, 11, 13, 14, 15, 6, 7, 9, 8],
      [12, 13, 11, 15, 6, 9, 9, 7, 12, 15, 11, 13, 7, 8, 7, 7],
      [13, 15, 14, 11, 7, 7, 6, 8, 13, 14, 13, 12, 5, 5, 6, 9],
      [14, 11, 12, 14, 8, 6, 5, 5, 15, 12, 15, 14, 9, 9, 8, 6],
      [15, 12, 13, 13, 9, 5, 8, 6, 14, 11, 12, 11, 8, 6, 5, 5]] ! k ! j"

fun rmd_f :: "nat \<Rightarrow> u32 \<Rightarrow> u32 \<Rightarrow> u32 \<Rightarrow> u32" where
  "rmd_f 0 x y z = x XOR y XOR z"
| "rmd_f (Suc 0) x y z = (x AND y) OR (NOT x AND z)"
| "rmd_f (Suc (Suc 0)) x y z = (x OR NOT y) XOR z"
| "rmd_f (Suc (Suc (Suc 0))) x y z = (x AND z) OR (y AND NOT z)"
| "rmd_f _ x y z = x XOR (y OR NOT z)"

text \<open>\<open>\<lfloor>2\<^sup>3\<^sup>0 \<surd>p\<rfloor>\<close> and \<open>\<lfloor>2\<^sup>3\<^sup>0 \<^bold>3\<surd>p\<rfloor>\<close> for the primes 2, 3, 5 and 7, and zero.\<close>

definition rmd_K :: "nat \<Rightarrow> u32" where
  "rmd_K k = (if k = 0 then 0 else word_of_int \<lfloor>2 ^ 30 * root 2 (real ([2, 3, 5, 7] ! (k - 1)))\<rfloor>)"

definition rmd_K' :: "nat \<Rightarrow> u32" where
  "rmd_K' k = (if k = 4 then 0 else word_of_int \<lfloor>2 ^ 30 * root 3 (real ([2, 3, 5, 7] ! k))\<rfloor>)"

definition rmd_step :: "(nat \<Rightarrow> u32) \<Rightarrow> nat \<Rightarrow> nat \<Rightarrow> nat \<Rightarrow> u32 \<Rightarrow> u32 quint \<Rightarrow> u32 quint" where
  "rmd_step X fk k j c = (\<lambda>(A, B, C, D, E).
     (E, word_rotl (rmd_shift k j) (A + rmd_f fk B C D + X j + c) + E, B, word_rotl 10 C, D))"

definition rmd_left :: "(nat \<Rightarrow> u32) \<Rightarrow> u32 quint \<Rightarrow> u32 quint" where
  "rmd_left X = fold (\<lambda>(k, i). rmd_step X k k (rmd_word k i) (rmd_K k)) (List.product [0..<5] [0..<16])"

definition rmd_right :: "(nat \<Rightarrow> u32) \<Rightarrow> u32 quint \<Rightarrow> u32 quint" where
  "rmd_right X = fold (\<lambda>(k, i). rmd_step X (4 - k) k (rmd_word k ((9 * i + 5) mod 16)) (rmd_K' k)) (List.product [0..<5] [0..<16])"

definition rmd_compress :: "u32 list \<Rightarrow> bytes \<Rightarrow> u32 list" where
  "rmd_compress h blk =
     (let X = le_word blk;
          start = (h ! 0, h ! 1, h ! 2, h ! 3, h ! 4);
          (A, B, C, D, E) = rmd_left X start;
          (A', B', C', D', E') = rmd_right X start
      in [h ! 1 + C + D', h ! 2 + D + E', h ! 3 + E + A', h ! 4 + A + B', h ! 0 + B + C'])"

definition le_bytes64 :: "64 word \<Rightarrow> bytes" where
  "le_bytes64 x = map (\<lambda>i. ucast (drop_bit (8 * i) x)) [0..<8]"

definition ripemd160 :: "bytes \<Rightarrow> bytes" where
  "ripemd160 msg = concat (map word_bytes
     (foldl rmd_compress [0x67452301, 0xefcdab89, 0x98badcfe, 0x10325476, 0xc3d2e1f0]
       (full_blocks (padded msg (le_bytes64 (word_of_nat (8 * length msg)))))))"

section \<open>The tables\<close>

lemma rmd_constants:
  "rmd_K 0 = 0" "rmd_K 1 = 0x5a827999" "rmd_K 2 = 0x6ed9eba1" "rmd_K 3 = 0x8f1bbcdc" "rmd_K 4 = 0xa953fd4e"
  "rmd_K' 0 = 0x50a28be6" "rmd_K' 1 = 0x5c4dd124" "rmd_K' 2 = 0x6d703ef3" "rmd_K' 3 = 0x7a6d76e9" "rmd_K' 4 = 0"
proof -
  have "\<lfloor>2 ^ 30 * root 2 (real 2)\<rfloor> = int 0x5a827999" "\<lfloor>2 ^ 30 * root 2 (real 3)\<rfloor> = int 0x6ed9eba1"
    "\<lfloor>2 ^ 30 * root 2 (real 5)\<rfloor> = int 0x8f1bbcdc" "\<lfloor>2 ^ 30 * root 2 (real 7)\<rfloor> = int 0xa953fd4e"
    "\<lfloor>2 ^ 30 * root 3 (real 2)\<rfloor> = int 0x50a28be6" "\<lfloor>2 ^ 30 * root 3 (real 3)\<rfloor> = int 0x5c4dd124"
    "\<lfloor>2 ^ 30 * root 3 (real 5)\<rfloor> = int 0x6d703ef3" "\<lfloor>2 ^ 30 * root 3 (real 7)\<rfloor> = int 0x7a6d76e9"
    by (rule root_floor; simp)+
  then show "rmd_K 0 = 0" "rmd_K 1 = 0x5a827999" "rmd_K 2 = 0x6ed9eba1" "rmd_K 3 = 0x8f1bbcdc" "rmd_K 4 = 0xa953fd4e"
    "rmd_K' 0 = 0x50a28be6" "rmd_K' 1 = 0x5c4dd124" "rmd_K' 2 = 0x6d703ef3" "rmd_K' 3 = 0x7a6d76e9" "rmd_K' 4 = 0"
    by (simp_all add: rmd_K_def rmd_K'_def)
qed

definition round_fns :: "(ulong \<Rightarrow> ulong \<Rightarrow> ulong \<Rightarrow> ulong) list" where
  "round_fns = [F_fn, G_fn, H_fn, I_fn, J_fn]"

lemma round_fns_low:
  assumes "k < 5" shows "low ((round_fns ! k) x y z) = rmd_f k (low x) (low y) (low z)"
proof -
  from assms consider "k = 0" | "k = Suc 0" | "k = Suc (Suc 0)" | "k = Suc (Suc (Suc 0))" | "k = Suc (Suc (Suc (Suc 0)))"
    by linarith
  then show ?thesis
    by cases (auto simp: round_fns_def F_fn_def G_fn_def H_fn_def I_fn_def J_fn_def bit_simps intro!: bit_word_eqI)
qed

lemma rounds_16: "[0..<16] = [0, 1, 2, 3, 4, 5, 6, 7, 8, 9, 10, 11, 12, 13, 14, 15 :: nat]"
  by (simp add: upt_rec)

lemma rounds_5: "[0..<5] = [0, 1, 2, 3, 4 :: nat]"
  by (simp add: upt_rec)

lemma rmd_words:
  "rmd_word 0 i = i" "rmd_word 1 i = rmd_rho ! i" "rmd_word 2 i = rmd_rho ! (rmd_rho ! i)"
  "rmd_word 3 i = rmd_rho ! (rmd_rho ! (rmd_rho ! i))" "rmd_word 4 i = rmd_rho ! (rmd_rho ! (rmd_rho ! (rmd_rho ! i)))"
  by (simp_all add: rmd_word_def eval_nat_numeral)

lemma lines:
  "left_line = map (\<lambda>(k, i). (round_fns ! k, rmd_word k i, rmd_shift k (rmd_word k i), up (rmd_K k))) (List.product [0..<5] [0..<16])"
  "right_line = map (\<lambda>(k, i). (round_fns ! (4 - k), rmd_word k ((9 * i + 5) mod 16),
      rmd_shift k (rmd_word k ((9 * i + 5) mod 16)), up (rmd_K' k))) (List.product [0..<5] [0..<16])"
  unfolding rounds_5 rounds_16 left_line_def right_line_def
  by (simp_all add: round_fns_def rmd_words [unfolded One_nat_def] rmd_rho_def rmd_shift_def rmd_constants [unfolded One_nat_def] k_defs)


section \<open>The compression function\<close>

abbreviation low5 :: "ulong quint \<Rightarrow> u32 quint" where
  "low5 \<equiv> (\<lambda>(a, b, c, d, e). (low a, low b, low c, low d, low e))"

lemma rotl32_eq:
  assumes "0 < s" and "s < 32" shows "rotl32 s x = word_rotl s x"
proof (rule bit_word_eqI)
  fix j assume "j < LENGTH(32)"
  then have j: "j < 32" by simp
  show "bit (rotl32 s x) j \<longleftrightarrow> bit (word_rotl s x) j"
  proof (cases "s \<le> j")
    case True
    then have "\<not> bit x (32 - s + j)" "(j + (32 - s)) mod 32 = j - s" using assms j by (auto dest: bit_imp_le_length simp: mod_if)
    with True j assms show ?thesis by (simp add: rotl32_def bit_simps)
  next
    case False
    then have "(j + (32 - s)) mod 32 = 32 - s + j" using assms j by simp
    with False j assms show ?thesis by (simp add: rotl32_def bit_simps)
  qed
qed

lemma rmd_shift_range:
  assumes "k < 5" and "j < 16" shows "0 < rmd_shift k j \<and> rmd_shift k j < 32"
proof -
  have "list_all (\<lambda>(k, j). 0 < rmd_shift k j \<and> rmd_shift k j < 32) (List.product [0..<5] [0..<16])"
    unfolding rounds_5 rounds_16 by (simp add: rmd_shift_def)
  with assms show ?thesis by (fastforce simp: list_all_iff)
qed

lemma rmd_word_range: "i < 16 \<Longrightarrow> rmd_word k i < 16"
proof (induction k)
  case (Suc k)
  have "list_all (\<lambda>j. j < 16) rmd_rho" "length rmd_rho = 16" by (simp_all add: rmd_rho_def)
  with Suc show ?case by (simp add: rmd_word_def list_all_length)
qed (simp add: rmd_word_def)

lemma Subround_low:
  assumes "f < 5" and "k < 5" and "j < 16"
  shows "low5 (Subround (map (le_word blk) [0..<16]) (round_fns ! f, j, rmd_shift k j, up c) r) = rmd_step (le_word blk) f k j c (low5 r)"
  using rmd_shift_range [OF assms(2,3)] assms(1,3)
  by (simp add: Subround_def rmd_step_def Let_def up_low round_fns_low rotl32_eq add.assoc split: prod.split)

lemma lines_low:
  "low5 (fold (Subround (map (le_word blk) [0..<16])) left_line r) = rmd_left (le_word blk) (low5 r)"
  "low5 (fold (Subround (map (le_word blk) [0..<16])) right_line r) = rmd_right (le_word blk) (low5 r)"
proof -
  have fold_low: "low5 (fold f xs r) = fold g xs (low5 r)"
    if "\<And>x r. x \<in> set xs \<Longrightarrow> low5 (f x r) = g x (low5 r)" for f g and xs :: "(nat \<times> nat) list" and r
    using that by (induction xs arbitrary: r) simp_all
  show "low5 (fold (Subround (map (le_word blk) [0..<16])) left_line r) = rmd_left (le_word blk) (low5 r)"
    unfolding lines rmd_left_def fold_map by (rule fold_low) (auto simp: Subround_low rmd_word_range)
  show "low5 (fold (Subround (map (le_word blk) [0..<16])) right_line r) = rmd_right (le_word blk) (low5 r)"
    unfolding lines rmd_right_def fold_map by (rule fold_low) (auto simp: Subround_low rmd_word_range)
qed

lemma HashBlock_eq: "HashBlock h blk = rmd_compress h blk"
  using lines_low [of blk "(up (h ! 0), up (h ! 1), up (h ! 2), up (h ! 3), up (h ! 4))"]
  by (simp add: HashBlock_def Transform_def rmd_compress_def Let_def up_low split: prod.split) (auto split: prod.splits)


section \<open>Buffer and padding\<close>

interpretation rmd: block_loop HashBlock HashMultipleBlocks
  by unfold_locales (simp_all add: HashMultipleBlocks.simps)

text \<open>The object after the one \<open>Update\<close>: the counters, the state, and the rest of the message in the buffer.\<close>

lemma Update_fresh:
  "Update fresh_hash msg = \<lparr>m_countLo = word_of_nat (length msg), m_countHi = word_of_nat (length msg div 2 ^ 32),
     m_data = leftover msg @ replicate (64 - length msg mod 64) 0, m_state = foldl HashBlock InitState (full_blocks msg)\<rparr>"
proof (cases "msg = []")
  case False
  then show ?thesis
    by (simp add: Update_def fresh_hash_def count_hi_def rmd.absorb_eq copy_to_def length_leftover Let_def)
qed (simp add: Update_def fresh_hash_def leftover_def full_blocks_def)

text \<open>What \<open>TruncatedFinal\<close> hashes last, whatever the buffer holds behind the rest of the message.\<close>

lemma TruncatedFinal_blocks:
  assumes "m_data s = r @ junk" and "length junk = 64 - length r" and "length r < 64" and "unat (m_countLo s) mod 64 = length r"
  shows "TruncatedFinal s 20 = take 20 (concat (map word_bytes (foldl HashBlock (m_state s)
    (last_blocks r (word_bytes (push_bit 3 (m_countLo s))
      @ word_bytes (drop_bit 29 (m_countLo s) + push_bit 3 (m_countHi s)))))))"
proof -
  let ?n = "length r"
  obtain x rest where junk: "junk = x # rest" "length rest = 63 - ?n"
    using assms(2,3) by (cases junk) auto
  then have data: "(m_data s)[?n := 0x80] = r @ [0x80] @ rest" by (simp add: assms(1) list_update_append)
  show ?thesis
  proof (cases "?n \<le> 55")
    case True
    then have "56 - ?n = Suc (55 - ?n)" by simp
    with True junk(2) show ?thesis
      by (simp add: TruncatedFinal_def PadLastBlock_def Let_def assms(4) data copy_to_def last_blocks_def word_bytes_def)
  next
    case False
    with assms(3) junk(2) show ?thesis
      by (simp add: TruncatedFinal_def PadLastBlock_def Let_def assms(4) data copy_to_def last_blocks_def word_bytes_def)
  qed
qed

lemma count_bytes:
  "word_bytes (push_bit 3 (word_of_nat n)) @ word_bytes (drop_bit 29 (word_of_nat n) + push_bit 3 (word_of_nat (n div 2 ^ 32)))
     = le_bytes64 (word_of_nat (8 * n))"
proof -
  let ?hi = "drop_bit 29 (word_of_nat n) OR push_bit 3 (word_of_nat (drop_bit 32 n)) :: u32"
  have "drop_bit 29 (word_of_nat n) + push_bit 3 (word_of_nat (n div 2 ^ 32)) = ?hi"
    unfolding drop_bit_eq_div [symmetric] by (rule disjunctive_add) (auto simp: bit_simps)
  moreover have "[0..<8] = [0, 1, 2, 3, 4, 5, 6, 7 :: nat]" by (simp add: upt_rec)
  moreover have "8 * n = push_bit 3 n" by (simp add: push_bit_eq_mult)
  ultimately show ?thesis
    by (simp only: word_bytes_def le_bytes64_def) (auto simp: bit_simps intro!: bit_word_eqI)
qed

lemma length_le_bytes64 [simp]: "length (le_bytes64 x) = 8"
  by (simp add: le_bytes64_def)

lemma length_rmd_blocks: "length h = 5 \<Longrightarrow> length (foldl rmd_compress h bs) = 5"
proof (induction bs arbitrary: h)
  case (Cons b bs)
  have "length (rmd_compress h b) = 5" by (simp add: rmd_compress_def Let_def split: prod.split)
  with Cons.IH show ?case by simp
qed simp

text \<open>An object with these counters, buffer and state yields the digest of \<open>msg\<close>.\<close>

lemma TruncatedFinal_digest:
  assumes "m_countLo s = word_of_nat (length msg)" and "m_countHi s = word_of_nat (length msg div 2 ^ 32)"
    and "m_data s = leftover msg @ junk" and "length junk = 64 - length msg mod 64"
    and "m_state s = foldl HashBlock InitState (full_blocks msg)"
  shows "TruncatedFinal s 20 = ripemd160 msg"
proof -
  let ?len = "le_bytes64 (word_of_nat (8 * length msg))"
  have "unat (m_countLo s) mod 64 = length msg mod 64"
    by (simp add: assms(1) unsigned_of_nat take_bit_eq_mod mod_mod_cancel)
  then have "TruncatedFinal s 20 = take 20 (concat (map word_bytes
      (foldl HashBlock (foldl HashBlock InitState (full_blocks msg)) (last_blocks (leftover msg) ?len))))"
    using TruncatedFinal_blocks [of s "leftover msg" junk] assms(3,4)
    unfolding assms(1,2,5) count_bytes by (simp add: length_leftover)
  moreover have "HashBlock = rmd_compress" by (intro ext HashBlock_eq)
  ultimately show ?thesis
    by (simp add: ripemd160_def padded_blocks InitState_def length_rmd_blocks)
qed

text \<open>C11: \<open>RIPEMD160().CalculateDigest\<close>, as \<open>hash_ripemd160\<close> calls it, is RIPEMD-160.\<close>

theorem CalculateDigest_is_ripemd160: "CalculateDigest msg = ripemd160 msg"
  unfolding CalculateDigest_def
  by (rule TruncatedFinal_digest [where junk = "replicate (64 - length msg mod 64) 0"]) (simp_all add: Update_fresh)

end
