(* ===== verification/Hash_Stream.thy ===== *)
theory Hash_Stream
  imports Crypto Sha256_Spec Ripemd160_Spec
begin

text \<open>
  Hashing a message that arrives in pieces: the interface of both hash classes (start, feed, finish), the
  overload of \<open>picosha2::hash256\<close> that reads its input through a buffer, and the partial updates of the
  Crypto++ class.
\<close>

section \<open>Hashers\<close>

text \<open>\<open>seen s msg\<close>: the object \<open>s\<close> has been fed \<open>msg\<close>. A hasher promises to keep track of what it is fed, as
  long as the next piece fits.\<close>

locale hasher =
  fixes start :: 's
    and feed :: "'s \<Rightarrow> bytes \<Rightarrow> 's"
    and seen :: "'s \<Rightarrow> bytes \<Rightarrow> bool"
    and fits :: "bytes \<Rightarrow> bytes \<Rightarrow> bool"
  assumes seen_start: "seen start []"
    and seen_feed: "seen s msg \<Longrightarrow> fits msg piece \<Longrightarrow> seen (feed s piece) (msg @ piece)"
begin

lemma seen_pieces:
  assumes "\<And>xs piece ys. pieces = xs @ piece # ys \<Longrightarrow> fits (concat xs) piece"
  shows "seen (foldl feed start pieces) (concat pieces)"
  using assms
proof (induction pieces rule: rev_induct)
  case (snoc piece pieces)
  have "seen (foldl feed start pieces) (concat pieces)"
  proof (rule snoc.IH)
    fix xs x ys assume "pieces = xs @ x # ys"
    with snoc.prems [of xs x "ys @ [piece]"] show "fits (concat xs) x" by simp
  qed
  from seen_feed [OF this snoc.prems [of pieces piece "[]"]] show ?case by simp
qed (simp add: seen_start)

end

section \<open>picosha2\<close>

text \<open>The digits of the length, as numbers.\<close>

definition digit_nat :: "nat \<Rightarrow> nat \<Rightarrow> nat" where
  "digit_nat n i = n div 65536 ^ i mod 65536"

lemma digit_nat_0: "digit_nat n 0 = n mod 65536"
  by (simp add: digit_nat_def)

lemma digit_nat_Suc: "digit_nat n (Suc i) = digit_nat (n div 65536) i"
  by (simp add: digit_nat_def div_mult2_eq)

lemma digit_word: "i < 4 \<Longrightarrow> digit (word_of_nat n) i = word_of_nat (digit_nat n i)"
proof -
  assume i: "i < 4"
  have "digit_nat n i = take_bit 16 (drop_bit (16 * i) n)"
    by (simp add: digit_nat_def take_bit_eq_mod drop_bit_eq_div power_mult)
  moreover have "digit (word_of_nat n) i = word_of_nat (take_bit 16 (drop_bit (16 * i) n))"
    using i by (intro bit_word_eqI) (auto simp: digit_def bit_simps)
  ultimately show ?thesis by simp
qed

lemma upt_Suc_map: "[0..<Suc m] = 0 # map Suc [0..<m]"
  by (simp add: upt_conv_Cons map_Suc_upt)

lemma add_carry_digits:
  "c + 65535 < 2 ^ 64 \<Longrightarrow>
     add_carry (word_of_nat c) (map (\<lambda>i. word_of_nat (digit_nat l i)) [0..<m]) = map (\<lambda>i. word_of_nat (digit_nat (l + c) i)) [0..<m]"
proof (induction m arbitrary: c l)
  case (Suc m)
  define h where "h = l mod 65536 + c"
  have sum: "word_of_nat (l mod 65536) + word_of_nat c = (word_of_nat h :: word_t)" by (simp add: h_def)
  have lt: "h < 2 ^ 64" using Suc.prems mod_less_divisor [of 65536 l] unfolding h_def by linarith
  then have u: "unat (word_of_nat h :: word_t) = h" by (simp add: unat_of_nat)
  then have big: "65536 \<le> (word_of_nat h :: word_t) \<longleftrightarrow> 65536 \<le> h" by (simp add: word_le_nat_alt)
  have "l + c = 65536 * (l div 65536) + h" by (simp add: h_def)
  then have mod: "(l + c) mod 65536 = h mod 65536" and dv: "(l + c) div 65536 = l div 65536 + h div 65536" by simp_all
  have "unat (drop_bit 16 (word_of_nat h :: word_t)) = h div 65536"
    by (simp only: unat_drop_bit_eq u) (simp add: drop_bit_eq_div)
  moreover have "unat (word_of_nat (h div 65536) :: word_t) = h div 65536" using lt by (simp add: unat_of_nat)
  ultimately have carry: "drop_bit 16 (word_of_nat h) = (word_of_nat (h div 65536) :: word_t)"
    by (simp only: word_unat_eq_iff)
  have low: "word_of_nat h AND 65535 = (word_of_nat (h mod 65536) :: word_t)"
  proof -
    have "take_bit 16 (word_of_nat h) = (word_of_nat (take_bit 16 h) :: word_t)"
      by (rule bit_word_eqI) (auto simp: bit_simps)
    then show ?thesis by (simp add: and_16 take_bit_eq_mod)
  qed
  show ?case
  proof (cases "65536 \<le> h")
    case True
    have "h div 65536 + 65535 < 2 ^ 64" using lt by simp
    from Suc.IH [OF this, of "l div 65536"] True show ?thesis
      unfolding upt_Suc_map by (simp add: comp_def digit_nat_0 digit_nat_Suc sum big carry low mod dv Let_def)
  next
    case False
    then have "h div 65536 = 0" "h mod 65536 = h" by simp_all
    with False show ?thesis
      unfolding upt_Suc_map by (simp add: comp_def digit_nat_0 digit_nat_Suc sum big mod dv Let_def)
  qed
qed simp


lemma add_to_data_length_digits:
  assumes "n + 65535 < 2 ^ 64"
  shows "add_to_data_length (word_of_nat n) (map (digit (word_of_nat l)) [0, 1, 2, 3]) = map (digit (word_of_nat (l + n))) [0, 1, 2, 3]"
proof -
  have four: "map (digit (word_of_nat k)) [0, 1, 2, 3] = map (\<lambda>i. word_of_nat (digit_nat k i)) [0..<4]" for k
  proof -
    have "[0..<4] = [0, 1, 2, 3 :: nat]" by (simp add: upt_rec)
    then show ?thesis by (simp only:) (simp add: digit_word)
  qed
  have "add_carry 0 (d # ds) = add_carry c (e # ds)" if "d = e + c" for c d e :: word_t and ds using that by simp
  then have "add_to_data_length c (e # ds) = add_carry c (e # ds)" for c e :: word_t and ds
    by (simp add: add_to_data_length_def del: add_carry.simps)
  then have "add_to_data_length (word_of_nat n) (map (\<lambda>i. word_of_nat (digit_nat l i)) [0..<4])
      = add_carry (word_of_nat n) (map (\<lambda>i. word_of_nat (digit_nat l i)) [0..<4])"
    by (simp add: upt_conv_Cons del: add_carry.simps)
  with add_carry_digits [OF assms] show ?thesis unfolding four by simp
qed

lemma process_append:
  assumes "length b + 65535 < 2 ^ 64" shows "process (process init a) b = process init (a @ b)"
  using assms
  by (simp add: process_init process_def [of "\<lparr>hs_buffer = _, hs_length_digits = _, hs_h = _\<rparr>"]
      add_to_data_length_digits [simplified] sha.absorb_eq full_blocks_append [of a] leftover_append [of a])

interpretation picosha: hasher init process "\<lambda>s msg. s = process init msg" "\<lambda>msg piece. length piece + 65535 < 2 ^ 64"
proof
  have "replicate 4 (0 :: word_t) = [0, 0, 0, 0]" by (simp add: numeral_eq_Suc)
  then show "init = process init []"
    unfolding process_init by (simp add: init_def digit_def leftover_def full_blocks_def)
qed (simp add: process_append)

text \<open>\<open>hash256_impl\<close> for input iterators: turn by turn the loop fills a buffer of \<open>buffer_size\<close> bytes, or what
  is left, and feeds it. With a buffer of no bytes it takes nothing off the input.\<close>

partial_function (option) stream_loop :: "nat \<Rightarrow> hash256_one_by_one \<Rightarrow> bytes \<Rightarrow> hash256_one_by_one option" where
  "stream_loop buffer_size h data =
     (if data = [] then Some h
      else
        (let size = (if length data < buffer_size then length data else buffer_size)
         in stream_loop buffer_size (process h (take size data)) (drop size data)))"

definition hash256_impl_input :: "i32 \<Rightarrow> bytes \<Rightarrow> bytes result" where
  "hash256_impl_input buffer_size data =
     (if sint buffer_size < 0 then Inl (Length_error ''cannot create std::vector larger than max_size()'')
      else
        (case stream_loop (nat (sint buffer_size)) init data of
           None \<Rightarrow> Inl No_return
         | Some h \<Rightarrow> Inr (get_hash_bytes (finish h))))"

lemma stream_loop_stuck:
  assumes "stream_loop 0 h data = Some h'" shows "data = []"
  by (rule stream_loop.raw_induct [where P = "\<lambda>n h data h'. n = 0 \<longrightarrow> data = []", OF _ assms, rule_format])
    (auto split: if_splits)

lemma stream_loop_pieces:
  assumes "0 < n"
  shows "\<exists>pieces. stream_loop n h data = Some (foldl process h pieces) \<and> concat pieces = data
    \<and> list_all (\<lambda>piece. length piece \<le> n) pieces"
proof (induction "length data" arbitrary: h data rule: less_induct)
  case less
  let ?k = "if length data < n then length data else n"
  show ?case
  proof (cases "data = []")
    case True
    then show ?thesis by (intro exI [of _ "[]"]) (simp add: stream_loop.simps)
  next
    case False
    with assms have "length (drop ?k data) < length data" by simp
    from less [OF this, of "process h (take ?k data)"] obtain pieces where
      "stream_loop n (process h (take ?k data)) (drop ?k data) = Some (foldl process (process h (take ?k data)) pieces)"
      "concat pieces = drop ?k data" "list_all (\<lambda>piece. length piece \<le> n) pieces" by blast
    with False show ?thesis
      by (intro exI [of _ "take ?k data # pieces"]) (simp add: stream_loop.simps [of n h data] Let_def)
  qed
qed

lemma stream_result:
  "hash256_impl_input buffer_size data =
     (if sint buffer_size < 0 then Inl (Length_error ''cannot create std::vector larger than max_size()'')
      else if buffer_size = 0 \<and> data \<noteq> [] then Inl No_return
      else Inr (sha256 data))"
proof -
  let ?n = "nat (sint buffer_size)"
  have empty: "stream_loop 0 init data = (if data = [] then Some init else None)"
  proof (cases "data = []")
    case True
    then show ?thesis by (simp add: stream_loop.simps [of 0 init "[]"])
  next
    case False
    with stream_loop_stuck [of init data] show ?thesis by (cases "stream_loop 0 init data") auto
  qed
  have same: "get_hash_bytes (finish (process init data)) = sha256 data"
    using hash256_eq_sha256 [of data] by (simp add: hash256_def)
  show ?thesis
  proof (cases "0 < ?n")
    case True
    obtain pieces where p: "stream_loop ?n init data = Some (foldl process init pieces)" "concat pieces = data"
      "list_all (\<lambda>piece. length piece \<le> ?n) pieces" using stream_loop_pieces [OF True] by blast
    have "sint buffer_size < 2 ^ 31" using sint_less [of buffer_size] by simp
    then have "length piece + 65535 < 2 ^ 64" if "piece \<in> set pieces" for piece
      using that p(3) by (fastforce simp: list_all_iff)
    then have "foldl process init pieces = process init data"
      using picosha.seen_pieces [of pieces] by (simp add: p(2))
    with p(1) same True show ?thesis by (auto simp: hash256_impl_input_def)
  next
    case False
    then have "sint buffer_size < 0 \<or> sint buffer_size = 0" by linarith
    then consider "sint buffer_size < 0" | "buffer_size = 0" by (auto simp only: signed_eq_0_iff)
    then show ?thesis
      using picosha.seen_start same by cases (auto simp: hash256_impl_input_def empty)
  qed
qed


text \<open>C12: The overload of \<open>picosha2::hash256\<close> that reads its input through a buffer computes the same SHA-256 as
  the other one, whatever the size of the buffer and however long the message; it throws for a negative
  size, and with a buffer of no bytes it returns for the empty message only.\<close>

theorem hash256_stream_is_sha256:
  "hash256_impl_input buffer_size data =
     (if sint buffer_size < 0 then Inl (Length_error ''cannot create std::vector larger than max_size()'')
      else if buffer_size = 0 \<and> data \<noteq> [] then Inl No_return
      else Inr (sha256 data))"
  by (rule stream_result)

text \<open>The overload for a file stream, with the buffer of the header's default size.\<close>

definition PICOSHA2_BUFFER_SIZE_FOR_INPUT_ITERATOR :: i32 where
  "PICOSHA2_BUFFER_SIZE_FOR_INPUT_ITERATOR = 1048576"

definition hash256_ifstream :: "bytes \<Rightarrow> bytes result" where
  "hash256_ifstream content = hash256_impl_input PICOSHA2_BUFFER_SIZE_FOR_INPUT_ITERATOR content"

definition bytes_to_hex_string :: "bytes \<Rightarrow> string" where
  "bytes_to_hex_string bs = output_hex bs"

definition get_hash_hex_string :: "hash256_one_by_one \<Rightarrow> string" where
  "get_hash_hex_string h = bytes_to_hex_string (get_hash_bytes h)"

text \<open>Reading a file always ends in its hash, and a hasher fed in pieces prints what \<open>hash256_hex_string\<close> returns
  for the whole.\<close>

lemma hash256_ifstream_total: "hash256_ifstream content = Inr (hash256 content)"
  by (simp add: hash256_ifstream_def PICOSHA2_BUFFER_SIZE_FOR_INPUT_ITERATOR_def stream_result hash256_eq_sha256)

lemma hex_digest_in_pieces:
  assumes "concat pieces = string_bytes src" and "\<And>piece. piece \<in> set pieces \<Longrightarrow> length piece + 65535 < 2 ^ 64"
  shows "get_hash_hex_string (finish (foldl process init pieces)) = hash256_hex_string src"
  using picosha.seen_pieces [of pieces] assms
  by (simp add: get_hash_hex_string_def bytes_to_hex_string_def hash256_hex_string_def hash256_def)

section \<open>Crypto++\<close>

text \<open>What the object remembers of \<open>msg\<close>; behind the rest of the message its buffer holds whatever earlier blocks
  left there.\<close>

definition iter_seen :: "iter_hash \<Rightarrow> bytes \<Rightarrow> bool" where
  "iter_seen s msg \<longleftrightarrow> m_countLo s = word_of_nat (length msg) \<and> m_countHi s = word_of_nat (length msg div 2 ^ 32)
     \<and> length (m_data s) = 64 \<and> take (length msg mod 64) (m_data s) = leftover msg
     \<and> m_state s = foldl HashBlock InitState (full_blocks msg)"

text \<open>The counters: the low word wraps around exactly when the high one takes a carry, and \<open>Update\<close> does not
  throw below \<open>2 ^ 64\<close> bytes.\<close>

lemma low_count: "unat (word_of_nat n :: u32) = n mod 2 ^ 32"
  by (simp add: unat_of_nat)

lemma carry_of_sum:
  fixes M :: nat assumes "0 < M"
  shows "(a mod M + b mod M) div M = (if (a + b) mod M < a mod M then 1 else 0)"
proof -
  let ?x = "a mod M" and ?y = "b mod M"
  have m: "?x < M" "?y < M" "(a + b) mod M = (?x + ?y) mod M" using assms by (simp_all add: mod_add_eq)
  show ?thesis
  proof (cases "?x + ?y < M")
    case False
    with add_strict_mono [OF m(1,2)] have "(?x + ?y) div M = 1" by (intro div_nat_eqI) simp_all
    moreover have "?x + ?y - M < M" using m(1,2) False by linarith
    then have "(?x + ?y) mod M = ?x + ?y - M" using False by (simp add: le_mod_geq)
    ultimately show ?thesis using m False by simp
  qed (use m(3) in simp)
qed

lemma count_hi_seen:
  assumes "m_countLo s = word_of_nat a" and "m_countHi s = word_of_nat (a div 2 ^ 32)"
  shows "count_hi s b = word_of_nat ((a + b) div 2 ^ 32)"
proof -
  have lo: "m_countLo s + word_of_nat b = (word_of_nat (a + b) :: u32)" by (simp add: assms(1))
  have "unat (m_countLo s + word_of_nat b) = (a + b) mod 2 ^ 32" by (simp only: lo low_count)
  moreover have "unat (m_countLo s) = a mod 2 ^ 32" by (simp only: assms(1) low_count)
  ultimately have less: "m_countLo s + word_of_nat b < m_countLo s \<longleftrightarrow> (a + b) mod 2 ^ 32 < a mod 2 ^ 32"
    by (simp only: word_less_nat_alt)
  have "(a + b) div 2 ^ 32 = a div 2 ^ 32 + b div 2 ^ 32 + (if (a + b) mod 2 ^ 32 < a mod 2 ^ 32 then 1 else 0)"
    unfolding carry_of_sum [of "2 ^ 32", symmetric, OF zero_less_power [OF zero_less_numeral]] by (rule div_add1_eq)
  then show ?thesis unfolding count_hi_def Let_def less assms(2) by (auto simp only: of_nat_add of_nat_1 split: if_split) (simp_all add: ac_simps)
qed

lemma Update_fits:
  assumes "iter_seen s a" and "length a + length b < 2 ^ 64" shows "\<not> Update_throws s b"
proof -
  have "count_hi s (length b) = word_of_nat ((length a + length b) div 2 ^ 32)" "m_countHi s = word_of_nat (length a div 2 ^ 32)"
    using assms(1) count_hi_seen [of s "length a"] by (simp_all add: iter_seen_def)
  moreover have "(length a + length b) div 2 ^ 32 < 2 ^ 32" "length a div 2 ^ 32 < 2 ^ 32" "length b div 2 ^ 64 = 0"
    using assms(2) by simp_all
  moreover have "length a div 2 ^ 32 \<le> (length a + length b) div 2 ^ 32" by (simp add: div_le_mono)
  ultimately show ?thesis by (simp add: Update_throws_def word_less_nat_alt unat_of_nat)
qed


lemma buffered: "iter_seen s msg \<Longrightarrow> unat (m_countLo s) mod 64 = length msg mod 64"
  by (simp add: iter_seen_def low_count mod_mod_cancel)

text \<open>The object after \<open>Update\<close> has moved the counters and hashed the blocks that are now full.\<close>

abbreviation counted_up :: "iter_hash \<Rightarrow> nat \<Rightarrow> iter_hash" where
  "counted_up s n \<equiv> s\<lparr>m_countLo := m_countLo s + word_of_nat n, m_countHi := count_hi s n\<rparr>"

lemma iter_seen_counted:
  assumes "iter_seen s a" and "length d = 64" and "take (length (a @ b) mod 64) d = leftover (leftover a @ b)"
  shows "iter_seen ((counted_up s (length b))\<lparr>m_state := foldl HashBlock (m_state s) (full_blocks (leftover a @ b)), m_data := d\<rparr>) (a @ b)"
  using assms count_hi_seen [of s "length a" "length b"]
  by (simp add: iter_seen_def full_blocks_append [of a] leftover_append [of a])

lemma iter_seen_filled:
  assumes "iter_seen s a" and "length data = 64"
    and "foldl HashBlock st (full_blocks rest) = foldl HashBlock (m_state s) (full_blocks (leftover a @ b))"
    and "leftover rest = leftover (leftover a @ b)"
  shows "iter_seen ((counted_up s (length b))\<lparr>m_state := foldl HashBlock st (full_blocks rest), m_data := copy_to data 0 (leftover rest)\<rparr>) (a @ b)"
proof -
  have "length (leftover (leftover a @ b)) = length (a @ b) mod 64" by (simp add: length_leftover mod_add_left_eq)
  moreover have "length (a @ b) mod 64 < 64" by simp
  ultimately show ?thesis
    unfolding assms(3,4) using assms(2) by (intro iter_seen_counted [OF assms(1)]) (simp_all add: copy_to_def)
qed

text \<open>The three ways through \<open>Update\<close>: the piece does not fill the buffer; it fills it up first; the buffer was
  empty.\<close>

lemma iter_seen_Update:
  assumes "iter_seen s a" shows "iter_seen (Update s b) (a @ b)"
proof -
  let ?n = "length a mod 64" and ?l = "length b" and ?s = "counted_up s (length b)"
  from assms have s: "length (m_data s) = 64" "take ?n (m_data s) = leftover a" by (simp_all add: iter_seen_def)
  have len: "length (leftover a) = ?n" by (rule length_leftover)
  note filled = iter_seen_filled [OF assms, of _ _ _ b]
  consider (none) "b = []" | (some) "b \<noteq> []" "?n \<noteq> 0" "?n + ?l < 64" | (fills) "b \<noteq> []" "?n \<noteq> 0" "64 \<le> ?n + ?l" | (fresh) "b \<noteq> []" "?n = 0"
    by fastforce
  then show ?thesis
  proof cases
    case none
    with assms show ?thesis by (simp add: Update_def)
  next
    case some
    have "length (a @ b) mod 64 = (?n + ?l) mod 64" by (simp add: mod_add_left_eq)
    with some(3) have "length (a @ b) mod 64 = ?n + ?l" by simp
    with some len s have "iter_seen (?s\<lparr>m_state := m_state s, m_data := copy_to (m_data s) ?n b\<rparr>) (a @ b)"
      using iter_seen_counted [OF assms, of "copy_to (m_data s) ?n b" b] by (simp add: full_blocks_short leftover_short copy_to_def)
    with some show ?thesis by (simp add: Update_def Let_def buffered [OF assms])
  next
    case fills
    let ?d = "leftover a @ take (64 - ?n) b"
    have d: "copy_to (m_data s) ?n (take (64 - ?n) b) = ?d" using fills s by (simp add: copy_to_def)
    have "length ?d = 64" using fills len by simp
    moreover have "take 64 (leftover a @ b) = ?d" "drop 64 (leftover a @ b) = drop (64 - ?n) b" "64 \<le> length (leftover a @ b)"
      using fills len by (simp_all add: less_imp_le)
    then have "full_blocks (leftover a @ b) = ?d # full_blocks (drop (64 - ?n) b)" "leftover (leftover a @ b) = leftover (drop (64 - ?n) b)"
      by (simp_all add: full_blocks_step [of "leftover a @ b"] leftover_step [of "leftover a @ b"])
    ultimately have "iter_seen (?s\<lparr>m_state := foldl HashBlock (HashBlock (m_state s) ?d) (full_blocks (drop (64 - ?n) b)),
        m_data := copy_to ?d 0 (leftover (drop (64 - ?n) b))\<rparr>) (a @ b)" by (intro filled) simp_all
    with fills show ?thesis by (simp add: Update_def Let_def buffered [OF assms] d rmd.absorb_eq)
  next
    case fresh
    with len have "leftover a = []" by simp
    then have "iter_seen (?s\<lparr>m_state := foldl HashBlock (m_state s) (full_blocks b), m_data := copy_to (m_data s) 0 (leftover b)\<rparr>) (a @ b)"
      using s(1) by (intro filled) simp_all
    with fresh show ?thesis by (simp add: Update_def Let_def buffered [OF assms] rmd.absorb_eq)
  qed
qed

interpretation cryptopp: hasher fresh_hash Update iter_seen "\<lambda>msg piece. True"
proof
  show "iter_seen fresh_hash []" by (simp add: iter_seen_def fresh_hash_def leftover_def full_blocks_def)
qed (rule iter_seen_Update)


lemma iter_seen_digest:
  assumes "iter_seen s msg" shows "TruncatedFinal s 20 = ripemd160 msg"
proof (rule TruncatedFinal_digest [where junk = "drop (length msg mod 64) (m_data s)"])
  from assms have t: "take (length msg mod 64) (m_data s) = leftover msg" by (simp add: iter_seen_def)
  show "m_data s = leftover msg @ drop (length msg mod 64) (m_data s)" by (simp flip: t)
qed (use assms in \<open>simp_all add: iter_seen_def\<close>)

text \<open>The Crypto++ class may be fed in pieces: for every way to cut a message of less than \<open>2 ^ 64\<close> bytes
  into pieces, none of the calls of \<open>Update\<close> throws, and \<open>TruncatedFinal\<close> then yields the RIPEMD-160 of the
  message, whatever earlier blocks left in the buffer.\<close>

theorem ripemd160_in_pieces:
  assumes "length (concat pieces) < 2 ^ 64"
  shows "TruncatedFinal (foldl Update fresh_hash pieces) 20 = ripemd160 (concat pieces)
    \<and> (\<forall>k < length pieces. \<not> Update_throws (foldl Update fresh_hash (take k pieces)) (pieces ! k))"
proof -
  have seen: "iter_seen (foldl Update fresh_hash xs) (concat xs)" for xs by (rule cryptopp.seen_pieces) simp
  then have "TruncatedFinal (foldl Update fresh_hash pieces) 20 = ripemd160 (concat pieces)" by (rule iter_seen_digest)
  moreover have "\<not> Update_throws (foldl Update fresh_hash (take k pieces)) (pieces ! k)" if "k < length pieces" for k
  proof (rule Update_fits [OF seen])
    have "concat pieces = concat (take k pieces) @ pieces ! k @ concat (drop (Suc k) pieces)"
      by (subst id_take_nth_drop [OF that]) simp
    then have "length (concat (take k pieces)) + length (pieces ! k) \<le> length (concat pieces)"
      by (simp only: length_append)
    with assms show "length (concat (take k pieces)) + length (pieces ! k) < 2 ^ 64" by (rule order.strict_trans1 [rotated])
  qed
  ultimately show ?thesis by blast
qed

lemma ripemd160_in_pieces_witness:
  "TruncatedFinal (foldl Update fresh_hash [replicate 60 1, [], [2, 3], replicate 70 4]) 20
     = ripemd160 (concat [replicate 60 1, [], [2, 3], replicate 70 4])
   \<and> \<not> Update_throws (foldl Update fresh_hash [replicate 60 1, [], [2, 3]]) (replicate 70 4)"
proof -
  let ?p = "[replicate 60 1, [], [2, 3], replicate 70 4] :: bytes list"
  have "length (concat ?p) < 2 ^ 64" by simp
  from ripemd160_in_pieces [OF this] have digest: "TruncatedFinal (foldl Update fresh_hash ?p) 20 = ripemd160 (concat ?p)"
    and fits: "\<forall>k < length ?p. \<not> Update_throws (foldl Update fresh_hash (take k ?p)) (?p ! k)" by blast+
  from fits [rule_format, of 3] digest show ?thesis by simp
qed

end
