(* ===== verification/Spec2Isabelle.thy ===== *)
theory Spec2Isabelle
  imports Cli Payment_Mined Hash_Stream
begin

text \<open>
  A verification library for Siliqua, a small Bitcoin-like node in C++ (\<open>src/Siliqua\<close>): its
  formats, hashes, scripts, wallet, consensus rules, network protocol, commands and daemon, modelled
  as executable functions, with the theorems that say what they do.

  \<^bold>\<open>The program.\<close> \<open>src/Siliqua.cpp\<close> checks a command line and runs one command. A node keeps three
  files: its chain, its wallet (\<open>.wallet\<close>) and its pending transactions (\<open>.mempool\<close>). The one-shot
  commands (\<open>include/network/node.h\<close>) load them, talk to one peer and end; \<open>--daemon\<close>
  (\<open>include/network/daemon.h\<close>) keeps them in memory and serves any number of peers, mines and polls
  other daemons from concurrent threads. Both use the same rules for blocks and chains, over the
  P2PKH scripts of \<open>include/wallet/script.h\<close>, the proof of work of \<open>include/consensus/pow.h\<close> and the
  binary formats of \<open>include/core\<close>.

  \<^bold>\<open>The theories\<close>, in the order of their imports:
  \<^item> \<open>Prelude\<close>: results with the exceptions as values, byte buffers, the locale \<open>codec\<close> (a serialiser
    and its deserialiser) and the locale \<open>live_system\<close> (threads that run until one throws), the shared
    lemmas and the collections of rewrite rules.
  \<^item> \<open>Utils\<close> (\<open>utils.h\<close>, hex), \<open>Serializer\<close> (\<open>core/serializer.h\<close>).
  \<^item> \<open>Picosha2\<close> (\<open>picosha2.h\<close>), \<open>Ripemd160\<close> (the RIPEMD-160 of the vendored Crypto++), \<open>Crypto\<close>
    (\<open>crypto/ecdsa.cpp\<close>); libsecp256k1 is the record \<open>secp256k1\<close> of functions, what its header
    promises is the hypothesis \<open>secp_documented\<close>, and \<open>toy_secp\<close> meets it.
  \<^item> \<open>Merkle_Damgard\<close> (blocks, padding, the locale \<open>block_loop\<close>), \<open>Sha256_Spec\<close>, \<open>Ripemd160_Spec\<close>: the two hash
    functions as their standards define them, with constants from roots of primes; both implementations
    interpret \<open>block_loop\<close>. \<open>Hash_Stream\<close>: messages that arrive in pieces, through the locale \<open>hasher\<close>, which
    both classes interpret, and the buffered overload of \<open>picosha2.h\<close> (\<open>partial_function\<close>).
  \<^item> \<open>Transaction\<close>, \<open>Block\<close> (\<open>core/\<close>): data, formats, hashes, the UTXO map (an interpretation of the
    locale \<open>utxo_store\<close>), Merkle root. Every format is an interpretation of \<open>codec\<close>.
  \<^item> \<open>Float64\<close>, \<open>Pow\<close> (\<open>consensus/pow.h\<close>): non-negative binary64 arithmetic with its rounding, written out
    on integers; targets, the nonce search (\<open>while_option\<close>), the retarget rule, chain work.
  \<^item> \<open>Script\<close> (\<open>wallet/signing.h\<close>, \<open>wallet/script.h\<close>), \<open>Base58\<close> (\<open>wallet/base58.h\<close>), \<open>Wallet\<close>
    (\<open>wallet/wallet.h\<close>).
  \<^item> \<open>Storage\<close> (\<open>storage/storage.h\<close>) on an abstract disk, where a file is emptied before it is filled, \<open>Network\<close> (\<open>send_all\<close>, \<open>recv_exact\<close>,
    \<open>message.h\<close>) on connections that cut the stream into arbitrary pieces or fail.
  \<^item> \<open>Chain\<close> (\<open>network/node.h\<close>, lines 1 to 302): rewards, the UTXO set, fees, full validation, extension,
    reorganisation, block building; \<open>Chain_Value\<close> (conservation of value), \<open>Chain_Rules\<close> (what the checks
    accept), \<open>Chain_Ledger\<close> (the two UTXO sets and the two validations agree).
  \<^item> \<open>World\<close> (the rest of \<open>socket.h\<close>, \<open>peer.h\<close>): actions on a disk, a connection and a count of handles,
    exceptions included; \<open>leads\<close>, \<open>balanced\<close> and \<open>talks\<close> are the three calculi for them.
  \<^item> \<open>Dialogue\<close>: two programs at the two ends of a connection. Only bytes that have been sent arrive, in any order
    and in any pieces. What a program has sent when it has to wait (the ghost field \<open>waited\<close> of a connection)
    grows with what has arrived (\<open>causal\<close>), so a conversation that completes when the two take turns
    (\<open>turns\<close>, with the calculi \<open>waits\<close>, \<open>says\<close> and \<open>ends\<close>) completes in every order: \<open>converse\<close>. A client that waits for
    the server's greeting before its own would fail this, since both would wait for ever.
  \<^item> \<open>Compressions\<close>, \<open>Mined\<close>: two blocks that the program mines, evaluated in the kernel (twelve SHA-256
    compressions); witnesses of the theorems on chains use them.
  \<^item> \<open>Commands\<close> (\<open>network/node.h\<close>, lines 303 to 706): \<open>run_listener\<close>, \<open>run_connector\<close>, \<open>run_send_tx\<close>,
    \<open>run_receive_tx\<close>.
  \<^item> \<open>Daemon\<close>, \<open>Daemon_Safety\<close>, \<open>Daemon_Sync\<close> (\<open>network/daemon.h\<close>): the node, its threads as a step
    relation, the abstract node they refine, what holds of reachable states, and two nodes that talk.
  \<^item> \<open>Daemon_Restart\<close>: the type of a daemon's state, and what a stop leaves on disk: before, after and in the middle
    of a step (\<open>passes\<close>), a write that has emptied a file and not filled it included.
  \<^item> \<open>Payment\<close>: a payment from the wallet through \<open>run_send_tx\<close>, the receiving command or daemon, the mempool
    and the miner into the UTXO set; \<open>Payment_Hashes\<close>, \<open>Payment_Mined\<close>: a block with a payment, evaluated
    in the kernel (nine more compressions).
  \<^item> \<open>Cli\<close> (\<open>src/Siliqua.cpp\<close>, \<open>fill_random\<close>, \<open>crypto/secp256k1context.h\<close>): validation, dispatch,
    the demonstration mode, exit codes.

  \<^bold>\<open>How state and effects correspond.\<close> A C++ object is a record of its fields, \<open>uint32_t\<close> and \<open>int64_t\<close>
  are words of their width (signed ones read with \<open>sint\<close>), byte arrays are lists. A function that may
  throw returns a \<open>result\<close>; undefined behaviour and a loop that does not end are values of the same type
  that no \<open>catch\<close> takes. A reader takes the buffer and the offset and returns the new offset. A
  command is a function from a world to its result and the world it leaves, so what is on disk when an
  exception leaves it is part of the model. The clock and the randomness are arguments.

  In the daemon a step of the system is what one thread does up to and including its next critical
  section of \<open>mutex_\<close>; what it does besides touches its own connection only, so these steps interleave
  as the threads do. The order of threads, the answers of the system calls and all a peer sends are
  arbitrary. A process may also be stopped in the middle of a step; which disks it passes through there is
  the relation \<open>passes\<close>.

  \<^bold>\<open>What the theorems show.\<close> The rules: \<open>validate_full_chain\<close> accepts exactly the chains built block by
  block by the declarative \<open>ledger\<close>, and always returns; \<open>try_extend_chain\<close> and \<open>try_reorg\<close> accept exactly
  what they should, agree with it under stated conditions, and agree with the second copy of the rules
  in \<open>run_connector\<close>; blocks issue exactly the reward; what the miner mines is accepted. The keys:
  P2PKH evaluation, wallet accounting and signatures. The hashes: SHA-256 and RIPEMD-160 are those of
  their standards, for every message, also when it is read through a buffer or fed in pieces. The formats: round trips, canonicity, the Merkle root as the root
  of a hash tree. The protocol: framing is sound, and lossless for payloads of at most
  4 MiB; the conversations of two commands, of a poll with a daemon and of a payer with both kinds of receivers complete in
  whatever order the bytes arrive, without a deadlock, and end with the same tip, or with the payment in the
  receiver's mempool, from where the next block gives the recipient exactly the amount unless an earlier
  transaction of the mempool spends the same outputs. The node: no peer can make a command
  or the daemon save a chain the rules do not allow; the daemon refines an abstract node whose events
  are idle, follow, pend and mine, keeps its file in step, never loses work, bounds its mempool, leaks no
  socket, and after a stop or a crash starts again from its files with its keys and no less work, unless the
  stop has cut a save of the chain short, which loses it. The command line: accepted exactly when it reads as a command.

  Several theorems state flaws that modelling showed, each next to the rule it breaks:
  \<open>p2pkh_spent_without_key\<close>, \<open>value_check_cheated\<close>, \<open>extra_coinbase_unchecked\<close>,
  \<open>extend_accepts_double_spend\<close>, \<open>merkle_root_duplicate_last\<close>, \<open>retarget_loses_high_bit\<close>,
  \<open>retarget_leaves_range\<close>, \<open>coinbase_burns_output\<close>, \<open>extra_stack_items_accepted\<close>, \<open>restart_from_cut\<close>,
  \<open>oversized_message_dropped\<close>, \<open>damaged_wallet_overwritten\<close>, \<open>malformed_tx_stops_node\<close>.

  \<^bold>\<open>Bounds and termination.\<close> No function has fuel. Block, message and serving loops end because they take
  bytes off a finite stream; the script machine because its position grows; the hash loops by
  structure. The nonce search may not end, which is the value \<open>No_return\<close>, and \<open>mine_block_first\<close> says
  when it does. Hypotheses such as \<open>length chain < 2 ^ 32\<close> are the widths of the program's counters.

  \<^bold>\<open>Not modelled.\<close> Log output (\<open>logger.h\<close>, spdlog) and what the demonstration and the commands print; libsecp256k1 and
  the rest of Crypto++ beyond RIPEMD-160; Windows and BSD branches; memory exhaustion; a write to an
  opened file that fails half way while the process goes on; the signal SIGPIPE (a \<open>send\<close> to a closed peer is an
  error here); full send buffers, and connections reset with bytes still on their way; sleeping. Other processes that change the same files while the daemon
  runs are not modelled either.
\<close>

end
